(* ===== verification/Pgck_Prelude.thy ===== *)
theory Pgck_Prelude
  imports Main "HOL-Library.Word" "HOL-Library.List_Lexorder"
begin

text \<open>
  Shared vocabulary of the development: the fact collections, the model of Rust's
  \<^verbatim>\<open>Result\<close> and of its \<^verbatim>\<open>?\<close> operator, the machine-integer types, and generic
  lemmas on lists that the component theories use.

  \<^item> \<^verbatim>\<open>Result<T, E>\<close> is \<open>'e + 't\<close>, with \<open>Inl\<close> the error.
  \<^item> \<^verbatim>\<open>Option<T>\<close> is \<open>'t option\<close>; \<open>r?\<close> on a result is \<open>and_then r\<close>.
  \<^item> \<^verbatim>\<open>u8\<close>, \<^verbatim>\<open>u64\<close>, \<^verbatim>\<open>usize\<close> and \<^verbatim>\<open>i64\<close> are words of their width; a signed
    comparison is \<open>sint\<close>, and \<open>+\<close> and \<open>-\<close> wrap, as they do in the release
    profile the extension is built with.
\<close>

section \<open>Fact collections\<close>

named_theorems ok_iff \<open>when a fallible operation succeeds, and with what\<close>
named_theorems str_simps \<open>equations of the string operations on concatenations\<close>
named_theorems inv_intros \<open>operations that keep their component's invariant\<close>

section \<open>Machine types\<close>

type_synonym u8 = "8 word"
type_synonym u64 = "64 word"
type_synonym usize = "64 word"
type_synonym i64 = "64 word"
type_synonym bytes = "u8 list"

section \<open>Results\<close>

definition and_then :: "'e + 'a \<Rightarrow> ('a \<Rightarrow> 'e + 'b) \<Rightarrow> 'e + 'b" where
  "and_then r f = (case r of Inl e \<Rightarrow> Inl e | Inr a \<Rightarrow> f a)"

definition ok_or :: "'a option \<Rightarrow> 'e \<Rightarrow> 'e + 'a" where
  "ok_or x e = (case x of None \<Rightarrow> Inl e | Some a \<Rightarrow> Inr a)"

definition guard_or :: "bool \<Rightarrow> 'e \<Rightarrow> 'e + unit" where
  "guard_or b e = (if b then Inr () else Inl e)"

definition res_ok :: "'e + 'a \<Rightarrow> 'a option" where
  "res_ok r = (case r of Inl _ \<Rightarrow> None | Inr a \<Rightarrow> Some a)"

definition unwrap_or :: "'e + 'a \<Rightarrow> 'a \<Rightarrow> 'a" where
  "unwrap_or r d = (case r of Inl _ \<Rightarrow> d | Inr a \<Rightarrow> a)"

lemma and_then_simps [simp]:
  "and_then (Inl e) f = Inl e"
  "and_then (Inr a) f = f a"
  by (simp_all add: and_then_def)

lemma ok_or_simps [simp]:
  "ok_or None e = Inl e"
  "ok_or (Some a) e = Inr a"
  by (simp_all add: ok_or_def)

lemma guard_or_simps [simp]:
  "guard_or True e = Inr ()"
  "guard_or False e = Inl e"
  by (simp_all add: guard_or_def)

lemma res_ok_simps [simp]:
  "res_ok (Inl e) = None"
  "res_ok (Inr a) = Some a"
  by (simp_all add: res_ok_def)

lemma unwrap_or_simps [simp]:
  "unwrap_or (Inl e) d = d"
  "unwrap_or (Inr a) d = a"
  by (simp_all add: unwrap_or_def)

lemma and_then_ok [ok_iff]: "and_then r f = Inr b \<longleftrightarrow> (\<exists>a. r = Inr a \<and> f a = Inr b)"
  by (cases r) auto

lemma and_then_err: "and_then r f = Inl e \<longleftrightarrow> r = Inl e \<or> (\<exists>a. r = Inr a \<and> f a = Inl e)"
  by (cases r) auto

lemma ok_or_ok [ok_iff]: "ok_or x e = Inr a \<longleftrightarrow> x = Some a"
  by (cases x) auto

lemma guard_or_ok [ok_iff]: "guard_or b e = Inr u \<longleftrightarrow> b"
  by (cases b) auto

lemma res_ok_Some [ok_iff]: "res_ok r = Some a \<longleftrightarrow> r = Inr a"
  by (cases r) auto

lemma sum_case_ok: "(case x of Inl a \<Rightarrow> Inl (f a) | Inr b \<Rightarrow> g b) = Inr y \<longleftrightarrow> (\<exists>b. x = Inr b \<and> g b = Inr y)"
  by (cases x) auto

lemma ok_or_err: "ok_or x e = Inl e' \<longleftrightarrow> x = None \<and> e' = e"
  by (cases x) auto

lemma guard_or_err: "guard_or b e = Inl e' \<longleftrightarrow> \<not> b \<and> e' = e"
  by (cases b) auto

lemmas err_iff = and_then_err ok_or_err guard_or_err

section \<open>Lists\<close>

lemma takeWhile_neq_append [simp]:
  "c \<notin> set a \<Longrightarrow> takeWhile (\<lambda>x. x \<noteq> c) (a @ c # s) = a"
  by (induction a) auto

lemma dropWhile_neq_append [simp]:
  "c \<notin> set a \<Longrightarrow> dropWhile (\<lambda>x. x \<noteq> c) (a @ c # s) = c # s"
  by (induction a) auto

lemma dropWhile_Cons_not: "dropWhile P xs = y # ys \<Longrightarrow> \<not> P y"
  by (metis hd_dropWhile list.discI list.sel(1))

lemma notin_takeWhile_neq [simp]: "c \<notin> set (takeWhile (\<lambda>x. x \<noteq> c) s)"
  by (induction s) auto

lemma map_of_none_iff: "(\<forall>k. map_of m k = None) \<longleftrightarrow> m = []"
  using map_of_eq_empty_iff[of m] by (auto simp: fun_eq_iff)

lemma map_filter_Nil_iff: "List.map_filter f xs = [] \<longleftrightarrow> (\<forall>x \<in> set xs. f x = None)"
  by (induction xs) (auto simp: List.map_filter_def)

text \<open>Two ways to cut one list: the first cut is at or after the second, or before it.\<close>

lemma append_cut_cases:
  assumes "a @ b = c @ d"
  obtains (after) t where "a = c @ t" "d = t @ b" | (before) t where "c = a @ t" "b = t @ d" "t \<noteq> []"
  using assms by (auto simp: append_eq_append_conv2) (metis append_self_conv append_self_conv2)+

text \<open>Pushing every element of a list that is not yet there keeps the first
  occurrences, in order.\<close>

fun push_new :: "'a list \<Rightarrow> 'a list \<Rightarrow> 'a list" where
  "push_new acc [] = acc"
| "push_new acc (x # xs) = push_new (if x \<in> set acc then acc else acc @ [x]) xs"

lemma set_push_new [simp]: "set (push_new acc xs) = set acc \<union> set xs"
  by (induction acc xs rule: push_new.induct) auto

lemma push_new_prefix: "\<exists>r. push_new acc xs = acc @ r"
  by (induction acc xs rule: push_new.induct) (auto split: if_splits)

lemma distinct_push_new: "distinct acc \<Longrightarrow> distinct (push_new acc xs)"
  by (induction acc xs rule: push_new.induct) auto

end
