(* ===== verification/Rust_Std.thy ===== *)
theory Rust_Std
  imports Pgck_Prelude
begin

text \<open>
  What the extension uses of Rust's standard library on text: a \<^verbatim>\<open>char\<close> is a
  Unicode scalar value (a \<open>nat\<close> below 0x110000 outside the surrogate range), a
  \<^verbatim>\<open>&str\<close> or \<^verbatim>\<open>String\<close> is the list of its characters, and a \<^verbatim>\<open>[u8]\<close> is a list of
  bytes. The two views meet in \<open>as_bytes\<close>, \<open>from_utf8\<close> and
  \<open>from_utf8_lossy\<close>. The order of strings is the lexicographic order of the
  characters, which is the byte order of their UTF-8 form.
\<close>

section \<open>Characters and literals\<close>

type_synonym rchar = nat
type_synonym str = "rchar list"

definition lit :: "string \<Rightarrow> str" where
  "lit s = map of_char s"

definition is_scalar :: "rchar \<Rightarrow> bool" where
  "is_scalar c \<longleftrightarrow> c < 0xD800 \<or> (0xE000 \<le> c \<and> c < 0x110000)"

definition wf_str :: "str \<Rightarrow> bool" where
  "wf_str s \<longleftrightarrow> list_all is_scalar s"

text \<open>\<^verbatim>\<open>char::is_whitespace\<close>: the Unicode property \<^verbatim>\<open>White_Space\<close>.\<close>

definition is_whitespace :: "rchar \<Rightarrow> bool" where
  "is_whitespace c \<longleftrightarrow>
     (9 \<le> c \<and> c \<le> 13) \<or> c = 0x20 \<or> c = 0x85 \<or> c = 0xA0 \<or> c = 0x1680 \<or>
     (0x2000 \<le> c \<and> c \<le> 0x200A) \<or> c = 0x2028 \<or> c = 0x2029 \<or> c = 0x202F \<or>
     c = 0x205F \<or> c = 0x3000"

definition is_ascii_digit :: "rchar \<Rightarrow> bool" where
  "is_ascii_digit c \<longleftrightarrow> 48 \<le> c \<and> c \<le> 57"

definition is_ascii_alphanumeric :: "rchar \<Rightarrow> bool" where
  "is_ascii_alphanumeric c \<longleftrightarrow>
     is_ascii_digit c \<or> (65 \<le> c \<and> c \<le> 90) \<or> (97 \<le> c \<and> c \<le> 122)"

definition to_ascii_uppercase :: "str \<Rightarrow> str" where
  "to_ascii_uppercase s = map (\<lambda>c. if 97 \<le> c \<and> c \<le> 122 then c - 32 else c) s"

text \<open>The characters the sources name.\<close>

abbreviation (input) dot :: rchar where "dot \<equiv> 46"
abbreviation (input) star :: rchar where "star \<equiv> 42"
abbreviation (input) gt :: rchar where "gt \<equiv> 62"
abbreviation (input) dash :: rchar where "dash \<equiv> 45"
abbreviation (input) underscore :: rchar where "underscore \<equiv> 95"
abbreviation (input) comma :: rchar where "comma \<equiv> 44"
abbreviation (input) spc :: rchar where "spc \<equiv> 32"
abbreviation (input) cr :: rchar where "cr \<equiv> 13"
abbreviation (input) lf :: rchar where "lf \<equiv> 10"

lemma lit_append [simp]: "lit (a @ b) = lit a @ lit b"
  by (simp add: lit_def)

lemma lit_Nil [simp]: "lit [] = []"
  by (simp add: lit_def)

lemma lit_eq_iff [simp]: "lit a = lit b \<longleftrightarrow> a = b"
proof -
  have "inj (of_char :: char \<Rightarrow> nat)" by (rule injI) (metis char_of_char)
  then show ?thesis by (simp add: lit_def inj_map_eq_map)
qed

lemma length_lit [simp]: "length (lit s) = length s"
  by (simp add: lit_def)

section \<open>Splitting\<close>

text \<open>\<^verbatim>\<open>s.split(p)\<close>: the pieces between the separators, at least one.\<close>

fun split_by :: "(rchar \<Rightarrow> bool) \<Rightarrow> str \<Rightarrow> str list" where
  "split_by P [] = [[]]"
| "split_by P (x # xs) =
     (if P x then [] # split_by P xs
      else (case split_by P xs of [] \<Rightarrow> [[x]] | t # ts \<Rightarrow> (x # t) # ts))"

definition split_on :: "rchar \<Rightarrow> str \<Rightarrow> str list" where
  "split_on c s = split_by (\<lambda>x. x = c) s"

text \<open>\<^verbatim>\<open>s.split_once(c)\<close>: around the first separator, if there is one.\<close>

definition split_once :: "rchar \<Rightarrow> str \<Rightarrow> (str \<times> str) option" where
  "split_once c s =
     (case dropWhile (\<lambda>x. x \<noteq> c) s of
        [] \<Rightarrow> None
      | _ # r \<Rightarrow> Some (takeWhile (\<lambda>x. x \<noteq> c) s, r))"

fun strip_prefix :: "str \<Rightarrow> str \<Rightarrow> str option" where
  "strip_prefix [] s = Some s"
| "strip_prefix (p # ps) [] = None"
| "strip_prefix (p # ps) (c # cs) = (if p = c then strip_prefix ps cs else None)"

definition starts_with :: "str \<Rightarrow> str \<Rightarrow> bool" where
  "starts_with p s \<longleftrightarrow> strip_prefix p s \<noteq> None"

definition trim_start :: "str \<Rightarrow> str" where
  "trim_start s = dropWhile is_whitespace s"

definition trim_end_matches :: "rchar list \<Rightarrow> str \<Rightarrow> str" where
  "trim_end_matches cs s = rev (dropWhile (\<lambda>c. c \<in> set cs) (rev s))"

definition trim_end :: "str \<Rightarrow> str" where
  "trim_end s = rev (dropWhile is_whitespace (rev s))"

definition trim :: "str \<Rightarrow> str" where
  "trim s = trim_end (trim_start s)"

definition split_whitespace :: "str \<Rightarrow> str list" where
  "split_whitespace s = filter (\<lambda>t. t \<noteq> []) (split_by is_whitespace s)"

definition replace_char :: "rchar \<Rightarrow> rchar \<Rightarrow> str \<Rightarrow> str" where
  "replace_char a b s = map (\<lambda>c. if c = a then b else c) s"

text \<open>Joining with a separator, the inverse of splitting on it.\<close>

fun join_on :: "rchar \<Rightarrow> str list \<Rightarrow> str" where
  "join_on c [] = []"
| "join_on c [t] = t"
| "join_on c (t # u # ts) = t @ c # join_on c (u # ts)"

lemma split_by_not_Nil [simp]: "split_by P s \<noteq> []"
  by (cases s) (auto split: list.splits)

lemma split_on_not_Nil [simp]: "split_on c s \<noteq> []"
  by (simp add: split_on_def)

lemma split_by_clean [str_simps]: "\<forall>x \<in> set a. \<not> P x \<Longrightarrow> split_by P a = [a]"
  by (induction a) auto

lemma split_by_append [str_simps]:
  "\<forall>x \<in> set a. \<not> P x \<Longrightarrow> P c \<Longrightarrow> split_by P (a @ c # s) = a # split_by P s"
  by (induction a) auto

lemma split_by_pieces_clean: "t \<in> set (split_by P s) \<Longrightarrow> x \<in> set t \<Longrightarrow> \<not> P x"
proof (induction P s arbitrary: t rule: split_by.induct)
  case (2 P y ys)
  then show ?case by (fastforce split: if_splits list.splits)
qed simp

lemma split_by_pieces_subset: "t \<in> set (split_by P s) \<Longrightarrow> set t \<subseteq> set s"
proof (induction P s arbitrary: t rule: split_by.induct)
  case (2 P y ys)
  then show ?case by (fastforce split: if_splits list.splits)
qed simp

lemma split_on_clean [str_simps]: "c \<notin> set a \<Longrightarrow> split_on c a = [a]"
  by (auto simp: split_on_def intro: split_by_clean)

lemma split_on_append [str_simps]: "c \<notin> set a \<Longrightarrow> split_on c (a @ c # s) = a # split_on c s"
  by (auto simp: split_on_def intro: split_by_append)

lemma split_on_append_all: "split_on c (a @ c # s) = split_on c a @ split_on c s"
  by (induction a) (auto simp: split_on_def split: list.splits)

lemma split_on_piece_clean: "t \<in> set (split_on c s) \<Longrightarrow> c \<notin> set t"
  using split_by_pieces_clean[of t "\<lambda>x. x = c" s c] by (auto simp: split_on_def)

lemma join_on_Cons: "ts \<noteq> [] \<Longrightarrow> join_on c (t # ts) = t @ c # join_on c ts"
  by (cases ts) auto

lemma join_split [simp]: "join_on c (split_on c s) = s"
proof (induction s)
  case Nil
  then show ?case by (simp add: split_on_def)
next
  case (Cons x xs)
  show ?case
  proof (cases "x = c")
    case True
    then have "split_on c (x # xs) = [] # split_on c xs" by (simp add: split_on_def)
    with True Cons.IH show ?thesis by (simp add: join_on_Cons)
  next
    case False
    obtain t ts where ts: "split_on c xs = t # ts"
      by (cases "split_on c xs") auto
    with False have "split_on c (x # xs) = (x # t) # ts" by (simp add: split_on_def)
    with ts Cons.IH show ?thesis by (cases ts) auto
  qed
qed

lemma split_join:
  "ts \<noteq> [] \<Longrightarrow> \<forall>t \<in> set ts. c \<notin> set t \<Longrightarrow> split_on c (join_on c ts) = ts"
  by (induction c ts rule: join_on.induct) (auto simp: str_simps)

lemma split_on_inj: "split_on c s = split_on c t \<Longrightarrow> s = t"
  by (metis join_split)

lemma split_once_append [str_simps]:
  "c \<notin> set a \<Longrightarrow> split_once c (a @ c # r) = Some (a, r)"
  by (simp add: split_once_def)

lemma split_once_Some [ok_iff]:
  "split_once c s = Some (a, r) \<longleftrightarrow> s = a @ c # r \<and> c \<notin> set a"
proof
  assume h: "split_once c s = Some (a, r)"
  then obtain x where d: "dropWhile (\<lambda>x. x \<noteq> c) s = x # r"
    and a: "a = takeWhile (\<lambda>x. x \<noteq> c) s"
    by (auto simp: split_once_def split: list.splits)
  have "x = c" using dropWhile_Cons_not[OF d] by simp
  then show "s = a @ c # r \<and> c \<notin> set a"
    using d a takeWhile_dropWhile_id[of "\<lambda>x. x \<noteq> c" s] by simp
qed (simp add: str_simps)

lemma split_once_None: "split_once c s = None \<longleftrightarrow> c \<notin> set s"
proof
  assume "split_once c s = None"
  then show "c \<notin> set s"
    by (auto dest!: split_list_first simp: split_once_append)
next
  assume "c \<notin> set s"
  then have "\<And>a r. split_once c s \<noteq> Some (a, r)" by (auto simp: split_once_Some)
  then show "split_once c s = None" by (cases "split_once c s") auto
qed

lemma strip_prefix_append [simp]: "strip_prefix p (p @ s) = Some s"
  by (induction p) auto

lemma strip_prefix_Some [ok_iff]: "strip_prefix p s = Some r \<longleftrightarrow> s = p @ r"
proof
  show "strip_prefix p s = Some r \<Longrightarrow> s = p @ r"
    by (induction p s rule: strip_prefix.induct) (auto split: if_splits)
qed simp

lemma starts_with_iff: "starts_with p s \<longleftrightarrow> (\<exists>r. s = p @ r)"
  by (auto simp: starts_with_def strip_prefix_Some)

lemma set_trim_subset: "set (trim s) \<subseteq> set s"
  by (auto simp: trim_def trim_end_def trim_start_def dest!: set_dropWhileD)

lemma split_whitespace_token:
  assumes "t \<in> set (split_whitespace s)"
  shows "t \<noteq> [] \<and> (\<forall>c \<in> set t. \<not> is_whitespace c)"
  using assms split_by_pieces_clean[of t is_whitespace s] by (auto simp: split_whitespace_def)

section \<open>Decimal numbers\<close>

text \<open>\<^verbatim>\<open>u64::from_str\<close> and \<^verbatim>\<open>usize::from_str\<close>: an optional leading \<open>+\<close>, then one
  or more ASCII digits whose value fits the width; everything else is an error.\<close>

fun digits_value :: "nat \<Rightarrow> str \<Rightarrow> nat option" where
  "digits_value acc [] = Some acc"
| "digits_value acc (c # cs) =
     (if is_ascii_digit c then digits_value (10 * acc + (c - 48)) cs else None)"

definition parse_u64 :: "str \<Rightarrow> u64 option" where
  "parse_u64 s =
     (let ds = (case s of c # cs \<Rightarrow> if c = 43 then cs else s | [] \<Rightarrow> [])
      in if ds = [] then None
         else case digits_value 0 ds of
                None \<Rightarrow> None
              | Some n \<Rightarrow> if n < 2 ^ 64 then Some (word_of_nat n) else None)"

text \<open>\<^verbatim>\<open>Display\<close> of an unsigned and of a signed integer: no sign on a non-negative
  value, no leading zeros.\<close>

fun show_nat :: "nat \<Rightarrow> str" where
  "show_nat n = (if n < 10 then [48 + n] else show_nat (n div 10) @ [48 + n mod 10])"

declare show_nat.simps [simp del]

definition show_u64 :: "u64 \<Rightarrow> str" where
  "show_u64 w = show_nat (unat w)"

definition show_i64 :: "i64 \<Rightarrow> str" where
  "show_i64 w =
     (if sint w < 0 then dash # show_nat (nat (- sint w)) else show_nat (nat (sint w)))"

lemma digits_value_append:
  "digits_value acc (a @ b) =
     (case digits_value acc a of None \<Rightarrow> None | Some n \<Rightarrow> digits_value n b)"
  by (induction acc a rule: digits_value.induct) auto

lemma show_nat_digits: "c \<in> set (show_nat n) \<Longrightarrow> is_ascii_digit c"
proof (induction n rule: show_nat.induct)
  case (1 n)
  then show ?case
    by (subst (asm) show_nat.simps) (auto simp: is_ascii_digit_def split: if_splits)
qed

lemma show_nat_not_Nil [simp]: "show_nat n \<noteq> []"
  by (subst show_nat.simps) simp

lemma digits_value_show_nat: "digits_value 0 (show_nat n) = Some n"
proof (induction n rule: show_nat.induct)
  case (1 n)
  show ?case
  proof (cases "n < 10")
    case True
    then show ?thesis by (subst show_nat.simps) (simp add: is_ascii_digit_def)
  next
    case False
    with "1.IH" have "digits_value 0 (show_nat (n div 10)) = Some (n div 10)" by simp
    with False show ?thesis
      by (subst show_nat.simps) (simp add: digits_value_append is_ascii_digit_def)
  qed
qed

lemma parse_show_u64 [simp]: "parse_u64 (show_u64 w) = Some w"
proof -
  obtain c cs where s: "show_nat (unat w) = c # cs"
    by (cases "show_nat (unat w)") auto
  then have "is_ascii_digit c" using show_nat_digits[of c "unat w"] by simp
  then have "c \<noteq> 43" by (auto simp: is_ascii_digit_def)
  moreover have "digits_value 0 (c # cs) = Some (unat w)"
    using digits_value_show_nat[of "unat w"] s by simp
  moreover have "unat w < 2 ^ 64" using unsigned_less[of w, where 'a = nat] by simp
  ultimately show ?thesis
    by (simp add: parse_u64_def show_u64_def s del: digits_value.simps)
qed

lemma show_u64_no_ws: "c \<in> set (show_u64 w) \<Longrightarrow> \<not> is_whitespace c"
  by (auto simp: show_u64_def is_ascii_digit_def is_whitespace_def dest!: show_nat_digits)

lemma show_u64_not_Nil [simp]: "show_u64 w \<noteq> []"
  by (simp add: show_u64_def)

end
