(* ===== verification/Nats_Parser.thy ===== *)
theory Nats_Parser
  imports Rust_Std
begin

text \<open>
  \<^verbatim>\<open>src/src/nats/parser.rs\<close>: the control lines a NATS client sends. A line is split
  on white space; the verb is compared without regard to ASCII case; the number of
  arguments selects the form. A \<^verbatim>\<open>PUB\<close> is returned with an empty payload that the
  server fills in from the stream. \<open>client_line\<close> is the line a client writes for a
  message, against which the parser is proved to be an inverse.
\<close>

section \<open>Messages and the parser\<close>

datatype client_msg =
    Connect str
  | Ping
  | Pong
  | Sub (sub_subject: str) (sub_queue: "str option") (sub_sid: str)
  | Unsub (unsub_sid: str) (unsub_max: "u64 option")
  | Pub (pub_subject: str) (pub_reply: "str option") (pub_payload_len: usize) (pub_payload: bytes)

definition parse_connect :: "str \<Rightarrow> client_msg option" where
  "parse_connect line =
     (let trimmed = trim_start line;
          from_verb_end = dropWhile (\<lambda>c. \<not> is_whitespace c) trimmed
      in if from_verb_end = [] then None
         else let remainder = trim from_verb_end
              in if remainder = [] then None else Some (Connect remainder))"

definition parse_line :: "str \<Rightarrow> client_msg option" where
  "parse_line line =
     (case split_whitespace line of
        [] \<Rightarrow> None
      | verb # args \<Rightarrow>
          let v = to_ascii_uppercase verb
          in if v = lit ''PING'' \<and> args = [] then Some Ping
             else if v = lit ''PONG'' \<and> args = [] then Some Pong
             else if v = lit ''CONNECT'' then parse_connect line
             else if v = lit ''SUB'' then
               (case args of
                  [subject, sid] \<Rightarrow> Some (Sub subject None sid)
                | [subject, queue, sid] \<Rightarrow> Some (Sub subject (Some queue) sid)
                | _ \<Rightarrow> None)
             else if v = lit ''UNSUB'' then
               (case args of
                  [sid] \<Rightarrow> Some (Unsub sid None)
                | [sid, mx] \<Rightarrow> map_option (\<lambda>m. Unsub sid (Some m)) (parse_u64 mx)
                | _ \<Rightarrow> None)
             else if v = lit ''PUB'' then
               (case args of
                  [subject, payload_len] \<Rightarrow>
                    map_option (\<lambda>n. Pub subject None n []) (parse_u64 payload_len)
                | [subject, reply, payload_len] \<Rightarrow>
                    map_option (\<lambda>n. Pub subject (Some reply) n []) (parse_u64 payload_len)
                | _ \<Rightarrow> None)
             else None)"

section \<open>What a client writes\<close>

text \<open>A token is a non-empty word without white space; a CONNECT carries text with no
  white space at its ends.\<close>

definition is_token :: "str \<Rightarrow> bool" where
  "is_token t \<longleftrightarrow> t \<noteq> [] \<and> list_all (\<lambda>c. \<not> is_whitespace c) t"

fun wf_msg :: "client_msg \<Rightarrow> bool" where
  "wf_msg (Connect opts) \<longleftrightarrow> opts \<noteq> [] \<and> trim opts = opts"
| "wf_msg Ping \<longleftrightarrow> True"
| "wf_msg Pong \<longleftrightarrow> True"
| "wf_msg (Sub subject queue sid) \<longleftrightarrow> is_token subject \<and> pred_option is_token queue \<and> is_token sid"
| "wf_msg (Unsub sid mx) \<longleftrightarrow> is_token sid"
| "wf_msg (Pub subject reply n payload) \<longleftrightarrow>
     is_token subject \<and> pred_option is_token reply \<and> payload = []"

definition words :: "str list \<Rightarrow> str" where
  "words ts = join_on spc ts"

fun client_line :: "client_msg \<Rightarrow> str" where
  "client_line (Connect opts) = words [lit ''CONNECT'', opts]"
| "client_line Ping = lit ''PING''"
| "client_line Pong = lit ''PONG''"
| "client_line (Sub subject queue sid) =
     words (lit ''SUB'' # subject # (case queue of None \<Rightarrow> [] | Some q \<Rightarrow> [q]) @ [sid])"
| "client_line (Unsub sid mx) =
     words (lit ''UNSUB'' # sid # (case mx of None \<Rightarrow> [] | Some m \<Rightarrow> [show_u64 m]))"
| "client_line (Pub subject reply n payload) =
     words (lit ''PUB'' # subject # (case reply of None \<Rightarrow> [] | Some r \<Rightarrow> [r]) @ [show_u64 n])"

section \<open>Lemmas\<close>

lemma is_whitespace_spc [simp]: "is_whitespace 32"
  by (simp add: is_whitespace_def)

lemma is_token_clean: "is_token t \<Longrightarrow> \<forall>c \<in> set t. \<not> is_whitespace c"
  by (simp add: is_token_def list_all_iff)

lemma is_token_show_u64 [simp]: "is_token (show_u64 w)"
  by (auto simp: is_token_def list_all_iff dest: show_u64_no_ws)

lemma is_token_split: "t \<in> set (split_whitespace s) \<Longrightarrow> is_token t"
  using split_whitespace_token[of t s] by (auto simp: is_token_def list_all_iff)

lemma split_whitespace_words:
  "ts \<noteq> [] \<Longrightarrow> list_all is_token ts \<Longrightarrow> split_whitespace (words ts) = ts"
proof (induction ts rule: induct_list012)
  case (2 t)
  then have "split_by is_whitespace t = [t]" "t \<noteq> []"
    using is_token_clean[of t] by (auto simp: is_token_def intro!: split_by_clean)
  then show ?case by (simp add: split_whitespace_def words_def)
next
  case (3 t u ts)
  then have "split_by is_whitespace (t @ spc # join_on spc (u # ts))
      = t # split_by is_whitespace (join_on spc (u # ts))" "t \<noteq> []"
    using is_token_clean[of t] by (auto simp: is_token_def intro!: split_by_append)
  with 3 show ?case by (simp add: split_whitespace_def words_def)
qed simp

text \<open>A token followed by white space and more text: the first token is read off.\<close>

lemma split_whitespace_first:
  assumes "is_token t" "is_whitespace c"
  shows "split_whitespace (t @ c # s) = t # split_whitespace s"
proof -
  have "split_by is_whitespace (t @ c # s) = t # split_by is_whitespace s"
    using assms is_token_clean by (auto intro: split_by_append)
  with assms show ?thesis by (simp add: split_whitespace_def is_token_def)
qed

lemma verb_tokens [simp]:
  "is_token (lit ''PING'')" "is_token (lit ''PONG'')" "is_token (lit ''CONNECT'')"
  "is_token (lit ''SUB'')" "is_token (lit ''UNSUB'')" "is_token (lit ''PUB'')"
  by (simp_all add: is_token_def lit_def is_whitespace_def)

lemma verb_upper [simp]:
  "to_ascii_uppercase (lit ''PING'') = lit ''PING''"
  "to_ascii_uppercase (lit ''PONG'') = lit ''PONG''"
  "to_ascii_uppercase (lit ''CONNECT'') = lit ''CONNECT''"
  "to_ascii_uppercase (lit ''SUB'') = lit ''SUB''"
  "to_ascii_uppercase (lit ''UNSUB'') = lit ''UNSUB''"
  "to_ascii_uppercase (lit ''PUB'') = lit ''PUB''"
  by (simp_all add: to_ascii_uppercase_def lit_def)

lemma verb_distinct [simp]:
  "lit ''CONNECT'' \<noteq> lit ''PING''" "lit ''CONNECT'' \<noteq> lit ''PONG''"
  "lit ''PONG'' \<noteq> lit ''PING''"
  "lit ''SUB'' \<noteq> lit ''PING''" "lit ''SUB'' \<noteq> lit ''PONG''" "lit ''SUB'' \<noteq> lit ''CONNECT''"
  "lit ''UNSUB'' \<noteq> lit ''PING''" "lit ''UNSUB'' \<noteq> lit ''PONG''"
  "lit ''UNSUB'' \<noteq> lit ''CONNECT''" "lit ''UNSUB'' \<noteq> lit ''SUB''"
  "lit ''PUB'' \<noteq> lit ''PING''" "lit ''PUB'' \<noteq> lit ''PONG''" "lit ''PUB'' \<noteq> lit ''CONNECT''"
  "lit ''PUB'' \<noteq> lit ''SUB''" "lit ''PUB'' \<noteq> lit ''UNSUB''"
  by (simp_all add: lit_def)

lemma trim_spc_Cons: "trim opts = opts \<Longrightarrow> trim (spc # opts) = opts"
  by (simp add: trim_def trim_start_def)

lemma dropWhile_clean: "\<forall>c \<in> set t. \<not> P c \<Longrightarrow> P c \<Longrightarrow>
    dropWhile (\<lambda>c. \<not> P c) (t @ c # s) = c # s"
  by (induction t) auto

lemma parse_connect_line:
  assumes "opts \<noteq> []" "trim opts = opts"
  shows "parse_connect (lit ''CONNECT'' @ spc # opts) = Some (Connect opts)"
proof -
  have start: "trim_start (lit ''CONNECT'' @ spc # opts) = lit ''CONNECT'' @ spc # opts"
    by (simp add: trim_start_def lit_def is_whitespace_def)
  have "dropWhile (\<lambda>c. \<not> is_whitespace c) (lit ''CONNECT'' @ spc # opts) = spc # opts"
    by (rule dropWhile_clean) (use is_token_clean[of "lit ''CONNECT''"] in auto)
  with start assms show ?thesis by (simp add: parse_connect_def trim_spc_Cons)
qed

lemma parse_client_line: "wf_msg m \<Longrightarrow> parse_line (client_line m) = Some m"
proof (cases m)
  case (Connect opts)
  assume "wf_msg m"
  with Connect have o: "opts \<noteq> []" "trim opts = opts" by auto
  have "split_whitespace (lit ''CONNECT'' @ spc # opts)
      = lit ''CONNECT'' # split_whitespace opts"
    by (rule split_whitespace_first) simp_all
  then show ?thesis using Connect parse_connect_line[OF o]
    by (simp add: parse_line_def words_def)
next
  case Ping
  then show ?thesis
    using split_whitespace_words[of "[lit ''PING'']"] by (simp add: parse_line_def words_def)
next
  case Pong
  then show ?thesis
    using split_whitespace_words[of "[lit ''PONG'']"] by (simp add: parse_line_def words_def)
next
  case (Sub subject queue sid)
  moreover assume "wf_msg m"
  ultimately show ?thesis
    by (cases queue) (simp_all add: parse_line_def split_whitespace_words)
next
  case (Unsub sid mx)
  moreover assume "wf_msg m"
  ultimately show ?thesis
    by (cases mx) (simp_all add: parse_line_def split_whitespace_words)
next
  case (Pub subject reply n payload)
  moreover assume "wf_msg m"
  ultimately show ?thesis
    by (cases reply) (simp_all add: parse_line_def split_whitespace_words)
qed

text \<open>What is trimmed once stays as it is, so a parsed CONNECT is well-formed.\<close>

lemma trim_end_Cons: "\<not> is_whitespace x \<Longrightarrow> \<exists>ys. trim_end (x # xs) = x # ys"
proof -
  assume x: "\<not> is_whitespace x"
  then have "dropWhile is_whitespace (rev xs @ [x]) = dropWhile is_whitespace (rev xs) @ [x]"
    by (induction "rev xs" arbitrary: xs) (auto simp: dropWhile_append)
  then show ?thesis by (simp add: trim_end_def)
qed

lemma trim_start_fixed: "s = [] \<or> \<not> is_whitespace (hd s) \<Longrightarrow> trim_start s = s"
  by (cases s) (auto simp: trim_start_def)

lemma trim_trim: "trim (trim s) = trim s"
proof -
  have end_twice: "trim_end (trim_end t) = trim_end t" for t
    by (simp add: trim_end_def dropWhile_idem)
  have "trim s = [] \<or> \<not> is_whitespace (hd (trim s))"
  proof (cases "trim_start s")
    case Nil
    then show ?thesis by (simp add: trim_def trim_end_def)
  next
    case (Cons x xs)
    then have "\<not> is_whitespace x" unfolding trim_start_def by (rule dropWhile_Cons_not)
    with Cons show ?thesis using trim_end_Cons[of x xs] by (auto simp: trim_def)
  qed
  then have "trim_start (trim s) = trim s" by (rule trim_start_fixed)
  then show ?thesis by (simp add: trim_def end_twice)
qed

lemma parse_connect_wf: "parse_connect line = Some m \<Longrightarrow> wf_msg m"
  by (auto simp: parse_connect_def Let_def trim_trim split: if_splits)

lemma parse_line_wf: "parse_line line = Some m \<Longrightarrow> wf_msg m"
proof -
  assume p: "parse_line line = Some m"
  then obtain verb args where sp: "split_whitespace line = verb # args"
    by (auto simp: parse_line_def split: list.splits)
  then have tok: "\<forall>t \<in> set args. is_token t"
    using is_token_split[of _ line] by auto
  from p show ?thesis
    using tok unfolding parse_line_def sp
    by (auto simp: Let_def parse_connect_wf split: if_splits list.splits)
qed

text \<open>The number a decimal argument stands for is never wrapped.\<close>

lemma parse_u64_exact:
  assumes "parse_u64 s = Some w"
  shows "\<exists>ds. ds \<noteq> [] \<and> (s = ds \<or> s = 43 # ds) \<and> digits_value 0 ds = Some (unat w)"
proof -
  define ds where "ds = (case s of c # cs \<Rightarrow> if c = 43 then cs else s | [] \<Rightarrow> [])"
  from assms obtain n where n: "ds \<noteq> []" "digits_value 0 ds = Some n" "n < 2 ^ 64" "w = word_of_nat n"
    unfolding parse_u64_def Let_def ds_def[symmetric]
    by (auto split: if_splits option.splits)
  then have "unat w = n" by (simp add: unat_of_nat take_bit_nat_eq_self)
  moreover have "s = ds \<or> s = 43 # ds" using n(1) by (auto simp: ds_def split: list.splits if_splits)
  ultimately show ?thesis using n by blast
qed

section \<open>Properties\<close>

text \<open>C38: parsing and printing are inverse. The messages the parser can return are
  exactly the well-formed ones, and each of them is what its own line parses to:
  non-empty subjects, queues, reply subjects and ids without white space, a trimmed
  non-empty CONNECT text, a PUB whose payload is still empty.\<close>

theorem parse_line_roundtrip:
  "((\<exists>line. parse_line line = Some m) \<longleftrightarrow> wf_msg m) \<and>
   (parse_line (client_line m) = Some m \<longleftrightarrow> wf_msg m)"
  using parse_client_line parse_line_wf by blast

text \<open>A PUB control line is accepted only with two or three arguments, and the
  announced payload length is the exact decimal value of the last one: a number that
  does not fit 64 bits is refused, never wrapped.\<close>

theorem parse_pub_length_exact:
  assumes "parse_line line = Some (Pub subject reply n payload)"
  shows "\<exists>verb args ds. split_whitespace line = verb # args \<and> to_ascii_uppercase verb = lit ''PUB'' \<and>
     args = subject # (case reply of None \<Rightarrow> [] | Some r \<Rightarrow> [r]) @ [last args] \<and>
     (last args = ds \<or> last args = 43 # ds) \<and> digits_value 0 ds = Some (unat n) \<and> payload = []"
proof -
  from assms obtain verb args where sp: "split_whitespace line = verb # args"
    by (auto simp: parse_line_def split: list.splits)
  have conn: "parse_connect line \<noteq> Some (Pub subject reply n payload)"
    by (auto simp: parse_connect_def Let_def split: if_splits)
  from assms conn have v: "to_ascii_uppercase verb = lit ''PUB''"
    unfolding parse_line_def sp by (auto simp: Let_def split: if_splits list.splits)
  with assms sp have a: "args = subject # (case reply of None \<Rightarrow> [] | Some r \<Rightarrow> [r]) @ [last args]"
    "parse_u64 (last args) = Some n" "payload = []"
    unfolding parse_line_def by (auto simp: Let_def split: if_splits list.splits)
  from parse_u64_exact[OF a(2)] a v sp show ?thesis by blast
qed

theorem parse_pub_length_exact_witness:
  "\<exists>verb args ds. split_whitespace (lit ''pub a.b +6'') = verb # args \<and>
     to_ascii_uppercase verb = lit ''PUB'' \<and>
     args = lit ''a.b'' # (case None of None \<Rightarrow> [] | Some r \<Rightarrow> [r]) @ [last args] \<and>
     (last args = ds \<or> last args = 43 # ds) \<and> digits_value 0 ds = Some (unat (6::64 word)) \<and>
     ([]::bytes) = []"
proof (rule parse_pub_length_exact)
  show "parse_line (lit ''pub a.b +6'') = Some (Pub (lit ''a.b'') None 6 [])"
    by (simp add: parse_line_def split_whitespace_def lit_def is_whitespace_def
        to_ascii_uppercase_def parse_u64_def is_ascii_digit_def)
qed

end
