(* ===== verification/Rust_BTreeMap.thy ===== *)
theory Rust_BTreeMap
  imports Rust_Std
begin

text \<open>
  \<^verbatim>\<open>std::collections::BTreeMap\<close> as the list of its entries in key order, and the
  interface its clients rely on as the locale \<open>ordered_map\<close>. The subscription table
  of the embedded server and the objects of \<^verbatim>\<open>serde_json\<close> (whose default map is a
  \<^verbatim>\<open>BTreeMap\<close>) are its two instances.
\<close>

section \<open>The interface\<close>

locale ordered_map =
  fixes empty :: 'm
    and ins :: "'k::linorder \<Rightarrow> 'v \<Rightarrow> 'm \<Rightarrow> 'm"
    and del :: "'k \<Rightarrow> 'm \<Rightarrow> 'm"
    and look :: "'m \<Rightarrow> 'k \<Rightarrow> 'v option"
    and entries :: "'m \<Rightarrow> ('k \<times> 'v) list"
    and wf :: "'m \<Rightarrow> bool"
  assumes wf_empty: "wf empty"
    and wf_ins: "wf m \<Longrightarrow> wf (ins k v m)"
    and wf_del: "wf m \<Longrightarrow> wf (del k m)"
    and look_empty: "look empty = Map.empty"
    and look_ins: "wf m \<Longrightarrow> look (ins k v m) = (look m)(k \<mapsto> v)"
    and look_del: "wf m \<Longrightarrow> look (del k m) = (look m)(k := None)"
    and look_entries: "wf m \<Longrightarrow> look m k = map_of (entries m) k"
    and entries_ordered: "wf m \<Longrightarrow> sorted_wrt (<) (map fst (entries m))"
begin

lemma entries_distinct: "wf m \<Longrightarrow> distinct (map fst (entries m))"
  using entries_ordered strict_sorted_iff by blast

lemma entries_iff: "wf m \<Longrightarrow> (k, v) \<in> set (entries m) \<longleftrightarrow> look m k = Some v"
  using entries_distinct by (auto simp: look_entries)

text \<open>The clients filter the entries on key and value and keep the keys.\<close>

lemma selected_iff:
  "wf m \<Longrightarrow>
     k \<in> set (map fst (filter (\<lambda>(k, v). P k v) (entries m))) \<longleftrightarrow> (\<exists>v. look m k = Some v \<and> P k v)"
  by (force simp: entries_iff)

lemma selected_ordered:
  assumes "wf m"
  shows "sorted_wrt (<) (map fst (filter (\<lambda>(k, v). P k v) (entries m)))"
  using entries_ordered[OF assms] by (induction "entries m" arbitrary: m) (auto simp: sorted_wrt_map intro: sorted_wrt_filter)

end

section \<open>The implementation's model\<close>

type_synonym ('k, 'v) btree_map = "('k \<times> 'v) list"

fun btree_insert :: "'k::linorder \<Rightarrow> 'v \<Rightarrow> ('k, 'v) btree_map \<Rightarrow> ('k, 'v) btree_map" where
  "btree_insert k v [] = [(k, v)]"
| "btree_insert k v (e # es) =
     (if fst e < k then e # btree_insert k v es
      else if fst e = k then (k, v) # es
      else (k, v) # e # es)"

definition btree_remove :: "'k \<Rightarrow> ('k, 'v) btree_map \<Rightarrow> ('k, 'v) btree_map" where
  "btree_remove k m = filter (\<lambda>e. fst e \<noteq> k) m"

definition btree_wf :: "('k::linorder, 'v) btree_map \<Rightarrow> bool" where
  "btree_wf m \<longleftrightarrow> sorted_wrt (<) (map fst m)"

lemma set_keys_btree_insert: "fst ` set (btree_insert k v m) = insert k (fst ` set m)"
  by (induction m) auto

lemma btree_wf_insert [inv_intros]: "btree_wf m \<Longrightarrow> btree_wf (btree_insert k v m)"
  unfolding btree_wf_def
proof (induction m)
  case (Cons e es)
  have "\<forall>x \<in> fst ` set (btree_insert k v es). fst e < x" if "fst e < k"
    using Cons.prems that by (simp add: set_keys_btree_insert)
  with Cons show ?case by (auto simp: not_less dest: order.strict_trans1)
qed simp

lemma btree_wf_remove [inv_intros]: "btree_wf m \<Longrightarrow> btree_wf (btree_remove k m)"
  by (simp add: btree_wf_def btree_remove_def sorted_wrt_map sorted_wrt_filter)

lemma map_of_btree_insert: "btree_wf m \<Longrightarrow> map_of (btree_insert k v m) = (map_of m)(k \<mapsto> v)"
  by (induction m) (auto simp: fun_eq_iff btree_wf_def)

lemma map_of_btree_remove: "map_of (btree_remove k m) = (map_of m)(k := None)"
  by (induction m) (auto simp: btree_remove_def fun_eq_iff)

interpretation btree: ordered_map "[]" btree_insert btree_remove map_of "\<lambda>m. m" btree_wf
  by unfold_locales
    (auto simp: btree_wf_def[of "[]"] map_of_btree_insert map_of_btree_remove inv_intros,
     simp add: btree_wf_def)

end
