(* ===== verification/Nats_Router.thy ===== *)
theory Nats_Router
  imports Rust_BTreeMap
begin

text \<open>
  \<^verbatim>\<open>src/src/nats/router.rs\<close>: the subscription table of one client of the embedded
  server and the NATS subject matcher. \<open>matches_loop\<close> is the source's loop over the
  pattern's tokens with its two indices; \<open>nats_match\<close> is the NATS rule it is meant
  to implement, as an inductive relation on token lists.
\<close>

section \<open>The matcher\<close>

definition tok_tail :: str where "tok_tail = lit ''>''"
definition tok_any :: str where "tok_any = lit ''*''"

fun matches_loop :: "nat \<Rightarrow> str list \<Rightarrow> nat \<Rightarrow> str list \<Rightarrow> nat \<Rightarrow> bool" where
  "matches_loop n [] pattern_index subject_tokens subject_index =
     (subject_index = length subject_tokens)"
| "matches_loop n (token # tokens) pattern_index subject_tokens subject_index =
     (if token = tok_tail then
        pattern_index = n - 1 \<and> subject_index < length subject_tokens
      else if token = tok_any then
        (if length subject_tokens \<le> subject_index then False
         else matches_loop n tokens (pattern_index + 1) subject_tokens (subject_index + 1))
      else if subject_index < length subject_tokens \<and> subject_tokens ! subject_index = token then
        matches_loop n tokens (pattern_index + 1) subject_tokens (subject_index + 1)
      else False)"

definition matches :: "str \<Rightarrow> str \<Rightarrow> bool" where
  "matches pattern subject =
     (let pattern_tokens = split_on dot pattern; subject_tokens = split_on dot subject
      in matches_loop (length pattern_tokens) pattern_tokens 0 subject_tokens 0)"

section \<open>The subscription table\<close>

record router =
  subscriptions :: "(str, str) btree_map"

definition router_new :: router where
  "router_new = \<lparr>subscriptions = []\<rparr>"

definition router_add :: "str \<Rightarrow> str \<Rightarrow> router \<Rightarrow> router" where
  "router_add sid pattern r = r\<lparr>subscriptions := btree_insert sid pattern (subscriptions r)\<rparr>"

definition router_remove :: "str \<Rightarrow> router \<Rightarrow> router" where
  "router_remove sid r = r\<lparr>subscriptions := btree_remove sid (subscriptions r)\<rparr>"

definition router_matching :: "router \<Rightarrow> str \<Rightarrow> str list" where
  "router_matching r subject =
     map fst (filter (\<lambda>(sid, pattern). matches pattern subject) (subscriptions r))"

definition router_wf :: "router \<Rightarrow> bool" where
  "router_wf r \<longleftrightarrow> btree_wf (subscriptions r)"

section \<open>The NATS rule\<close>

inductive nats_match :: "str list \<Rightarrow> str list \<Rightarrow> bool" where
  match_done: "nats_match [] []"
| match_literal: "nats_match ps ss \<Longrightarrow> p \<noteq> tok_tail \<Longrightarrow> p \<noteq> tok_any \<Longrightarrow> nats_match (p # ps) (p # ss)"
| match_any: "nats_match ps ss \<Longrightarrow> nats_match (tok_any # ps) (s # ss)"
| match_tail: "nats_match [tok_tail] (s # ss)"

lemma tok_tail_neq_any [simp]: "tok_tail \<noteq> tok_any" "tok_any \<noteq> tok_tail"
  by (simp_all add: tok_tail_def tok_any_def lit_def)

inductive_simps nats_match_Nil [simp]: "nats_match [] ss"
inductive_simps nats_match_Cons: "nats_match (p # ps) ss"

lemma nats_match_literal_Cons:
  "p \<noteq> tok_tail \<Longrightarrow> p \<noteq> tok_any \<Longrightarrow>
     nats_match (p # ps) ss \<longleftrightarrow> (\<exists>ss'. ss = p # ss' \<and> nats_match ps ss')"
  by (auto simp: nats_match_Cons)

lemma nats_match_any_Cons:
  "nats_match (tok_any # ps) ss \<longleftrightarrow> (\<exists>s ss'. ss = s # ss' \<and> nats_match ps ss')"
  by (auto simp: nats_match_Cons)

lemma nats_match_tail_Cons: "nats_match (tok_tail # ps) ss \<longleftrightarrow> ps = [] \<and> ss \<noteq> []"
  by (auto simp: nats_match_Cons neq_Nil_conv)

lemmas nats_match_steps = nats_match_literal_Cons nats_match_any_Cons nats_match_tail_Cons

text \<open>The loop at index \<open>i\<close> decides the rule for what is left of the subject, as long
  as its two counters agree with the tokens consumed.\<close>

lemma matches_loop_iff:
  assumes "n = k + length ps"
  shows "matches_loop n ps k ss i \<longleftrightarrow> i \<le> length ss \<and> nats_match ps (drop i ss)"
  using assms
proof (induction ps arbitrary: k i)
  case Nil
  then show ?case by auto
next
  case (Cons p ps)
  have step: "matches_loop n ps (k + 1) ss (i + 1) \<longleftrightarrow>
      i + 1 \<le> length ss \<and> nats_match ps (drop (i + 1) ss)"
    by (rule Cons.IH) (use Cons.prems in simp)
  show ?case
  proof (cases "i < length ss")
    case False
    then show ?thesis by (auto simp: nats_match_Cons)
  next
    case True
    define t r where "t = ss ! i" and "r = drop (i + 1) ss"
    have d: "drop i ss = t # r"
      using Cons_nth_drop_Suc[OF True] by (simp add: t_def r_def)
    have step': "matches_loop n ps (k + 1) ss (i + 1) \<longleftrightarrow> nats_match ps r"
      using step True by (simp add: r_def)
    have "k = n - 1 \<longleftrightarrow> ps = []" using Cons.prems by auto
    with True step' show ?thesis
      unfolding d matches_loop.simps t_def[symmetric]
      by (cases "p = tok_tail"; cases "p = tok_any") (simp_all add: nats_match_steps)
  qed
qed

lemma matches_iff: "matches p s \<longleftrightarrow> nats_match (split_on dot p) (split_on dot s)"
  by (simp add: matches_def Let_def matches_loop_iff)

section \<open>Consequences\<close>

lemma nats_match_literal:
  "tok_tail \<notin> set ps \<Longrightarrow> tok_any \<notin> set ps \<Longrightarrow> nats_match ps ss \<longleftrightarrow> ps = ss"
proof (induction ps arbitrary: ss)
  case (Cons p ps)
  then have p: "p \<noteq> tok_tail" "p \<noteq> tok_any" and IH: "\<And>ss. nats_match ps ss \<longleftrightarrow> ps = ss"
    by auto
  show ?case unfolding nats_match_literal_Cons[OF p] IH by auto
qed auto

lemma nats_match_length:
  "nats_match ps ss \<Longrightarrow> length ps \<le> length ss \<and> (tok_tail \<notin> set ps \<longrightarrow> length ps = length ss)"
  by (induction rule: nats_match.induct) auto

lemma nats_match_nth:
  assumes "nats_match ps ss" "i < length ps" "ps ! i \<noteq> tok_any" "ps ! i \<noteq> tok_tail"
  shows "ss ! i = ps ! i"
  using assms by (induction arbitrary: i rule: nats_match.induct) (auto simp: nth_Cons split: nat.splits)

lemma router_wf_new [inv_intros]: "router_wf router_new"
  by (simp add: router_wf_def router_new_def btree.wf_empty)

lemma router_wf_add [inv_intros]: "router_wf r \<Longrightarrow> router_wf (router_add sid p r)"
  by (simp add: router_wf_def router_add_def inv_intros)

lemma router_wf_remove [inv_intros]: "router_wf r \<Longrightarrow> router_wf (router_remove sid r)"
  by (simp add: router_wf_def router_remove_def inv_intros)

lemma router_matching_iff:
  "router_wf r \<Longrightarrow> sid \<in> set (router_matching r s) \<longleftrightarrow>
     (\<exists>p. map_of (subscriptions r) sid = Some p \<and> matches p s)"
  unfolding router_matching_def router_wf_def by (rule btree.selected_iff)

lemma router_matching_ordered: "router_wf r \<Longrightarrow> sorted_wrt (<) (router_matching r s)"
  unfolding router_matching_def router_wf_def by (rule btree.selected_ordered)

text \<open>The shape of every match: token by token up to a final \<open>>\<close>, which takes one or
  more tokens.\<close>

definition tok_ok :: "str \<Rightarrow> str \<Rightarrow> bool" where
  "tok_ok p s \<longleftrightarrow> p = tok_any \<or> p = s"

lemma tok_ok_any [simp]: "tok_ok tok_any t"
  by (simp add: tok_ok_def)

lemma tok_ok_literal: "p \<noteq> tok_any \<Longrightarrow> tok_ok p t \<longleftrightarrow> p = t"
  by (simp add: tok_ok_def)

lemma nats_match_exact:
  "tok_tail \<notin> set ps \<Longrightarrow> nats_match ps ss \<longleftrightarrow> list_all2 tok_ok ps ss"
proof (induction ps arbitrary: ss)
  case (Cons p ps)
  then have p: "p \<noteq> tok_tail" and IH: "\<And>ss. nats_match ps ss \<longleftrightarrow> list_all2 tok_ok ps ss"
    by auto
  show ?case
  proof (cases "p = tok_any")
    case True
    show ?thesis unfolding True nats_match_any_Cons IH by (auto simp: list_all2_Cons1)
  next
    case False
    show ?thesis
      unfolding nats_match_literal_Cons[OF p False] IH
      by (auto simp: tok_ok_literal[OF False] list_all2_Cons1)
  qed
qed auto

lemma nats_match_tail_only_last: "nats_match ps ss \<Longrightarrow> tok_tail \<in> set ps \<Longrightarrow>
    \<exists>init. ps = init @ [tok_tail] \<and> tok_tail \<notin> set init"
  by (induction rule: nats_match.induct) (force simp: append_eq_Cons_conv Cons_eq_append_conv)+

lemma nats_match_tail:
  assumes "tok_tail \<notin> set ps"
  shows "nats_match (ps @ [tok_tail]) ss \<longleftrightarrow>
    (\<exists>s1 s s2. ss = s1 @ s # s2 \<and> list_all2 tok_ok ps s1)"
  using assms
proof (induction ps arbitrary: ss)
  case Nil
  then show ?case by (auto simp: nats_match_tail_Cons neq_Nil_conv)
next
  case (Cons p ps)
  then have p: "p \<noteq> tok_tail"
    and IH: "\<And>ss. nats_match (ps @ [tok_tail]) ss \<longleftrightarrow>
        (\<exists>s1 s s2. ss = s1 @ s # s2 \<and> list_all2 tok_ok ps s1)"
    by auto
  have step: "nats_match (p # ps @ [tok_tail]) ss \<longleftrightarrow>
      (\<exists>t ts. ss = t # ts \<and> tok_ok p t \<and> nats_match (ps @ [tok_tail]) ts)"
  proof (cases "p = tok_any")
    case True
    show ?thesis unfolding True nats_match_any_Cons by auto
  next
    case False
    then show ?thesis unfolding nats_match_literal_Cons[OF p False] by (auto simp: tok_ok_literal)
  qed
  show ?case
    unfolding append_Cons step IH
    by (auto simp: list_all2_Cons1 Cons_eq_append_conv) (metis append_Cons)+
qed

section \<open>Properties\<close>

text \<open>C36: the subject matcher implements the NATS rule. A pattern without \<open>>\<close> matches
  a subject with as many tokens, each equal to the pattern's token or facing a
  \<open>*\<close>; a pattern with \<open>>\<close> matches only where \<open>>\<close> is its last token and at
  least one token of the subject is left for it; a \<open>>\<close> elsewhere matches nothing.\<close>

theorem matches_closed_form:
  "matches p s \<longleftrightarrow>
     (let P = split_on dot p; S = split_on dot s
      in (tok_tail \<notin> set P \<and> list_all2 tok_ok P S) \<or>
         (\<exists>init s1 t s2. P = init @ [tok_tail] \<and> tok_tail \<notin> set init \<and>
            S = s1 @ t # s2 \<and> list_all2 tok_ok init s1))"
proof (cases "tok_tail \<in> set (split_on dot p)")
  case False
  then show ?thesis unfolding matches_iff Let_def by (auto simp: nats_match_exact)
next
  case True
  show ?thesis
  proof (cases "\<exists>init. split_on dot p = init @ [tok_tail] \<and> tok_tail \<notin> set init")
    case True
    then obtain init where "split_on dot p = init @ [tok_tail]" "tok_tail \<notin> set init" by blast
    then show ?thesis unfolding matches_iff Let_def by (auto simp: nats_match_tail)
  next
    case False
    with True nats_match_tail_only_last show ?thesis unfolding matches_iff Let_def by blast
  qed
qed

datatype router_op = Op_Add str str | Op_Remove str

primrec router_apply :: "router_op \<Rightarrow> router \<Rightarrow> router" where
  "router_apply (Op_Add sid pattern) r = router_add sid pattern r"
| "router_apply (Op_Remove sid) r = router_remove sid r"

primrec table_apply :: "router_op \<Rightarrow> (str \<rightharpoonup> str) \<Rightarrow> (str \<rightharpoonup> str)" where
  "table_apply (Op_Add sid pattern) m = m(sid \<mapsto> pattern)"
| "table_apply (Op_Remove sid) m = m(sid := None)"

lemma router_apply_refines:
  "router_wf r \<Longrightarrow> router_wf (router_apply op r) \<and>
     map_of (subscriptions (router_apply op r)) = table_apply op (map_of (subscriptions r))"
  by (cases op)
    (simp_all add: inv_intros, simp_all add: router_add_def router_remove_def router_wf_def
      map_of_btree_insert map_of_btree_remove)

lemma router_run_refines:
  "router_wf r \<Longrightarrow> router_wf (fold router_apply ops r) \<and>
     map_of (subscriptions (fold router_apply ops r)) = fold table_apply ops (map_of (subscriptions r))"
  by (induction ops arbitrary: r) (simp_all add: router_apply_refines)

text \<open>C37: the subscription table behaves as a map from subscription ids to patterns.
  After any sequence of subscribe and unsubscribe operations, a subject is delivered
  to exactly the ids whose latest pattern matches it, each id once, in the order of
  the ids.\<close>

theorem router_refines_table:
  "set (router_matching (fold router_apply ops router_new) subject) =
     {sid. \<exists>p. fold table_apply ops Map.empty sid = Some p \<and> matches p subject} \<and>
   sorted_wrt (<) (router_matching (fold router_apply ops router_new) subject)"
proof -
  have "router_wf (fold router_apply ops router_new) \<and>
      map_of (subscriptions (fold router_apply ops router_new)) = fold table_apply ops Map.empty"
    using router_run_refines[OF router_wf_new, of ops] by (simp add: router_new_def)
  then show ?thesis by (auto simp: router_matching_iff intro: router_matching_ordered)
qed

end
