(* ===== verification/Rust_Utf8.thy ===== *)
theory Rust_Utf8
  imports Rust_Std
begin

text \<open>
  UTF-8 as the standard library encodes and checks it: \<^verbatim>\<open>str::as_bytes\<close>,
  \<^verbatim>\<open>str::from_utf8\<close> (the well-formed sequences of the Unicode standard's table 3-7,
  nothing else) and \<^verbatim>\<open>String::from_utf8_lossy\<close> (every maximal ill-formed subpart
  becomes one U+FFFD). The lemmas show that encoding and decoding are inverse on
  scalar values and on well-formed bytes, and that the lossy decoder agrees with
  the strict one where the latter succeeds.
\<close>

section \<open>Encoding\<close>

definition byte :: "nat \<Rightarrow> u8" where
  "byte n = word_of_nat n"

definition encode_char :: "rchar \<Rightarrow> bytes" where
  "encode_char c =
     (if c < 0x80 then [byte c]
      else if c < 0x800 then [byte (0xC0 + c div 64), byte (0x80 + c mod 64)]
      else if c < 0x10000 then
        [byte (0xE0 + c div 4096), byte (0x80 + c div 64 mod 64), byte (0x80 + c mod 64)]
      else
        [byte (0xF0 + c div 262144), byte (0x80 + c div 4096 mod 64),
         byte (0x80 + c div 64 mod 64), byte (0x80 + c mod 64)])"

definition as_bytes :: "str \<Rightarrow> bytes" where
  "as_bytes s = concat (map encode_char s)"

section \<open>Decoding\<close>

definition is_cont :: "nat \<Rightarrow> bool" where
  "is_cont b \<longleftrightarrow> 0x80 \<le> b \<and> b \<le> 0xBF"

text \<open>The second byte a lead byte of three or four bytes allows.\<close>

definition second3_ok :: "nat \<Rightarrow> nat \<Rightarrow> bool" where
  "second3_ok b0 b1 \<longleftrightarrow>
     (if b0 = 0xE0 then 0xA0 \<le> b1 \<and> b1 \<le> 0xBF
      else if b0 = 0xED then 0x80 \<le> b1 \<and> b1 \<le> 0x9F
      else is_cont b1)"

definition second4_ok :: "nat \<Rightarrow> nat \<Rightarrow> bool" where
  "second4_ok b0 b1 \<longleftrightarrow>
     (if b0 = 0xF0 then 0x90 \<le> b1 \<and> b1 \<le> 0xBF
      else if b0 = 0xF4 then 0x80 \<le> b1 \<and> b1 \<le> 0x8F
      else is_cont b1)"

text \<open>One step on the bytes' values: the character and how many bytes it took, or
  the length of the ill-formed subpart that starts here.\<close>

definition decode_step :: "nat list \<Rightarrow> nat + rchar \<times> nat" where
  "decode_step bs =
     (case bs of
        [] \<Rightarrow> Inl 0
      | b0 # r0 \<Rightarrow>
          if b0 < 0x80 then Inr (b0, 1)
          else if 0xC2 \<le> b0 \<and> b0 \<le> 0xDF then
            (case r0 of
               b1 # _ \<Rightarrow> if is_cont b1 then Inr ((b0 - 0xC0) * 64 + (b1 - 0x80), 2) else Inl 1
             | [] \<Rightarrow> Inl 1)
          else if 0xE0 \<le> b0 \<and> b0 \<le> 0xEF then
            (case r0 of
               b1 # r1 \<Rightarrow>
                 if \<not> second3_ok b0 b1 then Inl 1
                 else (case r1 of
                         b2 # _ \<Rightarrow>
                           if is_cont b2
                           then Inr ((b0 - 0xE0) * 4096 + (b1 - 0x80) * 64 + (b2 - 0x80), 3)
                           else Inl 2
                       | [] \<Rightarrow> Inl 2)
             | [] \<Rightarrow> Inl 1)
          else if 0xF0 \<le> b0 \<and> b0 \<le> 0xF4 then
            (case r0 of
               b1 # r1 \<Rightarrow>
                 if \<not> second4_ok b0 b1 then Inl 1
                 else (case r1 of
                         b2 # r2 \<Rightarrow>
                           if \<not> is_cont b2 then Inl 2
                           else (case r2 of
                                   b3 # _ \<Rightarrow>
                                     if is_cont b3
                                     then Inr ((b0 - 0xF0) * 262144 + (b1 - 0x80) * 4096
                                               + (b2 - 0x80) * 64 + (b3 - 0x80), 4)
                                     else Inl 3
                                 | [] \<Rightarrow> Inl 3)
                       | [] \<Rightarrow> Inl 2)
             | [] \<Rightarrow> Inl 1)
          else Inl 1)"

lemma decode_step_len_pos: "decode_step (b # bs) = Inr (c, n) \<Longrightarrow> 0 < n"
  by (auto simp: decode_step_def split: if_splits list.splits)

lemma decode_step_err_pos: "decode_step (b # bs) = Inl n \<Longrightarrow> 0 < n"
  by (auto simp: decode_step_def split: if_splits list.splits)

function decode_nats :: "nat list \<Rightarrow> str option" where
  "decode_nats bs =
     (if bs = [] then Some []
      else case decode_step bs of
             Inl _ \<Rightarrow> None
           | Inr (c, n) \<Rightarrow> map_option ((#) c) (decode_nats (drop n bs)))"
  by pat_completeness auto
termination
proof (relation "measure length", goal_cases)
  case (2 bs cn c n)
  then show ?case by (cases bs) (auto dest: decode_step_len_pos)
qed simp

function lossy_nats :: "nat list \<Rightarrow> str" where
  "lossy_nats bs =
     (if bs = [] then []
      else case decode_step bs of
             Inl n \<Rightarrow> 0xFFFD # lossy_nats (drop n bs)
           | Inr (c, n) \<Rightarrow> c # lossy_nats (drop n bs))"
  by pat_completeness auto
termination
proof (relation "measure length", goal_cases)
  case (2 bs n)
  then show ?case by (cases bs) (auto dest: decode_step_err_pos)
next
  case (3 bs cn c n)
  then show ?case by (cases bs) (auto dest: decode_step_len_pos)
qed simp

declare decode_nats.simps [simp del] lossy_nats.simps [simp del]

definition from_utf8 :: "bytes \<Rightarrow> str option" where
  "from_utf8 bs = decode_nats (map unat bs)"

definition from_utf8_lossy :: "bytes \<Rightarrow> str" where
  "from_utf8_lossy bs = lossy_nats (map unat bs)"

section \<open>The two directions are inverse\<close>

lemma unat_byte [simp]: "n < 256 \<Longrightarrow> unat (byte n) = n"
  by (simp add: byte_def unat_of_nat take_bit_nat_eq_self)

lemma byte_unat [simp]: "byte (unat b) = b"
  by (simp add: byte_def)

lemma as_bytes_simps [simp]:
  "as_bytes [] = []"
  "as_bytes (c # s) = encode_char c @ as_bytes s"
  "as_bytes (s @ t) = as_bytes s @ as_bytes t"
  by (simp_all add: as_bytes_def)

lemma as_bytes_ascii: "\<forall>c \<in> set s. c < 0x80 \<Longrightarrow> as_bytes s = map byte s"
  by (induction s) (auto simp: encode_char_def)

lemma div_4096: "(c::nat) div 4096 = c div 64 div 64"
  by (simp add: div_mult2_eq[symmetric])

lemma div_262144: "(c::nat) div 262144 = c div 64 div 64 div 64"
  by (simp add: div_mult2_eq[symmetric])

lemma decode_encode_step:
  assumes "is_scalar c"
  shows "decode_step (map unat (encode_char c) @ r) = Inr (c, length (encode_char c))"
proof -
  consider "c < 0x80" | "0x80 \<le> c" "c < 0x800" | "0x800 \<le> c" "c < 0x10000" | "0x10000 \<le> c"
    by linarith
  then show ?thesis
  proof cases
    case 1
    then show ?thesis by (simp add: encode_char_def decode_step_def)
  next
    case 2
    then have "2 \<le> c div 64" "c div 64 \<le> 31" by auto
    with 2 show ?thesis
      by (simp add: encode_char_def decode_step_def is_cont_def)
  next
    case 3
    then have b: "c div 4096 \<le> 15" by auto
    have e0: "c div 4096 = 0 \<Longrightarrow> 32 \<le> c div 64 mod 64" using 3 by auto
    have ed: "c div 64 mod 64 \<le> 31" if d: "c div 4096 = 13"
    proof -
      from d have "c < 57344" by linarith
      with assms have "c < 55296" by (auto simp: is_scalar_def)
      then have "c div 64 < 864" by linarith
      with d show ?thesis
        using div_mult_mod_eq[of "c div 64" 64] unfolding div_4096 by linarith
    qed
    note dm = div_mult_mod_eq[of c 64] div_mult_mod_eq[of "c div 64" 64]
    have v: "c div 4096 * 4096 + c div 64 mod 64 * 64 + c mod 64 = c"
      using dm unfolding div_4096 by linarith
    have m: "c div 64 mod 64 \<le> 63" "c mod 64 \<le> 63" by simp_all
    have "second3_ok (0xE0 + c div 4096) (0x80 + c div 64 mod 64)"
      using e0 ed m b by (auto simp: second3_ok_def is_cont_def)
    with 3 b v m show ?thesis
      by (simp add: encode_char_def decode_step_def is_cont_def)
  next
    case 4
    have c: "c < 0x110000" using assms 4 by (auto simp: is_scalar_def)
    then have b: "c div 262144 \<le> 4" by auto
    note dm = div_mult_mod_eq[of c 64] div_mult_mod_eq[of "c div 64" 64]
      div_mult_mod_eq[of "c div 64 div 64" 64]
    have f0: "c div 262144 = 0 \<Longrightarrow> 16 \<le> c div 4096 mod 64"
      using dm 4 unfolding div_262144 div_4096 by linarith
    have f4: "c div 262144 = 4 \<Longrightarrow> c div 4096 mod 64 \<le> 15"
      using dm c unfolding div_262144 div_4096 by linarith
    have v: "c div 262144 * 262144 + c div 4096 mod 64 * 4096 + c div 64 mod 64 * 64 + c mod 64 = c"
      using dm unfolding div_262144 div_4096 by linarith
    have m: "c div 4096 mod 64 \<le> 63" "c div 64 mod 64 \<le> 63" "c mod 64 \<le> 63" by simp_all
    have "second4_ok (0xF0 + c div 262144) (0x80 + c div 4096 mod 64)"
      using f0 f4 m b by (auto simp: second4_ok_def is_cont_def)
    with 4 b v m show ?thesis
      by (simp add: encode_char_def decode_step_def is_cont_def)
  qed
qed

lemma encode_char_not_Nil [simp]: "encode_char c \<noteq> []"
  by (simp add: encode_char_def)

lemma from_utf8_as_bytes: "wf_str s \<Longrightarrow> from_utf8 (as_bytes s) = Some s"
proof (induction s)
  case Nil
  then show ?case by (simp add: from_utf8_def decode_nats.simps)
next
  case (Cons c s)
  then have c: "is_scalar c" and IH: "decode_nats (map unat (as_bytes s)) = Some s"
    by (auto simp: wf_str_def from_utf8_def)
  show ?case
    unfolding from_utf8_def
    by (subst decode_nats.simps) (simp add: decode_encode_step[OF c] IH)
qed

text \<open>The four shapes a successful step can have, one elimination rule for all uses.\<close>

lemma decode_step_cases:
  assumes "decode_step bs = Inr (c, n)"
  obtains
    (one) b0 r where "bs = b0 # r" "b0 < 0x80" "c = b0" "n = 1"
  | (two) b0 b1 r where "bs = b0 # b1 # r" "0xC2 \<le> b0" "b0 \<le> 0xDF" "is_cont b1"
      "c = (b0 - 0xC0) * 64 + (b1 - 0x80)" "n = 2"
  | (three) b0 b1 b2 r where "bs = b0 # b1 # b2 # r" "0xE0 \<le> b0" "b0 \<le> 0xEF"
      "second3_ok b0 b1" "is_cont b2"
      "c = (b0 - 0xE0) * 4096 + (b1 - 0x80) * 64 + (b2 - 0x80)" "n = 3"
  | (four) b0 b1 b2 b3 r where "bs = b0 # b1 # b2 # b3 # r" "0xF0 \<le> b0" "b0 \<le> 0xF4"
      "second4_ok b0 b1" "is_cont b2" "is_cont b3"
      "c = (b0 - 0xF0) * 262144 + (b1 - 0x80) * 4096 + (b2 - 0x80) * 64 + (b3 - 0x80)" "n = 4"
proof (cases bs)
  case Nil
  with assms show ?thesis by (simp add: decode_step_def)
next
  case (Cons b0 r0)
  consider "b0 < 0x80" | "0xC2 \<le> b0" "b0 \<le> 0xDF" | "0xE0 \<le> b0" "b0 \<le> 0xEF"
    | "0xF0 \<le> b0" "b0 \<le> 0xF4" | "0x80 \<le> b0" "b0 < 0xC2" | "0xF4 < b0"
    by linarith
  then show ?thesis
  proof cases
    case 1
    with assms Cons show ?thesis by (auto simp: decode_step_def intro: one)
  next
    case 2
    with assms Cons show ?thesis
      by (auto simp: decode_step_def split: list.splits if_splits intro: two)
  next
    case 3
    with assms Cons show ?thesis
      by (auto simp: decode_step_def split: list.splits if_splits intro: three)
  next
    case 4
    with assms Cons show ?thesis
      by (auto simp: decode_step_def split: list.splits if_splits intro: four)
  qed (use assms Cons in \<open>auto simp: decode_step_def\<close>)
qed

lemma second3_range: "second3_ok b0 b1 \<Longrightarrow> 0x80 \<le> b1 \<and> b1 \<le> 0xBF"
  by (auto simp: second3_ok_def is_cont_def split: if_splits)

lemma second4_range: "second4_ok b0 b1 \<Longrightarrow> 0x80 \<le> b1 \<and> b1 \<le> 0xBF"
  by (auto simp: second4_ok_def is_cont_def split: if_splits)

text \<open>A three- or four-byte value, taken apart again.\<close>

lemma sextet_digit:
  assumes "z < (64::nat)"
  shows "(a * 64 + z) div 64 = a" "(a * 64 + z) mod 64 = z"
  using assms by simp_all

lemma split3:
  assumes "y \<le> 63" "z \<le> (63::nat)" and c: "c = x * 4096 + y * 64 + z"
  shows "c div 4096 = x" "c div 64 mod 64 = y" "c mod 64 = z"
proof -
  have e: "c = (x * 64 + y) * 64 + z" using c by simp
  have z: "z < 64" and y: "y < 64" using assms(1,2) by simp_all
  have q: "c div 64 = x * 64 + y" "c mod 64 = z"
    unfolding e by (rule sextet_digit[OF z])+
  then show "c mod 64 = z" by simp
  show "c div 4096 = x" "c div 64 mod 64 = y"
    unfolding div_4096 q by (rule sextet_digit[OF y])+
qed

lemma split4:
  assumes "x \<le> 63" "y \<le> 63" "z \<le> (63::nat)"
    and c: "c = w * 262144 + x * 4096 + y * 64 + z"
  shows "c div 262144 = w" "c div 4096 mod 64 = x" "c div 64 mod 64 = y" "c mod 64 = z"
proof -
  have e: "c = (w * 64 + x) * 4096 + y * 64 + z" using c by simp
  note s3 = split3[OF assms(2,3) e]
  show "c div 64 mod 64 = y" "c mod 64 = z" by (rule s3)+
  have "c div 262144 = c div 4096 div 64" by (simp add: div_mult2_eq[symmetric])
  moreover have x: "x < 64" using assms(1) by simp
  ultimately show "c div 262144 = w" "c div 4096 mod 64 = x"
    unfolding s3(1) using sextet_digit[OF x, of w] by simp_all
qed

lemma encode_decode_step:
  assumes "decode_step bs = Inr (c, n)"
  shows "is_scalar c \<and> encode_char c = map byte (take n bs) \<and> n \<le> length bs"
  using assms
proof (cases rule: decode_step_cases)
  case (one b0 r)
  then show ?thesis by (simp add: is_scalar_def encode_char_def)
next
  case (two b0 b1 r)
  define x y where "x = b0 - 0xC0" and "y = b1 - 0x80"
  have b: "b0 = 0xC0 + x" "b1 = 0x80 + y" "2 \<le> x" "x \<le> 31" "y \<le> 63"
    using two by (auto simp: x_def y_def is_cont_def)
  have c: "c = x * 64 + y" using two by (simp add: x_def y_def)
  have "c div 64 = x" "c mod 64 = y" using b unfolding c by simp_all
  moreover have "0x80 \<le> c" "c < 0x800" using b unfolding c by simp_all
  ultimately show ?thesis using two b
    by (simp add: is_scalar_def encode_char_def)
next
  case (three b0 b1 b2 r)
  define x y z where "x = b0 - 0xE0" and "y = b1 - 0x80" and "z = b2 - 0x80"
  have b: "b0 = 0xE0 + x" "b1 = 0x80 + y" "b2 = 0x80 + z" "x \<le> 15" "y \<le> 63" "z \<le> 63"
    using three second3_range[of b0 b1] by (auto simp: x_def y_def z_def is_cont_def)
  have c: "c = x * 4096 + y * 64 + z" using three by (simp add: x_def y_def z_def)
  have sec: "(x = 0 \<longrightarrow> 32 \<le> y) \<and> (x = 13 \<longrightarrow> y \<le> 31)"
    using three(4) unfolding b by (auto simp: second3_ok_def split: if_splits)
  have "0x800 \<le> c" "c < 0x10000" "is_scalar c"
  proof -
    show "0x800 \<le> c" "c < 0x10000" using b sec unfolding c by (cases "x = 0"; simp)+
    consider "x \<le> 12" | "x = 13" | "14 \<le> x" by linarith
    then show "is_scalar c"
      using b sec unfolding c is_scalar_def by cases auto
  qed
  then show ?thesis using three b split3[OF b(5-6) c] by (simp add: encode_char_def)
next
  case (four b0 b1 b2 b3 r)
  define w x y z where "w = b0 - 0xF0" and "x = b1 - 0x80" and "y = b2 - 0x80" and "z = b3 - 0x80"
  have b: "b0 = 0xF0 + w" "b1 = 0x80 + x" "b2 = 0x80 + y" "b3 = 0x80 + z"
    "w \<le> 4" "x \<le> 63" "y \<le> 63" "z \<le> 63"
    using four second4_range[of b0 b1] by (auto simp: w_def x_def y_def z_def is_cont_def)
  have c: "c = w * 262144 + x * 4096 + y * 64 + z"
    using four by (simp add: w_def x_def y_def z_def)
  have sec: "(w = 0 \<longrightarrow> 16 \<le> x) \<and> (w = 4 \<longrightarrow> x \<le> 15)"
    using four(4) unfolding b by (auto simp: second4_ok_def split: if_splits)
  have "0x10000 \<le> c" using b sec unfolding c by (cases "w = 0") simp_all
  moreover have "c < 0x110000" using b sec unfolding c by (cases "w = 4") auto
  ultimately show ?thesis using four b split4[OF b(6-8) c]
    by (simp add: encode_char_def is_scalar_def)
qed

lemma decode_nats_sound:
  "decode_nats bs = Some s \<Longrightarrow> wf_str s \<and> as_bytes s = map byte bs"
proof (induction bs arbitrary: s rule: decode_nats.induct)
  case (1 bs)
  show ?case
  proof (cases "bs = []")
    case True
    with "1.prems" show ?thesis by (simp add: decode_nats.simps wf_str_def)
  next
    case False
    from "1.prems" False obtain c n s' where st: "decode_step bs = Inr (c, n)"
      and d: "decode_nats (drop n bs) = Some s'" and s: "s = c # s'"
      by (subst (asm) decode_nats.simps) (auto split: sum.splits)
    have "wf_str s' \<and> as_bytes s' = map byte (drop n bs)"
      using "1.IH"[OF False st refl d] .
    moreover have "map byte (take n bs) @ map byte (drop n bs) = map byte bs"
      by (metis append_take_drop_id map_append)
    ultimately show ?thesis
      using encode_decode_step[OF st] s by (simp add: wf_str_def)
  qed
qed

lemma from_utf8_Some:
  assumes "from_utf8 bs = Some s"
  shows "wf_str s" "as_bytes s = bs"
  using decode_nats_sound[of "map unat bs" s] assms by (simp_all add: from_utf8_def comp_def)

lemma from_utf8_lossy_eq: "from_utf8 bs = Some s \<Longrightarrow> from_utf8_lossy bs = s"
proof -
  have "decode_nats ns = Some t \<Longrightarrow> lossy_nats ns = t" for ns t
  proof (induction ns arbitrary: t rule: decode_nats.induct)
    case (1 bs)
    show ?case
    proof (cases "bs = []")
      case True
      with "1.prems" show ?thesis by (simp add: decode_nats.simps lossy_nats.simps)
    next
      case False
      with 1 show ?thesis
        by (auto simp: decode_nats.simps[of bs] lossy_nats.simps[of bs] split: sum.splits)
    qed
  qed
  then show "from_utf8 bs = Some s \<Longrightarrow> from_utf8_lossy bs = s"
    by (simp add: from_utf8_def from_utf8_lossy_def)
qed

lemma lossy_as_bytes: "wf_str s \<Longrightarrow> from_utf8_lossy (as_bytes s) = s"
  by (simp add: from_utf8_lossy_eq from_utf8_as_bytes)

end
