(* ===== verification/Nats_Server.thy ===== *)
theory Nats_Server
  imports Nats_Parser Nats_Router Rust_Utf8
begin

text \<open>
  \<^verbatim>\<open>src/src/nats/server.rs\<close>: the embedded NATS Core server. Reading is modelled at the
  level of the futures that \<^verbatim>\<open>tokio\<close> polls: \<open>Pending\<close> when the bytes that have
  arrived do not complete the operation, \<open>Ready\<close> with its result otherwise. A
  connection keeps apart the bytes nobody has consumed (\<open>unread\<close>) and the bytes the
  \<^verbatim>\<open>read_client_message\<close> future that is currently in flight has already taken into
  its local buffers (\<open>in_flight\<close>): when the other branch of \<^verbatim>\<open>select!\<close> wins, that
  future is dropped together with them.
\<close>

section \<open>Reading one message\<close>

datatype 'a poll = Pending | Ready 'a

datatype io_error =
    Invalid_control_line
  | Control_line_not_utf8
  | Payload_exceeds_max
  | Payload_missing_crlf
  | Unexpected_eof

definition MAX_PAYLOAD :: usize where
  "MAX_PAYLOAD = 1024 * 1024"

definition crlf :: bytes where "crlf = [13, 10]"

definition read_until :: "u8 \<Rightarrow> bytes \<Rightarrow> bool \<Rightarrow> (bytes \<times> bytes) poll" where
  "read_until b bs eof =
     (case dropWhile (\<lambda>x. x \<noteq> b) bs of
        [] \<Rightarrow> if eof then Ready (bs, []) else Pending
      | _ # rest \<Rightarrow> Ready (takeWhile (\<lambda>x. x \<noteq> b) bs @ [b], rest))"

definition read_exact :: "nat \<Rightarrow> bytes \<Rightarrow> bool \<Rightarrow> (io_error + bytes \<times> bytes) poll" where
  "read_exact n bs eof =
     (if n \<le> length bs then Ready (Inr (take n bs, drop n bs))
      else if eof then Ready (Inl Unexpected_eof) else Pending)"

definition decode_control_line :: "bytes \<Rightarrow> io_error + str" where
  "decode_control_line bs =
     and_then (ok_or (from_utf8 bs) Control_line_not_utf8)
       (\<lambda>line. Inr (trim_end_matches [cr, lf] line))"

definition read_payload :: "client_msg \<Rightarrow> bytes \<Rightarrow> bool \<Rightarrow> (io_error + client_msg \<times> bytes) poll" where
  "read_payload message bs eof =
     (case message of
        Pub subject reply payload_len _ \<Rightarrow>
          if MAX_PAYLOAD < payload_len then Ready (Inl Payload_exceeds_max)
          else (case read_exact (unat payload_len) bs eof of
                  Pending \<Rightarrow> Pending
                | Ready (Inl e) \<Rightarrow> Ready (Inl e)
                | Ready (Inr (payload, bs')) \<Rightarrow>
                    (case read_exact 2 bs' eof of
                       Pending \<Rightarrow> Pending
                     | Ready (Inl e) \<Rightarrow> Ready (Inl e)
                     | Ready (Inr (terminator, bs'')) \<Rightarrow>
                         if terminator \<noteq> crlf then Ready (Inl Payload_missing_crlf)
                         else Ready (Inr (Pub subject reply payload_len payload, bs''))))
      | _ \<Rightarrow> Ready (Inr (message, bs)))"

definition read_client_message ::
    "bytes \<Rightarrow> bool \<Rightarrow> (io_error + client_msg option \<times> bytes) poll" where
  "read_client_message bs eof =
     (case read_until 10 bs eof of
        Pending \<Rightarrow> Pending
      | Ready (line, rest) \<Rightarrow>
          if line = [] then Ready (Inr (None, rest))
          else (case and_then (decode_control_line line)
                       (\<lambda>l. ok_or (parse_line l) Invalid_control_line) of
                  Inl e \<Rightarrow> Ready (Inl e)
                | Inr message \<Rightarrow>
                    (case read_payload message rest eof of
                       Pending \<Rightarrow> Pending
                     | Ready (Inl e) \<Rightarrow> Ready (Inl e)
                     | Ready (Inr (m, rest')) \<Rightarrow> Ready (Inr (Some m, rest')))))"

section \<open>Writing one delivery\<close>

record delivery =
  subject :: str
  reply :: "str option"
  payload :: bytes

definition write_msg :: "delivery \<Rightarrow> str \<Rightarrow> bytes" where
  "write_msg d sid =
     (let header = (case reply d of
          Some r \<Rightarrow> lit ''MSG '' @ subject d @ spc # sid @ spc # r @ spc #
                    show_nat (length (payload d)) @ [cr, lf]
        | None \<Rightarrow> lit ''MSG '' @ subject d @ spc # sid @ spc #
                    show_nat (length (payload d)) @ [cr, lf])
      in as_bytes header @ payload d @ crlf)"

section \<open>One connection\<close>

definition INFO :: bytes where
  "INFO = as_bytes (lit ''INFO {'' @ [34] @ lit ''server_name'' @ [34] @ lit '':'' @ [34] @
     lit ''pgck'' @ [34] @ lit '','' @ [34] @ lit ''version'' @ [34] @ lit '':'' @ [34] @
     lit ''0.4.3'' @ [34] @ lit '','' @ [34] @ lit ''max_payload'' @ [34] @ lit '':1048576}'' @
     [cr, lf])"

record conn =
  unread :: bytes
  in_flight :: bytes
  peer_closed :: bool
  conn_router :: router
  written :: bytes
  alive :: bool

definition conn_start :: conn where
  "conn_start = \<lparr>unread = [], in_flight = [], peer_closed = False,
     conn_router = router_new, written = INFO, alive = True\<rparr>"

text \<open>The arms of the match on a message that was read.\<close>

fun on_message :: "client_msg option \<Rightarrow> conn \<Rightarrow> conn \<times> delivery list" where
  "on_message (Some (Connect _)) c = (c, [])"
| "on_message (Some Pong) c = (c, [])"
| "on_message (Some Ping) c = (c\<lparr>written := written c @ as_bytes (lit ''PONG'') @ crlf\<rparr>, [])"
| "on_message (Some (Sub s _ sid)) c = (c\<lparr>conn_router := router_add sid s (conn_router c)\<rparr>, [])"
| "on_message (Some (Unsub sid _)) c = (c\<lparr>conn_router := router_remove sid (conn_router c)\<rparr>, [])"
| "on_message (Some (Pub s r _ p)) c = (c, [\<lparr>subject = s, reply = r, payload = p\<rparr>])"
| "on_message None c = (c\<lparr>alive := False\<rparr>, [])"

text \<open>The read branch of \<^verbatim>\<open>select!\<close>: the future runs over everything that has arrived.
  While it is pending it has swallowed all of it.\<close>

definition poll_read :: "conn \<Rightarrow> conn \<times> delivery list" where
  "poll_read c =
     (case read_client_message (in_flight c @ unread c) (peer_closed c) of
        Pending \<Rightarrow> (c\<lparr>in_flight := in_flight c @ unread c, unread := []\<rparr>, [])
      | Ready (Inl e) \<Rightarrow> (c\<lparr>in_flight := [], unread := [], alive := False\<rparr>, [])
      | Ready (Inr (m, rest)) \<Rightarrow> on_message m (c\<lparr>in_flight := [], unread := rest\<rparr>))"

text \<open>The other branch: a broadcast delivery, a lag notice, or the closed channel. It
  completes the \<^verbatim>\<open>select!\<close>, so the read future in flight is dropped.\<close>

datatype recv_result = Recv_Ok delivery | Recv_Lagged nat | Recv_Closed

definition poll_recv :: "recv_result \<Rightarrow> conn \<Rightarrow> conn" where
  "poll_recv r c =
     (let c' = c\<lparr>in_flight := []\<rparr>
      in case r of
           Recv_Ok d \<Rightarrow>
             c'\<lparr>written := written c' @
                 concat (map (write_msg d) (router_matching (conn_router c') (subject d)))\<rparr>
         | Recv_Lagged _ \<Rightarrow> c'
         | Recv_Closed \<Rightarrow> c'\<lparr>alive := False\<rparr>)"

datatype event = Ev_Bytes bytes | Ev_Eof | Ev_Read | Ev_Recv recv_result

fun conn_step :: "event \<Rightarrow> conn \<Rightarrow> conn \<times> delivery list" where
  "conn_step (Ev_Bytes bs) c = (if peer_closed c then c else c\<lparr>unread := unread c @ bs\<rparr>, [])"
| "conn_step Ev_Eof c = (c\<lparr>peer_closed := True\<rparr>, [])"
| "conn_step Ev_Read c = (if alive c then poll_read c else (c, []))"
| "conn_step (Ev_Recv r) c = (if alive c then poll_recv r c else c, [])"

text \<open>\<^verbatim>\<open>handle_client\<close> over a schedule of the environment: what it sends to the channel,
  in order, and the connection it leaves.\<close>

fun handle_client :: "event list \<Rightarrow> conn \<Rightarrow> conn \<times> delivery list" where
  "handle_client [] c = (c, [])"
| "handle_client (e # es) c =
     (let (c', out) = conn_step e c; (c'', out') = handle_client es c' in (c'', out @ out'))"

text \<open>\<^verbatim>\<open>serve\<close>: the accept loop. Every accepted client gets a receiver that starts at the
  end of what has been sent; the broadcast channel keeps the latest 1024 deliveries,
  and a receiver that has fallen further behind is told so and continues with the
  oldest one kept. The senders stay alive with the server, so the channel is never
  closed.\<close>

record server =
  clients :: "conn list"
  cursors :: "nat list"
  sent :: "delivery list"

definition server_start :: server where
  "server_start = \<lparr>clients = [], cursors = [], sent = []\<rparr>"

definition CHANNEL_CAPACITY :: nat where "CHANNEL_CAPACITY = 1024"

inductive server_step :: "server \<Rightarrow> server \<Rightarrow> bool" where
  accept:
    "server_step s (s\<lparr>clients := clients s @ [conn_start], cursors := cursors s @ [length (sent s)]\<rparr>)"
| socket:
    "i < length (clients s) \<Longrightarrow> e \<in> {Ev_Eof, Ev_Read} \<or> (\<exists>bs. e = Ev_Bytes bs) \<Longrightarrow>
     conn_step e (clients s ! i) = (c, out) \<Longrightarrow>
     server_step s (s\<lparr>clients := (clients s)[i := c], sent := sent s @ out\<rparr>)"
| receive:
    "i < length (clients s) \<Longrightarrow> cursors s ! i < length (sent s) \<Longrightarrow>
     length (sent s) - cursors s ! i \<le> CHANNEL_CAPACITY \<Longrightarrow>
     conn_step (Ev_Recv (Recv_Ok (sent s ! (cursors s ! i)))) (clients s ! i) = (c, out) \<Longrightarrow>
     server_step s (s\<lparr>clients := (clients s)[i := c],
       cursors := (cursors s)[i := Suc (cursors s ! i)]\<rparr>)"
| lagged:
    "i < length (clients s) \<Longrightarrow> CHANNEL_CAPACITY < length (sent s) - cursors s ! i \<Longrightarrow>
     conn_step (Ev_Recv (Recv_Lagged (length (sent s) - CHANNEL_CAPACITY - cursors s ! i)))
       (clients s ! i) = (c, out) \<Longrightarrow>
     server_step s (s\<lparr>clients := (clients s)[i := c],
       cursors := (cursors s)[i := length (sent s) - CHANNEL_CAPACITY]\<rparr>)"

inductive server_reachable :: "server \<Rightarrow> bool" where
  reach_start: "server_reachable server_start"
| reach_step: "server_reachable s \<Longrightarrow> server_step s t \<Longrightarrow> server_reachable t"

section \<open>The wire form of a client message\<close>

fun wire_body :: "client_msg \<Rightarrow> bytes" where
  "wire_body (Pub _ _ _ p) = p @ crlf"
| "wire_body _ = []"

definition wire :: "client_msg \<Rightarrow> bytes" where
  "wire m = as_bytes (client_line m) @ crlf @ wire_body m"

fun clear_payload :: "client_msg \<Rightarrow> client_msg" where
  "clear_payload (Pub s r n _) = Pub s r n []"
| "clear_payload m = m"

fun payload_fits :: "client_msg \<Rightarrow> bool" where
  "payload_fits (Pub _ _ n p) \<longleftrightarrow> n \<le> MAX_PAYLOAD \<and> unat n = length p"
| "payload_fits _ \<longleftrightarrow> True"

definition wf_wire :: "client_msg \<Rightarrow> bool" where
  "wf_wire m \<longleftrightarrow> wf_msg (clear_payload m) \<and> payload_fits m \<and>
     wf_str (client_line m) \<and> lf \<notin> set (client_line m)"

lemma client_line_clear [simp]: "client_line (clear_payload m) = client_line m"
  by (cases m) auto

lemma byte_lf: "n < 256 \<Longrightarrow> (10::u8) = byte n \<longleftrightarrow> n = 10"
  using unat_byte[of n] by (auto simp: byte_def)

lemma encode_char_lf: "is_scalar c \<Longrightarrow> 10 \<in> set (encode_char c) \<longleftrightarrow> c = lf"
proof -
  assume "is_scalar c"
  then have "c < 0x110000" by (auto simp: is_scalar_def)
  then have "c div 262144 < 16" by linarith
  then show ?thesis by (auto simp: encode_char_def byte_lf)
qed

lemma lf_as_bytes: "wf_str s \<Longrightarrow> 10 \<in> set (as_bytes s) \<longleftrightarrow> lf \<in> set s"
  by (induction s) (auto simp: wf_str_def encode_char_lf)

lemma wf_str_append [simp]: "wf_str (a @ b) \<longleftrightarrow> wf_str a \<and> wf_str b"
  by (simp add: wf_str_def)

lemma as_bytes_crlf: "as_bytes [cr, lf] = crlf"
  by (simp add: crlf_def encode_char_def byte_def)

text \<open>A line that ends in neither CR nor LF is read back from its bytes and CRLF.\<close>

lemma decode_line:
  assumes "wf_str line" "line = [] \<or> last line \<notin> {cr, lf}"
  shows "decode_control_line (as_bytes line @ crlf) = Inr line"
proof -
  have "from_utf8 (as_bytes (line @ [cr, lf])) = Some (line @ [cr, lf])"
    by (rule from_utf8_as_bytes) (use assms in \<open>simp add: wf_str_def is_scalar_def\<close>)
  then have "from_utf8 (as_bytes line @ crlf) = Some (line @ [cr, lf])"
    by (simp only: as_bytes_simps(3) as_bytes_crlf)
  moreover have "trim_end_matches [cr, lf] (line @ [cr, lf]) = line"
    using assms(2) by (cases line rule: rev_cases) (auto simp: trim_end_matches_def)
  ultimately show ?thesis by (simp add: decode_control_line_def)
qed

lemma last_join_words: "ts \<noteq> [] \<Longrightarrow> last ts \<noteq> [] \<Longrightarrow> last (words ts) = last (last ts)"
proof (induction ts rule: induct_list012)
  case (3 t u ts)
  then have "join_on spc (u # ts) \<noteq> []" by (cases ts) auto
  with 3 show ?case by (simp add: words_def)
qed (auto simp: words_def)

lemma is_token_last: "is_token t \<Longrightarrow> t \<noteq> [] \<and> last t \<notin> {cr, lf}"
proof -
  assume t: "is_token t"
  then have "t \<noteq> []" by (simp add: is_token_def)
  moreover from this have "\<not> is_whitespace (last t)" using is_token_clean[OF t] by simp
  ultimately show ?thesis by (auto simp: is_whitespace_def)
qed

lemma trim_last:
  assumes "trim s = s" "s \<noteq> []"
  shows "last s \<notin> {cr, lf}"
proof -
  have "rev (trim s) = dropWhile is_whitespace (rev (trim_start s))"
    by (simp add: trim_def trim_end_def)
  then have "rev s = dropWhile is_whitespace (rev (trim_start s))"
    unfolding assms(1) .
  then have "\<not> is_whitespace (hd (rev s))"
    using assms(2) hd_dropWhile[of is_whitespace "rev (trim_start s)"] by (metis rev_is_Nil_conv)
  then show ?thesis using assms(2) by (auto simp: hd_rev is_whitespace_def)
qed

lemma client_line_last: "wf_msg m \<Longrightarrow> client_line m \<noteq> [] \<and> last (client_line m) \<notin> {cr, lf}"
proof (cases m)
  case (Connect opts)
  moreover assume "wf_msg m"
  ultimately show ?thesis
    using trim_last[of opts] by (simp add: last_join_words) (simp add: words_def)
next
  case (Sub a b c)
  moreover assume "wf_msg m"
  ultimately show ?thesis
    using is_token_last[of c] by (cases b) (simp_all add: last_join_words, simp_all add: words_def)
next
  case (Unsub a b)
  moreover assume "wf_msg m"
  ultimately show ?thesis
    using is_token_last[of a] is_token_last[OF is_token_show_u64]
    by (cases b) (simp_all add: last_join_words, simp_all add: words_def)
next
  case (Pub a b n p)
  then show ?thesis
    using is_token_last[OF is_token_show_u64]
    by (cases b) (simp_all add: last_join_words, simp_all add: words_def)
qed (simp_all add: lit_def)

lemma read_until_found: "b \<notin> set a \<Longrightarrow> read_until b (a @ b # rest) eof = Ready (a @ [b], rest)"
  by (simp add: read_until_def)

lemma read_payload_body:
  assumes "payload_fits m"
  shows "read_payload (clear_payload m) (wire_body m @ rest) eof = Ready (Inr (m, rest))"
  using assms by (cases m) (auto simp: read_payload_def read_exact_def crlf_def)

lemma read_line_wire:
  assumes "wf_wire m"
  shows "read_client_message (as_bytes (client_line m) @ crlf @ body) eof =
     (case read_payload (clear_payload m) body eof of
        Pending \<Rightarrow> Pending
      | Ready (Inl e) \<Rightarrow> Ready (Inl e)
      | Ready (Inr (m', rest')) \<Rightarrow> Ready (Inr (Some m', rest')))"
proof -
  let ?line = "client_line m"
  from assms have wf: "wf_msg (clear_payload m)" "wf_str ?line" "10 \<notin> set (as_bytes ?line)"
    by (auto simp: wf_wire_def lf_as_bytes)
  have "read_until 10 (as_bytes ?line @ crlf @ body) eof = Ready (as_bytes ?line @ crlf, body)"
    using read_until_found[of 10 "as_bytes ?line @ [13]" body eof] wf(3) by (simp add: crlf_def)
  moreover have "decode_control_line (as_bytes ?line @ crlf) = Inr ?line"
    using decode_line[OF wf(2)] client_line_last[OF wf(1)] by simp
  moreover have "parse_line ?line = Some (clear_payload m)"
    using parse_client_line[OF wf(1)] by simp
  ultimately show ?thesis
    by (simp add: read_client_message_def crlf_def)
qed

lemma read_wire: "wf_wire m \<Longrightarrow> read_client_message (wire m @ rest) eof = Ready (Inr (Some m, rest))"
  using read_line_wire[of m "wire_body m @ rest" eof] read_payload_body[of m rest eof]
  by (simp add: wire_def wf_wire_def)

section \<open>Segmentation\<close>

lemma read_until_pending: "b \<notin> set a \<Longrightarrow> read_until b a False = Pending"
proof -
  assume "b \<notin> set a"
  then have d: "dropWhile (\<lambda>x. x \<noteq> b) a = []" by (auto simp: dropWhile_eq_Nil_conv)
  show ?thesis unfolding read_until_def d by simp
qed

lemma read_payload_prefix:
  assumes "payload_fits m" "wire_body m = a @ b" "b \<noteq> []"
  shows "read_payload (clear_payload m) a False = Pending"
proof (cases m)
  case (Pub s r n p)
  with assms(2) have len: "length a + length b = length p + 2"
    by (metis length_append wire_body.simps(1) crlf_def list.size(3,4) numeral_2_eq_2 One_nat_def add_0 Suc_eq_plus1)
  have "0 < length b" using assms(3) by simp
  with len have "length a < length p + 2" by linarith
  then show ?thesis using Pub assms(1) by (auto simp: read_payload_def read_exact_def)
qed (use assms in auto)

lemma read_wire_prefix:
  assumes m: "wf_wire m" and w: "wire m = a @ b" and b: "b \<noteq> []"
  shows "read_client_message a False = Pending"
proof -
  let ?k = "as_bytes (client_line m) @ [13]"
  have k: "10 \<notin> set ?k" using m by (auto simp: wf_wire_def lf_as_bytes)
  have none: "read_client_message a False = Pending" if "10 \<notin> set a"
    using that by (simp add: read_client_message_def read_until_pending)
  have "a @ b = ?k @ 10 # wire_body m" using w by (simp add: wire_def crlf_def)
  then show ?thesis
  proof (cases rule: append_cut_cases)
    case (before t)
    then have "10 \<notin> set a" using k by (metis Un_iff set_append)
    then show ?thesis by (rule none)
  next
    case (after t)
    show ?thesis
    proof (cases t)
      case Nil
      with after k show ?thesis by (intro none) simp
    next
      case (Cons x t')
      with after have a: "a = as_bytes (client_line m) @ crlf @ t'" and t': "wire_body m = t' @ b"
        by (auto simp: crlf_def)
      have "read_payload (clear_payload m) t' False = Pending"
        by (rule read_payload_prefix[OF _ t' b]) (use m in \<open>simp add: wf_wire_def\<close>)
      then show ?thesis unfolding a by (simp add: read_line_wire[OF m])
    qed
  qed
qed

text \<open>The effect of a sequence of messages, with no byte stream in between.\<close>

fun serve_msgs :: "client_msg list \<Rightarrow> conn \<Rightarrow> conn \<times> delivery list" where
  "serve_msgs [] c = (c, [])"
| "serve_msgs (m # ms) c =
     (let (c', out) = on_message (Some m) c; (c'', out') = serve_msgs ms c' in (c'', out @ out'))"

definition strip :: "conn \<Rightarrow> conn" where
  "strip c = c\<lparr>in_flight := [], unread := []\<rparr>"

definition ready :: "conn \<Rightarrow> bool" where
  "ready c \<longleftrightarrow> alive c \<and> \<not> peer_closed c"

lemma on_message_buffers:
  "on_message (Some m) (c\<lparr>in_flight := f, unread := u\<rparr>) =
     ((fst (on_message (Some m) c))\<lparr>in_flight := f, unread := u\<rparr>, snd (on_message (Some m) c))"
  by (cases m) auto

lemma on_message_strip:
  "strip (fst (on_message (Some m) c)) = fst (on_message (Some m) (strip c))"
  "snd (on_message (Some m) (strip c)) = snd (on_message (Some m) c)"
  by (cases m; simp add: strip_def)+

lemma on_message_ready: "ready c \<Longrightarrow> ready (fst (on_message (Some m) c))"
  by (cases m) (auto simp: ready_def)

text \<open>One poll of the read branch takes the next complete message, or waits.\<close>

lemma poll_read_stream:
  assumes r: "ready c" and wf: "list_all wf_wire ms"
    and stream: "in_flight c @ unread c @ fut = concat (map wire ms)"
  obtains
    (wait) "strip (fst (poll_read c)) = strip c" "snd (poll_read c) = []" "ready (fst (poll_read c))"
      "in_flight (fst (poll_read c)) @ unread (fst (poll_read c)) = in_flight c @ unread c"
      "fut = [] \<longrightarrow> ms = []"
  | (next_msg) m ms' where "ms = m # ms'"
      "strip (fst (poll_read c)) = fst (on_message (Some m) (strip c))"
      "snd (poll_read c) = snd (on_message (Some m) (strip c))" "ready (fst (poll_read c))"
      "in_flight (fst (poll_read c)) @ unread (fst (poll_read c)) @ fut = concat (map wire ms')"
proof (cases ms)
  case Nil
  then have "in_flight c = []" "unread c = []" "fut = []" using stream by auto
  then show ?thesis using r Nil
    by (intro wait) (simp_all add: poll_read_def ready_def strip_def
        read_client_message_def read_until_pending)
next
  case (Cons m ms')
  let ?have = "in_flight c @ unread c"
  from Cons stream have eq: "?have @ fut = wire m @ concat (map wire ms')" by simp
  from Cons wf have m: "wf_wire m" by simp
  from eq have "?have @ fut = wire m @ concat (map wire ms')" by simp
  then show ?thesis
  proof (cases rule: append_cut_cases)
    case full: (after rest)
    have "poll_read c = on_message (Some m) (c\<lparr>in_flight := [], unread := rest\<rparr>)"
      using r read_wire[OF m, of rest False] full(1) by (simp add: poll_read_def ready_def)
    then have p: "poll_read c = ((fst (on_message (Some m) c))\<lparr>in_flight := [], unread := rest\<rparr>,
        snd (on_message (Some m) c))"
      by (simp only: on_message_buffers)
    show ?thesis
    proof (rule next_msg[OF Cons])
      show "strip (fst (poll_read c)) = fst (on_message (Some m) (strip c))"
        unfolding p on_message_strip(1)[symmetric] by (simp add: strip_def)
      show "snd (poll_read c) = snd (on_message (Some m) (strip c))"
        unfolding p on_message_strip(2) by simp
      show "ready (fst (poll_read c))"
        using on_message_ready[OF r, of m] unfolding p by (simp add: ready_def)
      show "in_flight (fst (poll_read c)) @ unread (fst (poll_read c)) @ fut = concat (map wire ms')"
        unfolding p full(2) by simp
    qed
  next
    case part: (before b)
    have p: "poll_read c = (c\<lparr>in_flight := ?have, unread := []\<rparr>, [])"
      using r read_wire_prefix[OF m part(1,3)] by (simp add: poll_read_def ready_def)
    have "fut \<noteq> []"
    proof
      assume "fut = []"
      then have "length ?have = length (wire m) + length (concat (map wire ms'))" using eq by simp
      moreover have "length (wire m) = length ?have + length b" using part(1) by simp
      ultimately show False using part(3) by simp
    qed
    then show ?thesis unfolding p using r by (intro wait) (simp_all add: p strip_def ready_def)
  qed
qed

fun socket_event :: "event \<Rightarrow> bool" where
  "socket_event (Ev_Bytes _) \<longleftrightarrow> True"
| "socket_event Ev_Read \<longleftrightarrow> True"
| "socket_event _ \<longleftrightarrow> False"

fun event_bytes :: "event \<Rightarrow> bytes" where
  "event_bytes (Ev_Bytes bs) = bs"
| "event_bytes _ = []"

definition arrived :: "event list \<Rightarrow> bytes" where
  "arrived es = concat (map event_bytes es)"

lemma arrived_simps [simp]:
  "arrived [] = []" "arrived (e # es) = event_bytes e @ arrived es"
  by (simp_all add: arrived_def)

lemma handle_client_append:
  "handle_client (xs @ ys) c =
     (fst (handle_client ys (fst (handle_client xs c))),
      snd (handle_client xs c) @ snd (handle_client ys (fst (handle_client xs c))))"
  by (induction xs arbitrary: c) (auto simp: Let_def split: prod.splits)

lemma handle_client_Cons:
  "handle_client (e # es) c =
     (fst (handle_client es (fst (conn_step e c))),
      snd (conn_step e c) @ snd (handle_client es (fst (conn_step e c))))"
  by (simp add: Let_def split: prod.splits)

lemma serve_msgs_Cons:
  "serve_msgs (m # ms) c =
     (fst (serve_msgs ms (fst (on_message (Some m) c))),
      snd (on_message (Some m) c) @ snd (serve_msgs ms (fst (on_message (Some m) c))))"
  by (simp add: Let_def split: prod.splits)

lemma serve_msgs_append:
  "serve_msgs (xs @ ys) c =
     (fst (serve_msgs ys (fst (serve_msgs xs c))),
      snd (serve_msgs xs c) @ snd (serve_msgs ys (fst (serve_msgs xs c))))"
  by (induction xs arbitrary: c) (auto simp: Let_def split: prod.splits)

declare handle_client.simps(2) [simp del] serve_msgs.simps(2) [simp del]

text \<open>Any schedule of arrivals and polls serves a prefix of the messages, the rest is
  still in the buffers or yet to come.\<close>

lemma stream_run:
  assumes "ready c" "list_all wf_wire ms" "list_all socket_event es"
    and "in_flight c @ unread c @ arrived es @ fut = concat (map wire ms)"
  shows "\<exists>ms1 ms2. ms = ms1 @ ms2 \<and> ready (fst (handle_client es c)) \<and>
    strip (fst (handle_client es c)) = fst (serve_msgs ms1 (strip c)) \<and>
    snd (handle_client es c) = snd (serve_msgs ms1 (strip c)) \<and>
    in_flight (fst (handle_client es c)) @ unread (fst (handle_client es c)) @ fut = concat (map wire ms2)"
  using assms
proof (induction es arbitrary: c ms)
  case Nil
  then show ?case by (intro exI[of _ "[]"] exI[of _ ms]) simp
next
  case (Cons e es)
  show ?case
  proof (cases e)
    case (Ev_Bytes bs)
    let ?c = "c\<lparr>unread := unread c @ bs\<rparr>"
    have st: "conn_step e c = (?c, [])" "strip ?c = strip c" "ready ?c"
      using Cons.prems(1) Ev_Bytes by (auto simp: ready_def strip_def)
    have "in_flight ?c @ unread ?c @ arrived es @ fut = concat (map wire ms)"
      using Cons.prems(4) Ev_Bytes by simp
    from Cons.IH[OF st(3) Cons.prems(2) _ this] Cons.prems(3) st show ?thesis
      by (simp add: handle_client_Cons)
  next
    case Ev_Read
    have st: "conn_step e c = poll_read c" using Ev_Read Cons.prems(1) by (simp add: ready_def)
    have stream: "in_flight c @ unread c @ (arrived es @ fut) = concat (map wire ms)"
      using Cons.prems(4) Ev_Read by simp
    show ?thesis
    proof (cases rule: poll_read_stream[OF Cons.prems(1,2) stream, case_names wait next_msg])
      case wait
      from wait(4) Cons.prems(4) Ev_Read
      have "in_flight (fst (poll_read c)) @ unread (fst (poll_read c)) @ arrived es @ fut
          = concat (map wire ms)" by (metis append.assoc append_Nil arrived_simps(2) event_bytes.simps(3))
      from Cons.IH[OF wait(3) Cons.prems(2) _ this] Cons.prems(3) wait(1,2) st show ?thesis
        by (simp add: handle_client_Cons)
    next
      case (next_msg m ms')
      from Cons.IH[OF next_msg(4) _ _ next_msg(5)] Cons.prems(2,3) next_msg(1)
      obtain ms1 ms2 where IH: "ms' = ms1 @ ms2" "ready (fst (handle_client es (fst (poll_read c))))"
        "strip (fst (handle_client es (fst (poll_read c)))) = fst (serve_msgs ms1 (strip (fst (poll_read c))))"
        "snd (handle_client es (fst (poll_read c))) = snd (serve_msgs ms1 (strip (fst (poll_read c))))"
        "in_flight (fst (handle_client es (fst (poll_read c)))) @
           unread (fst (handle_client es (fst (poll_read c)))) @ fut = concat (map wire ms2)"
        by auto
      show ?thesis
        by (rule exI[of _ "m # ms1"], rule exI[of _ ms2])
          (simp add: IH next_msg(1,2,3) st handle_client_Cons serve_msgs_Cons)
    qed
  qed (use Cons.prems in auto)
qed

lemma drain_run:
  assumes "ready c" "list_all wf_wire ms" "in_flight c @ unread c = concat (map wire ms)"
    "length ms \<le> n"
  shows "snd (handle_client (replicate n Ev_Read) c) = snd (serve_msgs ms (strip c)) \<and>
    fst (handle_client (replicate n Ev_Read) c) = fst (serve_msgs ms (strip c))"
  using assms
proof (induction n arbitrary: c ms)
  case 0
  then show ?case by (simp add: strip_def)
next
  case (Suc n)
  have st: "conn_step Ev_Read c = poll_read c" using Suc.prems(1) by (simp add: ready_def)
  have stream: "in_flight c @ unread c @ [] = concat (map wire ms)" using Suc.prems(3) by simp
  show ?case
  proof (cases rule: poll_read_stream[OF Suc.prems(1,2) stream, case_names wait next_msg])
    case wait
    then have ms: "ms = []" by simp
    from Suc.IH[OF wait(3), of "[]"] wait ms Suc.prems(3) st show ?thesis
      by (simp add: handle_client_Cons)
  next
    case (next_msg m ms')
    from Suc.IH[OF next_msg(4), of ms'] next_msg Suc.prems(2,4) st show ?thesis
      by (simp add: handle_client_Cons serve_msgs_Cons)
  qed
qed

end
