(* ===== verification/Nats_Server_Props.thy ===== *)
theory Nats_Server_Props
  imports Nats_Server
begin

text \<open>
  What the embedded server promises: the byte stream may be cut anywhere, the frames
  it writes can be read back, its connections and its channel keep their invariant in
  every reachable state, and what happens to a message that is cut by a delivery.
\<close>

section \<open>Reading a MSG frame back\<close>

text \<open>A NATS client reading what the server writes: the header line, the announced
  number of payload bytes, CRLF.\<close>

definition parse_frame :: "bytes \<Rightarrow> (delivery \<times> str \<times> bytes) option" where
  "parse_frame bs =
     (case read_until 10 bs False of
        Pending \<Rightarrow> None
      | Ready (line, rest) \<Rightarrow>
          (case res_ok (decode_control_line line) of
             None \<Rightarrow> None
           | Some l \<Rightarrow>
               (case split_whitespace l of
                  verb # subj # sid # args \<Rightarrow>
                    (let body = (\<lambda>r len. case parse_u64 len of
                         None \<Rightarrow> None
                       | Some n \<Rightarrow>
                           if take 2 (drop (unat n) rest) = crlf
                           then Some (\<lparr>subject = subj, reply = r, payload = take (unat n) rest\<rparr>,
                                      sid, drop (unat n + 2) rest)
                           else None)
                     in if verb \<noteq> lit ''MSG'' then None
                        else case args of
                               [len] \<Rightarrow> body None len
                             | [r, len] \<Rightarrow> body (Some r) len
                             | _ \<Rightarrow> None)
                | _ \<Rightarrow> None)))"

definition wire_token :: "str \<Rightarrow> bool" where
  "wire_token t \<longleftrightarrow> is_token t \<and> wf_str t"

definition delivery_wf :: "delivery \<Rightarrow> bool" where
  "delivery_wf d \<longleftrightarrow> wire_token (subject d) \<and> pred_option wire_token (reply d) \<and>
     length (payload d) \<le> unat MAX_PAYLOAD"

definition conn_wf :: "conn \<Rightarrow> bool" where
  "conn_wf c \<longleftrightarrow> router_wf (conn_router c) \<and>
     list_all (\<lambda>(sid, p). wire_token sid \<and> wire_token p) (subscriptions (conn_router c))"

definition server_wf :: "server \<Rightarrow> bool" where
  "server_wf s \<longleftrightarrow> list_all conn_wf (clients s) \<and> list_all delivery_wf (sent s) \<and>
     length (cursors s) = length (clients s) \<and> list_all (\<lambda>k. k \<le> length (sent s)) (cursors s)"

lemma MAX_PAYLOAD_nat [simp]: "unat MAX_PAYLOAD = 1048576"
  by (simp add: MAX_PAYLOAD_def)

lemma token_no_lf: "is_token t \<Longrightarrow> lf \<notin> set t"
proof
  assume "is_token t" "lf \<in> set t"
  then have "\<not> is_whitespace lf" using is_token_clean by blast
  then show False by (simp add: is_whitespace_def)
qed

lemma words_no_lf: "list_all is_token ts \<Longrightarrow> lf \<notin> set (words ts)"
  by (induction ts rule: induct_list012) (auto simp: words_def dest: token_no_lf)

lemma wf_str_words: "list_all wf_str ts \<Longrightarrow> wf_str (words ts)"
  by (induction ts rule: induct_list012) (auto simp: words_def wf_str_def is_scalar_def)

lemma last_words_token: "ts \<noteq> [] \<Longrightarrow> list_all is_token ts \<Longrightarrow> last (words ts) \<notin> {cr, lf}"
  using last_join_words[of ts] is_token_last[of "last ts"] by (auto simp: list_all_iff)

text \<open>A header made of words is read back as those words.\<close>

lemma read_header:
  assumes "ts \<noteq> []" "list_all wire_token ts"
  shows "read_until 10 (as_bytes (words ts) @ crlf @ rest) False = Ready (as_bytes (words ts) @ crlf, rest)"
    and "decode_control_line (as_bytes (words ts) @ crlf) = Inr (words ts)"
    and "split_whitespace (words ts) = ts"
proof -
  have tok: "list_all is_token ts" "list_all wf_str ts"
    using assms(2) by (auto simp: wire_token_def list_all_iff)
  have w: "wf_str (words ts)" "lf \<notin> set (words ts)"
    using tok by (auto intro: wf_str_words simp: words_no_lf)
  then have "10 \<notin> set (as_bytes (words ts) @ [13])" by (simp add: lf_as_bytes)
  from read_until_found[OF this, of rest False]
  show "read_until 10 (as_bytes (words ts) @ crlf @ rest) False = Ready (as_bytes (words ts) @ crlf, rest)"
    by (simp add: crlf_def)
  show "decode_control_line (as_bytes (words ts) @ crlf) = Inr (words ts)"
    by (rule decode_line[OF w(1)]) (use last_words_token[OF assms(1) tok(1)] in simp)
  show "split_whitespace (words ts) = ts"
    by (rule split_whitespace_words[OF assms(1) tok(1)])
qed

lemma show_nat_u64: "n \<le> 1048576 \<Longrightarrow> show_nat n = show_u64 (word_of_nat n) \<and> unat (word_of_nat n :: u64) = n"
  by (simp add: show_u64_def unat_of_nat take_bit_nat_eq_self)

lemma wire_token_show [simp]: "wire_token (show_u64 w)"
proof -
  have "is_scalar c" if "c \<in> set (show_u64 w)" for c
    using show_nat_digits[of c "unat w"] that by (auto simp: show_u64_def is_ascii_digit_def is_scalar_def)
  then show ?thesis by (auto simp: wire_token_def wf_str_def list_all_iff)
qed

lemma wire_token_MSG [simp]: "wire_token (lit ''MSG'')"
  by (simp add: wire_token_def is_token_def wf_str_def lit_def is_whitespace_def is_scalar_def)

lemma parse_frame_write_msg:
  assumes d: "delivery_wf d" and sid: "wire_token sid"
  shows "parse_frame (write_msg d sid @ rest) = Some (d, sid, rest)"
proof -
  define n :: u64 where "n = word_of_nat (length (payload d))"
  have n: "show_nat (length (payload d)) = show_u64 n" "unat n = length (payload d)"
    using show_nat_u64[of "length (payload d)"] d by (auto simp: n_def delivery_wf_def)
  define ts where "ts = lit ''MSG'' # subject d # sid # (case reply d of None \<Rightarrow> [] | Some r \<Rightarrow> [r]) @ [show_u64 n]"
  have ts: "ts \<noteq> []" "list_all wire_token ts"
    using d sid by (auto simp: ts_def delivery_wf_def split: option.splits)
  have msg: "lit ''MSG '' = lit ''MSG'' @ [spc]" by (simp add: lit_def)
  have w: "write_msg d sid @ rest = as_bytes (words ts) @ crlf @ (payload d @ crlf @ rest)"
    by (simp add: write_msg_def Let_def ts_def words_def n(1) msg as_bytes_crlf[symmetric] split: option.split)
  have d_eq: "d = \<lparr>subject = subject d, reply = reply d, payload = payload d\<rparr>" by simp
  show ?thesis
    unfolding w parse_frame_def read_header(1)[OF ts]
    by (cases "reply d"; subst d_eq)
      (simp_all add: read_header(2,3)[OF ts], simp_all add: ts_def n(2) crlf_def)
qed

section \<open>Invariants\<close>

lemma wf_str_subset: "set t \<subseteq> set s \<Longrightarrow> wf_str s \<Longrightarrow> wf_str t"
  by (auto simp: wf_str_def list_all_iff)

lemma split_whitespace_wire:
  assumes "t \<in> set (split_whitespace l)" "wf_str l"
  shows "wire_token t"
proof -
  have "set t \<subseteq> set l"
    using assms(1) split_by_pieces_subset[of t is_whitespace l] by (auto simp: split_whitespace_def)
  then show ?thesis
    using assms is_token_split by (auto simp: wire_token_def intro: wf_str_subset)
qed

text \<open>What a parsed message carries, when its line was valid UTF-8.\<close>

fun msg_wf :: "client_msg \<Rightarrow> bool" where
  "msg_wf (Sub s q sid) \<longleftrightarrow> wire_token s \<and> wire_token sid"
| "msg_wf (Unsub sid _) \<longleftrightarrow> wire_token sid"
| "msg_wf (Pub s r n p) \<longleftrightarrow> wire_token s \<and> pred_option wire_token r"
| "msg_wf _ \<longleftrightarrow> True"

lemma parse_line_msg_wf:
  assumes p: "parse_line l = Some m" and l: "wf_str l"
  shows "msg_wf m"
proof -
  from p obtain verb args where sp: "split_whitespace l = verb # args"
    by (auto simp: parse_line_def split: list.splits)
  then have tok: "\<forall>t \<in> set args. wire_token t"
    using split_whitespace_wire[OF _ l] by auto
  have "msg_wf m" if "parse_connect l = Some m"
    using that by (auto simp: parse_connect_def Let_def split: if_splits)
  with p tok show ?thesis
    unfolding parse_line_def sp by (auto simp: Let_def split: if_splits list.splits)
qed

lemma read_message_wf:
  assumes "read_client_message bs eof = Ready (Inr (Some m, rest))"
  shows "msg_wf m \<and> (\<forall>s r n p. m = Pub s r n p \<longrightarrow> n \<le> MAX_PAYLOAD \<and> length p = unat n)"
proof -
  from assms obtain line rest' l m' where l: "decode_control_line line = Inr l"
    and p: "parse_line l = Some m'" and rp: "read_payload m' rest' eof = Ready (Inr (m, rest))"
    unfolding read_client_message_def
    by (auto simp: ok_iff split: poll.splits prod.splits sum.splits if_splits)
  from l obtain l' where "from_utf8 line = Some l'" "l = trim_end_matches [cr, lf] l'"
    by (auto simp: decode_control_line_def ok_iff)
  moreover have "set (trim_end_matches cs s) \<subseteq> set s" for cs s
    by (auto simp: trim_end_matches_def dest: set_dropWhileD)
  ultimately have "wf_str l" using from_utf8_Some(1) wf_str_subset by blast
  from parse_line_msg_wf[OF p this] rp show ?thesis
    by (cases m') (auto simp: read_payload_def read_exact_def split: poll.splits if_splits sum.splits)
qed

lemma entries_insert: "(a, b) \<in> set (btree_insert k v m) \<Longrightarrow> (a, b) = (k, v) \<or> (a, b) \<in> set m"
  by (induction m) (auto split: if_splits)

lemma on_message_wf:
  assumes "conn_wf c" "msg_wf m"
    "\<forall>s r n p. m = Pub s r n p \<longrightarrow> n \<le> MAX_PAYLOAD \<and> length p = unat n"
  shows "conn_wf (fst (on_message (Some m) c)) \<and> list_all delivery_wf (snd (on_message (Some m) c))"
proof (cases m)
  case (Sub s q sid)
  with assms show ?thesis
    by (auto simp: conn_wf_def inv_intros list_all_iff router_add_def dest!: entries_insert)
      (simp_all add: router_wf_def inv_intros)
next
  case (Unsub sid mx)
  with assms show ?thesis
    by (auto simp: conn_wf_def inv_intros list_all_iff)
      (auto simp: router_remove_def btree_remove_def)
next
  case (Pub s r n p)
  then have "n \<le> MAX_PAYLOAD" "length p = unat n" using assms(3) by auto
  then have "length p \<le> unat MAX_PAYLOAD" by (simp add: word_le_nat_alt)
  with Pub assms show ?thesis by (simp add: delivery_wf_def)
qed (use assms in \<open>auto simp: conn_wf_def\<close>)

lemma conn_router_recv: "conn_router (poll_recv r c) = conn_router c"
  by (cases r) (simp_all add: poll_recv_def Let_def)

lemma conn_step_wf [inv_intros]:
  assumes "conn_wf c"
  shows "conn_wf (fst (conn_step e c)) \<and> list_all delivery_wf (snd (conn_step e c))"
proof (cases e)
  case Ev_Read
  show ?thesis
  proof (cases "read_client_message (in_flight c @ unread c) (peer_closed c)")
    case (Ready r)
    show ?thesis
    proof (cases r)
      case (Inr mr)
      obtain m rest where mr: "mr = (m, rest)" by (cases mr)
      have c': "conn_wf (c\<lparr>in_flight := [], unread := rest\<rparr>)" using assms by (simp add: conn_wf_def)
      show ?thesis
      proof (cases m)
        case None
        with Ev_Read Ready Inr mr assms show ?thesis by (auto simp: poll_read_def conn_wf_def)
      next
        case (Some msg)
        with Ready Inr mr have rd: "read_client_message (in_flight c @ unread c) (peer_closed c) =
            Ready (Inr (Some msg, rest))" by simp
        have "conn_wf (fst (on_message (Some msg) (c\<lparr>in_flight := [], unread := rest\<rparr>))) \<and>
            list_all delivery_wf (snd (on_message (Some msg) (c\<lparr>in_flight := [], unread := rest\<rparr>)))"
          using on_message_wf[OF c'] read_message_wf[OF rd] by blast
        with rd Ev_Read assms show ?thesis by (simp add: poll_read_def)
      qed
    qed (use Ev_Read Ready assms in \<open>auto simp: poll_read_def conn_wf_def\<close>)
  qed (use Ev_Read assms in \<open>auto simp: poll_read_def conn_wf_def\<close>)
next
  case (Ev_Recv r)
  with assms show ?thesis by (simp add: conn_wf_def conn_router_recv)
qed (use assms in \<open>auto simp: conn_wf_def\<close>)

lemma list_all_update: "list_all P xs \<Longrightarrow> P x \<Longrightarrow> list_all P (xs[i := x])"
  by (induction xs arbitrary: i) (simp_all split: nat.split)

lemma list_all_nth': "list_all P xs \<Longrightarrow> i < length xs \<Longrightarrow> P (xs ! i)"
  by (simp add: list_all_length)

lemma server_step_wf: "server_step s t \<Longrightarrow> server_wf s \<Longrightarrow> server_wf t"
proof (induction rule: server_step.induct)
  case (accept s)
  moreover have "conn_wf conn_start"
    by (simp add: conn_wf_def conn_start_def inv_intros) (simp add: router_new_def)
  ultimately show ?case by (simp add: server_wf_def)
next
  case (socket i s e c out)
  have "conn_wf c \<and> list_all delivery_wf out"
    using conn_step_wf[OF list_all_nth'[of conn_wf "clients s" i], of e] socket by (auto simp: server_wf_def)
  moreover have "list_all (\<lambda>k. k \<le> length (sent s) + length out) (cursors s)"
    using socket.prems by (auto simp: server_wf_def list_all_iff)
  ultimately show ?case using socket.prems by (simp add: server_wf_def list_all_update)
next
  case (receive i s c out)
  have "conn_wf c"
    using conn_step_wf[OF list_all_nth'[of conn_wf "clients s" i]] receive by (metis fst_conv server_wf_def)
  with receive show ?case by (simp add: server_wf_def list_all_update)
next
  case (lagged i s c out)
  have "conn_wf c"
    using conn_step_wf[OF list_all_nth'[of conn_wf "clients s" i]] lagged by (metis fst_conv server_wf_def)
  with lagged show ?case by (simp add: server_wf_def list_all_update)
qed

lemma server_reachable_wf: "server_reachable s \<Longrightarrow> server_wf s"
proof (induction rule: server_reachable.induct)
  case reach_start
  show ?case by (simp add: server_wf_def server_start_def)
next
  case (reach_step s t)
  then show ?case by (blast intro: server_step_wf)
qed

text \<open>A client of a server with one connection may run any socket schedule.\<close>

lemma server_reachable_run:
  assumes "list_all socket_event es" "server_reachable s" "clients s = [c]"
  shows "server_reachable (s\<lparr>clients := [fst (handle_client es c)],
    sent := sent s @ snd (handle_client es c)\<rparr>)"
  using assms
proof (induction es arbitrary: s c)
  case Nil
  then show ?case by (cases s) simp
next
  case (Cons e es)
  let ?c = "fst (conn_step e c)" and ?out = "snd (conn_step e c)"
  let ?s = "s\<lparr>clients := [?c], sent := sent s @ ?out\<rparr>"
  have "e \<in> {Ev_Eof, Ev_Read} \<or> (\<exists>bs. e = Ev_Bytes bs)" using Cons.prems(1) by (cases e) auto
  then have "server_step s ?s"
    using server_step.socket[of 0 s e ?c ?out] Cons.prems(3) by simp
  then have "server_reachable ?s" using Cons.prems(2) by (blast intro: reach_step)
  from Cons.IH[OF _ this, of ?c] Cons.prems(1) show ?case by (simp add: handle_client_Cons)
qed

section \<open>Properties\<close>

text \<open>C34: where the stream is cut does not matter. Whatever the segmentation of the
  client's bytes and whenever the connection is polled, as long as no delivery
  interrupts a read, the messages take effect exactly as if they had been handed over
  one by one: the same deliveries in the same order, the same subscriptions, the same
  output, and nothing left in the buffers.\<close>

theorem segmentation_irrelevant:
  assumes "list_all wf_wire ms" "list_all socket_event es" "arrived es = concat (map wire ms)"
  shows "handle_client (es @ replicate (length ms) Ev_Read) conn_start = serve_msgs ms conn_start"
proof -
  have start: "ready conn_start" "strip conn_start = conn_start"
    by (simp_all add: ready_def strip_def conn_start_def)
  let ?c = "fst (handle_client es conn_start)"
  obtain ms1 ms2 where run: "ms = ms1 @ ms2" "ready ?c"
    "strip ?c = fst (serve_msgs ms1 conn_start)"
    "snd (handle_client es conn_start) = snd (serve_msgs ms1 conn_start)"
    "in_flight ?c @ unread ?c = concat (map wire ms2)"
    using stream_run[OF start(1) assms(1,2), of "[]"] assms(3) start(2) by (auto simp: conn_start_def)
  have "list_all wf_wire ms2" "length ms2 \<le> length ms" using run(1) assms(1) by auto
  note dr = drain_run[OF run(2) this(1) run(5) this(2)]
  show ?thesis
    unfolding handle_client_append using dr run(1,3,4)
    by (simp add: serve_msgs_append)
qed

theorem segmentation_irrelevant_witness:
  "handle_client ([Ev_Bytes (as_bytes (lit ''SUB a 1'') @ [13]), Ev_Read,
      Ev_Bytes (10 # as_bytes (lit ''PUB a 2'') @ crlf @ [104]), Ev_Read, Ev_Bytes ([105] @ crlf)]
      @ replicate (length [Sub (lit ''a'') None (lit ''1''), Pub (lit ''a'') None 2 [104, 105]]) Ev_Read)
    conn_start
   = serve_msgs [Sub (lit ''a'') None (lit ''1''), Pub (lit ''a'') None 2 [104, 105]] conn_start"
proof (rule segmentation_irrelevant)
  have two: "show_u64 2 = lit ''2''" by (simp add: show_u64_def show_nat.simps lit_def)
  show "list_all wf_wire [Sub (lit ''a'') None (lit ''1''), Pub (lit ''a'') None 2 [104, 105]]"
    by (simp add: wf_wire_def two is_token_def lit_def is_whitespace_def wf_str_def is_scalar_def
        words_def MAX_PAYLOAD_def)
  show "arrived [Ev_Bytes (as_bytes (lit ''SUB a 1'') @ [13]), Ev_Read,
      Ev_Bytes (10 # as_bytes (lit ''PUB a 2'') @ crlf @ [104]), Ev_Read, Ev_Bytes ([105] @ crlf)] =
    concat (map wire [Sub (lit ''a'') None (lit ''1''), Pub (lit ''a'') None 2 [104, 105]])"
    by (simp add: wire_def two words_def lit_def crlf_def)
qed simp

text \<open>In every reachable state of the server, whatever the clients send and however
  the deliveries are interleaved or lost to lag, each delivery in the channel has a
  subject and reply that are single white-space-free words and a payload of at most
  \<^verbatim>\<open>MAX_PAYLOAD\<close> bytes, each connection's table is ordered and holds only such words,
  and no receiver is ahead of the channel; hence the frame written for a delivery and
  a subscription id decodes to that delivery and that id.\<close>

theorem server_frames_decode:
  assumes "server_reachable s" "c \<in> set (clients s)" "d \<in> set (sent s)"
    "sid \<in> set (router_matching (conn_router c) (subject d))"
  shows "parse_frame (write_msg d sid @ rest) = Some (d, sid, rest) \<and> delivery_wf d \<and>
    router_wf (conn_router c) \<and> length (cursors s) = length (clients s) \<and>
    list_all (\<lambda>k. k \<le> length (sent s)) (cursors s)"
proof -
  have wf: "server_wf s" using assms(1) by (rule server_reachable_wf)
  then have "conn_wf c" and d: "delivery_wf d"
    using assms(2,3) by (auto simp: server_wf_def list_all_iff)
  then have r: "router_wf (conn_router c)" and
    t: "\<And>sid p. (sid, p) \<in> set (subscriptions (conn_router c)) \<Longrightarrow> wire_token sid"
    by (auto simp: conn_wf_def list_all_iff)
  have "wire_token sid" using assms(4) t by (auto simp: router_matching_def)
  then show ?thesis using parse_frame_write_msg[OF d] wf d r by (simp add: server_wf_def)
qed

theorem server_frames_decode_witness:
  "\<exists>s c d. server_reachable s \<and> c \<in> set (clients s) \<and> d \<in> set (sent s) \<and> payload d = [104] \<and>
     parse_frame (write_msg d (lit ''1'') @ []) = Some (d, lit ''1'', [])"
proof -
  let ?ms = "[Sub (lit ''a'') None (lit ''1''), Pub (lit ''a'') None 1 [104]]"
  let ?d = "\<lparr>subject = lit ''a'', reply = None, payload = [104]\<rparr>"
  let ?es = "[Ev_Bytes (concat (map wire ?ms)), Ev_Read, Ev_Read]"
  let ?c = "conn_start\<lparr>conn_router := router_add (lit ''1'') (lit ''a'') router_new\<rparr>"
  have wf: "list_all wf_wire ?ms"
    by (simp add: wf_wire_def show_u64_def show_nat.simps is_token_def lit_def is_whitespace_def
        wf_str_def is_scalar_def words_def MAX_PAYLOAD_def)
  have "handle_client ?es conn_start = serve_msgs ?ms conn_start"
    using drain_run[of "conn_start\<lparr>unread := concat (map wire ?ms)\<rparr>" ?ms 2] wf
    by (simp add: handle_client_Cons[of "Ev_Bytes _"] ready_def conn_start_def strip_def numeral_2_eq_2
        prod_eq_iff)
  also have "\<dots> = (?c, [?d])" by (simp add: serve_msgs_Cons conn_start_def)
  finally have run: "handle_client ?es conn_start = (?c, [?d])" .
  let ?s0 = "server_start\<lparr>clients := [conn_start], cursors := [0]\<rparr>"
  have "server_step server_start ?s0"
    using server_step.accept[of server_start] by (simp add: server_start_def)
  then have "server_reachable ?s0" by (blast intro: reach_start reach_step)
  from server_reachable_run[OF _ this, of ?es conn_start] run
  have r: "server_reachable (?s0\<lparr>clients := [?c], sent := [?d]\<rparr>)"
    by (simp add: server_start_def)
  have "lit ''1'' \<in> set (router_matching (conn_router ?c) (subject ?d))"
    by (simp add: router_matching_def router_add_def router_new_def matches_def split_on_def
        lit_def tok_tail_def tok_any_def)
  with server_frames_decode[OF r, of ?c ?d "lit ''1''" "[]"] r show ?thesis
    by (intro exI[of _ "?s0\<lparr>clients := [?c], sent := [?d]\<rparr>"] exI[of _ ?c] exI[of _ ?d]) simp
qed

text \<open>C39: a read that \<^verbatim>\<open>select!\<close> cancels loses what it had taken. When a client message
  arrives in two segments and a delivery (or a lag notice) is received between them,
  the connection afterwards is the one that never got the first segment, apart from
  the frames written for the delivery.\<close>

theorem cancelled_read_loses_bytes:
  assumes "wf_wire m" "wire m = a @ b" "b \<noteq> []" "ready c" "in_flight c = []" "unread c = []"
    "r \<noteq> Recv_Closed"
  shows "handle_client [Ev_Bytes a, Ev_Read, Ev_Recv r] c = handle_client [Ev_Recv r] c"
proof -
  have "read_client_message a False = Pending" by (rule read_wire_prefix[OF assms(1-3)])
  with assms(4-7) show ?thesis
    by (cases r) (simp_all add: handle_client_Cons ready_def poll_read_def poll_recv_def Let_def)
qed

theorem cancelled_read_loses_bytes_witness:
  "handle_client [Ev_Bytes (as_bytes (lit ''PUB a 2'') @ crlf), Ev_Read, Ev_Recv (Recv_Lagged 1)] conn_start
     = handle_client [Ev_Recv (Recv_Lagged 1)] conn_start \<and>
   handle_client [Ev_Recv (Recv_Lagged 1), Ev_Bytes ([104, 105] @ crlf), Ev_Read] conn_start
     = (conn_start\<lparr>alive := False\<rparr>, [])"
proof
  have "wire (Pub (lit ''a'') None 2 [104, 105]) = (as_bytes (lit ''PUB a 2'') @ crlf) @ ([104, 105] @ crlf)"
    by (simp add: wire_def words_def show_u64_def show_nat.simps lit_def)
  moreover have "wf_wire (Pub (lit ''a'') None 2 [104, 105])"
    by (simp add: wf_wire_def show_u64_def show_nat.simps is_token_def lit_def is_whitespace_def
        wf_str_def is_scalar_def words_def MAX_PAYLOAD_def)
  ultimately show "handle_client [Ev_Bytes (as_bytes (lit ''PUB a 2'') @ crlf), Ev_Read,
      Ev_Recv (Recv_Lagged 1)] conn_start = handle_client [Ev_Recv (Recv_Lagged 1)] conn_start"
    by (intro cancelled_read_loses_bytes) (auto simp: ready_def conn_start_def crlf_def)
  have "decode_control_line (as_bytes (lit ''hi'') @ crlf) = Inr (lit ''hi'')"
    by (rule decode_line) (simp_all add: wf_str_def is_scalar_def lit_def)
  then have "decode_control_line [104, 105, 13, 10] = Inr (lit ''hi'')"
    by (simp add: lit_def encode_char_def byte_def crlf_def)
  moreover have "parse_line (lit ''hi'') = None"
    by (simp add: parse_line_def split_whitespace_def lit_def is_whitespace_def to_ascii_uppercase_def)
  ultimately show "handle_client [Ev_Recv (Recv_Lagged 1), Ev_Bytes ([104, 105] @ crlf), Ev_Read] conn_start
      = (conn_start\<lparr>alive := False\<rparr>, [])"
    by (simp add: handle_client_Cons poll_recv_def poll_read_def conn_start_def read_client_message_def
        read_until_def crlf_def Let_def)
qed

text \<open>A PUB that announces more than \<^verbatim>\<open>MAX_PAYLOAD\<close> bytes is refused as soon as its
  control line is complete, whatever follows it and without waiting for any payload.\<close>

theorem oversized_pub_refused:
  assumes "wf_msg (Pub s r n [])" "wf_str (client_line (Pub s r n []))" "MAX_PAYLOAD < n"
  shows "read_client_message (as_bytes (client_line (Pub s r n [])) @ crlf @ rest) eof
    = Ready (Inl Payload_exceeds_max)"
proof -
  let ?line = "client_line (Pub s r n [])"
  have "lf \<notin> set ?line"
    using words_no_lf[of "lit ''PUB'' # s # (case r of None \<Rightarrow> [] | Some r \<Rightarrow> [r]) @ [show_u64 n]"] assms(1)
    by (auto split: option.splits)
  then have lf: "10 \<notin> set (as_bytes ?line @ [13])" using assms(2) by (simp add: lf_as_bytes)
  have "read_until 10 (as_bytes ?line @ crlf @ rest) eof = Ready (as_bytes ?line @ crlf, rest)"
    using read_until_found[OF lf, of rest eof] by (simp add: crlf_def)
  moreover have "decode_control_line (as_bytes ?line @ crlf) = Inr ?line"
    using decode_line[OF assms(2)] client_line_last[OF assms(1)] by blast
  ultimately show ?thesis
    using parse_client_line[OF assms(1)] assms(3)
    by (simp add: read_client_message_def read_payload_def crlf_def del: client_line.simps)
qed

theorem oversized_pub_refused_witness:
  "read_client_message (as_bytes (client_line (Pub (lit ''a'') None 1048577 [])) @ crlf @ []) False
    = Ready (Inl Payload_exceeds_max)"
  by (rule oversized_pub_refused)
    (simp_all add: is_token_def lit_def is_whitespace_def wf_str_def is_scalar_def words_def
      show_u64_def show_nat.simps MAX_PAYLOAD_def)

end
