(* ===== verification/Nats_Exchange.thy ===== *)
theory Nats_Exchange
  imports Nats_Server_Props
begin

text \<open>
  The embedded server with several clients: an executable scheduler for the step relation
  of \<^verbatim>\<open>serve\<close>, and what one client publishes reaching another. Each operation of the
  scheduler is a run of the relation, so what it computes is a behaviour of the server.
\<close>

section \<open>Scheduled steps\<close>

definition srv_accept :: "server \<Rightarrow> server" where
  "srv_accept s = s\<lparr>clients := clients s @ [conn_start], cursors := cursors s @ [length (sent s)]\<rparr>"

definition srv_socket :: "nat \<Rightarrow> event \<Rightarrow> server \<Rightarrow> server" where
  "srv_socket i e s =
     (let (c, out) = conn_step e (clients s ! i)
      in s\<lparr>clients := (clients s)[i := c], sent := sent s @ out\<rparr>)"

definition srv_receive :: "nat \<Rightarrow> server \<Rightarrow> server" where
  "srv_receive i s =
     (let k = cursors s ! i; n = length (sent s)
      in if n \<le> k then s
         else if n - k \<le> CHANNEL_CAPACITY then
           s\<lparr>clients := (clients s)[i := fst (conn_step (Ev_Recv (Recv_Ok (sent s ! k))) (clients s ! i))],
             cursors := (cursors s)[i := Suc k]\<rparr>
         else
           s\<lparr>clients := (clients s)[i :=
               fst (conn_step (Ev_Recv (Recv_Lagged (n - CHANNEL_CAPACITY - k))) (clients s ! i))],
             cursors := (cursors s)[i := n - CHANNEL_CAPACITY]\<rparr>)"

text \<open>Bytes arrive and the connection is polled once for every line end among them; a
  receiver is run until it has caught up with the channel.\<close>

definition srv_write :: "nat \<Rightarrow> bytes \<Rightarrow> server \<Rightarrow> server" where
  "srv_write i bs s = fold (srv_socket i) (Ev_Bytes bs # replicate (count_list bs 10) Ev_Read) s"

definition srv_drain :: "nat \<Rightarrow> server \<Rightarrow> server" where
  "srv_drain i s = (srv_receive i ^^ (length (sent s) - cursors s ! i)) s"

section \<open>Runs of the relation\<close>

abbreviation server_run :: "server \<Rightarrow> server \<Rightarrow> bool" where
  "server_run \<equiv> server_step\<^sup>*\<^sup>*"

lemma srv_accept_run: "server_run s (srv_accept s)"
  unfolding srv_accept_def by (intro r_into_rtranclp server_step.accept)

lemma srv_socket_run:
  assumes "i < length (clients s)" "\<And>r. e \<noteq> Ev_Recv r"
  shows "server_run s (srv_socket i e s)"
proof -
  obtain c out where st: "conn_step e (clients s ! i) = (c, out)" by fastforce
  have "e \<in> {Ev_Eof, Ev_Read} \<or> (\<exists>bs. e = Ev_Bytes bs)" using assms(2) by (cases e) auto
  from server_step.socket[OF assms(1) this st] show ?thesis by (simp add: srv_socket_def st)
qed

lemma srv_receive_run: "i < length (clients s) \<Longrightarrow> server_run s (srv_receive i s)"
proof -
  assume i: "i < length (clients s)"
  let ?k = "cursors s ! i" and ?n = "length (sent s)"
  consider "?n \<le> ?k" | "?k < ?n" "?n - ?k \<le> CHANNEL_CAPACITY" | "?k < ?n" "CHANNEL_CAPACITY < ?n - ?k"
    by linarith
  then show ?thesis
  proof cases
    case 1
    then show ?thesis by (simp add: srv_receive_def Let_def)
  next
    case 2
    from server_step.receive[OF i this prod.collapse[symmetric]] 2 show ?thesis
      by (simp add: srv_receive_def Let_def)
  next
    case 3
    from server_step.lagged[OF i 3(2) prod.collapse[symmetric]] 3 show ?thesis
      by (simp add: srv_receive_def Let_def)
  qed
qed

lemma srv_socket_length [simp]:
  "length (clients (srv_socket i e s)) = length (clients s)" "cursors (srv_socket i e s) = cursors s"
  by (simp_all add: srv_socket_def split: prod.splits)

lemma srv_receive_length [simp]: "length (clients (srv_receive i s)) = length (clients s)"
  by (simp add: srv_receive_def Let_def)

lemma srv_fold_run:
  "i < length (clients s) \<Longrightarrow> list_all socket_event es \<Longrightarrow> server_run s (fold (srv_socket i) es s)"
proof (induction es arbitrary: s)
  case (Cons e es)
  then have "server_run s (srv_socket i e s)" by (intro srv_socket_run) auto
  also have "server_run (srv_socket i e s) (fold (srv_socket i) es (srv_socket i e s))"
    using Cons by simp
  finally show ?case by simp
qed simp

lemma list_all_replicate_read: "list_all socket_event (replicate n Ev_Read)"
  by (simp add: list_all_iff)

lemma srv_write_length [simp]: "length (clients (srv_write i bs s)) = length (clients s)"
proof -
  have "length (clients (fold (srv_socket i) es s)) = length (clients s)" for es
    by (induction es arbitrary: s) simp_all
  then show ?thesis unfolding srv_write_def .
qed

lemma srv_write_run: "i < length (clients s) \<Longrightarrow> server_run s (srv_write i bs s)"
  unfolding srv_write_def by (rule srv_fold_run) (simp_all add: list_all_replicate_read)

lemma srv_drain_run: "i < length (clients s) \<Longrightarrow> server_run s (srv_drain i s)"
proof -
  have "i < length (clients s) \<Longrightarrow>
    server_run s ((srv_receive i ^^ n) s) \<and> length (clients ((srv_receive i ^^ n) s)) = length (clients s)" for n
  proof (induction n)
    case (Suc n)
    then show ?case using srv_receive_run[of i "(srv_receive i ^^ n) s"] by (auto intro: rtranclp_trans)
  qed simp
  then show "i < length (clients s) \<Longrightarrow> server_run s (srv_drain i s)" unfolding srv_drain_def by blast
qed

lemma server_run_reachable: "server_run s t \<Longrightarrow> server_reachable s \<Longrightarrow> server_reachable t"
  by (induction rule: rtranclp_induct) (auto intro: reach_step)

section \<open>Whole messages\<close>

lemma srv_fold_client:
  "i < length (clients s) \<Longrightarrow>
     fold (srv_socket i) es s =
       s\<lparr>clients := (clients s)[i := fst (handle_client es (clients s ! i))],
         sent := sent s @ snd (handle_client es (clients s ! i))\<rparr>"
proof (induction es arbitrary: s)
  case (Cons e es)
  then show ?case by (simp add: handle_client_Cons) (simp add: srv_socket_def split: prod.splits)
qed simp

lemma wire_lf: "1 \<le> count_list (wire m) 10"
  by (simp add: wire_def crlf_def count_list_append)

lemma wires_lf: "length ms \<le> count_list (concat (map wire ms)) 10"
proof (induction ms)
  case (Cons m ms)
  then show ?case using wire_lf[of m] by (simp add: count_list_append)
qed simp

text \<open>Writing the wire form of messages to a connection with nothing pending serves them.\<close>

lemma srv_write_wire:
  assumes "i < length (clients s)" "ready (clients s ! i)" "list_all wf_wire ms"
    "in_flight (clients s ! i) = []" "unread (clients s ! i) = []"
  shows "srv_write i (concat (map wire ms)) s =
    s\<lparr>clients := (clients s)[i := fst (serve_msgs ms (clients s ! i))],
      sent := sent s @ snd (serve_msgs ms (clients s ! i))\<rparr>"
proof -
  let ?c = "clients s ! i" and ?bs = "concat (map wire ms)"
  have "strip (?c\<lparr>unread := ?bs\<rparr>) = ?c" using assms(4,5) by (simp add: strip_def)
  with drain_run[of "?c\<lparr>unread := ?bs\<rparr>" ms "count_list ?bs 10"] assms wires_lf[of ms]
  have "handle_client (Ev_Bytes ?bs # replicate (count_list ?bs 10) Ev_Read) ?c = serve_msgs ms ?c"
    by (simp add: handle_client_Cons ready_def prod_eq_iff)
  then show ?thesis unfolding srv_write_def srv_fold_client[OF assms(1)] by simp
qed

text \<open>The frames a receiver writes for a run of deliveries.\<close>

definition frames :: "router \<Rightarrow> delivery list \<Rightarrow> bytes" where
  "frames r ds = concat (map (\<lambda>d. concat (map (write_msg d) (router_matching r (subject d)))) ds)"

lemma frames_simps [simp]:
  "frames r [] = []"
  "frames r (d # ds) = concat (map (write_msg d) (router_matching r (subject d))) @ frames r ds"
  by (simp_all add: frames_def)

lemma srv_receive_ok:
  assumes "i < length (clients s)" "i < length (cursors s)" "alive (clients s ! i)" "in_flight (clients s ! i) = []"
    "drop (cursors s ! i) (sent s) = d # ds" "length (d # ds) \<le> CHANNEL_CAPACITY"
  shows "srv_receive i s =
    s\<lparr>clients := (clients s)[i := (clients s ! i)\<lparr>written := written (clients s ! i) @
          frames (conn_router (clients s ! i)) [d]\<rparr>],
      cursors := (cursors s)[i := Suc (cursors s ! i)]\<rparr>"
proof -
  let ?k = "cursors s ! i"
  have len: "length (sent s) - ?k = length (d # ds)" using arg_cong[OF assms(5), of length] by simp
  then have "\<not> length (sent s) \<le> ?k" by auto
  moreover have "sent s ! ?k = d" using assms(5) len by (metis calculation hd_drop_conv_nth list.sel(1) not_le)
  ultimately show ?thesis using assms len
    by (simp add: srv_receive_def Let_def poll_recv_def) (cases "clients s ! i", simp)
qed

lemma srv_drain_frames:
  assumes "i < length (clients s)" "i < length (cursors s)" "alive (clients s ! i)" "in_flight (clients s ! i) = []"
    "drop (cursors s ! i) (sent s) = ds" "length ds \<le> CHANNEL_CAPACITY" "cursors s ! i \<le> length (sent s)"
  shows "srv_drain i s =
    s\<lparr>clients := (clients s)[i := (clients s ! i)\<lparr>written := written (clients s ! i) @
          frames (conn_router (clients s ! i)) ds\<rparr>],
      cursors := (cursors s)[i := length (sent s)]\<rparr>"
proof -
  have "(srv_receive i ^^ length ds) s =
    s\<lparr>clients := (clients s)[i := (clients s ! i)\<lparr>written := written (clients s ! i) @
          frames (conn_router (clients s ! i)) ds\<rparr>],
      cursors := (cursors s)[i := cursors s ! i + length ds]\<rparr>"
    using assms
  proof (induction ds arbitrary: s)
    case Nil
    then show ?case by simp
  next
    case (Cons d ds)
    note step = srv_receive_ok[OF Cons.prems(1-6)]
    let ?t = "srv_receive i s"
    have "drop (Suc (cursors s ! i)) (sent s) = ds"
      using Cons.prems(5) by (metis drop_Suc list.sel(3) tl_drop)
    moreover have "Suc (cursors s ! i) \<le> length (sent s)"
      using arg_cong[OF Cons.prems(5), of length] by simp
    ultimately have "(srv_receive i ^^ length ds) ?t =
      ?t\<lparr>clients := (clients ?t)[i := (clients ?t ! i)\<lparr>written := written (clients ?t ! i) @
          frames (conn_router (clients ?t ! i)) ds\<rparr>],
        cursors := (cursors ?t)[i := cursors ?t ! i + length ds]\<rparr>"
      using Cons.prems by (intro Cons.IH) (simp_all add: step)
    then show ?case using Cons.prems(1,2) by (simp add: funpow_swap1 step)
  qed
  moreover have "length (sent s) - cursors s ! i = length ds" using arg_cong[OF assms(5), of length] by simp
  moreover from this assms(7) have "cursors s ! i + length ds = length (sent s)" by simp
  ultimately show ?thesis by (simp add: srv_drain_def)
qed

section \<open>Publish and subscribe\<close>

definition caught_up :: "server \<Rightarrow> nat \<Rightarrow> bool" where
  "caught_up s i \<longleftrightarrow> i < length (clients s) \<and> cursors s ! i = length (sent s) \<and>
     ready (clients s ! i) \<and> in_flight (clients s ! i) = [] \<and> unread (clients s ! i) = []"

lemma publish_reaches_subscriber':
  assumes "server_wf s" "caught_up s i" "caught_up s j" "i \<noteq> j" "list_all wf_wire ms"
    "length (snd (serve_msgs ms (clients s ! j))) \<le> CHANNEL_CAPACITY"
  defines "ds \<equiv> snd (serve_msgs ms (clients s ! j))"
  shows "srv_drain i (srv_write j (concat (map wire ms)) s) =
    s\<lparr>clients := (clients s)[j := fst (serve_msgs ms (clients s ! j)),
        i := (clients s ! i)\<lparr>written := written (clients s ! i) @ frames (conn_router (clients s ! i)) ds\<rparr>],
      cursors := (cursors s)[i := length (sent s) + length ds], sent := sent s @ ds\<rparr>"
proof -
  have len: "length (cursors s) = length (clients s)" using assms(1) by (simp add: server_wf_def)
  have "srv_write j (concat (map wire ms)) s =
      s\<lparr>clients := (clients s)[j := fst (serve_msgs ms (clients s ! j))], sent := sent s @ ds\<rparr>"
    unfolding ds_def using assms(3,5) by (intro srv_write_wire) (auto simp: caught_up_def)
  then show ?thesis using assms(2,3,4,6) len
    by (simp add: caught_up_def ready_def ds_def srv_drain_frames)
qed

text \<open>C27: what a client publishes reaches the other subscribers. From any reachable state of
  the server, when a client with nothing pending sends any messages (of which at most
  1024 are publications), the server has a run after which another client that was up to
  date has been written, behind what it already had, exactly the frames of those
  publications that match its subscriptions, in the order of publication and with one
  frame for each matching subscription.\<close>

theorem publish_reaches_subscriber:
  assumes "server_reachable s" "caught_up s i" "caught_up s j" "i \<noteq> j" "list_all wf_wire ms"
    "length (snd (serve_msgs ms (clients s ! j))) \<le> 1024"
  shows "\<exists>t. server_step\<^sup>*\<^sup>* s t \<and> caught_up t i \<and>
    sent t = sent s @ snd (serve_msgs ms (clients s ! j)) \<and>
    written (clients t ! i) = written (clients s ! i) @
      frames (conn_router (clients s ! i)) (snd (serve_msgs ms (clients s ! j)))"
proof -
  let ?t = "srv_drain i (srv_write j (concat (map wire ms)) s)"
  have wf: "server_wf s" using assms(1) by (rule server_reachable_wf)
  have cap: "length (snd (serve_msgs ms (clients s ! j))) \<le> CHANNEL_CAPACITY"
    using assms(6) by (simp add: CHANNEL_CAPACITY_def)
  note t = publish_reaches_subscriber'[OF wf assms(2-5) cap]
  have i: "i < length (clients s)" "j < length (clients s)" "i < length (cursors s)"
    using assms(2,3) wf by (auto simp: caught_up_def server_wf_def)
  have "server_run s ?t"
    using srv_write_run[OF i(2)] srv_drain_run[of i "srv_write j (concat (map wire ms)) s"] i(1)
    by (auto intro: rtranclp_trans)
  then show ?thesis using assms(2) i by (intro exI[of _ ?t]) (simp add: t caught_up_def ready_def)
qed

section \<open>An exchange\<close>

text \<open>A server with two clients, the first of which has subscribed; the second publishes.\<close>

definition demo_sub :: client_msg where
  "demo_sub = Sub (lit ''event.demo.>'') None (lit ''1'')"

definition demo_pub :: client_msg where
  "demo_pub = Pub (lit ''event.demo.Hello.created'') None 5 (as_bytes (lit ''hello''))"

definition demo_exchange :: server where
  "demo_exchange = srv_accept (srv_write 0 (wire demo_sub) (srv_accept server_start))"

lemmas wf_wire_eval = wf_wire_def show_u64_def show_nat.simps is_token_def lit_def is_whitespace_def
  wf_str_def is_scalar_def words_def MAX_PAYLOAD_def

lemma demo_wf_wire: "wf_wire demo_sub" "wf_wire demo_pub"
  by (simp_all add: demo_sub_def demo_pub_def wf_wire_eval encode_char_def)

lemma demo_exchange_eq:
  "demo_exchange = \<lparr>clients = [conn_start\<lparr>conn_router := router_add (lit ''1'') (lit ''event.demo.>'') router_new\<rparr>,
     conn_start], cursors = [0, 0], sent = []\<rparr>"
  using srv_write_wire[of 0 "srv_accept server_start" "[demo_sub]"] demo_wf_wire(1)
  by (simp add: demo_exchange_def srv_accept_def server_start_def ready_def conn_start_def demo_sub_def
      serve_msgs_Cons)

lemma demo_exchange_reachable: "server_reachable demo_exchange"
proof -
  have "server_run server_start demo_exchange"
    unfolding demo_exchange_def
    by (intro rtranclp_trans[OF _ srv_accept_run] rtranclp_trans[OF _ srv_write_run] rtranclp.rtrancl_refl)
      (simp add: srv_accept_def)
  then show ?thesis by (rule server_run_reachable) (rule reach_start)
qed

theorem publish_reaches_subscriber_witness:
  "\<exists>t. server_step\<^sup>*\<^sup>* demo_exchange t \<and>
     written (clients t ! 0) = INFO @ as_bytes (lit ''MSG event.demo.Hello.created 1 5'') @ crlf @
       as_bytes (lit ''hello'') @ crlf"
proof -
  have up: "caught_up demo_exchange 0" "caught_up demo_exchange 1"
    by (simp_all add: caught_up_def demo_exchange_eq ready_def conn_start_def)
  have s: "serve_msgs [demo_pub] conn_start =
      (conn_start, [\<lparr>subject = lit ''event.demo.Hello.created'', reply = None, payload = as_bytes (lit ''hello'')\<rparr>])"
    by (simp add: serve_msgs_Cons demo_pub_def)
  have f: "frames (router_add (lit ''1'') (lit ''event.demo.>'') router_new)
      [\<lparr>subject = lit ''event.demo.Hello.created'', reply = None, payload = as_bytes (lit ''hello'')\<rparr>] =
    as_bytes (lit ''MSG event.demo.Hello.created 1 5'') @ crlf @ as_bytes (lit ''hello'') @ crlf"
    by (simp add: router_matching_def router_add_def router_new_def matches_def split_on_def
        lit_def tok_tail_def tok_any_def write_msg_def show_nat.simps as_bytes_crlf[symmetric] encode_char_def)
  have at: "clients demo_exchange ! 1 = conn_start" "written (clients demo_exchange ! 0) = INFO"
    "conn_router (clients demo_exchange ! 0) = router_add (lit ''1'') (lit ''event.demo.>'') router_new"
    by (simp_all add: demo_exchange_eq conn_start_def)
  have "\<exists>t. server_step\<^sup>*\<^sup>* demo_exchange t \<and> caught_up t 0 \<and>
      sent t = sent demo_exchange @ snd (serve_msgs [demo_pub] (clients demo_exchange ! 1)) \<and>
      written (clients t ! 0) = written (clients demo_exchange ! 0) @
        frames (conn_router (clients demo_exchange ! 0)) (snd (serve_msgs [demo_pub] (clients demo_exchange ! 1)))"
    by (rule publish_reaches_subscriber[OF demo_exchange_reachable up]) (simp_all add: demo_wf_wire at(1)[simplified] s)
  then show ?thesis unfolding at s snd_conv f by blast
qed

end
