(* ===== verification/Rust_Sync.thy ===== *)
theory Rust_Sync
  imports Rust_Std
begin

text \<open>
  What the extension uses of Rust's synchronisation primitives: \<^verbatim>\<open>OnceLock\<close>, the
  poisonable locks \<^verbatim>\<open>Mutex\<close> and \<^verbatim>\<open>RwLock\<close>, and the bounded
  \<^verbatim>\<open>mpsc::sync_channel\<close>. Two interfaces are stated as locales and discharged for
  them: a cell that is initialised at most once, and a bounded first-in first-out
  buffer.
\<close>

section \<open>OnceLock\<close>

type_synonym 'a once_lock = "'a option"

definition once_get :: "'a once_lock \<Rightarrow> 'a option" where
  "once_get c = c"

text \<open>\<^verbatim>\<open>set\<close> returns whether it succeeded.\<close>

definition once_set :: "'a \<Rightarrow> 'a once_lock \<Rightarrow> bool \<times> 'a once_lock" where
  "once_set v c = (case c of None \<Rightarrow> (True, Some v) | Some _ \<Rightarrow> (False, c))"

text \<open>\<^verbatim>\<open>get_or_init\<close> with an initialiser that may act on the rest of the state.\<close>

definition once_get_or_init :: "('s \<Rightarrow> 'a \<times> 's) \<Rightarrow> 'a once_lock \<times> 's \<Rightarrow> 'a once_lock \<times> 's" where
  "once_get_or_init f cs =
     (case cs of
        (Some v, s) \<Rightarrow> (Some v, s)
      | (None, s) \<Rightarrow> (let (v, s') = f s in (Some v, s')))"

locale latch =
  fixes is_set :: "'c \<Rightarrow> bool"
    and run :: "('s \<Rightarrow> 'a \<times> 's) \<Rightarrow> 'c \<times> 's \<Rightarrow> 'c \<times> 's"
  assumes run_sets: "is_set (fst (run f (c, s)))"
    and run_again: "is_set c \<Longrightarrow> run f (c, s) = (c, s)"
begin

lemma runs_once: "run g (run f (c, s)) = run f (c, s)"
  using run_again[OF run_sets, of g f c s "snd (run f (c, s))"] by simp

lemma later_inits_ignored: "is_set c \<Longrightarrow> fold run fs (c, s) = (c, s)"
  by (induction fs) (simp_all add: run_again)

lemma first_init_wins: "fold run (f # fs) (c, s) = run f (c, s)"
proof -
  obtain c' s' where r: "run f (c, s) = (c', s')" by fastforce
  then have "is_set c'" using run_sets[of f c s] by simp
  with r show ?thesis by (simp add: later_inits_ignored)
qed

end

interpretation once: latch "\<lambda>c. once_get c \<noteq> None" once_get_or_init
  by unfold_locales (auto simp: once_get_def once_get_or_init_def split: option.splits prod.splits)

section \<open>Locks\<close>

text \<open>A lock is poisoned when a thread panicked while it held it; the sources read and
  write only through \<^verbatim>\<open>if let Ok(\<dots>)\<close> or a fallback.\<close>

datatype 'a lock = Healthy 'a | Poisoned 'a

fun lock_read :: "'a lock \<Rightarrow> 'a option" where
  "lock_read (Healthy x) = Some x"
| "lock_read (Poisoned _) = None"

fun lock_write :: "'a \<Rightarrow> 'a lock \<Rightarrow> 'a lock" where
  "lock_write v (Healthy _) = Healthy v"
| "lock_write v (Poisoned x) = Poisoned x"

fun healthy :: "'a lock \<Rightarrow> bool" where
  "healthy (Healthy _) \<longleftrightarrow> True"
| "healthy (Poisoned _) \<longleftrightarrow> False"

lemma lock_read_write: "healthy l \<Longrightarrow> lock_read (lock_write v l) = Some v"
  by (cases l) simp_all

lemma healthy_write [simp]: "healthy (lock_write v l) \<longleftrightarrow> healthy l"
  by (cases l) simp_all

lemma lock_read_None: "lock_read l = None \<longleftrightarrow> \<not> healthy l"
  by (cases l) simp_all

section \<open>Bounded buffers\<close>

locale bounded_fifo =
  fixes cap :: nat
    and contents :: "'q \<Rightarrow> 'a list"
    and push :: "'a \<Rightarrow> 'q \<Rightarrow> 'q"
  assumes push_room: "length (contents q) < cap \<Longrightarrow> contents (push x q) = contents q @ [x]"
    and push_full: "length (contents q) \<ge> cap \<Longrightarrow> contents (push x q) = contents q"
begin

lemma push_bounded: "length (contents q) \<le> cap \<Longrightarrow> length (contents (push x q)) \<le> cap"
  by (cases "length (contents q) < cap") (simp_all add: push_room push_full)

lemma pushes_keep_prefix:
  "length (contents q) \<le> cap \<Longrightarrow>
     contents (fold push xs q) = contents q @ take (cap - length (contents q)) xs"
proof (induction xs arbitrary: q)
  case (Cons x xs)
  then show ?case
  proof (cases "length (contents q) < cap")
    case True
    then have "length (contents (push x q)) \<le> cap" by (simp add: push_room)
    from Cons.IH[OF this] True show ?thesis
      by (simp add: push_room) (metis Suc_diff_Suc take_Suc_Cons)
  next
    case False
    then show ?thesis using Cons.IH[of "push x q"] Cons.prems by (simp add: push_full)
  qed
qed simp

end

section \<open>The bounded channel\<close>

record 'a sync_channel =
  chan_items :: "'a list"
  chan_bound :: nat
  rx_alive :: bool

definition sync_channel_new :: "nat \<Rightarrow> 'a sync_channel" where
  "sync_channel_new n = \<lparr>chan_items = [], chan_bound = n, rx_alive = True\<rparr>"

text \<open>\<^verbatim>\<open>SyncSender::send\<close>: an error when the receiver is gone, otherwise it waits for
  room; \<open>Would_Block\<close> is the state in which the calling thread waits.\<close>

datatype 'q send_result = Sent 'q | Disconnected | Would_Block

definition chan_send :: "'a \<Rightarrow> 'a sync_channel \<Rightarrow> 'a sync_channel send_result" where
  "chan_send x ch =
     (if \<not> rx_alive ch then Disconnected
      else if length (chan_items ch) < chan_bound ch
      then Sent (ch\<lparr>chan_items := chan_items ch @ [x]\<rparr>)
      else Would_Block)"

definition chan_recv :: "'a sync_channel \<Rightarrow> ('a \<times> 'a sync_channel) option" where
  "chan_recv ch =
     (case chan_items ch of [] \<Rightarrow> None | x # xs \<Rightarrow> Some (x, ch\<lparr>chan_items := xs\<rparr>))"

definition chan_wf :: "'a sync_channel \<Rightarrow> bool" where
  "chan_wf ch \<longleftrightarrow> length (chan_items ch) \<le> chan_bound ch"

lemma chan_wf_new [inv_intros, simp]: "chan_wf (sync_channel_new n)"
  by (simp add: chan_wf_def sync_channel_new_def)

lemma chan_wf_send [inv_intros]: "chan_wf ch \<Longrightarrow> chan_send x ch = Sent ch' \<Longrightarrow> chan_wf ch'"
  by (auto simp: chan_wf_def chan_send_def split: if_splits)

lemma chan_wf_recv [inv_intros]: "chan_wf ch \<Longrightarrow> chan_recv ch = Some (x, ch') \<Longrightarrow> chan_wf ch'"
  by (auto simp: chan_wf_def chan_recv_def split: list.splits)

lemma chan_send_Sent [ok_iff]:
  "chan_send x ch = Sent ch' \<longleftrightarrow> rx_alive ch \<and> length (chan_items ch) < chan_bound ch \<and>
     ch' = ch\<lparr>chan_items := chan_items ch @ [x]\<rparr>"
  by (auto simp: chan_send_def)

lemma chan_send_blocks:
  "chan_send x ch = Would_Block \<longleftrightarrow> rx_alive ch \<and> chan_bound ch \<le> length (chan_items ch)"
  by (auto simp: chan_send_def)

lemma chan_recv_Some [ok_iff]:
  "chan_recv ch = Some (x, ch') \<longleftrightarrow> (\<exists>xs. chan_items ch = x # xs \<and> ch' = ch\<lparr>chan_items := xs\<rparr>)"
  by (auto simp: chan_recv_def split: list.splits)

end
