(* ===== verification/Nats_Client.thy ===== *)
theory Nats_Client
  imports Rust_Utf8 Rust_Sync
begin

text \<open>
  \<^verbatim>\<open>src/src/nats_client.rs\<close>, the publishing half: the command channel between the
  worker and the client thread, the once-only start of the two threads, dialing with
  back-off, the client thread's handling of a command, and the routing of an inbound
  subject. The \<^verbatim>\<open>async_nats\<close> crate (server addresses, header maps) is the record
  \<open>nats_libs\<close>; what the broker answers is an argument.
\<close>

section \<open>The async_nats crate\<close>

record ('hm, 'addr) nats_libs =
  addr_parse :: "str \<Rightarrow> 'addr option"
  addr_username :: "'addr \<Rightarrow> str option"
  addr_password :: "'addr \<Rightarrow> str option"
  hm_new :: 'hm
  hm_append :: "str \<Rightarrow> str \<Rightarrow> 'hm \<Rightarrow> 'hm"
  hm_get :: "str \<Rightarrow> 'hm \<Rightarrow> str option"

text \<open>Documented behaviour of the header map: a fresh one has no value, and looking a name
  up gives the first value appended under it.\<close>

definition header_laws :: "('hm, 'addr, 'm) nats_libs_scheme \<Rightarrow> bool" where
  "header_laws N \<longleftrightarrow>
     (\<forall>k. hm_get N k (hm_new N) = None) \<and>
     (\<forall>k k' v h. hm_get N k (hm_append N k' v h) =
        (if k = k' \<and> hm_get N k h = None then Some v else hm_get N k h))"

section \<open>Commands and the channel\<close>

type_synonym headers = "(str \<times> str) list"

datatype cmd =
    Publish (cmd_subject: str) (cmd_payload: bytes) (cmd_headers: headers)
  | PublishJs (cmd_subject: str) (cmd_payload: bytes) (cmd_headers: headers)

type_synonym client_cell = "cmd sync_channel once_lock"

record client_statics =
  CLIENT :: client_cell
  RELAY_STARTED :: "unit once_lock"

definition client_statics_init :: client_statics where
  "client_statics_init = \<lparr>CLIENT = None, RELAY_STARTED = None\<rparr>"

definition CLIENT_BOUND :: nat where
  "CLIENT_BOUND = 1024"

text \<open>The threads that are spawned.\<close>

datatype 'ctx thread = Client_Thread str "str option" | Relay_Thread str "'ctx option"

definition init :: "str \<Rightarrow> str option \<Rightarrow> client_statics \<Rightarrow> client_statics \<times> 'ctx thread list" where
  "init url js_stream st =
     (if once_get (CLIENT st) \<noteq> None then (st, [])
      else let (ok, cell) = once_set (sync_channel_new CLIENT_BOUND) (CLIENT st)
           in if \<not> ok then (st, []) else (st\<lparr>CLIENT := cell\<rparr>, [Client_Thread url js_stream]))"

definition init_relay :: "str \<Rightarrow> 'ctx option \<Rightarrow> client_statics \<Rightarrow> client_statics \<times> 'ctx thread list" where
  "init_relay url callout st =
     (if once_get (RELAY_STARTED st) \<noteq> None then (st, [])
      else let (ok, cell) = once_set () (RELAY_STARTED st)
           in if \<not> ok then (st, []) else (st\<lparr>RELAY_STARTED := cell\<rparr>, [Relay_Thread url callout]))"

datatype publish_outcome = Enqueued client_cell | Publish_Error str | Publish_Waits

definition NOT_INITIALISED :: str where
  "NOT_INITIALISED = lit ''nats client not initialised''"

definition SEND_ERROR :: str where
  "SEND_ERROR = lit ''sending on a closed channel''"

definition enqueue_cmd :: "str \<Rightarrow> cmd \<Rightarrow> client_cell \<Rightarrow> publish_outcome" where
  "enqueue_cmd what c cell =
     (case once_get cell of
        None \<Rightarrow> Publish_Error NOT_INITIALISED
      | Some ch \<Rightarrow>
          (case chan_send c ch of
             Sent ch' \<Rightarrow> Enqueued (Some ch')
           | Disconnected \<Rightarrow> Publish_Error (what @ lit '' enqueue failed: '' @ SEND_ERROR)
           | Would_Block \<Rightarrow> Publish_Waits))"

definition publish :: "str \<Rightarrow> bytes \<Rightarrow> headers \<Rightarrow> client_cell \<Rightarrow> publish_outcome" where
  "publish subject payload hs cell = enqueue_cmd (lit ''nats publish'') (Publish subject payload hs) cell"

definition publish_js :: "str \<Rightarrow> bytes \<Rightarrow> headers \<Rightarrow> client_cell \<Rightarrow> publish_outcome" where
  "publish_js subject payload hs cell = enqueue_cmd (lit ''js publish'') (PublishJs subject payload hs) cell"

text \<open>A call of one of the two, as a value.\<close>

fun publish_call :: "cmd \<Rightarrow> client_cell \<Rightarrow> publish_outcome" where
  "publish_call (Publish s p h) cell = publish s p h cell"
| "publish_call (PublishJs s p h) cell = publish_js s p h cell"

section \<open>Subjects\<close>

definition RELAY_IN_SUBJECT :: str where
  "RELAY_IN_SUBJECT = lit ''input.kernel.*.action.>''"

definition RELAY_IN_PREFIX :: str where
  "RELAY_IN_PREFIX = lit ''input.kernel.pgCK.action.''"

definition RELAY_OUT_PREFIX :: str where
  "RELAY_OUT_PREFIX = lit ''event.kernel.pgCK.''"

definition RELAY_ID_SUBJECT :: str where
  "RELAY_ID_SUBJECT = lit ''input.kernel.*.id.*.action.>''"

definition CALLOUT_SUBJECT :: str where
  "CALLOUT_SUBJECT = lit ''$SYS.REQ.USER.AUTH''"

definition relay_subject :: "str \<Rightarrow> str option" where
  "relay_subject inbound = map_option (\<lambda>verb. RELAY_OUT_PREFIX @ verb) (strip_prefix RELAY_IN_PREFIX inbound)"

record routed_inbound =
  r_kernel :: str
  r_identity :: "str option"
  r_verb :: str
  r_result_subject :: str

definition route_inbound :: "str \<Rightarrow> routed_inbound option" where
  "route_inbound subject =
     Option.bind (strip_prefix (lit ''input.kernel.'') subject) (\<lambda>rest.
     Option.bind (split_once dot rest) (\<lambda>(kernel, after).
       if kernel = [] then None
       else Option.bind
         (case strip_prefix (lit ''id.'') after of
            Some scoped \<Rightarrow>
              Option.bind (split_once dot scoped) (\<lambda>(sub, tail).
                if sub = [] then None
                else map_option (\<lambda>verb. (Some sub, verb)) (strip_prefix (lit ''action.'') tail))
          | None \<Rightarrow> map_option (\<lambda>verb. (None, verb)) (strip_prefix (lit ''action.'') after))
         (\<lambda>(identity, verb).
            if verb = [] then None
            else Some \<lparr>r_kernel = kernel, r_identity = identity, r_verb = verb,
                       r_result_subject = lit ''result.kernel.'' @ kernel @ dot # verb\<rparr>)))"

section \<open>Headers\<close>

definition trace_headers :: "('hm, 'addr, 'm) nats_libs_scheme \<Rightarrow> 'hm \<Rightarrow> headers" where
  "trace_headers N h =
     fold (\<lambda>key out. case hm_get N key h of Some v \<Rightarrow> out @ [(key, v)] | None \<Rightarrow> out)
       [lit ''Trace-Id'', lit ''Ck-Seq''] []"

definition build_headers :: "('hm, 'addr, 'm) nats_libs_scheme \<Rightarrow> headers \<Rightarrow> 'hm" where
  "build_headers N pairs = fold (\<lambda>(name, value) hm. hm_append N name value hm) pairs (hm_new N)"

section \<open>Dialing\<close>

definition url_credentials :: "('hm, 'addr, 'm) nats_libs_scheme \<Rightarrow> str \<Rightarrow> (str \<times> str) option" where
  "url_credentials N url =
     Option.bind (addr_parse N url) (\<lambda>addr.
       case (addr_username N addr, addr_password N addr) of
         (Some user, Some pass) \<Rightarrow> if user \<noteq> [] then Some (user, pass) else None
       | _ \<Rightarrow> None)"

text \<open>The loop of \<^verbatim>\<open>connect_with_retry\<close> over what the broker answers to each attempt; a
  failed attempt is logged with the seconds slept before the next one. The flag says
  whether it has returned a client.\<close>

fun dial :: "nat \<Rightarrow> (str + unit) list \<Rightarrow> (str \<times> nat) list \<times> bool" where
  "dial delay [] = ([], False)"
| "dial delay (Inr () # answers) = ([], True)"
| "dial delay (Inl e # answers) =
     (let (retries, ok) = dial (min (delay * 2) 15) answers in ((e, delay) # retries, ok))"

record connect_result =
  credentials :: "(str \<times> str) option"
  retries :: "(str \<times> nat) list"
  connected :: bool

definition connect_with_retry :: "('hm, 'addr, 'm) nats_libs_scheme \<Rightarrow> str \<Rightarrow> (str + unit) list \<Rightarrow> connect_result" where
  "connect_with_retry N url answers =
     (let (rs, ok) = dial 1 answers
      in \<lparr>credentials = url_credentials N url, retries = rs, connected = ok\<rparr>)"

section \<open>The client thread\<close>

text \<open>What the broker answers to one command: whether the core publish and the flush
  fail, and whether the stream publish fails or its acknowledgement does.\<close>

record broker_answer =
  core_error :: "str option"
  flush_error :: "str option"
  js_error :: "str option"
  ack_error :: "str option"

datatype 'hm client_effect =
    Core_Publish str 'hm bytes
  | Flush
  | Js_Publish str 'hm bytes
  | Await_Ack
  | Log_Runtime_Failed str
  | Log_Retry str nat
  | Log_Connected str
  | Log_Core_Failed str str
  | Log_Flush_Failed str str
  | Log_No_Stream str
  | Log_Js_Failed str str
  | Log_Ack_Failed str str

definition log_if :: "str option \<Rightarrow> (str \<Rightarrow> 'l) \<Rightarrow> 'l list" where
  "log_if e f = (case e of None \<Rightarrow> [] | Some x \<Rightarrow> [f x])"

fun client_command :: "('hm, 'addr, 'm) nats_libs_scheme \<Rightarrow> bool \<Rightarrow> cmd \<Rightarrow> broker_answer \<Rightarrow> 'hm client_effect list" where
  "client_command N jetstream (Publish subject payload hs) a =
     [Core_Publish subject (build_headers N hs) payload] @ log_if (core_error a) (Log_Core_Failed subject) @
     [Flush] @ log_if (flush_error a) (Log_Flush_Failed subject)"
| "client_command N jetstream (PublishJs subject payload hs) a =
     (if \<not> jetstream then [Log_No_Stream subject]
      else [Js_Publish subject (build_headers N hs) payload] @
        (case js_error a of
           None \<Rightarrow> Await_Ack # log_if (ack_error a) (Log_Ack_Failed subject)
         | Some e \<Rightarrow> [Log_Js_Failed subject e]))"

definition run_client_thread ::
    "('hm, 'addr, 'm) nats_libs_scheme \<Rightarrow> str option \<Rightarrow> str \<Rightarrow> str option \<Rightarrow> (str + unit) list \<Rightarrow>
     (cmd \<times> broker_answer) list \<Rightarrow> 'hm client_effect list" where
  "run_client_thread N runtime_error url js_stream answers cmds =
     (case runtime_error of
        Some e \<Rightarrow> [Log_Runtime_Failed e]
      | None \<Rightarrow>
          let r = connect_with_retry N url answers
          in map (\<lambda>(e, d). Log_Retry e d) (retries r) @
             (if connected r
              then Log_Connected url # concat (map (\<lambda>(c, a). client_command N (js_stream \<noteq> None) c a) cmds)
              else []))"

section \<open>Lemmas on routing\<close>

lemma route_inbound_cases:
  "route_inbound subject = Some r \<longleftrightarrow>
     (\<exists>kernel verb. kernel \<noteq> [] \<and> dot \<notin> set kernel \<and> verb \<noteq> [] \<and> r_kernel r = kernel \<and> r_verb r = verb \<and>
        r_result_subject r = lit ''result.kernel.'' @ kernel @ dot # verb \<and> routed_inbound.more r = () \<and>
        (case r_identity r of
           None \<Rightarrow> subject = lit ''input.kernel.'' @ kernel @ lit ''.action.'' @ verb
         | Some sub \<Rightarrow> sub \<noteq> [] \<and> dot \<notin> set sub \<and>
             subject = lit ''input.kernel.'' @ kernel @ lit ''.id.'' @ sub @ lit ''.action.'' @ verb))"
  (is "?l \<longleftrightarrow> ?r")
proof
  have d: "lit (CHR ''.'' # x) = dot # lit x" for x by (simp add: lit_def)
  assume ?l
  then show ?r
    unfolding route_inbound_def d
    by (auto simp: bind_eq_Some_conv ok_iff split: if_splits option.splits)
next
  assume ?r
  then obtain k v where kv: "k \<noteq> []" "dot \<notin> set k" "v \<noteq> []" "r_kernel r = k" "r_verb r = v"
    "r_result_subject r = lit ''result.kernel.'' @ k @ dot # v" "routed_inbound.more r = ()"
    and c: "case r_identity r of
           None \<Rightarrow> subject = lit ''input.kernel.'' @ k @ lit ''.action.'' @ v
         | Some sub \<Rightarrow> sub \<noteq> [] \<and> dot \<notin> set sub \<and>
             subject = lit ''input.kernel.'' @ k @ lit ''.id.'' @ sub @ lit ''.action.'' @ v"
    by blast
  have d: "lit (CHR ''.'' # x) = dot # lit x" for x by (simp add: lit_def)
  have n: "strip_prefix (lit ''id.'') (lit ''action.'' @ v) = None" by (simp add: lit_def)
  show ?l
  proof (cases "r_identity r")
    case None
    with c have s: "subject = lit ''input.kernel.'' @ k @ dot # lit ''action.'' @ v" by (simp add: d)
    show ?thesis unfolding route_inbound_def s
      using kv None n by (cases r) (simp add: split_once_append)
  next
    case (Some sub)
    with c have s: "subject = lit ''input.kernel.'' @ k @ dot # lit ''id.'' @ sub @ dot # lit ''action.'' @ v"
      and sub: "sub \<noteq> []" "dot \<notin> set sub" by (simp_all add: d)
    show ?thesis unfolding route_inbound_def s
      using kv Some sub by (cases r) (simp add: split_once_append)
  qed
qed

end
