(* ===== verification/Nats_Client_Props.thy ===== *)
theory Nats_Client_Props
  imports Nats_Client
begin

text \<open>
  What the publishing side promises: the grammar of routed subjects, the back-off of the
  dialing loop, the echo of the correlation headers, the once-only start of the threads,
  and the channel between worker and client thread as a system of two interleaved
  threads.
\<close>

section \<open>Worker and client thread as one system\<close>

text \<open>The worker performs a list of publish calls in order, waiting where the channel is
  full; the client thread receives. \<open>failed\<close> holds the calls that returned an error.
  \<open>worker_step\<close> is the worker alone.\<close>

record pub_sys =
  to_send :: "cmd list"
  tx_cell :: client_cell
  received :: "cmd list"
  failed :: "(cmd \<times> str) list"

inductive worker_step :: "pub_sys \<Rightarrow> pub_sys \<Rightarrow> bool" where
  worker_sent: "to_send s = c # cs \<Longrightarrow> publish_call c (tx_cell s) = Enqueued cl \<Longrightarrow>
     worker_step s (s\<lparr>to_send := cs, tx_cell := cl\<rparr>)"
| worker_failed: "to_send s = c # cs \<Longrightarrow> publish_call c (tx_cell s) = Publish_Error e \<Longrightarrow>
     worker_step s (s\<lparr>to_send := cs, failed := failed s @ [(c, e)]\<rparr>)"

inductive pub_step :: "pub_sys \<Rightarrow> pub_sys \<Rightarrow> bool" where
  pub_worker: "worker_step s s' \<Longrightarrow> pub_step s s'"
| pub_received: "tx_cell s = Some ch \<Longrightarrow> rx_alive ch \<Longrightarrow> chan_recv ch = Some (c, ch') \<Longrightarrow>
     pub_step s (s\<lparr>tx_cell := Some ch', received := received s @ [c]\<rparr>)"

inductive_cases worker_stepE: "worker_step s s'"

definition pub_start :: "cmd list \<Rightarrow> pub_sys" where
  "pub_start cs = \<lparr>to_send = cs, tx_cell = Some (sync_channel_new CLIENT_BOUND), received = [], failed = []\<rparr>"

text \<open>What is in flight, in order; the live part of the invariant.\<close>

definition in_order :: "cmd list \<Rightarrow> pub_sys \<Rightarrow> bool" where
  "in_order cs s \<longleftrightarrow>
     (\<exists>ch. tx_cell s = Some ch \<and> rx_alive ch \<and> chan_bound ch = CLIENT_BOUND \<and> chan_wf ch \<and> failed s = [] \<and>
        received s @ chan_items ch @ to_send s = cs)"

lemma publish_call_enqueue:
  "publish_call c cl = (case c of Publish _ _ _ \<Rightarrow> enqueue_cmd (lit ''nats publish'') c cl
                                  | PublishJs _ _ _ \<Rightarrow> enqueue_cmd (lit ''js publish'') c cl)"
  by (cases c) (simp_all add: publish_def publish_js_def)

lemma publish_call_live:
  assumes "rx_alive ch"
  shows "publish_call c (Some ch) =
    (if length (chan_items ch) < chan_bound ch then Enqueued (Some (ch\<lparr>chan_items := chan_items ch @ [c]\<rparr>))
     else Publish_Waits)"
  using assms
  by (auto simp: publish_call_enqueue enqueue_cmd_def once_get_def chan_send_def split: cmd.splits)

lemma in_order_start [inv_intros]: "in_order cs (pub_start cs)"
  by (simp add: in_order_def pub_start_def sync_channel_new_def chan_wf_def)

lemma in_order_step [inv_intros]: "pub_step s s' \<Longrightarrow> in_order cs s \<Longrightarrow> in_order cs s'"
proof (induction rule: pub_step.induct)
  case (pub_received s ch c ch')
  then show ?case by (auto simp: in_order_def ok_iff chan_wf_def)
qed (auto simp: in_order_def publish_call_live chan_wf_def elim!: worker_stepE split: if_splits)

lemma in_order_reach: "pub_step\<^sup>*\<^sup>* (pub_start cs) s \<Longrightarrow> in_order cs s"
  by (induction rule: rtranclp_induct) (simp_all add: inv_intros)

definition pub_work :: "pub_sys \<Rightarrow> nat" where
  "pub_work s = 2 * length (to_send s) + (case tx_cell s of None \<Rightarrow> 0 | Some ch \<Rightarrow> length (chan_items ch))"

lemma pub_work_decreases: "pub_step s s' \<Longrightarrow> in_order cs s \<Longrightarrow> pub_work s' < pub_work s"
proof (induction rule: pub_step.induct)
  case (pub_received s ch c ch')
  then show ?case by (auto simp: in_order_def ok_iff pub_work_def)
qed (auto simp: in_order_def publish_call_live pub_work_def elim!: worker_stepE split: if_splits)

lemma pub_progress:
  assumes "in_order cs s" "received s \<noteq> cs"
  shows "\<exists>s'. pub_step s s'"
proof -
  from assms(1) obtain ch where ch: "tx_cell s = Some ch" "rx_alive ch" "chan_bound ch = CLIENT_BOUND"
    "received s @ chan_items ch @ to_send s = cs" by (auto simp: in_order_def)
  show ?thesis
  proof (cases "chan_items ch")
    case (Cons c xs)
    then have "chan_recv ch = Some (c, ch\<lparr>chan_items := xs\<rparr>)" by (simp add: ok_iff)
    with ch show ?thesis by (blast intro: pub_received)
  next
    case Nil
    with ch assms(2) obtain c rest where t: "to_send s = c # rest" by (cases "to_send s") auto
    have "publish_call c (tx_cell s) = Enqueued (Some (ch\<lparr>chan_items := [c]\<rparr>))"
      using ch Nil by (simp add: publish_call_live CLIENT_BOUND_def)
    with t show ?thesis by (blast intro: pub_worker worker_sent)
  qed
qed

lemma pub_completes: "in_order cs s \<Longrightarrow> \<exists>s'. pub_step\<^sup>*\<^sup>* s s' \<and> received s' = cs"
proof (induction "pub_work s" arbitrary: s rule: less_induct)
  case less
  show ?case
  proof (cases "received s = cs")
    case False
    then obtain s1 where s1: "pub_step s s1" using pub_progress less.prems by blast
    with less obtain s' where "pub_step\<^sup>*\<^sup>* s1 s'" "received s' = cs"
      using pub_work_decreases in_order_step by meson
    moreover from s1 this(1) have "pub_step\<^sup>*\<^sup>* s s'" by (rule converse_rtranclp_into_rtranclp)
    ultimately show ?thesis by blast
  qed blast
qed

lemma worker_alone:
  "worker_step\<^sup>*\<^sup>* (pub_start cs) s \<Longrightarrow>
     \<exists>n \<le> CLIENT_BOUND. n \<le> length cs \<and> to_send s = drop n cs \<and>
       tx_cell s = Some \<lparr>chan_items = take n cs, chan_bound = CLIENT_BOUND, rx_alive = True\<rparr>"
proof (induction rule: rtranclp_induct)
  case base
  show ?case by (intro exI[of _ 0]) (simp add: pub_start_def sync_channel_new_def)
next
  case (step s s')
  then obtain n where n: "n \<le> CLIENT_BOUND" "n \<le> length cs" "to_send s = drop n cs"
    "tx_cell s = Some \<lparr>chan_items = take n cs, chan_bound = CLIENT_BOUND, rx_alive = True\<rparr>" by blast
  from step.hyps(2) show ?case
  proof (cases rule: worker_step.cases)
    case (worker_sent c rest cl)
    then have lt: "n < length cs" and c: "cs ! n = c" "rest = drop (Suc n) cs"
      using n(3) by (auto simp: Cons_nth_drop_Suc[symmetric] drop_eq_Nil not_le)
        (metis drop_eq_Nil list.distinct(1) not_le Cons_nth_drop_Suc list.inject)+
    from worker_sent(3) n have "n < CLIENT_BOUND"
      "cl = Some \<lparr>chan_items = take n cs @ [c], chan_bound = CLIENT_BOUND, rx_alive = True\<rparr>"
      by (auto simp: publish_call_live split: if_splits)
    with worker_sent(1) lt c show ?thesis
      by (intro exI[of _ "Suc n"]) (simp add: take_Suc_conv_app_nth)
  next
    case (worker_failed c rest e)
    then show ?thesis using n by (auto simp: publish_call_live split: if_splits)
  qed
qed

text \<open>The state after the worker alone has sent \<open>n\<close> commands.\<close>

definition worker_sent_n :: "cmd list \<Rightarrow> nat \<Rightarrow> pub_sys" where
  "worker_sent_n cs n = \<lparr>to_send = drop n cs,
     tx_cell = Some \<lparr>chan_items = take n cs, chan_bound = CLIENT_BOUND, rx_alive = True\<rparr>,
     received = [], failed = []\<rparr>"

lemma worker_can_send: "n \<le> CLIENT_BOUND \<Longrightarrow> n \<le> length cs \<Longrightarrow> worker_step\<^sup>*\<^sup>* (pub_start cs) (worker_sent_n cs n)"
proof (induction n)
  case 0
  show ?case by (simp add: worker_sent_n_def pub_start_def sync_channel_new_def)
next
  case (Suc n)
  let ?s = "worker_sent_n cs n"
  have d: "drop n cs = cs ! n # drop (Suc n) cs" using Suc.prems by (simp add: Cons_nth_drop_Suc)
  have "worker_step ?s (?s\<lparr>to_send := drop (Suc n) cs,
      tx_cell := Some \<lparr>chan_items = take n cs @ [cs ! n], chan_bound = CLIENT_BOUND, rx_alive = True\<rparr>\<rparr>)"
    by (rule worker_sent[of _ "cs ! n"]) (use Suc.prems d in \<open>simp_all add: worker_sent_n_def publish_call_live\<close>)
  moreover have "?s\<lparr>to_send := drop (Suc n) cs,
      tx_cell := Some \<lparr>chan_items = take n cs @ [cs ! n], chan_bound = CLIENT_BOUND, rx_alive = True\<rparr>\<rparr> =
      worker_sent_n cs (Suc n)"
    using Suc.prems by (simp add: worker_sent_n_def take_Suc_conv_app_nth)
  ultimately show ?case using Suc by (simp add: rtranclp.rtrancl_into_rtrancl)
qed

section \<open>Properties\<close>

text \<open>The grammar of routed subjects. A subject is routed exactly when it is
  \<^verbatim>\<open>input.kernel.<K>.action.<verb>\<close> (no identity) or
  \<^verbatim>\<open>input.kernel.<K>.id.<sub>.action.<verb>\<close> (identity \<^verbatim>\<open><sub>\<close>) with \<^verbatim>\<open><K>\<close> and
  \<^verbatim>\<open><sub>\<close> single non-empty tokens and a non-empty verb, and its reply goes to
  \<^verbatim>\<open>result.kernel.<K>.<verb>\<close>.\<close>

theorem route_inbound_grammar:
  "route_inbound s = Some \<lparr>r_kernel = k, r_identity = i, r_verb = v, r_result_subject = res\<rparr> \<longleftrightarrow>
     k \<noteq> [] \<and> dot \<notin> set k \<and> v \<noteq> [] \<and> res = lit ''result.kernel.'' @ k @ dot # v \<and>
     (case i of
        None \<Rightarrow> s = lit ''input.kernel.'' @ k @ lit ''.action.'' @ v
      | Some sub \<Rightarrow> sub \<noteq> [] \<and> dot \<notin> set sub \<and>
          s = lit ''input.kernel.'' @ k @ lit ''.id.'' @ sub @ lit ''.action.'' @ v)"
  unfolding route_inbound_cases by auto

text \<open>Dialing backs off and does not give up. The seconds between attempts are
  1, 2, 4, 8 and then 15 each time; one attempt is made after every failure, and the
  loop returns at the first attempt the broker answers, whenever that is.\<close>

theorem dial_backs_off:
  "map snd (retries (connect_with_retry N url answers)) =
     map (\<lambda>i. min (2 ^ i) 15) [0 ..< length (takeWhile isl answers)] \<and>
   (connected (connect_with_retry N url answers) \<longleftrightarrow> \<not> list_all isl answers)"
proof -
  have fst_dial: "map snd (fst (dial (min (2 ^ k) 15) answers)) =
      map (\<lambda>i. min (2 ^ (k + i)) 15) [0 ..< length (takeWhile isl answers)]" for k answers
  proof (induction answers arbitrary: k)
    case (Cons a answers)
    show ?case
    proof (cases a)
      case (Inl e)
      have "min (min ((2::nat) ^ k) 15 * 2) 15 = min (2 ^ Suc k) 15" by (simp add: min_def)
      with Inl Cons.IH[of "Suc k"] show ?thesis
        by (simp add: split_beta upt_conv_Cons map_Suc_upt[symmetric] comp_def del: upt_Suc)
    qed simp
  qed simp
  have snd_dial: "snd (dial d answers) \<longleftrightarrow> \<not> list_all isl answers" for d answers
  proof (induction answers arbitrary: d)
    case (Cons a answers)
    then show ?case by (cases a) (simp_all add: split_beta)
  qed simp
  show ?thesis using fst_dial[of 0 answers] snd_dial[of 1 answers]
    by (simp add: connect_with_retry_def split_beta)
qed

text \<open>A reply echoes the correlation headers. For any header map with the documented
  look-up, the reply built from the traced headers has the request's \<^verbatim>\<open>Trace-Id\<close> and
  \<^verbatim>\<open>Ck-Seq\<close> (present or absent alike) and nothing else.\<close>

theorem reply_echoes_trace:
  assumes "header_laws N"
  shows "hm_get N k (build_headers N (trace_headers N h)) =
    (if k \<in> {lit ''Trace-Id'', lit ''Ck-Seq''} then hm_get N k h else None)"
proof -
  have laws: "hm_get N k (hm_new N) = None"
    "hm_get N k (hm_append N k' v x) = (if k = k' \<and> hm_get N k x = None then Some v else hm_get N k x)"
    for k k' v x using assms by (auto simp: header_laws_def)
  show ?thesis
    by (cases "hm_get N (lit ''Trace-Id'') h"; cases "hm_get N (lit ''Ck-Seq'') h")
      (auto simp: build_headers_def trace_headers_def laws)
qed

definition demo_nats :: "(headers, str) nats_libs" where
  "demo_nats = \<lparr>addr_parse = Some, addr_username = (\<lambda>_. None), addr_password = (\<lambda>_. None),
     hm_new = [], hm_append = (\<lambda>k v h. h @ [(k, v)]), hm_get = (\<lambda>k h. map_of h k)\<rparr>"

lemma demo_nats_laws: "header_laws demo_nats"
  by (auto simp: header_laws_def demo_nats_def map_add_def split: option.splits)

theorem reply_echoes_trace_witness:
  "hm_get demo_nats (lit ''Trace-Id'') (build_headers demo_nats (trace_headers demo_nats
      [(lit ''X'', lit ''1''), (lit ''Trace-Id'', lit ''t9'')])) = Some (lit ''t9'')"
  using reply_echoes_trace[OF demo_nats_laws, of "lit ''Trace-Id''" "[(lit ''X'', lit ''1''), (lit ''Trace-Id'', lit ''t9'')]"]
  by (simp add: demo_nats_def)

text \<open>C28: the channel loses, duplicates and reorders nothing. However the worker and a
  live client thread interleave, the commands received, queued and still to send are the
  worker's calls in order; at most 1024 are queued; no call fails; the interleaving
  cannot run forever; and from every such state the client thread can still receive
  all of them.\<close>

theorem publish_channel_fifo:
  assumes "pub_step\<^sup>*\<^sup>* (pub_start cs) s"
  shows "(\<exists>ch. tx_cell s = Some ch \<and> received s @ chan_items ch @ to_send s = cs \<and> length (chan_items ch) \<le> 1024) \<and>
    failed s = [] \<and> (\<forall>s'. pub_step s s' \<longrightarrow> pub_work s' < pub_work s) \<and>
    (\<exists>s'. pub_step\<^sup>*\<^sup>* s s' \<and> received s' = cs)"
proof -
  note inv = in_order_reach[OF assms]
  from inv have "\<exists>ch. tx_cell s = Some ch \<and> received s @ chan_items ch @ to_send s = cs \<and> length (chan_items ch) \<le> 1024"
    "failed s = []" by (auto simp: in_order_def chan_wf_def CLIENT_BOUND_def)
  moreover from inv have "\<forall>s'. pub_step s s' \<longrightarrow> pub_work s' < pub_work s"
    using pub_work_decreases by blast
  ultimately show ?thesis using pub_completes[OF inv] by blast
qed

theorem publish_channel_fifo_witness:
  "\<exists>s'. pub_step\<^sup>*\<^sup>* (pub_start [Publish (lit ''a'') [1] [], PublishJs (lit ''b'') [2] []]) s' \<and>
     received s' = [Publish (lit ''a'') [1] [], PublishJs (lit ''b'') [2] []]"
  using publish_channel_fifo[of "[Publish (lit ''a'') [1] [], PublishJs (lit ''b'') [2] []]"
      "pub_start [Publish (lit ''a'') [1] [], PublishJs (lit ''b'') [2] []]"] by blast

text \<open>An outage of the broker makes the worker wait. While the client thread is still
  dialing and receives nothing, the worker's calls can be accepted 1024 times and no
  more: with more calls than that, a worker that makes every step it can ends up waiting
  inside a publish call, with the remaining calls undone.\<close>

theorem broker_outage_blocks_worker:
  assumes "1024 < length cs" "worker_step\<^sup>*\<^sup>* (pub_start cs) s" "\<nexists>s'. worker_step s s'"
  shows "to_send s = drop 1024 cs \<and> publish_call (hd (to_send s)) (tx_cell s) = Publish_Waits"
proof -
  obtain n where n: "n \<le> CLIENT_BOUND" "n \<le> length cs" "to_send s = drop n cs"
    "tx_cell s = Some \<lparr>chan_items = take n cs, chan_bound = CLIENT_BOUND, rx_alive = True\<rparr>"
    using worker_alone[OF assms(2)] by blast
  have ne: "drop n cs \<noteq> []" using n(1) assms(1) by (simp add: CLIENT_BOUND_def)
  then obtain c rest where c: "to_send s = c # rest" unfolding n(3) by (cases "drop n cs") auto
  have "\<not> n < CLIENT_BOUND"
  proof
    assume "n < CLIENT_BOUND"
    then have "publish_call c (tx_cell s) = Enqueued (Some \<lparr>chan_items = take n cs @ [c], chan_bound = CLIENT_BOUND, rx_alive = True\<rparr>)"
      using n by (simp add: publish_call_live)
    with c assms(3) show False using worker_sent by blast
  qed
  with n c show ?thesis by (simp add: publish_call_live CLIENT_BOUND_def)
qed

theorem broker_outage_blocks_worker_witness:
  "\<exists>s. worker_step\<^sup>*\<^sup>* (pub_start (replicate 1025 (Publish (lit ''a'') [1] []))) s \<and>
     length (to_send s) = 1 \<and> publish_call (hd (to_send s)) (tx_cell s) = Publish_Waits"
proof -
  let ?cs = "replicate 1025 (Publish (lit ''a'') [1] [])"
  let ?s = "worker_sent_n ?cs 1024"
  have r: "worker_step\<^sup>*\<^sup>* (pub_start ?cs) ?s" by (rule worker_can_send) (simp_all add: CLIENT_BOUND_def)
  have "\<nexists>s'. worker_step ?s s'"
    by (auto elim!: worker_stepE simp: worker_sent_n_def publish_call_live CLIENT_BOUND_def)
  then have "to_send ?s = drop 1024 ?cs \<and> publish_call (hd (to_send ?s)) (tx_cell ?s) = Publish_Waits"
    by (intro broker_outage_blocks_worker r) simp_all
  moreover from this have "length (to_send ?s) = 1" by (simp only: length_drop length_replicate)
  ultimately show ?thesis using r by blast
qed

end
