(* ===== verification/Json.thy ===== *)
theory Json
  imports Rust_BTreeMap
begin

text \<open>
  JSON values as the sources use them: the public enumeration \<^verbatim>\<open>serde_json::Value\<close>
  that they match on and build with \<^verbatim>\<open>json!\<close>, with its documented projections. An
  object is a \<^verbatim>\<open>BTreeMap\<close>, so its entries are in key order. A number is an integer or
  any other JSON number, of which only \<^verbatim>\<open>as_i64\<close> is observed. Parsing and printing
  JSON text belong to the library and stay parameters of the components.
\<close>

section \<open>Values\<close>

datatype json_number = JInt int | JOther str

datatype json =
    JNull
  | JBool bool
  | JNumber json_number
  | JString str
  | JArray "json list"
  | JObject "(str, json) btree_map"

fun as_str :: "json \<Rightarrow> str option" where
  "as_str (JString s) = Some s"
| "as_str _ = None"

fun as_array :: "json \<Rightarrow> json list option" where
  "as_array (JArray a) = Some a"
| "as_array _ = None"

fun as_object :: "json \<Rightarrow> (str, json) btree_map option" where
  "as_object (JObject m) = Some m"
| "as_object _ = None"

fun as_i64 :: "json \<Rightarrow> i64 option" where
  "as_i64 (JNumber (JInt i)) =
     (if - (2 ^ 63) \<le> i \<and> i < 2 ^ 63 then Some (word_of_int i) else None)"
| "as_i64 _ = None"

fun json_get :: "json \<Rightarrow> str \<Rightarrow> json option" where
  "json_get (JObject m) k = map_of m k"
| "json_get _ k = None"

text \<open>\<^verbatim>\<open>as_object_mut\<close> followed by \<^verbatim>\<open>insert\<close>; a value that is not an object is left alone.\<close>

fun json_insert :: "str \<Rightarrow> json \<Rightarrow> json \<Rightarrow> json" where
  "json_insert k v (JObject m) = JObject (btree_insert k v m)"
| "json_insert k v j = j"

text \<open>The literals of \<^verbatim>\<open>json!\<close>: an object is built by inserting its fields in turn.\<close>

definition json_obj :: "(str \<times> json) list \<Rightarrow> json" where
  "json_obj kvs = JObject (fold (\<lambda>(k, v) m. btree_insert k v m) kvs [])"

definition json_i64 :: "i64 \<Rightarrow> json" where
  "json_i64 w = JNumber (JInt (sint w))"

definition get_str :: "json \<Rightarrow> string \<Rightarrow> str option" where
  "get_str j k = Option.bind (json_get j (lit k)) as_str"

definition get_i64 :: "json \<Rightarrow> string \<Rightarrow> i64 option" where
  "get_i64 j k = Option.bind (json_get j (lit k)) as_i64"

fun json_object_wf :: "json \<Rightarrow> bool" where
  "json_object_wf (JObject m) \<longleftrightarrow> btree_wf m"
| "json_object_wf _ \<longleftrightarrow> True"

section \<open>Lemmas\<close>

lemma as_i64_json_i64 [simp]: "as_i64 (json_i64 w) = Some w"
proof -
  have "- (2 ^ 63) \<le> sint w \<and> sint w < 2 ^ 63"
    using sint_greater_eq[of w] sint_less[of w] by simp
  then show ?thesis by (simp add: json_i64_def)
qed

lemma btree_wf_fold: "btree_wf m \<Longrightarrow> btree_wf (fold (\<lambda>(k, v) m. btree_insert k v m) kvs m)"
  by (induction kvs arbitrary: m) (auto simp: inv_intros)

lemma json_obj_wf [simp]: "json_object_wf (json_obj kvs)"
  by (simp add: json_obj_def btree_wf_fold btree.wf_empty)

lemma json_insert_wf [inv_intros]: "json_object_wf j \<Longrightarrow> json_object_wf (json_insert k v j)"
  by (cases j) (simp_all add: inv_intros)

lemma json_get_insert:
  "json_object_wf (JObject m) \<Longrightarrow>
     json_get (json_insert k v (JObject m)) k' = (if k' = k then Some v else json_get (JObject m) k')"
  by (simp add: map_of_btree_insert)

lemma map_of_fold_insert:
  "btree_wf m \<Longrightarrow>
     map_of (fold (\<lambda>(k, v) m. btree_insert k v m) kvs m) k =
       (case map_of (rev kvs) k of None \<Rightarrow> map_of m k | Some v \<Rightarrow> Some v)"
  by (induction kvs arbitrary: m)
    (auto simp: inv_intros map_of_btree_insert map_add_def split: option.splits)

lemma json_get_obj: "json_get (json_obj kvs) k = map_of (rev kvs) k"
  by (simp add: json_obj_def map_of_fold_insert btree.wf_empty split: option.splits)

lemma json_obj_is_object: "\<exists>m. json_obj kvs = JObject m \<and> btree_wf m"
  using json_obj_wf[of kvs] by (auto simp: json_obj_def)

lemma json_get_insert_obj:
  assumes "json_object_wf j" "\<exists>m. j = JObject m"
  shows "json_get (json_insert k v j) k' = (if k' = k then Some v else json_get j k')"
  using assms json_get_insert by auto

text \<open>Following a path of object keys.\<close>

fun json_path :: "json \<Rightarrow> string list \<Rightarrow> json option" where
  "json_path j [] = Some j"
| "json_path j (k # ks) = Option.bind (json_get j (lit k)) (\<lambda>v. json_path v ks)"

text \<open>The values that survive printing and parsing: ordered objects, integers of 64
  bits, and arrays and objects nested at most \<open>n\<close> deep. The parser of \<^verbatim>\<open>serde_json\<close> refuses a text that
  is nested 128 deep, so a plain value is one of depth 127 at most.\<close>

inductive json_plain_at :: "nat \<Rightarrow> json \<Rightarrow> bool" where
  plain_null: "json_plain_at n JNull"
| plain_bool: "json_plain_at n (JBool b)"
| plain_int: "- (2 ^ 63) \<le> i \<Longrightarrow> i < 2 ^ 63 \<Longrightarrow> json_plain_at n (JNumber (JInt i))"
| plain_string: "json_plain_at n (JString s)"
| plain_array: "(\<And>j. j \<in> set a \<Longrightarrow> json_plain_at n j) \<Longrightarrow> json_plain_at (Suc n) (JArray a)"
| plain_object: "btree_wf m \<Longrightarrow> (\<And>k j. (k, j) \<in> set m \<Longrightarrow> json_plain_at n j) \<Longrightarrow> json_plain_at (Suc n) (JObject m)"

inductive_cases json_plain_objectE: "json_plain_at n (JObject m)"

declare plain_null [simp] plain_bool [simp] plain_int [simp] plain_string [simp]

abbreviation json_plain :: "json \<Rightarrow> bool" where
  "json_plain j \<equiv> json_plain_at 127 j"

lemma json_plain_array: "0 < n \<Longrightarrow> list_all (json_plain_at (n - 1)) a \<Longrightarrow> json_plain_at n (JArray a)"
  by (cases n) (auto simp: list_all_iff intro: plain_array)

lemma set_btree_insert: "set (btree_insert k v m) \<subseteq> insert (k, v) (set m)"
  by (induction m) (auto split: if_splits)

lemma json_plain_insert: "json_plain_at n j \<Longrightarrow> json_plain_at (n - 1) v \<Longrightarrow> json_plain_at n (json_insert k v j)"
proof (cases j)
  case (JObject m)
  assume "json_plain_at n j" and v: "json_plain_at (n - 1) v"
  with JObject obtain d where m: "n = Suc d" "btree_wf m" "\<And>k j. (k, j) \<in> set m \<Longrightarrow> json_plain_at d j"
    by (auto elim: json_plain_objectE)
  have "json_plain_at (Suc d) (JObject (btree_insert k v m))"
  proof (rule plain_object)
    show "btree_wf (btree_insert k v m)" using m(2) by (rule btree_wf_insert)
    show "json_plain_at d x" if "(k', x) \<in> set (btree_insert k v m)" for k' x
      using that set_btree_insert[of k v m] m(1,3) v by auto
  qed
  with JObject m(1) show ?thesis by simp
qed simp_all

lemma json_obj_snoc: "json_obj (kvs @ [(k, v)]) = json_insert k v (json_obj kvs)"
  by (simp add: json_obj_def)

lemma json_plain_obj: "0 < n \<Longrightarrow> list_all (\<lambda>(k, v). json_plain_at (n - 1) v) kvs \<Longrightarrow> json_plain_at n (json_obj kvs)"
proof (induction kvs rule: rev_induct)
  case Nil
  then show ?case by (cases n) (auto simp: json_obj_def btree.wf_empty intro: plain_object)
next
  case (snoc kv kvs)
  then show ?case by (cases kv) (simp add: json_obj_snoc json_plain_insert)
qed

lemma json_plain_i64 [simp]: "json_plain_at n (json_i64 w)"
  using sint_greater_eq[of w] sint_less[of w] by (simp add: json_i64_def)

end
