(* ===== verification/Pg_Spi.thy ===== *)
theory Pg_Spi
  imports Json Rust_Sync
begin

text \<open>
  The worker's use of PostgreSQL through \<^verbatim>\<open>pgrx\<close>: statements executed in a
  \<^verbatim>\<open>BackgroundWorker::transaction\<close>, the typed reading of result rows, and the three
  ways an execution can end (a result, an \<^verbatim>\<open>spi::Error\<close>, or a raised error that
  unwinds as a panic). The database is a parameter: the record \<open>pg\<close> holds what it does
  with each statement the sources send.
\<close>

section \<open>Results\<close>

datatype 'a spi_result = Spi_Ok 'a | Spi_Err str | Spi_Raise str

datatype 'a outcome = Returns 'a | Panics str

text \<open>Cells of a result row; a column is read by position, starting from 1.\<close>

datatype spi_cell = Cell_Null | Cell_Bool bool | Cell_Int4 "32 word" | Cell_Int8 i64 | Cell_Text str
  | Cell_Bytea bytes | Cell_Jsonb json

type_synonym spi_row = "spi_cell list"

definition BAD_TYPE :: str where "BAD_TYPE = lit ''incompatible datum type''"
definition NO_COLUMN :: str where "NO_COLUMN = lit ''no such column''"

definition row_get :: "(spi_cell \<Rightarrow> 'a option) \<Rightarrow> spi_row \<Rightarrow> nat \<Rightarrow> 'a option spi_result" where
  "row_get conv row i =
     (if i = 0 \<or> length row < i then Spi_Err NO_COLUMN
      else case row ! (i - 1) of
             Cell_Null \<Rightarrow> Spi_Ok None
           | c \<Rightarrow> (case conv c of None \<Rightarrow> Spi_Err BAD_TYPE | Some v \<Rightarrow> Spi_Ok (Some v)))"

fun cell_bool :: "spi_cell \<Rightarrow> bool option" where
  "cell_bool (Cell_Bool b) = Some b" | "cell_bool _ = None"

fun cell_int4 :: "spi_cell \<Rightarrow> 32 word option" where
  "cell_int4 (Cell_Int4 n) = Some n" | "cell_int4 _ = None"

fun cell_int8 :: "spi_cell \<Rightarrow> i64 option" where
  "cell_int8 (Cell_Int8 n) = Some n" | "cell_int8 _ = None"

fun cell_text :: "spi_cell \<Rightarrow> str option" where
  "cell_text (Cell_Text s) = Some s" | "cell_text _ = None"

fun cell_bytea :: "spi_cell \<Rightarrow> bytes option" where
  "cell_bytea (Cell_Bytea b) = Some b" | "cell_bytea _ = None"

fun cell_jsonb :: "spi_cell \<Rightarrow> json option" where
  "cell_jsonb (Cell_Jsonb j) = Some j" | "cell_jsonb _ = None"

section \<open>Statements and transactions\<close>

datatype spi_stmt =
    Set_Config_Local str str
  | Dispatch_Safe str str
  | Drain_Outbox
  | Outbox_Exists
  | Ledger_Kernels
  | Materialize_Drain
  | Orbit_Tick

text \<open>The state a statement sees: the database and the settings local to the
  transaction.\<close>

record 'db txn =
  txn_db :: 'db
  settings :: "str \<Rightarrow> str option"

record 'db pg =
  pg_exec :: "spi_stmt \<Rightarrow> 'db txn \<Rightarrow> spi_row list spi_result \<times> 'db txn"

lemma txn_db_update: "t\<lparr>txn_db := d\<rparr> = \<lparr>txn_db = d, settings = settings t\<rparr>"
  by (cases t) simp

lemma txn_collapse [simp]: "\<lparr>txn_db = txn_db t, settings = settings t\<rparr> = t"
  by (cases t) simp

definition spi_then :: "'a spi_result \<times> 't \<Rightarrow> ('a \<Rightarrow> 't \<Rightarrow> 'b spi_result \<times> 't) \<Rightarrow> 'b spi_result \<times> 't" where
  "spi_then r f =
     (case r of
        (Spi_Ok a, t) \<Rightarrow> f a t
      | (Spi_Err e, t) \<Rightarrow> (Spi_Err e, t)
      | (Spi_Raise e, t) \<Rightarrow> (Spi_Raise e, t))"

lemma spi_then_simps [simp]:
  "spi_then (Spi_Ok a, t) f = f a t"
  "spi_then (Spi_Err e, t) f = (Spi_Err e, t)"
  "spi_then (Spi_Raise e, t) f = (Spi_Raise e, t)"
  by (simp_all add: spi_then_def)

text \<open>\<^verbatim>\<open>BackgroundWorker::transaction\<close>: the body runs with no local setting and its effect
  on the database is committed whatever value it returns; a raised error rolls it back
  and unwinds.\<close>

definition transaction :: "('db txn \<Rightarrow> 'a spi_result \<times> 'db txn) \<Rightarrow> 'db \<Rightarrow> 'a spi_result \<times> 'db" where
  "transaction body db =
     (case body \<lparr>txn_db = db, settings = (\<lambda>_. None)\<rparr> of
        (Spi_Raise e, t) \<Rightarrow> (Spi_Raise e, db)
      | (r, t) \<Rightarrow> (r, txn_db t))"

text \<open>\<^verbatim>\<open>Spi::get_one\<close>: the first column of the first row.\<close>

definition spi_get_one ::
    "'db pg \<Rightarrow> (spi_cell \<Rightarrow> 'a option) \<Rightarrow> spi_stmt \<Rightarrow> 'db txn \<Rightarrow> 'a option spi_result \<times> 'db txn" where
  "spi_get_one P conv stmt t =
     spi_then (pg_exec P stmt t) (\<lambda>rows t'.
       (case rows of [] \<Rightarrow> Spi_Err (lit ''empty result'') | row # _ \<Rightarrow> row_get conv row 1, t'))"

text \<open>The loops over result rows: the last row's value.\<close>

fun last_row :: "(spi_cell \<Rightarrow> 'a option) \<Rightarrow> ('a option \<Rightarrow> 'b) \<Rightarrow> 'b \<Rightarrow> spi_row list \<Rightarrow> 'b spi_result" where
  "last_row conv f acc [] = Spi_Ok acc"
| "last_row conv f acc (row # rows) =
     (case row_get conv row 1 of
        Spi_Ok v \<Rightarrow> last_row conv f (f v) rows
      | Spi_Err e \<Rightarrow> Spi_Err e
      | Spi_Raise e \<Rightarrow> Spi_Raise e)"

end
