(* ===== verification/Inbound_Dispatch.thy ===== *)
theory Inbound_Dispatch
  imports Nats_Client Pg_Spi
begin

text \<open>
  \<^verbatim>\<open>src/src/inbound_dispatch.rs\<close>: the bounded queue between the relay thread and the
  worker, and the governed dispatch of each queued action in a transaction of its own.
\<close>

section \<open>The queue\<close>

record inbound_action =
  act_kernel :: str
  act_verb :: str
  act_payload :: bytes
  act_result_subject :: str
  act_headers :: headers
  act_identity :: "str option"

definition MAX_QUEUE :: nat where
  "MAX_QUEUE = 1000"

type_synonym inbound_queue = "inbound_action list lock"

definition queue_init :: inbound_queue where
  "queue_init = Healthy []"

definition queue_push :: "inbound_action \<Rightarrow> inbound_action list \<Rightarrow> inbound_action list" where
  "queue_push action q = (if length q < MAX_QUEUE then q @ [action] else q)"

definition enqueue :: "inbound_action \<Rightarrow> inbound_queue \<Rightarrow> inbound_queue" where
  "enqueue action l =
     (case lock_read l of
        Some q \<Rightarrow> lock_write (queue_push action q) l
      | None \<Rightarrow> l)"

definition take_all :: "inbound_queue \<Rightarrow> inbound_action list \<times> inbound_queue" where
  "take_all l =
     (case lock_read l of
        Some q \<Rightarrow> (q, lock_write [] l)
      | None \<Rightarrow> ([], l))"

interpretation inq: bounded_fifo MAX_QUEUE "\<lambda>q. q" queue_push
  by unfold_locales (simp_all add: queue_push_def)

section \<open>Dispatching\<close>

definition dispatch_txn :: "'db pg \<Rightarrow> inbound_action \<Rightarrow> 'db txn \<Rightarrow> str option spi_result \<times> 'db txn" where
  "dispatch_txn P action t0 =
     spi_then
       (case act_identity action of
          Some sub \<Rightarrow> pg_exec P (Set_Config_Local (lit ''ckp.requester'') sub) t0
        | None \<Rightarrow> (Spi_Ok [], t0))
       (\<lambda>_ t1. spi_then
          (if act_kernel action \<noteq> [] then pg_exec P (Set_Config_Local (lit ''ckp.project'') (act_kernel action)) t1
           else (Spi_Ok [], t1))
          (\<lambda>_ t2. spi_then
             (pg_exec P (Dispatch_Safe (act_verb action) (from_utf8_lossy (act_payload action))) t2)
             (\<lambda>table t3. (last_row cell_text (\<lambda>v. v) None table, t3))))"

definition quote :: rchar where "quote = 34"
definition apostrophe :: rchar where "apostrophe = 39"

definition jq :: "string \<Rightarrow> str" where
  "jq s = quote # lit s @ [quote]"

definition NULL_REPLY :: str where
  "NULL_REPLY = lit ''{'' @ jq ''ok'' @ lit '':false,'' @ jq ''error'' @ lit '':'' @ jq ''dispatch returned null'' @ lit ''}''"

definition error_reply :: "str \<Rightarrow> str" where
  "error_reply e = lit ''{'' @ jq ''ok'' @ lit '':false,'' @ jq ''error'' @ lit '':'' @ quote # lit ''dispatch failed: '' @
     replace_char quote apostrophe e @ quote # lit ''}''"

definition dispatch_one :: "'db pg \<Rightarrow> inbound_action \<Rightarrow> 'db \<Rightarrow> str outcome \<times> 'db" where
  "dispatch_one P action db =
     (case transaction (dispatch_txn P action) db of
        (Spi_Ok (Some json), db') \<Rightarrow> (Returns json, db')
      | (Spi_Ok None, db') \<Rightarrow> (Returns NULL_REPLY, db')
      | (Spi_Err e, db') \<Rightarrow> (Returns (error_reply e), db')
      | (Spi_Raise e, db') \<Rightarrow> (Panics e, db'))"

text \<open>The loop over the taken actions: the publish calls it makes, the database it leaves,
  and the panic that ended it, if one did.\<close>

fun dispatch_loop :: "'db pg \<Rightarrow> inbound_action list \<Rightarrow> 'db \<Rightarrow> cmd list \<times> 'db \<times> str option" where
  "dispatch_loop P [] db = ([], db, None)"
| "dispatch_loop P (action # actions) db =
     (case dispatch_one P action db of
        (Returns result, db') \<Rightarrow>
          let (calls, db'', p) = dispatch_loop P actions db'
          in (Publish (act_result_subject action) (as_bytes result) (act_headers action) # calls, db'', p)
      | (Panics e, db') \<Rightarrow> ([], db', Some e))"

definition drain_and_dispatch :: "'db pg \<Rightarrow> inbound_queue \<Rightarrow> 'db \<Rightarrow> cmd list \<times> inbound_queue \<times> 'db \<times> str option" where
  "drain_and_dispatch P l db =
     (let (actions, l') = take_all l; (calls, db', p) = dispatch_loop P actions db
      in (calls, l', db', p))"

section \<open>What the dispatch relies on\<close>

text \<open>PostgreSQL's \<^verbatim>\<open>set_config(name, value, true)\<close>, its cast to \<^verbatim>\<open>jsonb\<close> (which raises on
  text that is no JSON) and the governed function, which is called with the settings
  then in force and returns a value instead of raising.\<close>

definition set_config_law :: "'db pg \<Rightarrow> bool" where
  "set_config_law P \<longleftrightarrow> (\<forall>k v t. pg_exec P (Set_Config_Local k v) t =
     (Spi_Ok [[Cell_Text v]], t\<lparr>settings := (settings t)(k \<mapsto> v)\<rparr>))"

definition cast_law :: "'db pg \<Rightarrow> (str \<Rightarrow> json option) \<Rightarrow> bool" where
  "cast_law P to_jsonb \<longleftrightarrow> (\<forall>verb payload t. to_jsonb payload = None \<longrightarrow>
     (\<exists>e t'. pg_exec P (Dispatch_Safe verb payload) t = (Spi_Raise e, t')))"

definition dispatch_law ::
    "'db pg \<Rightarrow> (str \<Rightarrow> json option) \<Rightarrow> ('db \<Rightarrow> (str \<Rightarrow> str option) \<Rightarrow> str \<Rightarrow> json \<Rightarrow> str option \<times> 'db) \<Rightarrow> bool" where
  "dispatch_law P to_jsonb govern \<longleftrightarrow> (\<forall>verb payload j t. to_jsonb payload = Some j \<longrightarrow>
     (let (out, db') = govern (txn_db t) (settings t) verb j
      in \<exists>s'. pg_exec P (Dispatch_Safe verb payload) t =
           (Spi_Ok [[case out of None \<Rightarrow> Cell_Null | Some s \<Rightarrow> Cell_Text s]], \<lparr>txn_db = db', settings = s'\<rparr>)))"

text \<open>The settings an action is to be governed under, and the run of a list of actions
  over the governed function alone.\<close>

definition action_settings :: "inbound_action \<Rightarrow> str \<Rightarrow> str option" where
  "action_settings a k =
     (if k = lit ''ckp.requester'' then act_identity a
      else if k = lit ''ckp.project'' \<and> act_kernel a \<noteq> [] then Some (act_kernel a)
      else None)"

fun governed_run ::
    "(str \<Rightarrow> json option) \<Rightarrow> ('db \<Rightarrow> (str \<Rightarrow> str option) \<Rightarrow> str \<Rightarrow> json \<Rightarrow> str option \<times> 'db) \<Rightarrow>
     inbound_action list \<Rightarrow> 'db \<Rightarrow> cmd list \<times> 'db" where
  "governed_run to_jsonb govern [] db = ([], db)"
| "governed_run to_jsonb govern (a # as) db =
     (let (out, db') = govern db (action_settings a) (act_verb a) (the (to_jsonb (from_utf8_lossy (act_payload a))));
          (calls, db'') = governed_run to_jsonb govern as db'
      in (Publish (act_result_subject a) (as_bytes (case out of None \<Rightarrow> NULL_REPLY | Some s \<Rightarrow> s)) (act_headers a) # calls,
          db''))"

lemma dispatch_one_governed:
  assumes "set_config_law P" "dispatch_law P to_jsonb govern"
    "to_jsonb (from_utf8_lossy (act_payload a)) = Some j"
  shows "dispatch_one P a db =
    (let (out, db') = govern db (action_settings a) (act_verb a) j
     in (Returns (case out of None \<Rightarrow> NULL_REPLY | Some s \<Rightarrow> s), db'))"
proof -
  have set: "pg_exec P (Set_Config_Local k v) t = (Spi_Ok [[Cell_Text v]], t\<lparr>settings := (settings t)(k \<mapsto> v)\<rparr>)"
    for k v t using assms(1) by (simp add: set_config_law_def)
  obtain out db' where g: "govern db (action_settings a) (act_verb a) j = (out, db')" by fastforce
  obtain s' where run: "pg_exec P (Dispatch_Safe (act_verb a) (from_utf8_lossy (act_payload a))) \<lparr>txn_db = db, settings = action_settings a\<rparr> =
      (Spi_Ok [[case out of None \<Rightarrow> Cell_Null | Some s \<Rightarrow> Cell_Text s]], \<lparr>txn_db = db', settings = s'\<rparr>)"
    using assms(2)[unfolded dispatch_law_def, rule_format, OF assms(3), of "\<lparr>txn_db = db, settings = action_settings a\<rparr>" "act_verb a"] g by auto
  have row: "last_row cell_text (\<lambda>v. v) None [[case out of None \<Rightarrow> Cell_Null | Some s \<Rightarrow> Cell_Text s]] = Spi_Ok out"
    by (cases out) (simp_all add: row_get_def)
  have s: "action_settings a = (let m = (case act_identity a of None \<Rightarrow> \<lambda>_. None | Some sub \<Rightarrow> [lit ''ckp.requester'' \<mapsto> sub])
      in if act_kernel a \<noteq> [] then m(lit ''ckp.project'' \<mapsto> act_kernel a) else m)"
    by (auto simp: action_settings_def fun_eq_iff Let_def split: option.splits)
  have "dispatch_txn P a \<lparr>txn_db = db, settings = (\<lambda>_. None)\<rparr> = (Spi_Ok out, \<lparr>txn_db = db', settings = s'\<rparr>)"
    using run row unfolding dispatch_txn_def s
    by (cases "act_identity a"; cases "act_kernel a = []") (simp_all add: set del: last_row.simps)
  then show ?thesis
    unfolding dispatch_one_def transaction_def by (auto simp: g split: option.splits)
qed

lemma dispatch_run:
  assumes "set_config_law P" "dispatch_law P to_jsonb govern"
    "\<forall>a \<in> set actions. to_jsonb (from_utf8_lossy (act_payload a)) \<noteq> None"
  shows "dispatch_loop P actions db =
    (fst (governed_run to_jsonb govern actions db), snd (governed_run to_jsonb govern actions db), None)"
  using assms(3)
proof (induction actions arbitrary: db)
  case (Cons a as)
  then obtain j where j: "to_jsonb (from_utf8_lossy (act_payload a)) = Some j" by auto
  show ?case
    using Cons by (simp add: dispatch_one_governed[OF assms(1,2) j] j split_beta)
qed simp

text \<open>What the error reply is. Between the quotes of its last field it carries the
  error text with every quote replaced, so that no error text closes that string early;
  the text is a JSON string body exactly when the error has no backslash and no control
  character, which are passed through as they are.\<close>

definition json_string_body :: "str \<Rightarrow> bool" where
  "json_string_body s \<longleftrightarrow> list_all (\<lambda>c. c \<noteq> quote \<and> c \<noteq> 92 \<and> 32 \<le> c) s"

lemma error_reply_body:
  "\<exists>body. error_reply e = lit ''{'' @ jq ''ok'' @ lit '':false,'' @ jq ''error'' @ lit '':'' @ quote # body @ quote # lit ''}'' \<and>
     quote \<notin> set body \<and> (json_string_body body \<longleftrightarrow> list_all (\<lambda>c. c \<noteq> 92 \<and> 32 \<le> c) e)"
proof (intro exI[of _ "lit ''dispatch failed: '' @ replace_char quote apostrophe e"] conjI)
  show "error_reply e = lit ''{'' @ jq ''ok'' @ lit '':false,'' @ jq ''error'' @ lit '':'' @ quote #
      (lit ''dispatch failed: '' @ replace_char quote apostrophe e) @ quote # lit ''}''"
    by (simp add: error_reply_def)
  have l: "list_all (\<lambda>c. c \<noteq> quote \<and> c \<noteq> 92 \<and> 32 \<le> c) (lit ''dispatch failed: '')"
    by (simp add: lit_def quote_def)
  have r: "list_all (\<lambda>c. c \<noteq> quote \<and> c \<noteq> 92 \<and> 32 \<le> c) (replace_char quote apostrophe e) \<longleftrightarrow>
      list_all (\<lambda>c. c \<noteq> 92 \<and> 32 \<le> c) e"
    by (induction e) (simp_all add: replace_char_def quote_def apostrophe_def)
  from l r show "json_string_body (lit ''dispatch failed: '' @ replace_char quote apostrophe e) \<longleftrightarrow>
      list_all (\<lambda>c. c \<noteq> 92 \<and> 32 \<le> c) e"
    by (simp add: json_string_body_def)
  have "quote \<notin> set (replace_char quote apostrophe e)"
    by (induction e) (simp_all add: replace_char_def quote_def apostrophe_def)
  moreover from l have "quote \<notin> set (lit ''dispatch failed: '')" by (auto simp: list_all_iff)
  ultimately show "quote \<notin> set (lit ''dispatch failed: '' @ replace_char quote apostrophe e)" by simp
qed

section \<open>Properties\<close>

text \<open>The inbound queue. Whatever the relay enqueues between two drains, the worker
  takes the first thousand actions, in the order they arrived, and leaves the queue
  empty; the queue never holds more.\<close>

theorem inbound_queue_fifo:
  "take_all (fold enqueue actions queue_init) = (take 1000 actions, queue_init)"
proof -
  have "fold enqueue actions (Healthy q) = Healthy (fold queue_push actions q)" for q
    by (induction actions arbitrary: q) (simp_all add: enqueue_def)
  then show ?thesis
    using inq.pushes_keep_prefix[of "[]" actions] by (simp add: take_all_def queue_init_def MAX_QUEUE_def)
qed

text \<open>Every action is governed as its own caller. When the payloads are JSON, draining
  the queue runs the governed function once per action, in order, each time with exactly
  two local settings: the requester the broker enforced for that action (absent when it has
  none) and the kernel it addressed. No local setting of one action is left for the next, and each action gets one reply, on its own result subject with its own headers.\<close>

theorem actions_governed_as_caller:
  assumes "set_config_law P" "dispatch_law P to_jsonb govern"
    "\<forall>a \<in> set actions. to_jsonb (from_utf8_lossy (act_payload a)) \<noteq> None"
  shows "drain_and_dispatch P (Healthy actions) db =
    (fst (governed_run to_jsonb govern actions db), Healthy [], snd (governed_run to_jsonb govern actions db), None)"
  using dispatch_run[OF assms] by (simp add: drain_and_dispatch_def take_all_def)

definition demo_pg :: "(str \<times> str option) list pg" where
  "demo_pg = \<lparr>pg_exec = (\<lambda>stmt t. case stmt of
     Set_Config_Local k v \<Rightarrow> (Spi_Ok [[Cell_Text v]], t\<lparr>settings := (settings t)(k \<mapsto> v)\<rparr>)
   | Dispatch_Safe verb payload \<Rightarrow>
       if payload = [] then (Spi_Raise (lit ''invalid input syntax for type json''), t)
       else (Spi_Ok [[Cell_Text (lit ''{}'')]], t\<lparr>txn_db := txn_db t @ [(verb, settings t (lit ''ckp.requester''))]\<rparr>)
   | _ \<Rightarrow> (Spi_Ok [], t))\<rparr>"

definition demo_govern :: "(str \<times> str option) list \<Rightarrow> (str \<Rightarrow> str option) \<Rightarrow> str \<Rightarrow> json \<Rightarrow> str option \<times> (str \<times> str option) list" where
  "demo_govern db s verb j = (Some (lit ''{}''), db @ [(verb, s (lit ''ckp.requester''))])"

definition demo_jsonb :: "str \<Rightarrow> json option" where
  "demo_jsonb s = (if s = [] then None else Some JNull)"

lemma demo_pg_laws: "set_config_law demo_pg" "dispatch_law demo_pg demo_jsonb demo_govern" "cast_law demo_pg demo_jsonb"
  by (auto simp: set_config_law_def dispatch_law_def cast_law_def demo_pg_def demo_jsonb_def demo_govern_def txn_db_update)

definition demo_action :: "string \<Rightarrow> string option \<Rightarrow> bytes \<Rightarrow> inbound_action" where
  "demo_action verb who payload = \<lparr>act_kernel = lit ''pgck'', act_verb = lit verb, act_payload = payload,
     act_result_subject = lit ''r'', act_headers = [], act_identity = map_option lit who\<rparr>"

lemma demo_payloads: "from_utf8_lossy (as_bytes (lit ''{}'')) = lit ''{}''" "from_utf8_lossy [] = []"
proof -
  have "wf_str (lit ''{}'')" "wf_str []" by (simp_all add: wf_str_def is_scalar_def lit_def)
  from this[THEN lossy_as_bytes]
  show "from_utf8_lossy (as_bytes (lit ''{}'')) = lit ''{}''" "from_utf8_lossy [] = []" by (simp_all add: as_bytes_def)
qed

lemma demo_casts:
  "demo_jsonb (from_utf8_lossy (as_bytes (lit ''{}''))) = Some JNull" "demo_jsonb (from_utf8_lossy []) = None"
  unfolding demo_payloads by (simp_all add: demo_jsonb_def lit_def)

theorem actions_governed_as_caller_witness:
  "fst (snd (snd (drain_and_dispatch demo_pg
      (Healthy [demo_action ''v1'' (Some ''alice'') (as_bytes (lit ''{}'')), demo_action ''v2'' None (as_bytes (lit ''{}''))]) []))) =
    [(lit ''v1'', Some (lit ''alice'')), (lit ''v2'', None)]"
  by (subst actions_governed_as_caller[OF demo_pg_laws(1,2)])
    (simp_all add: demo_action_def demo_casts demo_govern_def action_settings_def)

text \<open>C40: a payload that is no JSON unwinds the worker. The cast is evaluated before the
  wrapper that turns refusals into values is entered, so the first such payload ends the
  loop with a panic, and the actions that were taken with it are neither dispatched nor
  answered.\<close>

theorem malformed_payload_unwinds:
  assumes "set_config_law P" "dispatch_law P to_jsonb govern" "cast_law P to_jsonb"
    "\<forall>a \<in> set before. to_jsonb (from_utf8_lossy (act_payload a)) \<noteq> None"
    "to_jsonb (from_utf8_lossy (act_payload bad)) = None"
  shows "\<exists>e. drain_and_dispatch P (Healthy (before @ bad # after)) db =
    (fst (governed_run to_jsonb govern before db), Healthy [], snd (governed_run to_jsonb govern before db), Some e)"
proof -
  have set: "pg_exec P (Set_Config_Local k v) t = (Spi_Ok [[Cell_Text v]], t\<lparr>settings := (settings t)(k \<mapsto> v)\<rparr>)"
    for k v t using assms(1) by (simp add: set_config_law_def)
  have bad: "\<exists>e. dispatch_one P bad db = (Panics e, db)" for db
  proof -
    have raise: "\<exists>e t'. pg_exec P (Dispatch_Safe (act_verb bad) (from_utf8_lossy (act_payload bad))) t = (Spi_Raise e, t')" for t
      using assms(3,5) by (simp add: cast_law_def)
    have last: "\<exists>e t'. spi_then (pg_exec P (Dispatch_Safe (act_verb bad) (from_utf8_lossy (act_payload bad))) t) g =
        (Spi_Raise e, t')" for t and g :: "spi_row list \<Rightarrow> 'a txn \<Rightarrow> str option spi_result \<times> 'a txn"
      using raise[of t] by auto
    have "\<exists>e t'. dispatch_txn P bad t = (Spi_Raise e, t')" for t
      by (cases "act_identity bad"; cases "act_kernel bad = []") (simp_all add: dispatch_txn_def set last)
    then obtain e t' where "dispatch_txn P bad \<lparr>txn_db = db, settings = (\<lambda>_. None)\<rparr> = (Spi_Raise e, t')" by blast
    then show ?thesis by (simp add: dispatch_one_def transaction_def)
  qed
  have "\<exists>e. dispatch_loop P (before @ bad # after) db =
      (fst (governed_run to_jsonb govern before db), snd (governed_run to_jsonb govern before db), Some e)"
    using assms(4)
  proof (induction before arbitrary: db)
    case Nil
    from bad[of db] show ?case by auto
  next
    case (Cons a as)
    then obtain j where j: "to_jsonb (from_utf8_lossy (act_payload a)) = Some j" by auto
    obtain out db' where g: "govern db (action_settings a) (act_verb a) j = (out, db')" by fastforce
    from Cons.IH[of db'] Cons.prems show ?case
      by (auto simp: dispatch_one_governed[OF assms(1,2) j] j g split_beta)
  qed
  then show ?thesis by (auto simp: drain_and_dispatch_def take_all_def)
qed

theorem malformed_payload_unwinds_witness:
  "\<exists>e. snd (snd (snd (drain_and_dispatch demo_pg
     (Healthy [demo_action ''v1'' None (as_bytes (lit ''{}'')), demo_action ''v2'' None [], demo_action ''v3'' None (as_bytes (lit ''{}''))]) []))) = Some e"
  using malformed_payload_unwinds[OF demo_pg_laws, of "[demo_action ''v1'' None (as_bytes (lit ''{}''))]" "demo_action ''v2'' None []"
      "[demo_action ''v3'' None (as_bytes (lit ''{}''))]" "[]"]
  by (auto simp: demo_action_def demo_casts)

end
