(* ===== verification/Jwt_Verify.thy ===== *)
theory Jwt_Verify
  imports Json Rust_Utf8 "HOL-Library.AList"
begin

text \<open>
  \<^verbatim>\<open>src/src/jwt_verify.rs\<close>: the in-memory verifier of EdDSA tokens and the admission
  decision. The crates it calls (JSON text, base64url, Ed25519) are the fields of the
  record \<open>verifier_libs\<close>, an argument of every operation. The checks and their order
  are the source's; \<^verbatim>\<open>i64\<close> arithmetic on \<^verbatim>\<open>exp\<close> and \<^verbatim>\<open>nbf\<close> wraps.
\<close>

section \<open>The libraries the verifier calls\<close>

record ('vk, 'sg) verifier_libs =
  json_from_slice :: "bytes \<Rightarrow> json option"
  json_from_str :: "str \<Rightarrow> json option"
  b64_decode :: "str \<Rightarrow> bytes option"
  vk_from_bytes :: "bytes \<Rightarrow> 'vk option"
  sig_from_slice :: "bytes \<Rightarrow> 'sg option"
  ed_verify :: "'vk \<Rightarrow> bytes \<Rightarrow> 'sg \<Rightarrow> bool"

section \<open>Data\<close>

record verified_identity =
  id_sub :: str
  preferred_username :: "str option"
  id_exp :: i64

datatype verify_error =
    Malformed | UnsupportedAlg | BadSignature | Expired | NotYetValid
  | WrongIssuer | WrongAudience | MissingSub

record expected =
  issuer :: str
  audience :: str
  now_unix :: i64
  leeway_secs :: i64

type_synonym 'vk jwks = "(str \<times> 'vk) list"

record 'vk auth_config =
  cfg_jwks :: "'vk jwks"
  cfg_issuer :: str
  cfg_audience :: str
  cfg_leeway_secs :: i64

datatype admission = Verified str i64 | Anonymous

section \<open>Operations\<close>

definition b64 :: "('vk, 'sg, 'm) verifier_libs_scheme \<Rightarrow> str \<Rightarrow> verify_error + bytes" where
  "b64 L s = ok_or (b64_decode L s) Malformed"

fun aud_contains :: "json option \<Rightarrow> str \<Rightarrow> bool" where
  "aud_contains (Some (JString s)) want \<longleftrightarrow> s = want"
| "aud_contains (Some (JArray a)) want \<longleftrightarrow> list_ex (\<lambda>v. as_str v = Some want) a"
| "aud_contains _ want \<longleftrightarrow> False"

definition decode_json :: "('vk, 'sg, 'm) verifier_libs_scheme \<Rightarrow> str \<Rightarrow> verify_error + json" where
  "decode_json L seg = and_then (b64 L seg) (\<lambda>bs. ok_or (json_from_slice L bs) Malformed)"

text \<open>Step 4 of \<^verbatim>\<open>verify_eddsa\<close>: the claims, once the payload is authentic.\<close>

definition check_claims :: "json \<Rightarrow> expected \<Rightarrow> verify_error + verified_identity" where
  "check_claims claims ex =
     (if get_str claims ''iss'' \<noteq> Some (issuer ex) then Inl WrongIssuer
      else if \<not> aud_contains (json_get claims (lit ''aud'')) (audience ex) then Inl WrongAudience
      else case get_i64 claims ''exp'' of
             None \<Rightarrow> Inl Expired
           | Some exp \<Rightarrow>
               if \<not> sint (now_unix ex) < sint (exp + leeway_secs ex) then Inl Expired
               else if (case get_i64 claims ''nbf'' of
                          None \<Rightarrow> False
                        | Some nbf \<Rightarrow> sint (now_unix ex) < sint (nbf - leeway_secs ex))
               then Inl NotYetValid
               else and_then (ok_or (get_str claims ''sub'') MissingSub)
                 (\<lambda>sub. Inr \<lparr>id_sub = sub,
                    preferred_username = get_str claims ''preferred_username'',
                    id_exp = exp\<rparr>))"

definition verify_eddsa ::
    "('vk, 'sg, 'm) verifier_libs_scheme \<Rightarrow> str \<Rightarrow> 'vk \<Rightarrow> expected \<Rightarrow> verify_error + verified_identity" where
  "verify_eddsa L token pubkey ex =
     (case split_on dot token of
        [h_b64, p_b64, s_b64] \<Rightarrow>
          and_then (decode_json L h_b64) (\<lambda>header.
            if get_str header ''alg'' \<noteq> Some (lit ''EdDSA'') then Inl UnsupportedAlg
            else and_then (b64 L s_b64) (\<lambda>sbytes.
              and_then (ok_or (sig_from_slice L sbytes) BadSignature) (\<lambda>sg.
                let signing_input = h_b64 @ dot # p_b64
                in if \<not> ed_verify L pubkey (as_bytes signing_input) sg then Inl BadSignature
                   else and_then (decode_json L p_b64) (\<lambda>claims. check_claims claims ex))))
      | _ \<Rightarrow> Inl Malformed)"

text \<open>One turn of the loop of \<^verbatim>\<open>Jwks::parse\<close>: the key an entry contributes, or
  \<open>None\<close> where the source continues with the next entry.\<close>

definition jwk_key :: "('vk, 'sg, 'm) verifier_libs_scheme \<Rightarrow> json \<Rightarrow> (str \<times> 'vk) option" where
  "jwk_key L jwk =
     (if get_str jwk ''kty'' \<noteq> Some (lit ''OKP'') then None
      else if get_str jwk ''crv'' \<noteq> Some (lit ''Ed25519'') then None
      else case (get_str jwk ''kid'', get_str jwk ''x'') of
             (Some kid, Some x) \<Rightarrow>
               (case b64_decode L x of
                  None \<Rightarrow> None
                | Some bs \<Rightarrow>
                    if length bs \<noteq> 32 then None
                    else map_option (\<lambda>vk. (kid, vk)) (vk_from_bytes L bs))
           | _ \<Rightarrow> None)"

definition jwks_parse :: "('vk, 'sg, 'm) verifier_libs_scheme \<Rightarrow> str \<Rightarrow> verify_error + 'vk jwks" where
  "jwks_parse L jwks_json =
     and_then (ok_or (json_from_str L jwks_json) Malformed) (\<lambda>doc.
     and_then (ok_or (Option.bind (json_get doc (lit ''keys'')) as_array) Malformed) (\<lambda>arr.
       let keys = fold (\<lambda>jwk ks. case jwk_key L jwk of
                                    None \<Rightarrow> ks
                                  | Some (kid, vk) \<Rightarrow> AList.update kid vk ks) arr []
       in if keys = [] then Inl Malformed else Inr keys))"

definition jwks_get :: "'vk jwks \<Rightarrow> str \<Rightarrow> 'vk option" where
  "jwks_get jw kid = map_of jw kid"

definition jwks_len :: "'vk jwks \<Rightarrow> nat" where
  "jwks_len jw = length jw"

definition jwks_is_empty :: "'vk jwks \<Rightarrow> bool" where
  "jwks_is_empty jw \<longleftrightarrow> jw = []"

definition verify_jwt ::
    "('vk, 'sg, 'm) verifier_libs_scheme \<Rightarrow> str \<Rightarrow> 'vk jwks \<Rightarrow> expected \<Rightarrow> verify_error + verified_identity" where
  "verify_jwt L token jw ex =
     and_then (decode_json L (hd (split_on dot token))) (\<lambda>header.
     and_then (ok_or (get_str header ''kid'') Malformed) (\<lambda>kid.
     and_then (ok_or (jwks_get jw kid) BadSignature) (\<lambda>key.
       verify_eddsa L token key ex)))"

definition from_parts ::
    "('vk, 'sg, 'm) verifier_libs_scheme \<Rightarrow> str \<Rightarrow> str \<Rightarrow> str \<Rightarrow> verify_error + 'vk auth_config" where
  "from_parts L jwks_json iss aud =
     and_then (jwks_parse L jwks_json) (\<lambda>jw.
       Inr \<lparr>cfg_jwks = jw, cfg_issuer = iss, cfg_audience = aud, cfg_leeway_secs = 30\<rparr>)"

definition config_verify ::
    "('vk, 'sg, 'm) verifier_libs_scheme \<Rightarrow> 'vk auth_config \<Rightarrow> str \<Rightarrow> i64 \<Rightarrow> verify_error + verified_identity" where
  "config_verify L cfg token now =
     verify_jwt L token (cfg_jwks cfg)
       \<lparr>issuer = cfg_issuer cfg, audience = cfg_audience cfg, now_unix = now,
        leeway_secs = cfg_leeway_secs cfg\<rparr>"

definition callout_identity ::
    "('vk, 'sg, 'm) verifier_libs_scheme \<Rightarrow> str option \<Rightarrow> 'vk auth_config option \<Rightarrow> i64 \<Rightarrow> admission" where
  "callout_identity L token cfg now =
     (case (token, cfg) of
        (Some t, Some c) \<Rightarrow>
          (case config_verify L c t now of
             Inr ident \<Rightarrow> Verified (id_sub ident) (id_exp ident)
           | Inl _ \<Rightarrow> Anonymous)
      | _ \<Rightarrow> Anonymous)"

section \<open>Signed arithmetic\<close>

lemma i64_range: "- (2 ^ 63) \<le> sint (w :: i64)" "sint w < 2 ^ 63"
  using sint_greater_eq[of w] sint_less[of w] by simp_all

lemma i64_add: "sint (a + b :: i64) = signed_take_bit 63 (sint a + sint b)"
  by (simp add: sint_word_ariths)

lemma i64_add_exact:
  "- (2 ^ 63) \<le> sint a + sint b \<Longrightarrow> sint a + sint b < 2 ^ 63 \<Longrightarrow> sint (a + b :: i64) = sint a + sint b"
  unfolding i64_add by (rule signed_take_bit_int_eq_self) simp_all

lemma i64_add_overflow:
  assumes "2 ^ 63 \<le> sint a + sint b"
  shows "sint (a + b :: i64) = sint a + sint b - 2 ^ 64"
proof -
  have b: "sint a + sint b < 2 ^ 64" using i64_range[of a] i64_range[of b] by simp
  have w: "a + b = word_of_int (sint a + sint b - 2 ^ 64)" by simp
  have "sint (a + b) = signed_take_bit 63 (sint a + sint b - 2 ^ 64)"
    by (subst w, subst sint_sbintrunc') simp
  also have "\<dots> = sint a + sint b - 2 ^ 64"
    by (rule signed_take_bit_int_eq_self) (use assms b in simp_all)
  finally show ?thesis .
qed

section \<open>When a token is accepted\<close>

lemma split_three: "split_on dot t = [h, p, s] \<longleftrightarrow>
    t = h @ dot # p @ dot # s \<and> dot \<notin> set h \<and> dot \<notin> set p \<and> dot \<notin> set s"
proof
  assume a: "split_on dot t = [h, p, s]"
  then have "join_on dot [h, p, s] = t" by (metis join_split)
  moreover have "\<forall>x \<in> {h, p, s}. dot \<notin> set x" using split_on_piece_clean[of _ dot t] a by auto
  ultimately show "t = h @ dot # p @ dot # s \<and> dot \<notin> set h \<and> dot \<notin> set p \<and> dot \<notin> set s" by auto
qed (simp add: str_simps)

text \<open>The claims an accepted payload makes.\<close>

definition claims_hold :: "json \<Rightarrow> expected \<Rightarrow> verified_identity \<Rightarrow> bool" where
  "claims_hold claims ex ident \<longleftrightarrow>
     get_str claims ''iss'' = Some (issuer ex) \<and>
     aud_contains (json_get claims (lit ''aud'')) (audience ex) \<and>
     get_i64 claims ''exp'' = Some (id_exp ident) \<and>
     sint (now_unix ex) < sint (id_exp ident + leeway_secs ex) \<and>
     pred_option (\<lambda>nbf. sint (nbf - leeway_secs ex) \<le> sint (now_unix ex)) (get_i64 claims ''nbf'') \<and>
     get_str claims ''sub'' = Some (id_sub ident) \<and>
     preferred_username ident = get_str claims ''preferred_username''"

lemma check_claims_ok [ok_iff]: "check_claims claims ex = Inr ident \<longleftrightarrow> claims_hold claims ex ident"
  by (cases ident) (auto simp: check_claims_def claims_hold_def ok_iff split: option.splits if_splits)

text \<open>A token whose three segments are authentic under a key: the header names EdDSA, and
  the third segment is a signature of the first two.\<close>

definition authentic ::
    "('vk, 'sg, 'm) verifier_libs_scheme \<Rightarrow> 'vk \<Rightarrow> str \<Rightarrow> str \<Rightarrow> str \<Rightarrow> bool" where
  "authentic L key h p s \<longleftrightarrow>
     (\<exists>header sbytes sg. decode_json L h = Inr header \<and> get_str header ''alg'' = Some (lit ''EdDSA'') \<and>
        b64_decode L s = Some sbytes \<and> sig_from_slice L sbytes = Some sg \<and>
        ed_verify L key (as_bytes (h @ dot # p)) sg)"

lemma verify_eddsa_three:
  "split_on dot t = [h, p, s] \<Longrightarrow> authentic L key h p s \<Longrightarrow>
     verify_eddsa L t key ex = and_then (decode_json L p) (\<lambda>claims. check_claims claims ex)"
  by (auto simp: verify_eddsa_def authentic_def b64_def Let_def)

lemma verify_eddsa_ok [ok_iff]:
  "verify_eddsa L t key ex = Inr ident \<longleftrightarrow>
     (\<exists>h p s claims. split_on dot t = [h, p, s] \<and> authentic L key h p s \<and>
        decode_json L p = Inr claims \<and> claims_hold claims ex ident)"
proof
  assume v: "verify_eddsa L t key ex = Inr ident"
  then obtain h p s where t: "split_on dot t = [h, p, s]"
    by (auto simp: verify_eddsa_def split: list.splits)
  with v have "authentic L key h p s"
    by (auto simp: verify_eddsa_def authentic_def ok_iff b64_def Let_def split: if_splits)
  with t v show "\<exists>h p s claims. split_on dot t = [h, p, s] \<and> authentic L key h p s \<and>
      decode_json L p = Inr claims \<and> claims_hold claims ex ident"
    by (auto simp: verify_eddsa_three ok_iff)
qed (auto simp: verify_eddsa_three ok_iff)

lemma verify_jwt_ok [ok_iff]:
  "verify_jwt L t jw ex = Inr ident \<longleftrightarrow>
     (\<exists>h header kid key. hd (split_on dot t) = h \<and> decode_json L h = Inr header \<and>
        get_str header ''kid'' = Some kid \<and> jwks_get jw kid = Some key \<and>
        verify_eddsa L t key ex = Inr ident)"
  by (auto simp: verify_jwt_def and_then_ok ok_or_ok)

lemma callout_identity_verified:
  "callout_identity L tok cfg now = Verified sub exp \<longleftrightarrow>
     (\<exists>t c ident. tok = Some t \<and> cfg = Some c \<and> config_verify L c t now = Inr ident \<and>
        sub = id_sub ident \<and> exp = id_exp ident)"
  by (auto simp: callout_identity_def split: option.splits sum.splits)

section \<open>A concrete library instance\<close>

text \<open>Instances on which the properties' hypotheses are shown to hold: base64 is the
  identity on bytes, JSON texts are looked up in a table, and the one key accepts the
  one signature of the text \<open>H.P\<close>.\<close>

definition demo_header :: json where
  "demo_header = json_obj [(lit ''alg'', JString (lit ''EdDSA'')), (lit ''kid'', JString (lit ''k1''))]"

definition demo_claims :: "i64 \<Rightarrow> json" where
  "demo_claims e = json_obj [(lit ''iss'', JString (lit ''R'')), (lit ''aud'', JArray [JString (lit ''ck'')]),
     (lit ''sub'', JString (lit ''alice'')), (lit ''exp'', json_i64 e)]"

definition demo_libs :: "i64 \<Rightarrow> (nat, bytes) verifier_libs" where
  "demo_libs e = \<lparr>
     json_from_slice = map_of [(as_bytes (lit ''H''), demo_header), (as_bytes (lit ''P''), demo_claims e)],
     json_from_str = (\<lambda>s. Some (json_obj [(lit ''keys'', JArray [json_obj
        [(lit ''kty'', JString (lit ''OKP'')), (lit ''crv'', JString (lit ''Ed25519'')),
         (lit ''kid'', JString (lit ''k1'')), (lit ''x'', JString s)]])])),
     b64_decode = (\<lambda>s. Some (as_bytes s)),
     vk_from_bytes = (\<lambda>bs. Some 7),
     sig_from_slice = Some,
     ed_verify = (\<lambda>vk msg sg. vk = 7 \<and> msg = as_bytes (lit ''H.P'') \<and> sg = as_bytes (lit ''S''))\<rparr>"

definition demo_config :: "nat auth_config" where
  "demo_config = \<lparr>cfg_jwks = [(lit ''k1'', 7)], cfg_issuer = lit ''R'', cfg_audience = lit ''ck'',
     cfg_leeway_secs = 30\<rparr>"

lemmas demo_defs = demo_libs_def demo_config_def demo_header_def demo_claims_def

lemma demo_split: "split_on dot (lit ''H.P.S'') = [lit ''H'', lit ''P'', lit ''S'']"
  by (simp add: split_on_def lit_def)

lemma demo_gets:
  "get_str demo_header ''alg'' = Some (lit ''EdDSA'')" "get_str demo_header ''kid'' = Some (lit ''k1'')"
  "get_str (demo_claims e) ''iss'' = Some (lit ''R'')" "get_str (demo_claims e) ''sub'' = Some (lit ''alice'')"
  "get_i64 (demo_claims e) ''exp'' = Some e" "get_i64 (demo_claims e) ''nbf'' = None"
  "aud_contains (json_get (demo_claims e) (lit ''aud'')) (lit ''ck'')"
  by (simp_all add: get_str_def get_i64_def demo_header_def demo_claims_def json_get_obj lit_def)

lemma demo_decode:
  "decode_json (demo_libs e) (lit ''H'') = Inr demo_header"
  "decode_json (demo_libs e) (lit ''P'') = Inr (demo_claims e)"
  by (simp_all add: decode_json_def b64_def demo_libs_def lit_def encode_char_def byte_def)

lemma demo_authentic: "authentic (demo_libs e) 7 (lit ''H'') (lit ''P'') (lit ''S'')"
  by (simp add: authentic_def demo_decode demo_gets) (simp add: demo_libs_def lit_def)

lemma demo_parts:
  "from_parts (demo_libs e) (replicate 32 120) (lit ''R'') (lit ''ck'') = Inr demo_config"
  "from_parts (demo_libs e) (replicate 7 120) (lit ''R'') (lit ''ck'') = Inl Malformed"
proof -
  have len: "length (as_bytes (replicate n 120)) = n" for n
    by (induction n) (simp_all add: encode_char_def)
  have "jwk_key (demo_libs e) (json_obj [(lit ''kty'', JString (lit ''OKP'')), (lit ''crv'', JString (lit ''Ed25519'')),
      (lit ''kid'', JString (lit ''k1'')), (lit ''x'', JString (replicate 32 120))]) = Some (lit ''k1'', 7)"
    using len[of 32] by (simp add: jwk_key_def get_str_def json_get_obj demo_libs_def)
  then show "from_parts (demo_libs e) (replicate 32 120) (lit ''R'') (lit ''ck'') = Inr demo_config"
    by (simp add: from_parts_def jwks_parse_def demo_libs_def json_get_obj demo_config_def)
  have "jwk_key (demo_libs e) (json_obj [(lit ''kty'', JString (lit ''OKP'')),
      (lit ''crv'', JString (lit ''Ed25519'')), (lit ''kid'', JString (lit ''k1'')),
      (lit ''x'', JString (replicate 7 120))]) = None"
    using len[of 7] by (simp add: jwk_key_def get_str_def json_get_obj demo_libs_def)
  then show "from_parts (demo_libs e) (replicate 7 120) (lit ''R'') (lit ''ck'') = Inl Malformed"
    by (simp add: from_parts_def jwks_parse_def demo_libs_def json_get_obj)
qed

lemma demo_admits:
  assumes "sint now < sint (e + 30)"
  shows "callout_identity (demo_libs e) (Some (lit ''H.P.S'')) (Some demo_config) now = Verified (lit ''alice'') e"
proof -
  let ?ident = "\<lparr>id_sub = lit ''alice'', preferred_username = get_str (demo_claims e) ''preferred_username'',
    id_exp = e\<rparr>"
  have "config_verify (demo_libs e) demo_config (lit ''H.P.S'') now = Inr ?ident"
    unfolding config_verify_def verify_jwt_ok verify_eddsa_ok demo_split
    using assms by (simp add: demo_decode demo_gets demo_authentic claims_hold_def demo_config_def jwks_get_def)
  then show ?thesis by (auto simp: callout_identity_verified)
qed

section \<open>Properties\<close>

text \<open>C6: the admission decision. A connection is admitted as \<open>sub\<close> with expiry \<open>exp\<close>
  exactly when a token was presented, verification is configured, the token is three
  segments, its header names EdDSA and the \<^verbatim>\<open>kid\<close> of a realm key, that key verifies
  the signature over the first two segments, and the claims of the second segment
  name the configured issuer and audience, that expiry and that subject, and are
  valid now. In every other case the connection is anonymous.\<close>

theorem admitted_iff_signed_and_valid:
  "callout_identity L tok cfg now = Verified sub exp \<longleftrightarrow>
     (\<exists>t c h p s header kid key claims ident.
        tok = Some t \<and> cfg = Some c \<and> t = h @ dot # p @ dot # s \<and>
        dot \<notin> set h \<and> dot \<notin> set p \<and> dot \<notin> set s \<and>
        decode_json L h = Inr header \<and> get_str header ''kid'' = Some kid \<and>
        jwks_get (cfg_jwks c) kid = Some key \<and> authentic L key h p s \<and>
        decode_json L p = Inr claims \<and>
        claims_hold claims \<lparr>issuer = cfg_issuer c, audience = cfg_audience c, now_unix = now,
          leeway_secs = cfg_leeway_secs c\<rparr> ident \<and>
        sub = id_sub ident \<and> exp = id_exp ident)"
  (is "?l \<longleftrightarrow> ?r")
proof
  assume ?l
  then obtain t c ident h p s header kid key claims where
    "tok = Some t" "cfg = Some c" "sub = id_sub ident" "exp = id_exp ident"
    "decode_json L (hd (split_on dot t)) = Inr header" "get_str header ''kid'' = Some kid"
    "jwks_get (cfg_jwks c) kid = Some key" "split_on dot t = [h, p, s]" "authentic L key h p s"
    "decode_json L p = Inr claims"
    "claims_hold claims \<lparr>issuer = cfg_issuer c, audience = cfg_audience c, now_unix = now,
       leeway_secs = cfg_leeway_secs c\<rparr> ident"
    unfolding callout_identity_verified config_verify_def verify_jwt_ok verify_eddsa_ok by blast
  then show ?r
    by (intro exI[of _ t] exI[of _ c] exI[of _ h] exI[of _ p] exI[of _ s] exI[of _ header]
        exI[of _ kid] exI[of _ key] exI[of _ claims] exI[of _ ident]) (simp add: split_three)
next
  assume ?r
  then obtain t c ident h p s header kid key claims where *: "tok = Some t" "cfg = Some c"
    "sub = id_sub ident" "exp = id_exp ident" "split_on dot t = [h, p, s]"
    "decode_json L h = Inr header" "get_str header ''kid'' = Some kid"
    "jwks_get (cfg_jwks c) kid = Some key" "authentic L key h p s" "decode_json L p = Inr claims"
    "claims_hold claims \<lparr>issuer = cfg_issuer c, audience = cfg_audience c, now_unix = now,
       leeway_secs = cfg_leeway_secs c\<rparr> ident"
    by (metis split_three)
  then have "config_verify L c t now = Inr ident"
    unfolding config_verify_def verify_jwt_ok verify_eddsa_ok by auto
  with * show ?l by (auto simp: callout_identity_verified)
qed

text \<open>C17: un-forgeability at the door. If the realm's keys verify only texts the realm
  has signed, then whatever identity a connection is admitted with, the realm signed
  the very header and payload that claim it. A token with a payload the realm did not
  sign, such as a swapped or altered one, is never admitted.\<close>

theorem admission_unforgeable:
  assumes unforgeable: "\<And>kid key msg sg. jwks_get (cfg_jwks c) kid = Some key \<Longrightarrow>
      ed_verify L key msg sg \<Longrightarrow> msg \<in> realm_signed"
    and admitted: "callout_identity L (Some t) (Some c) now = Verified sub exp"
  shows "\<exists>h p s claims. split_on dot t = [h, p, s] \<and> as_bytes (h @ dot # p) \<in> realm_signed \<and>
    decode_json L p = Inr claims \<and> get_str claims ''sub'' = Some sub \<and>
    get_str claims ''iss'' = Some (cfg_issuer c) \<and> get_i64 claims ''exp'' = Some exp"
proof -
  from admitted obtain ident where v: "config_verify L c t now = Inr ident"
    and i: "sub = id_sub ident" "exp = id_exp ident"
    by (auto simp: callout_identity_verified)
  then obtain h p s kid key claims where "split_on dot t = [h, p, s]"
    "jwks_get (cfg_jwks c) kid = Some key" and a: "authentic L key h p s"
    and d: "decode_json L p = Inr claims" "claims_hold claims \<lparr>issuer = cfg_issuer c,
      audience = cfg_audience c, now_unix = now, leeway_secs = cfg_leeway_secs c\<rparr> ident"
    unfolding config_verify_def verify_jwt_ok verify_eddsa_ok by blast
  moreover from a unforgeable[OF calculation(2)] have "as_bytes (h @ dot # p) \<in> realm_signed"
    by (auto simp: authentic_def)
  ultimately show ?thesis using i d(2) by (auto simp: claims_hold_def)
qed

theorem admission_unforgeable_witness:
  "\<exists>h p s claims. split_on dot (lit ''H.P.S'') = [h, p, s] \<and>
     as_bytes (h @ dot # p) \<in> {as_bytes (lit ''H.P'')} \<and>
     decode_json (demo_libs 10000) p = Inr claims \<and> get_str claims ''sub'' = Some (lit ''alice'') \<and>
     get_str claims ''iss'' = Some (cfg_issuer demo_config) \<and> get_i64 claims ''exp'' = Some 10000"
proof (rule admission_unforgeable)
  show "callout_identity (demo_libs 10000) (Some (lit ''H.P.S'')) (Some demo_config) 9000
      = Verified (lit ''alice'') 10000"
    by (rule demo_admits) simp
  show "\<And>kid key msg sg. jwks_get (cfg_jwks demo_config) kid = Some key \<Longrightarrow>
      ed_verify (demo_libs 10000) key msg sg \<Longrightarrow> msg \<in> {as_bytes (lit ''H.P'')}"
    by (simp add: demo_libs_def)
qed

text \<open>No claim is read before the signature is checked. Whenever the verifier's
  verdict is about a claim (issuer, audience, expiry, not-before or subject), the
  token is authentic under the key.\<close>

theorem claim_verdicts_need_signature:
  assumes "verify_eddsa L t key ex = Inl e"
    "e \<in> {WrongIssuer, WrongAudience, Expired, NotYetValid, MissingSub}"
  shows "\<exists>h p s. split_on dot t = [h, p, s] \<and> authentic L key h p s"
proof -
  from assms obtain h p s where t: "split_on dot t = [h, p, s]"
    by (auto simp: verify_eddsa_def split: list.splits)
  have "authentic L key h p s"
  proof (rule ccontr)
    assume n: "\<not> authentic L key h p s"
    with assms(1) t have "e \<in> {Malformed, UnsupportedAlg, BadSignature}"
      by (auto simp: verify_eddsa_def authentic_def decode_json_def b64_def err_iff ok_iff Let_def
          split: if_splits)
    with assms(2) show False by auto
  qed
  with t show ?thesis by blast
qed

theorem claim_verdicts_need_signature_witness:
  "\<exists>h p s. split_on dot (lit ''H.P.S'') = [h, p, s] \<and> authentic (demo_libs 1000) (7::nat) h p s"
proof (rule claim_verdicts_need_signature)
  let ?ex = "\<lparr>issuer = lit ''R'', audience = lit ''ck'', now_unix = 9000, leeway_secs = 30\<rparr>"
  show "verify_eddsa (demo_libs 1000) (lit ''H.P.S'') 7 ?ex = Inl Expired"
    by (simp add: verify_eddsa_three[OF demo_split demo_authentic] demo_decode check_claims_def demo_gets)
  show "Expired \<in> {WrongIssuer, WrongAudience, Expired, NotYetValid, MissingSub}" by simp
qed

text \<open>C32: an admission does not outlive its credential by more than the leeway. With a
  configuration built by \<^verbatim>\<open>from_parts\<close> and a clock past the epoch, the expiry that an
  admission carries is one whose 30 seconds of grace have not run out, in exact
  arithmetic: no overflow of \<^verbatim>\<open>exp + leeway\<close> can make an expired token pass.\<close>

theorem admission_not_expired:
  assumes "from_parts L jwks_json iss aud = Inr c" "0 \<le> sint now"
    "callout_identity L (Some t) (Some c) now = Verified sub exp"
  shows "sint now < sint exp + 30 \<and> sint exp + 30 < 2 ^ 63"
proof -
  from assms(1) have lee: "cfg_leeway_secs c = 30" by (auto simp: from_parts_def ok_iff)
  from assms(3) obtain ident where "config_verify L c t now = Inr ident" "exp = id_exp ident"
    by (auto simp: callout_identity_verified)
  then have lt: "sint now < sint (exp + 30)"
    unfolding config_verify_def verify_jwt_ok verify_eddsa_ok using lee by (auto simp: claims_hold_def)
  have s30: "sint (30 :: i64) = 30" by simp
  have "sint exp + sint (30 :: i64) < 2 ^ 63"
  proof (rule ccontr)
    assume "\<not> ?thesis"
    then have "sint (exp + 30) = sint exp + 30 - 2 ^ 64" using i64_add_overflow[of exp 30] s30 by simp
    with lt assms(2) i64_range(2)[of exp] show False by simp
  qed
  then have "sint (exp + 30) = sint exp + 30"
    using i64_add_exact[of exp 30] s30 i64_range(1)[of exp] by simp
  with lt \<open>sint exp + sint (30 :: i64) < 2 ^ 63\<close> s30 show ?thesis by simp
qed

theorem admission_not_expired_witness:
  "from_parts (demo_libs 10000) (replicate 7 120) (lit ''R'') (lit ''ck'') = Inl Malformed \<and>
   (\<exists>c. from_parts (demo_libs 10000) (replicate 32 120) (lit ''R'') (lit ''ck'') = Inr c \<and>
      callout_identity (demo_libs 10000) (Some (lit ''H.P.S'')) (Some c) 9000
        = Verified (lit ''alice'') 10000 \<and>
      sint (9000 :: i64) < sint (10000 :: i64) + 30 \<and> sint (10000 :: i64) + 30 < 2 ^ 63)"
proof -
  have "callout_identity (demo_libs 10000) (Some (lit ''H.P.S'')) (Some demo_config) 9000 = Verified (lit ''alice'') 10000"
    by (rule demo_admits) simp
  with admission_not_expired[OF demo_parts(1) _ this] demo_parts show ?thesis by simp
qed

text \<open>The leeway addition wraps. A token that is valid in every other respect, whose
  expiry lies within 30 seconds of the largest \<^verbatim>\<open>i64\<close>, is refused as expired although
  its expiry is in the far future.\<close>

theorem far_future_expiry_refused:
  assumes "get_str claims ''iss'' = Some (issuer ex)"
    "aud_contains (json_get claims (lit ''aud'')) (audience ex)"
    "get_i64 claims ''exp'' = Some exp" "2 ^ 63 - 30 \<le> sint exp"
    "leeway_secs ex = 30" "0 \<le> sint (now_unix ex)"
  shows "check_claims claims ex = Inl Expired \<and> (sint (now_unix ex) < 2 ^ 63 - 30 \<longrightarrow> sint (now_unix ex) < sint exp)"
proof -
  have "sint (exp + 30) = sint exp + 30 - 2 ^ 64"
    using i64_add_overflow[of exp 30] assms(4) by simp
  then have "\<not> sint (now_unix ex) < sint (exp + leeway_secs ex)"
    using assms(5,6) i64_range(2)[of exp] by simp
  with assms show ?thesis by (simp add: check_claims_def)
qed

theorem far_future_expiry_refused_witness:
  "check_claims (demo_claims 0x7FFFFFFFFFFFFFFF)
     \<lparr>issuer = lit ''R'', audience = lit ''ck'', now_unix = 9000, leeway_secs = 30\<rparr> = Inl Expired \<and>
   sint (9000 :: i64) < sint (0x7FFFFFFFFFFFFFFF :: i64)"
  using far_future_expiry_refused[of "demo_claims 0x7FFFFFFFFFFFFFFF"
      "\<lparr>issuer = lit ''R'', audience = lit ''ck'', now_unix = 9000, leeway_secs = 30\<rparr>" "0x7FFFFFFFFFFFFFFF"]
  by (simp add: demo_gets)

definition usable_key :: "('vk, 'sg, 'm) verifier_libs_scheme \<Rightarrow> json \<Rightarrow> str \<Rightarrow> 'vk \<Rightarrow> bool" where
  "usable_key L jwk kid vk \<longleftrightarrow>
     get_str jwk ''kty'' = Some (lit ''OKP'') \<and> get_str jwk ''crv'' = Some (lit ''Ed25519'') \<and>
     get_str jwk ''kid'' = Some kid \<and>
     (\<exists>x bs. get_str jwk ''x'' = Some x \<and> b64_decode L x = Some bs \<and> length bs = 32 \<and>
        vk_from_bytes L bs = Some vk)"

lemma jwk_key_iff: "jwk_key L jwk = Some (kid, vk) \<longleftrightarrow> usable_key L jwk kid vk"
  by (auto simp: jwk_key_def usable_key_def split: option.splits if_splits)

definition load_keys :: "('vk, 'sg, 'm) verifier_libs_scheme \<Rightarrow> json list \<Rightarrow> 'vk jwks \<Rightarrow> 'vk jwks" where
  "load_keys L = fold (\<lambda>jwk ks. case jwk_key L jwk of
      None \<Rightarrow> ks | Some (kid, vk) \<Rightarrow> AList.update kid vk ks)"

lemma load_keys_lookup:
  "map_of (load_keys L arr ks) kid =
     (case map_of (rev (List.map_filter (jwk_key L) arr)) kid of None \<Rightarrow> map_of ks kid | Some vk \<Rightarrow> Some vk)"
proof (induction arr arbitrary: ks)
  case Nil
  then show ?case by (simp add: load_keys_def List.map_filter_def)
next
  case (Cons jwk arr)
  show ?case
  proof (cases "jwk_key L jwk")
    case None
    then show ?thesis using Cons.IH[of ks] by (simp add: load_keys_def List.map_filter_def)
  next
    case (Some kv)
    obtain k v where "kv = (k, v)" by (cases kv)
    then show ?thesis using Some Cons.IH[of "AList.update k v ks"]
      by (auto simp: load_keys_def List.map_filter_def update_conv' map_add_def split: option.splits)
  qed
qed

lemma load_keys_Nil: "load_keys L arr [] = [] \<longleftrightarrow> (\<forall>jwk \<in> set arr. jwk_key L jwk = None)"
proof -
  have "load_keys L arr [] = [] \<longleftrightarrow> (\<forall>kid. map_of (load_keys L arr []) kid = None)"
    by (simp only: map_of_none_iff)
  also have "\<dots> \<longleftrightarrow> (\<forall>kid. map_of (rev (List.map_filter (jwk_key L) arr)) kid = None)"
    unfolding load_keys_lookup by (auto split: option.splits)
  also have "\<dots> \<longleftrightarrow> List.map_filter (jwk_key L) arr = []"
    by (simp only: map_of_none_iff rev_is_Nil_conv)
  also have "\<dots> \<longleftrightarrow> (\<forall>jwk \<in> set arr. jwk_key L jwk = None)"
    by (rule map_filter_Nil_iff)
  finally show ?thesis .
qed

lemma jwks_parse_load:
  "jwks_parse L s =
     (case Option.bind (json_from_str L s) (\<lambda>doc. Option.bind (json_get doc (lit ''keys'')) as_array) of
        None \<Rightarrow> Inl Malformed
      | Some arr \<Rightarrow> if load_keys L arr [] = [] then Inl Malformed else Inr (load_keys L arr []))"
  by (auto simp: jwks_parse_def load_keys_def Let_def split: option.splits Option.bind_splits)

text \<open>The key set. Parsing a JWKS document succeeds exactly when the document is JSON
  with an array \<^verbatim>\<open>keys\<close> that holds a usable entry; a \<^verbatim>\<open>kid\<close> is then looked up to the
  key of the last usable entry that carries it, every key comes from an entry of type
  OKP and curve Ed25519 with 32 bytes of key material, and every other entry is
  skipped.\<close>

theorem jwks_parse_spec:
  "jwks_parse L s = Inr ks \<longleftrightarrow>
     (\<exists>doc arr. json_from_str L s = Some doc \<and>
        Option.bind (json_get doc (lit ''keys'')) as_array = Some arr \<and>
        (\<exists>jwk kid vk. jwk \<in> set arr \<and> usable_key L jwk kid vk) \<and> ks = load_keys L arr [] \<and>
        jwks_get ks = map_of (rev (List.map_filter (jwk_key L) arr)))"
proof -
  have look: "jwks_get (load_keys L arr []) = map_of (rev (List.map_filter (jwk_key L) arr))" for arr
    by (rule ext) (simp add: jwks_get_def load_keys_lookup split: option.splits)
  have ex: "(\<exists>jwk kid vk. jwk \<in> set arr \<and> usable_key L jwk kid vk) \<longleftrightarrow> load_keys L arr [] \<noteq> []" for arr
    unfolding load_keys_Nil jwk_key_iff[symmetric] by force
  show ?thesis
    unfolding jwks_parse_load ex
    by (cases "json_from_str L s"; simp; cases "Option.bind (json_get (the (json_from_str L s)) (lit ''keys'')) as_array")
      (auto simp: look)
qed

end
