(* ===== verification/Auth_Callout.thy ===== *)
theory Auth_Callout
  imports Jwt_Verify
begin

text \<open>
  \<^verbatim>\<open>src/src/auth_callout.rs\<close>: the responder to the broker's authorization requests. It
  reads the request's claims, lets \<open>callout_identity\<close> decide, mints the user JWT
  with the permissions of that identity and wraps it in a signed response. The key
  pair, hashing and encoding crates extend the verifier's libraries in
  \<open>callout_libs\<close>. The lines the responder logs are part of its result.
\<close>

section \<open>Libraries and data\<close>

record ('vk, 'sg, 'kp) callout_libs = "('vk, 'sg) verifier_libs" +
  json_to_vec :: "json \<Rightarrow> str + bytes"
  b64_encode :: "bytes \<Rightarrow> str"
  kp_from_seed :: "str \<Rightarrow> 'kp option"
  public_key :: "'kp \<Rightarrow> str"
  kp_sign :: "'kp \<Rightarrow> bytes \<Rightarrow> str + bytes"
  sha256 :: "bytes \<Rightarrow> bytes"
  base32_nopad :: "bytes \<Rightarrow> str"

record user_permissions =
  pub_allow :: "str list"
  sub_allow :: "str list"

record auth_request =
  user_nkey :: str
  server_id :: str
  auth_token :: "str option"

datatype callout_log =
    Log_Admit_Verified str bool
  | Log_Refuse_No_Jwks bool
  | Log_Refuse bool
  | Log_Admit_Anonymous bool

section \<open>Subjects and permissions\<close>

definition INBOX_SUBJECT :: str where
  "INBOX_SUBJECT = lit ''_INBOX.>''"

definition event_subject :: "str \<Rightarrow> str" where
  "event_subject k = lit ''event.kernel.'' @ k @ lit ''.>''"

definition result_subject :: "str \<Rightarrow> str" where
  "result_subject k = lit ''result.kernel.'' @ k @ lit ''.>''"

definition input_subject :: "str \<Rightarrow> str \<Rightarrow> str" where
  "input_subject k sub_token = lit ''input.kernel.'' @ k @ lit ''.id.'' @ sub_token @ lit ''.action.>''"

definition subject_token :: "str \<Rightarrow> str" where
  "subject_token sub =
     (let t = map (\<lambda>c. if is_ascii_alphanumeric c \<or> c = underscore \<or> c = dash then c else dash) sub
      in if t = [] then [dash] else t)"

fun permissions_for :: "admission \<Rightarrow> str list \<Rightarrow> user_permissions" where
  "permissions_for (Verified sub _) kernels =
     (let token = subject_token sub
      in \<lparr>pub_allow = map (\<lambda>k. input_subject k token) kernels,
          sub_allow = concat (map (\<lambda>k. [event_subject k, result_subject k]) kernels) @ [INBOX_SUBJECT]\<rparr>)"
| "permissions_for Anonymous kernels =
     \<lparr>pub_allow = [], sub_allow = map event_subject kernels\<rparr>"

definition parse_account_seed :: "('vk, 'sg, 'kp, 'm) callout_libs_scheme \<Rightarrow> str \<Rightarrow> 'kp option" where
  "parse_account_seed L seed =
     (case kp_from_seed L (trim seed) of
        None \<Rightarrow> None
      | Some kp \<Rightarrow> if starts_with (lit ''A'') (public_key L kp) then Some kp else None)"

section \<open>Reading the request\<close>

definition decode_claims :: "('vk, 'sg, 'm) verifier_libs_scheme \<Rightarrow> str \<Rightarrow> json option" where
  "decode_claims L jwt =
     (case split_on dot jwt of
        _ # claims_b64 # _ \<Rightarrow> Option.bind (b64_decode L claims_b64) (json_from_slice L)
      | _ \<Rightarrow> None)"

definition parse_auth_request :: "('vk, 'sg, 'm) verifier_libs_scheme \<Rightarrow> str \<Rightarrow> auth_request option" where
  "parse_auth_request L request_jwt =
     Option.bind (decode_claims L request_jwt) (\<lambda>claims.
     Option.bind (json_get claims (lit ''nats'')) (\<lambda>nats.
     Option.bind (get_str nats ''user_nkey'') (\<lambda>nkey.
       Some \<lparr>user_nkey = nkey,
             server_id = (case Option.bind (json_get nats (lit ''server_id'')) (\<lambda>s. get_str s ''id'') of
                            None \<Rightarrow> [] | Some i \<Rightarrow> i),
             auth_token = (case Option.bind (json_get nats (lit ''connect_opts''))
                                  (\<lambda>c. get_str c ''auth_token'') of
                             None \<Rightarrow> None
                           | Some t \<Rightarrow> if t \<noteq> [] then Some t else None)\<rparr>)))"

section \<open>Minting\<close>

definition nats_jti :: "('vk, 'sg, 'kp, 'm) callout_libs_scheme \<Rightarrow> json \<Rightarrow> str" where
  "nats_jti L claims =
     (let c = json_insert (lit ''jti'') (JString []) claims;
          ser = unwrap_or (json_to_vec L c) []
      in base32_nopad L (sha256 L ser))"

definition JWT_HEADER :: bytes where
  "JWT_HEADER = as_bytes (lit ''{'' @ [34] @ lit ''typ'' @ [34] @ lit '':'' @ [34] @ lit ''JWT'' @ [34] @
     lit '','' @ [34] @ lit ''alg'' @ [34] @ lit '':'' @ [34] @ lit ''ed25519-nkey'' @ [34] @ lit ''}'')"

definition encode_and_sign :: "('vk, 'sg, 'kp, 'm) callout_libs_scheme \<Rightarrow> json \<Rightarrow> 'kp \<Rightarrow> str + str" where
  "encode_and_sign L claims0 signer =
     (let jti = nats_jti L claims0;
          claims = json_insert (lit ''jti'') (JString jti) claims0;
          header = b64_encode L JWT_HEADER
      in and_then (json_to_vec L claims) (\<lambda>ser.
           let payload = b64_encode L ser;
               signing_input = header @ dot # payload
           in and_then (kp_sign L signer (as_bytes signing_input)) (\<lambda>sg.
                Inr (signing_input @ dot # b64_encode L sg))))"

definition json_strs :: "str list \<Rightarrow> json" where
  "json_strs ss = JArray (map JString ss)"

definition user_claims ::
    "('vk, 'sg, 'kp, 'm) callout_libs_scheme \<Rightarrow> str \<Rightarrow> str \<Rightarrow> user_permissions \<Rightarrow> 'kp \<Rightarrow> i64 \<Rightarrow> i64 option \<Rightarrow> json" where
  "user_claims L nkey name perms account iat exp =
     (let pub_perm = (if pub_allow perms = [] then json_obj [(lit ''deny'', json_strs [lit ''>''])]
                      else json_obj [(lit ''allow'', json_strs (pub_allow perms))]);
          claims = json_obj [
            (lit ''iat'', json_i64 iat),
            (lit ''iss'', JString (public_key L account)),
            (lit ''sub'', JString nkey),
            (lit ''aud'', JString (lit ''$G'')),
            (lit ''name'', JString name),
            (lit ''nats'', json_obj [
               (lit ''pub'', pub_perm),
               (lit ''sub'', json_obj [(lit ''allow'', json_strs (sub_allow perms))]),
               (lit ''subs'', JNumber (JInt (-1))),
               (lit ''data'', JNumber (JInt (-1))),
               (lit ''payload'', JNumber (JInt (-1))),
               (lit ''type'', JString (lit ''user'')),
               (lit ''version'', JNumber (JInt 2))])]
      in case exp of None \<Rightarrow> claims | Some e \<Rightarrow> json_insert (lit ''exp'') (json_i64 e) claims)"

definition build_user_jwt ::
    "('vk, 'sg, 'kp, 'm) callout_libs_scheme \<Rightarrow> str \<Rightarrow> str \<Rightarrow> user_permissions \<Rightarrow> 'kp \<Rightarrow> i64 \<Rightarrow> i64 option \<Rightarrow> str + str" where
  "build_user_jwt L nkey name perms account iat exp =
     encode_and_sign L (user_claims L nkey name perms account iat exp) account"

definition build_response ::
    "('vk, 'sg, 'kp, 'm) callout_libs_scheme \<Rightarrow> str \<Rightarrow> str \<Rightarrow> 'kp \<Rightarrow> str + str \<Rightarrow> i64 \<Rightarrow> str + str" where
  "build_response L nkey srv account result iat =
     (let nats = (case result of
            Inr user_jwt \<Rightarrow> json_obj [(lit ''jwt'', JString user_jwt),
              (lit ''type'', JString (lit ''authorization_response'')), (lit ''version'', JNumber (JInt 2))]
          | Inl reason \<Rightarrow> json_obj [(lit ''error'', JString reason),
              (lit ''type'', JString (lit ''authorization_response'')), (lit ''version'', JNumber (JInt 2))])
      in encode_and_sign L (json_obj [
           (lit ''iat'', json_i64 iat),
           (lit ''iss'', JString (public_key L account)),
           (lit ''sub'', JString nkey),
           (lit ''aud'', JString srv),
           (lit ''nats'', nats)]) account)"

section \<open>The responder\<close>

definition MALFORMED_REASON :: str where
  "MALFORMED_REASON = lit ''malformed request''"

definition REFUSED_REASON :: str where
  "REFUSED_REASON = lit ''unverified connection refused (pgck.admit_anonymous=false)''"

fun participant_name :: "admission \<Rightarrow> str" where
  "participant_name (Verified sub _) = lit ''urn:ckp:participant:'' @ sub"
| "participant_name Anonymous = lit ''urn:ckp:participant:anon''"

fun admission_exp :: "admission \<Rightarrow> i64 option" where
  "admission_exp (Verified _ exp) = Some exp"
| "admission_exp Anonymous = None"

fun admission_log :: "admission \<Rightarrow> bool \<Rightarrow> bool \<Rightarrow> bool \<Rightarrow> callout_log" where
  "admission_log (Verified sub _) configured admit_anonymous presented = Log_Admit_Verified sub presented"
| "admission_log Anonymous configured admit_anonymous presented =
     (if \<not> admit_anonymous then
        (if \<not> configured then Log_Refuse_No_Jwks presented else Log_Refuse presented)
      else Log_Admit_Anonymous presented)"

definition handle_request ::
    "('vk, 'sg, 'kp, 'm) callout_libs_scheme \<Rightarrow> str \<Rightarrow> 'vk auth_config option \<Rightarrow> 'kp \<Rightarrow> i64 \<Rightarrow> bool \<Rightarrow>
     str list \<Rightarrow> str \<times> callout_log list" where
  "handle_request L request_jwt cfg account now admit_anonymous kernels =
     (case parse_auth_request L request_jwt of
        None \<Rightarrow> (unwrap_or (build_response L [] [] account (Inl MALFORMED_REASON) now) [], [])
      | Some req \<Rightarrow>
          let admission = callout_identity L (auth_token req) cfg now;
              presented = (auth_token req \<noteq> None);
              logged = [admission_log admission (cfg \<noteq> None) admit_anonymous presented]
          in if \<not> admit_anonymous \<and> admission = Anonymous
             then (unwrap_or (build_response L (user_nkey req) (server_id req) account
                     (Inl REFUSED_REASON) now) [], logged)
             else
               let perms = permissions_for admission kernels;
                   user_jwt = build_user_jwt L (user_nkey req) (participant_name admission) perms
                     account now (admission_exp admission)
               in (unwrap_or (build_response L (user_nkey req) (server_id req) account user_jwt now) [],
                   logged))"

end
