(* ===== verification/Pgck_Config.thy ===== *)
theory Pgck_Config
  imports Auth_Callout Nats_Router Rust_Sync
begin

text \<open>
  The configuration half of \<^verbatim>\<open>src/src/lib.rs\<close>: the settings \<^verbatim>\<open>_PG_init\<close> registers,
  their snapshots, the realm configuration that is loaded once, and the callout policy
  cache that the worker refreshes for the responder (the configured kernels united with
  the ledger's). A setting's value is the C string PostgreSQL holds, as bytes.
\<close>

section \<open>Settings\<close>

datatype guc_context = Postmaster | Sighup

datatype guc =
    Worker_Database | Admit_Anonymous | Nats_Url | Nats_Js_Stream | Oidc_Jwks | Oidc_Issuer
  | Oidc_Audience | Nats_Account_Seed | Kernels

record guc_def =
  guc_id :: guc
  guc_name :: str
  guc_ctx :: guc_context
  superuser_only :: bool

text \<open>The settings in the order \<^verbatim>\<open>_PG_init\<close> registers them (with the \<^verbatim>\<open>nats-client\<close>
  feature).\<close>

definition pg_init_gucs :: "guc_def list" where
  "pg_init_gucs = [
     \<lparr>guc_id = Worker_Database, guc_name = lit ''pgck.worker_database'', guc_ctx = Postmaster, superuser_only = False\<rparr>,
     \<lparr>guc_id = Admit_Anonymous, guc_name = lit ''pgck.admit_anonymous'', guc_ctx = Sighup, superuser_only = False\<rparr>,
     \<lparr>guc_id = Nats_Url, guc_name = lit ''pgck.nats_url'', guc_ctx = Sighup, superuser_only = False\<rparr>,
     \<lparr>guc_id = Nats_Js_Stream, guc_name = lit ''pgck.nats_js_stream'', guc_ctx = Sighup, superuser_only = False\<rparr>,
     \<lparr>guc_id = Oidc_Jwks, guc_name = lit ''pgck.oidc_jwks'', guc_ctx = Sighup, superuser_only = False\<rparr>,
     \<lparr>guc_id = Oidc_Issuer, guc_name = lit ''pgck.oidc_issuer'', guc_ctx = Sighup, superuser_only = False\<rparr>,
     \<lparr>guc_id = Oidc_Audience, guc_name = lit ''pgck.oidc_audience'', guc_ctx = Sighup, superuser_only = False\<rparr>,
     \<lparr>guc_id = Nats_Account_Seed, guc_name = lit ''pgck.nats_account_seed'', guc_ctx = Sighup, superuser_only = True\<rparr>,
     \<lparr>guc_id = Kernels, guc_name = lit ''pgck.kernels'', guc_ctx = Sighup, superuser_only = False\<rparr>]"

text \<open>The values the process holds: strings (\<^verbatim>\<open>None\<close> is unset) and the one switch.\<close>

record gucs =
  guc_str :: "guc \<Rightarrow> bytes option"
  guc_admit_anonymous :: bool

definition guc_defaults :: gucs where
  "guc_defaults = \<lparr>
     guc_str = (\<lambda>g. if g = Nats_Url then Some (as_bytes (lit ''nats://127.0.0.1:4222''))
                    else if g = Kernels then Some (as_bytes (lit ''pgck''))
                    else None),
     guc_admit_anonymous = True\<rparr>"

section \<open>Snapshots\<close>

definition guc_text :: "gucs \<Rightarrow> guc \<Rightarrow> str option" where
  "guc_text g x = map_option from_utf8_lossy (guc_str g x)"

definition filter_some :: "('a \<Rightarrow> bool) \<Rightarrow> 'a option \<Rightarrow> 'a option" where
  "filter_some P x = (case x of None \<Rightarrow> None | Some a \<Rightarrow> if P a then Some a else None)"

definition nats_url :: "gucs \<Rightarrow> str" where
  "nats_url g = (case guc_text g Nats_Url of None \<Rightarrow> lit ''nats://127.0.0.1:4222'' | Some s \<Rightarrow> s)"

definition nats_js_stream :: "gucs \<Rightarrow> str option" where
  "nats_js_stream g = filter_some (\<lambda>s. s \<noteq> []) (guc_text g Nats_Js_Stream)"

definition nats_account_seed :: "gucs \<Rightarrow> str option" where
  "nats_account_seed g = filter_some (\<lambda>s. trim s \<noteq> []) (guc_text g Nats_Account_Seed)"

definition worker_database :: "gucs \<Rightarrow> str" where
  "worker_database g =
     (case filter_some (\<lambda>s. s \<noteq> []) (guc_text g Worker_Database) of
        None \<Rightarrow> lit ''postgres'' | Some s \<Rightarrow> s)"

definition admit_anonymous :: "gucs \<Rightarrow> bool" where
  "admit_anonymous g = guc_admit_anonymous g"

section \<open>Kernel names\<close>

text \<open>The filter that both halves of the kernel set apply: trimmed, not empty, no NATS
  metacharacter.\<close>

definition kernel_name_ok :: "str \<Rightarrow> bool" where
  "kernel_name_ok k \<longleftrightarrow> k \<noteq> [] \<and> list_all (\<lambda>c. c \<notin> {dot, star, gt, spc, 9, cr, lf}) k"

definition configured_kernels :: "gucs \<Rightarrow> str list" where
  "configured_kernels g =
     filter kernel_name_ok (map trim (split_on comma (case guc_text g Kernels of None \<Rightarrow> [] | Some s \<Rightarrow> s)))"

section \<open>The realm configuration and the policy cache\<close>

datatype config_log = Log_Jwks_Is_Url | Log_Oidc_Loaded | Log_Oidc_Unparseable verify_error

record 'vk statics =
  OIDC_CFG :: "'vk auth_config option once_lock"
  CALLOUT_POLICY :: "(bool \<times> str list) option lock"
  LEDGER_KERNELS :: "str list lock"
  config_logs :: "config_log list"

definition statics_init :: "'vk statics" where
  "statics_init = \<lparr>OIDC_CFG = None, CALLOUT_POLICY = Healthy None, LEDGER_KERNELS = Healthy [], config_logs = []\<rparr>"

text \<open>The initialiser of \<^verbatim>\<open>oidc_auth_config\<close>, with what it logs.\<close>

definition load_oidc ::
    "('vk, 'sg, 'm) verifier_libs_scheme \<Rightarrow> gucs \<Rightarrow> config_log list \<Rightarrow> 'vk auth_config option \<times> config_log list" where
  "load_oidc L g logs =
     (case (guc_text g Oidc_Jwks, guc_text g Oidc_Issuer, guc_text g Oidc_Audience) of
        (Some jwks, Some iss, Some aud) \<Rightarrow>
          if starts_with (lit ''http://'') (trim_start jwks) \<or> starts_with (lit ''https://'') (trim_start jwks)
          then (None, logs @ [Log_Jwks_Is_Url])
          else (case from_parts L jwks iss aud of
                  Inr cfg \<Rightarrow> (Some cfg, logs @ [Log_Oidc_Loaded])
                | Inl e \<Rightarrow> (None, logs @ [Log_Oidc_Unparseable e]))
      | _ \<Rightarrow> (None, logs))"

definition oidc_auth_config ::
    "('vk, 'sg, 'm) verifier_libs_scheme \<Rightarrow> gucs \<Rightarrow> 'vk statics \<Rightarrow> 'vk auth_config option \<times> 'vk statics" where
  "oidc_auth_config L g st =
     (let (cell, logs) = once_get_or_init (load_oidc L g) (OIDC_CFG st, config_logs st)
      in (Option.bind cell id, st\<lparr>OIDC_CFG := cell, config_logs := logs\<rparr>))"

definition set_ledger_kernels :: "str list \<Rightarrow> 'vk statics \<Rightarrow> 'vk statics" where
  "set_ledger_kernels kernels st =
     (let filtered = filter kernel_name_ok (map trim kernels)
      in st\<lparr>LEDGER_KERNELS := lock_write filtered (LEDGER_KERNELS st)\<rparr>)"

definition refresh_callout_policy :: "gucs \<Rightarrow> 'vk statics \<Rightarrow> 'vk statics" where
  "refresh_callout_policy g st =
     (let kernels = configured_kernels g;
          union = (case lock_read (LEDGER_KERNELS st) of
                     Some ledger \<Rightarrow> push_new kernels ledger
                   | None \<Rightarrow> kernels)
      in st\<lparr>CALLOUT_POLICY := lock_write (Some (admit_anonymous g, union)) (CALLOUT_POLICY st)\<rparr>)"

definition callout_policy :: "'vk statics \<Rightarrow> bool \<times> str list" where
  "callout_policy st =
     (case Option.bind (lock_read (CALLOUT_POLICY st)) id of
        Some p \<Rightarrow> p
      | None \<Rightarrow> (True, [lit ''pgck'']))"

section \<open>Build identity\<close>

text \<open>The package version and the build id are fixed by the compiler's environment.\<close>

definition pgck_version :: "str \<Rightarrow> str" where
  "pgck_version cargo_pkg_version = lit ''pgck '' @ cargo_pkg_version"

definition ckp_version :: "str \<Rightarrow> str" where
  "ckp_version cargo_pkg_version = cargo_pkg_version"

definition build_id :: "str option \<Rightarrow> str" where
  "build_id pgck_build_id = (case pgck_build_id of None \<Rightarrow> lit ''unknown'' | Some b \<Rightarrow> b)"

section \<open>Lemmas\<close>

lemma kernel_name_ok_chars: "kernel_name_ok k \<Longrightarrow> dot \<notin> set k \<and> star \<notin> set k \<and> gt \<notin> set k \<and> k \<noteq> []"
  by (auto simp: kernel_name_ok_def list_all_iff)

definition policy_ok :: "'vk statics \<Rightarrow> bool" where
  "policy_ok st \<longleftrightarrow>
     list_all kernel_name_ok (snd (callout_policy st)) \<and>
     (case lock_read (LEDGER_KERNELS st) of None \<Rightarrow> True | Some l \<Rightarrow> list_all kernel_name_ok l)"

lemma configured_kernels_ok: "list_all kernel_name_ok (configured_kernels g)"
  by (simp add: configured_kernels_def list_all_iff)

lemma kernel_name_pgck: "kernel_name_ok (lit ''pgck'')"
  by (simp add: kernel_name_ok_def lit_def)

lemma policy_ok_init [inv_intros]: "policy_ok statics_init"
  by (simp add: policy_ok_def statics_init_def callout_policy_def kernel_name_pgck)

lemma callout_policy_fields [simp]:
  "callout_policy (st\<lparr>LEDGER_KERNELS := l\<rparr>) = callout_policy st"
  "callout_policy (st\<lparr>OIDC_CFG := c\<rparr>) = callout_policy st"
  "callout_policy (st\<lparr>config_logs := g\<rparr>) = callout_policy st"
  by (simp_all add: callout_policy_def)

lemma policy_ok_set_ledger [inv_intros]: "policy_ok st \<Longrightarrow> policy_ok (set_ledger_kernels ks st)"
  by (cases "LEDGER_KERNELS st") (auto simp: policy_ok_def set_ledger_kernels_def Let_def list_all_iff)

lemma policy_ok_oidc [inv_intros]: "policy_ok st \<Longrightarrow> policy_ok (snd (oidc_auth_config L g st))"
  by (simp add: policy_ok_def oidc_auth_config_def Let_def split: prod.splits)

lemma refresh_callout_policy_value:
  assumes "healthy (CALLOUT_POLICY st)"
  shows "callout_policy (refresh_callout_policy g st) =
    (admit_anonymous g, push_new (configured_kernels g)
       (case lock_read (LEDGER_KERNELS st) of None \<Rightarrow> [] | Some l \<Rightarrow> l))"
  using assms by (simp add: callout_policy_def refresh_callout_policy_def Let_def lock_read_write split: option.splits)

lemma refresh_poisoned: "\<not> healthy (CALLOUT_POLICY st) \<Longrightarrow> refresh_callout_policy g st = st"
  by (cases "CALLOUT_POLICY st") (simp_all add: refresh_callout_policy_def Let_def)

lemma LEDGER_refresh [simp]: "LEDGER_KERNELS (refresh_callout_policy g st) = LEDGER_KERNELS st"
  by (simp add: refresh_callout_policy_def Let_def)

lemma policy_ok_refresh [inv_intros]: "policy_ok st \<Longrightarrow> policy_ok (refresh_callout_policy g st)"
proof (cases "healthy (CALLOUT_POLICY st)")
  case True
  assume "policy_ok st"
  then show ?thesis
    using refresh_callout_policy_value[OF True, of g] configured_kernels_ok[of g]
    by (auto simp: policy_ok_def list_all_iff split: option.splits)
qed (simp add: refresh_poisoned)

lemma oidc_auth_config_latched:
  "OIDC_CFG st = Some c \<Longrightarrow> oidc_auth_config L g st = (c, st)"
  by (simp add: oidc_auth_config_def once_get_or_init_def)

lemma oidc_auth_config_first:
  "OIDC_CFG st = None \<Longrightarrow> fst (oidc_auth_config L g st) = fst (load_oidc L g (config_logs st)) \<and>
     OIDC_CFG (snd (oidc_auth_config L g st)) = Some (fst (oidc_auth_config L g st))"
  by (simp add: oidc_auth_config_def once_get_or_init_def split: prod.splits)

lemma load_oidc_Some [ok_iff]:
  "fst (load_oidc L g logs) = Some cfg \<longleftrightarrow>
     (\<exists>jwks iss aud. guc_text g Oidc_Jwks = Some jwks \<and> guc_text g Oidc_Issuer = Some iss \<and>
        guc_text g Oidc_Audience = Some aud \<and>
        \<not> starts_with (lit ''http://'') (trim_start jwks) \<and> \<not> starts_with (lit ''https://'') (trim_start jwks) \<and>
        from_parts L jwks iss aud = Inr cfg)"
  by (auto simp: load_oidc_def split: option.splits sum.splits)

section \<open>Reachable configurations\<close>

text \<open>What the worker thread may do to the statics, in any order and with any settings
  and ledger contents.\<close>

inductive config_step ::
    "('vk, 'sg, 'm) verifier_libs_scheme \<Rightarrow> 'vk statics \<Rightarrow> 'vk statics \<Rightarrow> bool" for L where
  step_ledger: "config_step L st (set_ledger_kernels ks st)"
| step_refresh: "config_step L st (refresh_callout_policy g st)"
| step_oidc: "config_step L st (snd (oidc_auth_config L g st))"

inductive config_reachable :: "('vk, 'sg, 'm) verifier_libs_scheme \<Rightarrow> 'vk statics \<Rightarrow> bool" for L where
  reach_init: "config_reachable L statics_init"
| reach_step: "config_reachable L st \<Longrightarrow> config_step L st st' \<Longrightarrow> config_reachable L st'"

lemma config_step_policy_ok: "config_step L st st' \<Longrightarrow> policy_ok st \<Longrightarrow> policy_ok st'"
  by (induction rule: config_step.induct) (simp_all add: inv_intros)

lemma config_reachable_policy_ok: "config_reachable L st \<Longrightarrow> policy_ok st"
  by (induction rule: config_reachable.induct) (auto simp: inv_intros config_step_policy_ok)

lemma kernel_name_token:
  assumes "kernel_name_ok k"
  shows "split_on dot k = [k]" "k \<noteq> tok_any" "k \<noteq> tok_tail"
proof -
  note c = kernel_name_ok_chars[OF assms]
  from c show "split_on dot k = [k]" by (simp add: split_on_clean)
  from c show "k \<noteq> tok_any" "k \<noteq> tok_tail" by (auto simp: tok_any_def tok_tail_def lit_def)
qed

section \<open>Properties\<close>

text \<open>C35: a kernel name can never widen a grant. Whatever the settings and the ledger
  hold, in whatever order the caches are refreshed, every kernel name the responder
  reads from the policy cache is exactly one literal NATS token: it has no dot and is no
  wildcard, so a subject built from it has it as one segment.\<close>

theorem policy_kernels_are_tokens:
  assumes "config_reachable L st" "k \<in> set (snd (callout_policy st))"
  shows "k \<noteq> [] \<and> split_on dot k = [k] \<and> k \<noteq> tok_any \<and> k \<noteq> tok_tail \<and> spc \<notin> set k"
proof -
  from config_reachable_policy_ok[OF assms(1)] assms(2) have k: "kernel_name_ok k"
    by (simp add: policy_ok_def list_all_iff)
  with kernel_name_token[OF k] show ?thesis by (auto simp: kernel_name_ok_def list_all_iff)
qed

theorem policy_kernels_are_tokens_witness:
  "\<exists>st :: nat statics. lit ''demo'' \<in> set (snd (callout_policy st)) \<and>
     lit ''a.b'' \<notin> set (snd (callout_policy st)) \<and> split_on dot (lit ''demo'') = [lit ''demo'']"
proof -
  let ?g = "\<lparr>guc_str = (\<lambda>_. None), guc_admit_anonymous = True\<rparr>"
  let ?st = "refresh_callout_policy ?g (set_ledger_kernels [lit '' demo '', lit ''a.b''] (statics_init :: nat statics))"
  have r: "config_reachable (demo_libs 0) ?st"
    by (rule reach_step[OF reach_step[OF reach_init step_ledger] step_refresh])
  have f: "filter kernel_name_ok (map trim [lit '' demo '', lit ''a.b'']) = [lit ''demo'']"
    by (simp add: trim_def trim_start_def trim_end_def kernel_name_ok_def lit_def is_whitespace_def)
  have c: "configured_kernels ?g = []"
    by (simp add: configured_kernels_def guc_text_def split_on_clean trim_def trim_start_def trim_end_def kernel_name_ok_def)
  have p: "snd (callout_policy ?st) = [lit ''demo'']"
    using f c by (simp add: refresh_callout_policy_def set_ledger_kernels_def callout_policy_def statics_init_def)
  then have "split_on dot (lit ''demo'') = [lit ''demo'']"
    using policy_kernels_are_tokens[OF r, of "lit ''demo''"] by simp
  with p show ?thesis by (intro exI[of _ ?st]) simp
qed

text \<open>The policy a refresh publishes. With healthy locks the responder reads the
  switch as it is set now and exactly the union of the configured and the ledger's
  kernels: the configured ones first and in their order, none of them dropped, and an
  empty ledger changes nothing.\<close>

theorem refresh_publishes_union:
  assumes "healthy (CALLOUT_POLICY st)" "LEDGER_KERNELS st = Healthy ledger"
  shows "callout_policy (refresh_callout_policy g st) = (admit_anonymous g, push_new (configured_kernels g) ledger) \<and>
    set (snd (callout_policy (refresh_callout_policy g st))) = set (configured_kernels g) \<union> set ledger \<and>
    take (length (configured_kernels g)) (snd (callout_policy (refresh_callout_policy g st))) = configured_kernels g \<and>
    (ledger = [] \<longrightarrow> snd (callout_policy (refresh_callout_policy g st)) = configured_kernels g)"
proof -
  obtain r where "push_new (configured_kernels g) ledger = configured_kernels g @ r"
    using push_new_prefix by blast
  then have "take (length (configured_kernels g)) (push_new (configured_kernels g) ledger) = configured_kernels g"
    by simp
  with assms show ?thesis by (simp add: refresh_callout_policy_value)
qed

theorem refresh_publishes_union_witness:
  "callout_policy (refresh_callout_policy guc_defaults (set_ledger_kernels [lit ''pgck'', lit ''demo''] (statics_init :: nat statics)))
     = (True, [lit ''pgck'', lit ''demo''])"
proof -
  have f: "filter kernel_name_ok (map trim [lit ''pgck'', lit ''demo'']) = [lit ''pgck'', lit ''demo'']"
    by (simp add: trim_def trim_start_def trim_end_def kernel_name_ok_def lit_def is_whitespace_def)
  have "wf_str (lit ''pgck'')" by (simp add: wf_str_def is_scalar_def lit_def)
  then have u: "from_utf8_lossy (as_bytes (lit ''pgck'')) = lit ''pgck''"
    by (simp add: from_utf8_lossy_eq from_utf8_as_bytes)
  have sp: "split_on comma (lit ''pgck'') = [lit ''pgck'']" by (simp add: split_on_clean lit_def)
  have "configured_kernels guc_defaults = filter kernel_name_ok (map trim [lit ''pgck''])"
    by (simp add: configured_kernels_def guc_text_def guc_defaults_def u sp)
  also have "\<dots> = [lit ''pgck'']" using f by (simp split: if_splits)
  finally have c: "configured_kernels guc_defaults = [lit ''pgck'']" .
  show ?thesis
    using refresh_publishes_union[of "set_ledger_kernels [lit ''pgck'', lit ''demo''] (statics_init :: nat statics)"
        "[lit ''pgck'', lit ''demo'']" guc_defaults] f c
    by (simp add: set_ledger_kernels_def statics_init_def admit_anonymous_def guc_defaults_def)
qed

text \<open>The realm configuration is loaded once. Whatever the settings are at the later
  calls, \<^verbatim>\<open>oidc_auth_config\<close> returns what the first call loaded; and that is a
  configuration only if all three settings were present, the key set was a document and
  not a URL, and it parsed.\<close>

theorem realm_config_loaded_once:
  assumes "OIDC_CFG st = None"
  shows "fst (oidc_auth_config L g' (snd (oidc_auth_config L g st))) = fst (oidc_auth_config L g st) \<and>
    (\<forall>cfg. fst (oidc_auth_config L g st) = Some cfg \<longleftrightarrow>
       (\<exists>jwks iss aud. guc_text g Oidc_Jwks = Some jwks \<and> guc_text g Oidc_Issuer = Some iss \<and>
          guc_text g Oidc_Audience = Some aud \<and>
          \<not> starts_with (lit ''http://'') (trim_start jwks) \<and>
          \<not> starts_with (lit ''https://'') (trim_start jwks) \<and>
          from_parts L jwks iss aud = Inr cfg))"
proof -
  note first = oidc_auth_config_first[OF assms, of L g]
  then have "fst (oidc_auth_config L g' (snd (oidc_auth_config L g st))) = fst (oidc_auth_config L g st)"
    by (simp add: oidc_auth_config_latched)
  with first show ?thesis by (simp add: ok_iff)
qed

theorem realm_config_loaded_once_witness:
  "\<exists>g st :: nat statics. fst (oidc_auth_config (demo_libs 0) g st) = Some demo_config \<and>
     (\<forall>g'. fst (oidc_auth_config (demo_libs 0) g' (snd (oidc_auth_config (demo_libs 0) g st))) = Some demo_config)"
proof -
  let ?v = "\<lambda>x. if x = Oidc_Jwks then replicate 32 120 else if x = Oidc_Issuer then lit ''R'' else lit ''ck''"
  let ?g = "\<lparr>guc_str = (\<lambda>x. Some (as_bytes (?v x))), guc_admit_anonymous = True\<rparr>"
  have n: "OIDC_CFG (statics_init :: nat statics) = None" by (simp add: statics_init_def)
  have "wf_str (?v x)" for x by (simp add: wf_str_def is_scalar_def lit_def list_all_iff)
  then have t: "guc_text ?g x = Some (?v x)" for x
    by (simp add: guc_text_def from_utf8_lossy_eq from_utf8_as_bytes)
  have "\<not> starts_with (lit ''http://'') (trim_start (replicate 32 120))"
    "\<not> starts_with (lit ''https://'') (trim_start (replicate 32 120))"
    by (simp_all add: trim_start_def starts_with_def is_whitespace_def lit_def numeral_eq_Suc)
  then have "fst (oidc_auth_config (demo_libs 0) ?g statics_init) = Some demo_config"
    using realm_config_loaded_once[OF n, of "demo_libs 0" ?g ?g] demo_parts(1)[of 0] by (simp add: t)
  then show ?thesis using realm_config_loaded_once[OF n, of "demo_libs 0" _ ?g]
    by (intro exI[of _ ?g] exI[of _ statics_init]) simp
qed

end
