(* ===== verification/Nats_Relay.thy ===== *)
theory Nats_Relay
  imports Inbound_Dispatch Pgck_Config Nats_Router
begin

text \<open>
  \<^verbatim>\<open>src/src/nats_client.rs\<close>, the inbound half: the relay thread, which turns a routed
  message into a queued action, and the responder loop on the broker's authorization
  subject. Messages arrive as arguments; what the threads send and print is their
  result.
\<close>

section \<open>Messages and effects\<close>

record 'hm nats_msg =
  msg_subject :: str
  msg_reply :: "str option"
  msg_payload :: bytes
  msg_headers :: "'hm option"

record ('vk, 'kp) callout_context =
  ctx_auth :: "'vk auth_config option"
  ctx_account :: 'kp

datatype relay_effect =
    Reply str bytes
  | Reply_Flush
  | Decision callout_log
  | Log_Reply_Failed str
  | Log_Reply_Flush_Failed str
  | Log_Callout_Subscribe_Failed str
  | Log_Callout_Live bool
  | Log_Relay_Runtime_Failed str
  | Log_Relay_Retry str nat
  | Log_Relay_Subscribe_Failed str str
  | Log_Relaying
  | Log_Relay_Ended

section \<open>The responder loop\<close>

text \<open>The clock as \<^verbatim>\<open>SystemTime::now().duration_since(UNIX_EPOCH)\<close> gives it, in seconds.\<close>

definition unix_now :: "u64 option \<Rightarrow> i64" where
  "unix_now clock = (case clock of None \<Rightarrow> 0 | Some secs \<Rightarrow> secs)"

record callout_io =
  io_clock :: "u64 option"
  io_publish_error :: "str option"
  io_flush_error :: "str option"

definition callout_message ::
    "('vk, 'sg, 'kp, 'm) callout_libs_scheme \<Rightarrow> ('vk, 'kp) callout_context \<Rightarrow> 'vk statics \<Rightarrow> callout_io \<Rightarrow>
     'hm nats_msg \<Rightarrow> relay_effect list" where
  "callout_message L ctx st io msg =
     (case msg_reply msg of
        None \<Rightarrow> []
      | Some reply \<Rightarrow>
          (case from_utf8 (msg_payload msg) of
             None \<Rightarrow> []
           | Some request_jwt \<Rightarrow>
               let now = unix_now (io_clock io);
                   (admit_anon, kernels) = callout_policy st;
                   (response, decisions) =
                     handle_request L request_jwt (ctx_auth ctx) (ctx_account ctx) now admit_anon kernels
               in map Decision decisions @ [Reply reply (as_bytes response)] @
                  log_if (io_publish_error io) Log_Reply_Failed @
                  [Reply_Flush] @ log_if (io_flush_error io) Log_Reply_Flush_Failed))"

definition run_callout ::
    "('vk, 'sg, 'kp, 'm) callout_libs_scheme \<Rightarrow> ('vk, 'kp) callout_context \<Rightarrow> str option \<Rightarrow>
     ('vk statics \<times> callout_io \<times> 'hm nats_msg) list \<Rightarrow> relay_effect list" where
  "run_callout L ctx subscribe_error msgs =
     (case subscribe_error of
        Some e \<Rightarrow> [Log_Callout_Subscribe_Failed e]
      | None \<Rightarrow> Log_Callout_Live (ctx_auth ctx \<noteq> None) #
          concat (map (\<lambda>(st, io, msg). callout_message L ctx st io msg) msgs))"

section \<open>The relay thread\<close>

definition relay_message :: "('hm, 'addr, 'm) nats_libs_scheme \<Rightarrow> 'hm nats_msg \<Rightarrow> inbound_queue \<Rightarrow> inbound_queue" where
  "relay_message N msg q =
     (case route_inbound (msg_subject msg) of
        None \<Rightarrow> q
      | Some routed \<Rightarrow>
          enqueue \<lparr>act_kernel = r_kernel routed, act_verb = r_verb routed, act_payload = msg_payload msg,
            act_result_subject = r_result_subject routed,
            act_headers = (case msg_headers msg of None \<Rightarrow> [] | Some h \<Rightarrow> trace_headers N h),
            act_identity = r_identity routed\<rparr> q)"

record ('vk, 'kp) relay_run =
  relay_effects :: "relay_effect list"
  callout_spawned :: "('vk, 'kp) callout_context option"
  relay_queue :: inbound_queue

text \<open>The thread: the runtime, the connection, the responder task, the two subscriptions,
  and then the merged stream of their messages until it ends.\<close>

definition run_relay_thread ::
    "('hm, 'addr, 'm) nats_libs_scheme \<Rightarrow> str option \<Rightarrow> str \<Rightarrow> ('vk, 'kp) callout_context option \<Rightarrow> (str + unit) list \<Rightarrow>
     str option \<Rightarrow> str option \<Rightarrow> 'hm nats_msg list \<Rightarrow> bool \<Rightarrow> inbound_queue \<Rightarrow> ('vk, 'kp) relay_run" where
  "run_relay_thread N runtime_error url callout answers legacy_error scoped_error msgs ended q =
     (case runtime_error of
        Some e \<Rightarrow> \<lparr>relay_effects = [Log_Relay_Runtime_Failed e], callout_spawned = None, relay_queue = q\<rparr>
      | None \<Rightarrow>
          let c = connect_with_retry N url answers;
              dialed = map (\<lambda>(e, d). Log_Relay_Retry e d) (retries c)
          in if \<not> connected c
             then \<lparr>relay_effects = dialed, callout_spawned = None, relay_queue = q\<rparr>
             else (case legacy_error of
                Some e \<Rightarrow> \<lparr>relay_effects = dialed @ [Log_Relay_Subscribe_Failed RELAY_IN_SUBJECT e],
                            callout_spawned = callout, relay_queue = q\<rparr>
              | None \<Rightarrow> (case scoped_error of
                Some e \<Rightarrow> \<lparr>relay_effects = dialed @ [Log_Relay_Subscribe_Failed RELAY_ID_SUBJECT e],
                            callout_spawned = callout, relay_queue = q\<rparr>
              | None \<Rightarrow> \<lparr>relay_effects = dialed @ [Log_Relaying] @ (if ended then [Log_Relay_Ended] else []),
                          callout_spawned = callout,
                          relay_queue = fold (relay_message N) msgs q\<rparr>)))"

section \<open>Subscriptions and routing\<close>

lemma lit_dots:
  "lit ''input.kernel.'' = lit ''input'' @ dot # lit ''kernel'' @ [dot]"
  "lit ''.action.'' = dot # lit ''action'' @ [dot]"
  "lit ''.id.'' = dot # lit ''id'' @ [dot]"
  by (simp_all add: lit_def)

lemma split_words:
  "split_on dot (lit ''input'') = [lit ''input'']" "split_on dot (lit ''kernel'') = [lit ''kernel'']"
  "split_on dot (lit ''id'') = [lit ''id'']" "split_on dot (lit ''action'') = [lit ''action'']"
  by (simp_all add: split_on_clean lit_def)

lemma split_relay_subjects:
  "split_on dot RELAY_IN_SUBJECT = [lit ''input'', lit ''kernel'', tok_any, lit ''action'', tok_tail]"
  "split_on dot RELAY_ID_SUBJECT = [lit ''input'', lit ''kernel'', tok_any, lit ''id'', tok_any, lit ''action'', tok_tail]"
  by (simp_all add: RELAY_IN_SUBJECT_def RELAY_ID_SUBJECT_def split_on_def lit_def tok_any_def tok_tail_def)

lemma words_literal:
  "lit ''input'' \<noteq> tok_any" "lit ''input'' \<noteq> tok_tail" "lit ''kernel'' \<noteq> tok_any" "lit ''kernel'' \<noteq> tok_tail"
  "lit ''id'' \<noteq> tok_any" "lit ''id'' \<noteq> tok_tail" "lit ''action'' \<noteq> tok_any" "lit ''action'' \<noteq> tok_tail"
  by (simp_all add: tok_any_def tok_tail_def)

lemma matches_RELAY_IN:
  "matches RELAY_IN_SUBJECT s \<longleftrightarrow>
     (\<exists>k r rest. split_on dot s = [lit ''input'', lit ''kernel'', k, lit ''action''] @ r # rest)"
  unfolding matches_iff split_relay_subjects
  by (auto simp: nats_match_steps words_literal neq_Nil_conv)

lemma matches_RELAY_ID:
  "matches RELAY_ID_SUBJECT s \<longleftrightarrow>
     (\<exists>k i r rest. split_on dot s = [lit ''input'', lit ''kernel'', k, lit ''id'', i, lit ''action''] @ r # rest)"
  unfolding matches_iff split_relay_subjects
  by (auto simp: nats_match_steps words_literal neq_Nil_conv)

lemma route_tokens:
  assumes "route_inbound s = Some r"
  shows "split_on dot s = [lit ''input'', lit ''kernel'', r_kernel r] @
    (case r_identity r of None \<Rightarrow> [lit ''action''] | Some sub \<Rightarrow> [lit ''id'', sub, lit ''action'']) @
    split_on dot (r_verb r)"
  using assms unfolding route_inbound_cases
  by (auto simp: lit_dots split_on_append_all split_words split_on_clean split: option.splits)

section \<open>Properties\<close>

text \<open>Every routable message reaches the worker through exactly one subscription. No
  subject matches both of the relay's subscriptions; a subject that is routed with an
  identity matches the identity-scoped one and not the other, one that is routed without
  matches the plain one and not the scoped one; so no action is queued twice, and none
  that can be routed is missed.\<close>

theorem relay_subscriptions_partition:
  "\<not> (matches RELAY_IN_SUBJECT s \<and> matches RELAY_ID_SUBJECT s) \<and>
   (\<forall>r. route_inbound s = Some r \<longrightarrow>
      (matches RELAY_ID_SUBJECT s \<longleftrightarrow> r_identity r \<noteq> None) \<and> (matches RELAY_IN_SUBJECT s \<longleftrightarrow> r_identity r = None))"
proof (intro conjI allI impI)
  show ex: "\<not> (matches RELAY_IN_SUBJECT s \<and> matches RELAY_ID_SUBJECT s)"
    by (auto simp: matches_RELAY_IN matches_RELAY_ID)
  fix r assume r: "route_inbound s = Some r"
  obtain v vs where v: "split_on dot (r_verb r) = v # vs" by (cases "split_on dot (r_verb r)") auto
  from route_tokens[OF r] v
  show "matches RELAY_ID_SUBJECT s \<longleftrightarrow> r_identity r \<noteq> None" "matches RELAY_IN_SUBJECT s \<longleftrightarrow> r_identity r = None"
    by (cases "r_identity r"; simp add: matches_RELAY_IN matches_RELAY_ID)+
qed

theorem relay_subscriptions_partition_witness:
  "matches RELAY_ID_SUBJECT (lit ''input.kernel.pgck.id.alice.action.plan.create'') \<and>
   \<not> matches RELAY_IN_SUBJECT (lit ''input.kernel.pgck.id.alice.action.plan.create'')"
proof -
  let ?s = "lit ''input.kernel.pgck.id.alice.action.plan.create''"
  let ?r = "\<lparr>r_kernel = lit ''pgck'', r_identity = Some (lit ''alice''), r_verb = lit ''plan.create'',
      r_result_subject = lit ''result.kernel.pgck.plan.create''\<rparr>"
  have "route_inbound ?s = Some ?r"
    unfolding route_inbound_cases by (simp add: lit_def)
  with relay_subscriptions_partition[of ?s] show ?thesis by auto
qed

end
