(* ===== verification/Publish_Drain.thy ===== *)
theory Publish_Drain
  imports Nats_Client Pg_Spi Pgck_Config "HOL-Library.Multiset"
begin

text \<open>
  \<^verbatim>\<open>src/src/publish_drain.rs\<close>, \<^verbatim>\<open>src/src/materialize_drain.rs\<close> and
  \<^verbatim>\<open>src/src/orbit_drain.rs\<close>: the drains of the worker's tick. The outbox drain deletes
  the oldest hundred rows in one transaction and makes one publish call per row (two with
  a stream); the other two run one SQL function each.
\<close>

section \<open>The outbox drain\<close>

record drained_row =
  d_ledger_seq :: i64
  d_subject :: str
  d_payload :: bytes
  d_headers :: json

definition read_row :: "spi_row \<Rightarrow> drained_row option spi_result" where
  "read_row row =
     (case row_get cell_int8 row 1 of
        Spi_Err e \<Rightarrow> Spi_Err e | Spi_Raise e \<Rightarrow> Spi_Raise e
      | Spi_Ok ledger_seq \<Rightarrow> (case row_get cell_text row 2 of
        Spi_Err e \<Rightarrow> Spi_Err e | Spi_Raise e \<Rightarrow> Spi_Raise e
      | Spi_Ok subject \<Rightarrow> (case row_get cell_bytea row 3 of
        Spi_Err e \<Rightarrow> Spi_Err e | Spi_Raise e \<Rightarrow> Spi_Raise e
      | Spi_Ok payload \<Rightarrow> (case row_get cell_jsonb row 4 of
        Spi_Err e \<Rightarrow> Spi_Err e | Spi_Raise e \<Rightarrow> Spi_Raise e
      | Spi_Ok hs \<Rightarrow> Spi_Ok
          (case (ledger_seq, subject, payload, hs) of
             (Some ls, Some s, Some p, Some h) \<Rightarrow>
               Some \<lparr>d_ledger_seq = ls, d_subject = s, d_payload = p, d_headers = h\<rparr>
           | _ \<Rightarrow> None)))))"

fun read_rows :: "drained_row list \<Rightarrow> spi_row list \<Rightarrow> drained_row list spi_result" where
  "read_rows out [] = Spi_Ok out"
| "read_rows out (row # rows) =
     (case read_row row of
        Spi_Ok (Some r) \<Rightarrow> read_rows (out @ [r]) rows
      | Spi_Ok None \<Rightarrow> read_rows out rows
      | Spi_Err e \<Rightarrow> Spi_Err e
      | Spi_Raise e \<Rightarrow> Spi_Raise e)"

fun json_to_header_pairs :: "json \<Rightarrow> headers" where
  "json_to_header_pairs (JObject obj) =
     List.map_filter (\<lambda>(k, v). map_option (\<lambda>s. (k, s)) (as_str v)) obj"
| "json_to_header_pairs _ = []"

text \<open>The publish calls for one row.\<close>

definition row_calls :: "bool \<Rightarrow> drained_row \<Rightarrow> cmd list" where
  "row_calls js r =
     (let core_headers = json_to_header_pairs (d_headers r)
      in Publish (d_subject r) (d_payload r) core_headers #
         (if js then [PublishJs (d_subject r) (d_payload r)
                        (core_headers @ [(lit ''Nats-Msg-Id'', show_i64 (d_ledger_seq r))])]
          else []))"

definition drain_txn :: "'db pg \<Rightarrow> 'db txn \<Rightarrow> drained_row list spi_result \<times> 'db txn" where
  "drain_txn P t = spi_then (pg_exec P Drain_Outbox t) (\<lambda>table t'. (read_rows [] table, t'))"

definition publish_drain_once :: "'db pg \<Rightarrow> gucs \<Rightarrow> 'db \<Rightarrow> nat outcome \<times> cmd list \<times> 'db" where
  "publish_drain_once P g db =
     (case transaction (drain_txn P) db of
        (Spi_Raise e, db') \<Rightarrow> (Panics e, [], db')
      | (Spi_Err e, db') \<Rightarrow> (Returns 0, [], db')
      | (Spi_Ok drained, db') \<Rightarrow>
          if drained = [] then (Returns 0, [], db')
          else (Returns (length drained), concat (map (row_calls (nats_js_stream g \<noteq> None)) drained), db'))"

section \<open>The other drains\<close>

definition materialize_drain_once :: "'db pg \<Rightarrow> 'db \<Rightarrow> usize outcome \<times> 'db" where
  "materialize_drain_once P db =
     (case transaction (\<lambda>t. spi_then (pg_exec P Materialize_Drain t)
              (\<lambda>table t'. (last_row cell_int4 (\<lambda>v. case v of None \<Rightarrow> 0 | Some n \<Rightarrow> n) 0 table, t'))) db of
        (Spi_Ok n, db') \<Rightarrow> (Returns (word_of_int (sint n)), db')
      | (Spi_Err e, db') \<Rightarrow> (Returns 0, db')
      | (Spi_Raise e, db') \<Rightarrow> (Panics e, db'))"

definition orbit_drain_once :: "'db pg \<Rightarrow> 'db \<Rightarrow> usize outcome \<times> 'db" where
  "orbit_drain_once P db =
     (case transaction (\<lambda>t. spi_then (pg_exec P Orbit_Tick t)
              (\<lambda>table t'. (last_row cell_int8 (\<lambda>v. case v of None \<Rightarrow> 0 | Some n \<Rightarrow> n) 0 table, t'))) db of
        (Spi_Ok n, db') \<Rightarrow> (Returns n, db')
      | (Spi_Err e, db') \<Rightarrow> (Returns 0, db')
      | (Spi_Raise e, db') \<Rightarrow> (Panics e, db'))"

section \<open>What the drain relies on\<close>

text \<open>The outbox table (its columns are not null and \<^verbatim>\<open>seq\<close> is its key) and PostgreSQL's
  \<^verbatim>\<open>DELETE \<dots> RETURNING\<close>, which returns the deleted rows in some order.\<close>

record outbox_row =
  ob_seq :: int
  ob_data :: drained_row

definition oldest :: "outbox_row list \<Rightarrow> outbox_row list" where
  "oldest ob = take 100 (sort_key ob_seq ob)"

definition remaining :: "outbox_row list \<Rightarrow> outbox_row list" where
  "remaining ob = filter (\<lambda>r. ob_seq r \<notin> ob_seq ` set (oldest ob)) ob"

definition row_cells :: "drained_row \<Rightarrow> spi_row" where
  "row_cells r = [Cell_Int8 (d_ledger_seq r), Cell_Text (d_subject r), Cell_Bytea (d_payload r), Cell_Jsonb (d_headers r)]"

definition drain_law ::
    "'db pg \<Rightarrow> ('db \<Rightarrow> outbox_row list) \<Rightarrow> (outbox_row list \<Rightarrow> 'db \<Rightarrow> 'db) \<Rightarrow>
     (outbox_row list \<Rightarrow> outbox_row list) \<Rightarrow> bool" where
  "drain_law P outbox set_outbox order \<longleftrightarrow>
     (\<forall>rows. mset (order rows) = mset rows) \<and>
     (\<forall>rows db. outbox (set_outbox rows db) = rows) \<and>
     (\<forall>t. pg_exec P Drain_Outbox t =
        (Spi_Ok (map (row_cells \<circ> ob_data) (order (oldest (outbox (txn_db t))))),
         t\<lparr>txn_db := set_outbox (remaining (outbox (txn_db t))) (txn_db t)\<rparr>))"

fun drain_times :: "'db pg \<Rightarrow> gucs \<Rightarrow> nat \<Rightarrow> 'db \<Rightarrow> cmd list \<times> 'db" where
  "drain_times P g 0 db = ([], db)"
| "drain_times P g (Suc n) db =
     (let (_, calls, db') = publish_drain_once P g db; (calls', db'') = drain_times P g n db'
      in (calls @ calls', db''))"

section \<open>Lemmas\<close>

lemma read_rows_cells: "read_rows out (map row_cells rs) = Spi_Ok (out @ rs)"
  by (induction rs arbitrary: out) (simp_all add: read_row_def row_cells_def row_get_def)

lemma drain_txn_law:
  assumes "drain_law P outbox set_outbox order"
  shows "drain_txn P t = (Spi_Ok (map ob_data (order (oldest (outbox (txn_db t))))),
    t\<lparr>txn_db := set_outbox (remaining (outbox (txn_db t))) (txn_db t)\<rparr>)"
  using assms read_rows_cells[of "[]" "map ob_data (order (oldest (outbox (txn_db t))))"]
  by (simp add: drain_txn_def drain_law_def)

lemma drain_once_law:
  assumes "drain_law P outbox set_outbox order"
  shows "publish_drain_once P g db =
    (Returns (length (oldest (outbox db))),
     concat (map (row_calls (nats_js_stream g \<noteq> None) \<circ> ob_data) (order (oldest (outbox db)))),
     set_outbox (remaining (outbox db)) db)"
proof -
  have m: "mset (order rows) = mset rows" for rows using assms by (simp add: drain_law_def)
  have len: "length (order rows) = length rows" for rows using mset_eq_length[OF m] .
  then have nil: "order rows = [] \<longleftrightarrow> rows = []" for rows by (metis length_0_conv)
  have run: "transaction (drain_txn P) db = (Spi_Ok (map ob_data (order (oldest (outbox db)))), set_outbox (remaining (outbox db)) db)"
    by (simp add: transaction_def drain_txn_law[OF assms])
  show ?thesis
  proof (cases "order (oldest (outbox db)) = []")
    case True
    moreover from this have "oldest (outbox db) = []" unfolding nil .
    ultimately show ?thesis unfolding publish_drain_once_def run by simp
  qed (simp add: publish_drain_once_def run len)
qed

lemma mset_concat_map: "mset (concat (map f xs)) = (\<Sum>x \<in># mset xs. mset (f x))"
  by (induction xs) simp_all

text \<open>The calls of a multiset of rows: one core publish each, and with a stream one stream
  publish each, whose message id is the ledger sequence number.\<close>

definition rows_published :: "bool \<Rightarrow> outbox_row multiset \<Rightarrow> cmd multiset" where
  "rows_published js rows =
     image_mset (\<lambda>r. Publish (d_subject (ob_data r)) (d_payload (ob_data r))
       (json_to_header_pairs (d_headers (ob_data r)))) rows +
     (if js then image_mset (\<lambda>r. PublishJs (d_subject (ob_data r)) (d_payload (ob_data r))
       (json_to_header_pairs (d_headers (ob_data r)) @ [(lit ''Nats-Msg-Id'', show_i64 (d_ledger_seq (ob_data r)))])) rows
      else {#})"

lemma sum_row_calls: "(\<Sum>r \<in># rows. mset (row_calls js (ob_data r))) = rows_published js rows"
  by (induction rows) (simp_all add: rows_published_def row_calls_def Let_def)

lemma rows_published_union: "rows_published js (a + b) = rows_published js a + rows_published js b"
  by (simp add: rows_published_def)

lemma size_rows_published: "size (rows_published js rows) = (if js then 2 else 1) * size rows"
  by (simp add: rows_published_def)

lemma drain_once_effect:
  assumes "drain_law P outbox set_outbox order" "publish_drain_once P g db = (n, calls, db')"
  shows "n = Returns (length (oldest (outbox db)))" "outbox db' = remaining (outbox db)"
    "mset calls = rows_published (nats_js_stream g \<noteq> None) (mset (oldest (outbox db)))"
proof -
  have e: "n = Returns (length (oldest (outbox db)))" "db' = set_outbox (remaining (outbox db)) db"
    "calls = concat (map (row_calls (nats_js_stream g \<noteq> None) \<circ> ob_data) (order (oldest (outbox db))))"
    using assms(2) unfolding drain_once_law[OF assms(1)] by simp_all
  show "n = Returns (length (oldest (outbox db)))" by (rule e(1))
  show "outbox db' = remaining (outbox db)" using assms(1) e(2) by (simp add: drain_law_def)
  have "mset (order (oldest (outbox db))) = mset (oldest (outbox db))" using assms(1) by (simp add: drain_law_def)
  then show "mset calls = rows_published (nats_js_stream g \<noteq> None) (mset (oldest (outbox db)))"
    unfolding e(3) mset_concat_map comp_def sum_row_calls by simp
qed

lemma oldest_subset: "set (oldest ob) \<subseteq> set ob"
  unfolding oldest_def by (metis set_sort set_take_subset)

lemma length_oldest [simp]: "length (oldest ob) = min 100 (length ob)"
  by (simp add: oldest_def)

lemma distinct_oldest: "distinct (map ob_seq ob) \<Longrightarrow> distinct (map ob_seq (oldest ob))"
proof -
  assume "distinct (map ob_seq ob)"
  then have "distinct (map ob_seq (sort_key ob_seq ob))"
    by (simp add: distinct_map)
  then show ?thesis by (simp add: oldest_def take_map[symmetric] distinct_take)
qed

lemma oldest_remaining:
  assumes "distinct (map ob_seq ob)"
  shows "mset (oldest ob) + mset (remaining ob) = mset ob"
proof -
  have inj: "inj_on ob_seq (set ob)" and d: "distinct ob" using assms by (simp_all add: distinct_map)
  have "ob_seq r \<in> ob_seq ` set (oldest ob) \<longleftrightarrow> r \<in> set (oldest ob)" if "r \<in> set ob" for r
    using inj oldest_subset[of ob] that by (auto dest: inj_onD)
  then have r: "remaining ob = filter (\<lambda>r. r \<notin> set (oldest ob)) ob"
    unfolding remaining_def by (intro filter_cong) simp_all
  have "mset (filter (\<lambda>r. r \<in> set (oldest ob)) ob) = mset (oldest ob)"
    using oldest_subset[of ob] distinct_oldest[OF assms] d
    by (intro set_eq_iff_mset_eq_distinct[THEN iffD1]) (auto simp: distinct_map)
  then show ?thesis
    unfolding r using multiset_partition[of "mset ob" "\<lambda>r. r \<in> set (oldest ob)"] by simp
qed

lemma length_remaining: "distinct (map ob_seq ob) \<Longrightarrow> length (remaining ob) = length ob - 100"
  using oldest_remaining[of ob] length_oldest[of ob]
  by (metis add_diff_cancel_left' diff_diff_cancel diff_le_self length_oldest min_def size_mset size_union diff_is_0_eq' linear)

lemma distinct_remaining: "distinct (map ob_seq ob) \<Longrightarrow> distinct (map ob_seq (remaining ob))"
  by (simp add: remaining_def distinct_map_filter)

lemma remaining_newer:
  assumes "distinct (map ob_seq ob)" "r \<in> set (oldest ob)" "r' \<in> set (remaining ob)"
  shows "ob_seq r < ob_seq r'"
proof -
  let ?s = "sort_key ob_seq ob"
  have ne: "ob_seq r' \<noteq> ob_seq r" and r': "r' \<in> set ob" using assms(2,3) by (auto simp: remaining_def)
  then have "r' \<in> set (drop 100 ?s)"
    using assms(2,3) set_take_disj_set_drop_if_distinct[of ?s 100 100]
    by (metis (no_types, lifting) Un_iff append_take_drop_id imageI mem_Collect_eq oldest_def remaining_def set_append set_filter set_sort)
  moreover have "sorted (map ob_seq (take 100 ?s @ drop 100 ?s))" by simp
  ultimately have "ob_seq r \<le> ob_seq r'"
    using assms(2) unfolding oldest_def map_append sorted_append by auto
  with ne show ?thesis by simp
qed

lemma outbox_drained:
  assumes "drain_law P outbox set_outbox order" "distinct (map ob_seq (outbox db))" "length (outbox db) \<le> 100 * n"
    "drain_times P g n db = (calls, db')"
  shows "outbox db' = [] \<and>
    mset calls = rows_published (nats_js_stream g \<noteq> None) (mset (outbox db))"
  using assms(2-)
proof (induction n arbitrary: db calls)
  case (Suc n)
  obtain k c1 db1 where one: "publish_drain_once P g db = (k, c1, db1)" by (metis surj_pair)
  obtain c2 where rest: "drain_times P g n db1 = (c2, db')" and calls: "calls = c1 @ c2"
    using Suc.prems(3) one by (auto simp: split_beta) (metis prod.collapse)
  let ?calls = "rows_published (nats_js_stream g \<noteq> None)"
  note ob1 = drain_once_effect(2)[OF assms(1) one] and c1 = drain_once_effect(3)[OF assms(1) one]
  have "outbox db' = [] \<and> mset c2 = ?calls (mset (outbox db1))"
    using Suc.prems(1,2) ob1 rest
    by (intro Suc.IH) (simp_all add: distinct_remaining length_remaining)
  moreover have "?calls (mset (outbox db)) = ?calls (mset (oldest (outbox db))) + ?calls (mset (remaining (outbox db)))"
    unfolding oldest_remaining[OF Suc.prems(1), symmetric] by (rule rows_published_union)
  ultimately show ?case using c1 calls ob1 by simp
qed (simp add: rows_published_def)

section \<open>Properties\<close>

text \<open>One drain moves the oldest rows. It deletes the hundred oldest rows (all of
  them when there are fewer) and no other, returns their number, and makes for each
  deleted row exactly the publish calls of that row; every row it leaves is newer than
  every row it took.\<close>

theorem drain_moves_oldest_rows:
  assumes "drain_law P outbox set_outbox order" "distinct (map ob_seq (outbox db))"
    "publish_drain_once P g db = (n, calls, db')"
  shows "n = Returns (min 100 (length (outbox db))) \<and>
    mset (outbox db) = mset (oldest (outbox db)) + mset (outbox db') \<and>
    (\<forall>r \<in> set (oldest (outbox db)). \<forall>r' \<in> set (outbox db'). ob_seq r < ob_seq r') \<and>
    mset calls = rows_published (nats_js_stream g \<noteq> None) (mset (oldest (outbox db)))"
proof -
  note e = drain_once_effect[OF assms(1,3)]
  with oldest_remaining[OF assms(2)] remaining_newer[OF assms(2)] show ?thesis by simp
qed

definition demo_row :: "int \<Rightarrow> outbox_row" where
  "demo_row n = \<lparr>ob_seq = n, ob_data = \<lparr>d_ledger_seq = word_of_int n, d_subject = lit ''s'', d_payload = [7],
     d_headers = json_obj [(lit ''Ck-Seq'', JString (lit ''1''))]\<rparr>\<rparr>"

definition demo_rows :: "nat \<Rightarrow> outbox_row list" where
  "demo_rows n = map demo_row [1..int n]"

lemma demo_rows_facts: "distinct (map ob_seq (demo_rows n))" "length (demo_rows n) = n"
  by (simp_all add: demo_rows_def comp_def demo_row_def)

definition demo_outbox_pg :: "outbox_row list pg" where
  "demo_outbox_pg = \<lparr>pg_exec = (\<lambda>stmt t. (Spi_Ok (map (row_cells \<circ> ob_data) (rev (oldest (txn_db t)))),
     t\<lparr>txn_db := remaining (txn_db t)\<rparr>))\<rparr>"

lemma demo_outbox_law: "drain_law demo_outbox_pg (\<lambda>db. db) (\<lambda>rows db. rows) rev"
  by (simp add: drain_law_def demo_outbox_pg_def)

theorem drain_moves_oldest_rows_witness:
  "\<exists>n calls db'. publish_drain_once demo_outbox_pg guc_defaults (demo_rows 150) = (n, calls, db') \<and>
     n = Returns 100 \<and> mset (demo_rows 150) = mset (oldest (demo_rows 150)) + mset db'"
proof -
  obtain n calls db' where e: "publish_drain_once demo_outbox_pg guc_defaults (demo_rows 150) = (n, calls, db')"
    by (metis surj_pair)
  from drain_moves_oldest_rows[OF demo_outbox_law demo_rows_facts(1) e] e show ?thesis
    by (simp add: demo_rows_facts(2))
qed

text \<open>The outbox is emptied, and every row is handed over exactly once. With at most
  a hundred times \<open>n\<close> rows, \<open>n\<close> drains in a row leave the outbox empty and have
  made, over all of them, the publish calls of every row once.\<close>

theorem outbox_drained_exactly_once:
  assumes "drain_law P outbox set_outbox order" "distinct (map ob_seq (outbox db))" "length (outbox db) \<le> 100 * n"
    "drain_times P g n db = (calls, db')"
  shows "outbox db' = [] \<and>
    mset calls = rows_published (nats_js_stream g \<noteq> None) (mset (outbox db))"
  using outbox_drained[OF assms] .

theorem outbox_drained_exactly_once_witness:
  "\<exists>calls. drain_times demo_outbox_pg guc_defaults 2 (demo_rows 150) = (calls, []) \<and> size (mset calls) = 150"
proof -
  obtain calls db' where e: "drain_times demo_outbox_pg guc_defaults 2 (demo_rows 150) = (calls, db')"
    by (metis surj_pair)
  have "length (demo_rows 150) \<le> 100 * 2" by (simp add: demo_rows_facts(2))
  from outbox_drained_exactly_once[OF demo_outbox_law demo_rows_facts(1) this e]
  have "db' = []" "mset calls = rows_published (nats_js_stream guc_defaults \<noteq> None) (mset (demo_rows 150))" by simp_all
  moreover have "nats_js_stream guc_defaults = None"
    by (simp add: nats_js_stream_def guc_text_def guc_defaults_def filter_some_def)
  ultimately have "db' = []" "size (mset calls) = 150" by (simp_all add: size_rows_published demo_rows_facts(2))
  with e show ?thesis by blast
qed

text \<open>A drained row is not kept for a retry. If the client thread is gone (its
  receiver dropped) or was never started, a drain still deletes the rows, and each of
  their publish calls returns an error: the rows are lost, the hand-over is at most
  once.\<close>

theorem drained_rows_lost_without_client:
  assumes "drain_law P outbox set_outbox order" "publish_drain_once P g db = (n, calls, db')"
    "cl = None \<or> (\<exists>ch. cl = Some ch \<and> \<not> rx_alive ch)"
  shows "outbox db' = remaining (outbox db) \<and> (\<forall>c \<in> set calls. \<exists>e. publish_call c cl = Publish_Error e)"
proof -
  have "\<exists>e. publish_call c cl = Publish_Error e" for c
    using assms(3) by (cases c)
      (auto simp: publish_def publish_js_def enqueue_cmd_def once_get_def chan_send_def)
  moreover have "outbox db' = remaining (outbox db)"
    by (rule drain_once_effect(2)[OF assms(1,2)])
  ultimately show ?thesis by blast
qed

theorem drained_rows_lost_without_client_witness:
  "\<exists>n calls. publish_drain_once demo_outbox_pg guc_defaults [demo_row 1] = (n, calls, []) \<and>
     (\<forall>c \<in> set calls. \<exists>e. publish_call c None = Publish_Error e)"
proof -
  obtain n calls db' where e: "publish_drain_once demo_outbox_pg guc_defaults [demo_row 1] = (n, calls, db')"
    by (metis surj_pair)
  have "remaining [demo_row 1] = []" by (simp add: remaining_def oldest_def)
  with drained_rows_lost_without_client[OF demo_outbox_law e, of None] e show ?thesis by auto
qed

end
