(* ===== verification/Bgworker.thy ===== *)
theory Bgworker
  imports Nats_Relay Publish_Drain
begin

text \<open>
  \<^verbatim>\<open>src/src/bgworker.rs\<close> and the worker entry point of \<^verbatim>\<open>src/src/lib.rs\<close>: one tick of
  the background worker in each build profile, and the loop that waits on the latch,
  reloads the settings on SIGHUP and ticks. The worker's state is everything the process
  keeps: settings, statics, latches, queue, the database it is attached to, and the
  traces of what it spawned and published.
\<close>

section \<open>State\<close>

record ('vk, 'kp, 'db) worker =
  w_gucs :: gucs
  w_statics :: "'vk statics"
  w_client :: client_statics
  w_initialised :: "unit once_lock"
  w_ready :: "unit once_lock"
  w_ledger_last :: "nat option lock"
  w_queue :: inbound_queue
  w_db :: 'db
  w_threads :: "('vk, 'kp) callout_context thread list"
  w_calls :: "cmd list"
  w_bad_seed_logs :: nat

definition worker_start :: "gucs \<Rightarrow> 'db \<Rightarrow> ('vk, 'kp, 'db) worker" where
  "worker_start g db = \<lparr>w_gucs = g, w_statics = statics_init, w_client = client_statics_init, w_initialised = None,
     w_ready = None, w_ledger_last = Healthy None, w_queue = queue_init, w_db = db, w_threads = [], w_calls = [],
     w_bad_seed_logs = 0\<rparr>"

text \<open>A step of the worker ends normally or in a panic, which skips what follows.\<close>

type_synonym ('vk, 'kp, 'db) worker_result = "('vk, 'kp, 'db) worker \<times> str option"

definition and_next ::
    "('vk, 'kp, 'db) worker_result \<Rightarrow> (('vk, 'kp, 'db) worker \<Rightarrow> ('vk, 'kp, 'db) worker_result) \<Rightarrow>
     ('vk, 'kp, 'db) worker_result" where
  "and_next r f = (case r of (w, None) \<Rightarrow> f w | (w, Some e) \<Rightarrow> (w, Some e))"

lemma and_next_simps [simp]:
  "and_next (w, None) f = f w"
  "and_next (w, Some e) f = (w, Some e)"
  by (simp_all add: and_next_def)

section \<open>Operations\<close>

definition pgck_ready :: "'db pg \<Rightarrow> ('vk, 'kp, 'db) worker \<Rightarrow> bool outcome \<times> ('vk, 'kp, 'db) worker" where
  "pgck_ready P w =
     (if once_get (w_ready w) \<noteq> None then (Returns True, w)
      else case transaction (spi_get_one P cell_bool Outbox_Exists) (w_db w) of
             (Spi_Raise e, db) \<Rightarrow> (Panics e, w\<lparr>w_db := db\<rparr>)
           | (r, db) \<Rightarrow>
               let present = (r = Spi_Ok (Some True))
               in (Returns present,
                   if present then w\<lparr>w_db := db, w_ready := snd (once_set () (w_ready w))\<rparr> else w\<lparr>w_db := db\<rparr>))"

definition start_server_once :: "unit once_lock \<times> 's \<Rightarrow> ('s \<Rightarrow> 's) \<Rightarrow> unit once_lock \<times> 's" where
  "start_server_once st starter = once_get_or_init (\<lambda>s. ((), starter s)) st"

definition LEDGER_REFRESH_EVERY :: nat where
  "LEDGER_REFRESH_EVERY = 5000"

definition ledger_due :: "nat \<Rightarrow> ('vk, 'kp, 'db) worker \<Rightarrow> bool" where
  "ledger_due now w = (case lock_read (w_ledger_last w) of
     Some (Some t) \<Rightarrow> \<not> now - t < LEDGER_REFRESH_EVERY
   | Some None \<Rightarrow> True
   | None \<Rightarrow> False)"

definition refresh_ledger_kernels :: "'db pg \<Rightarrow> nat \<Rightarrow> ('vk, 'kp, 'db) worker \<Rightarrow> ('vk, 'kp, 'db) worker_result" where
  "refresh_ledger_kernels P now w =
     (if \<not> ledger_due now w then (w, None)
      else
        let w = w\<lparr>w_ledger_last := lock_write (Some now) (w_ledger_last w)\<rparr>
        in case transaction (spi_get_one P cell_text Ledger_Kernels) (w_db w) of
             (Spi_Raise e, db) \<Rightarrow> (w\<lparr>w_db := db\<rparr>, Some e)
           | (Spi_Ok (Some csv), db) \<Rightarrow>
               (w\<lparr>w_db := db, w_statics := set_ledger_kernels (split_on comma csv) (w_statics w)\<rparr>, None)
           | (_, db) \<Rightarrow> (w\<lparr>w_db := db\<rparr>, None))"

text \<open>The initialiser that the first tick runs: read the settings, load the realm
  configuration, build the responder's context, start the relay and then the client
  thread.\<close>

definition init_clients ::
    "('vk, 'sg, 'kp, 'm) callout_libs_scheme \<Rightarrow> ('vk, 'kp, 'db) worker \<Rightarrow> unit \<times> ('vk, 'kp, 'db) worker" where
  "init_clients L w =
     (let url = nats_url (w_gucs w);
          js = nats_js_stream (w_gucs w);
          (auth, st) = oidc_auth_config L (w_gucs w) (w_statics w);
          seed = nats_account_seed (w_gucs w);
          kp = Option.bind seed (parse_account_seed L);
          callout = map_option (\<lambda>account. \<lparr>ctx_auth = auth, ctx_account = account\<rparr>) kp;
          (cl, relay) = init_relay url callout (w_client w);
          (cl, client) = init url js cl
      in ((), w\<lparr>w_statics := st, w_client := cl, w_threads := w_threads w @ relay @ client,
               w_bad_seed_logs := w_bad_seed_logs w + (if seed \<noteq> None \<and> kp = None then 1 else 0)\<rparr>))"

definition refresh_policy :: "('vk, 'kp, 'db) worker \<Rightarrow> ('vk, 'kp, 'db) worker" where
  "refresh_policy w = w\<lparr>w_statics := refresh_callout_policy (w_gucs w) (w_statics w)\<rparr>"

definition init_clients_once ::
    "('vk, 'sg, 'kp, 'm) callout_libs_scheme \<Rightarrow> ('vk, 'kp, 'db) worker \<Rightarrow> ('vk, 'kp, 'db) worker" where
  "init_clients_once L w =
     (let (latch, w') = once_get_or_init (init_clients L) (w_initialised w, w)
      in w'\<lparr>w_initialised := latch\<rparr>)"

definition run_inbound :: "'db pg \<Rightarrow> ('vk, 'kp, 'db) worker \<Rightarrow> ('vk, 'kp, 'db) worker_result" where
  "run_inbound P w =
     (let (calls, q, db, p) = drain_and_dispatch P (w_queue w) (w_db w)
      in (w\<lparr>w_calls := w_calls w @ calls, w_queue := q, w_db := db\<rparr>, p))"

definition run_publish_drain :: "'db pg \<Rightarrow> ('vk, 'kp, 'db) worker \<Rightarrow> ('vk, 'kp, 'db) worker_result" where
  "run_publish_drain P w =
     (let (r, calls, db) = publish_drain_once P (w_gucs w) (w_db w)
      in (w\<lparr>w_calls := w_calls w @ calls, w_db := db\<rparr>, case r of Returns _ \<Rightarrow> None | Panics e \<Rightarrow> Some e))"

definition run_sql_drain :: "('db \<Rightarrow> usize outcome \<times> 'db) \<Rightarrow> ('vk, 'kp, 'db) worker \<Rightarrow> ('vk, 'kp, 'db) worker_result" where
  "run_sql_drain f w =
     (let (r, db) = f (w_db w) in (w\<lparr>w_db := db\<rparr>, case r of Returns _ \<Rightarrow> None | Panics e \<Rightarrow> Some e))"

text \<open>What a tick does once the extension is there, in the \<^verbatim>\<open>nats-client\<close> profile.\<close>

definition tick_drains :: "'db pg \<Rightarrow> nat \<Rightarrow> ('vk, 'kp, 'db) worker \<Rightarrow> ('vk, 'kp, 'db) worker_result" where
  "tick_drains P now w =
     and_next (refresh_ledger_kernels P now w) (\<lambda>w.
     and_next (run_inbound P w) (\<lambda>w.
     and_next (run_publish_drain P w) (\<lambda>w.
     and_next (run_sql_drain (materialize_drain_once P) w) (\<lambda>w.
       run_sql_drain (orbit_drain_once P) w))))"

definition tick ::
    "'db pg \<Rightarrow> ('vk, 'sg, 'kp, 'm) callout_libs_scheme \<Rightarrow> nat \<Rightarrow> ('vk, 'kp, 'db) worker \<Rightarrow> ('vk, 'kp, 'db) worker_result" where
  "tick P L now w =
     (let w = init_clients_once L (refresh_policy w)
      in case pgck_ready P w of
           (Panics e, w) \<Rightarrow> (w, Some e)
         | (Returns False, w) \<Rightarrow> (w, None)
         | (Returns True, w) \<Rightarrow> tick_drains P now w)"

text \<open>The tick of the \<^verbatim>\<open>embedded-nats\<close> profile; \<open>started\<close> is its server latch with the
  number of servers started so far.\<close>

definition tick_embedded ::
    "'db pg \<Rightarrow> unit once_lock \<times> nat \<Rightarrow> ('vk, 'kp, 'db) worker \<Rightarrow> (unit once_lock \<times> nat) \<times> ('vk, 'kp, 'db) worker_result" where
  "tick_embedded P started w =
     (start_server_once started Suc,
      case pgck_ready P w of
        (Panics e, w) \<Rightarrow> (w, Some e)
      | (Returns False, w) \<Rightarrow> (w, None)
      | (Returns True, w) \<Rightarrow>
          and_next (run_sql_drain (materialize_drain_once P) w) (\<lambda>w. run_sql_drain (orbit_drain_once P) w))"

text \<open>The loop of \<^verbatim>\<open>pgck_bridge_main\<close>. Each wake-up of the latch comes with the time and, if SIGHUP
  was received, with what PostgreSQL's \<^verbatim>\<open>ProcessConfigFile\<close> then does to the settings, any function of them;
  the list ends where SIGTERM does.\<close>

type_synonym wake_event = "(gucs \<Rightarrow> gucs) option \<times> nat"

definition reloaded :: "(gucs \<Rightarrow> gucs) option \<Rightarrow> gucs \<Rightarrow> gucs" where
  "reloaded sighup g = (case sighup of None \<Rightarrow> g | Some process_config_file \<Rightarrow> process_config_file g)"

definition wake ::
    "'db pg \<Rightarrow> ('vk, 'sg, 'kp, 'm) callout_libs_scheme \<Rightarrow> wake_event \<Rightarrow> ('vk, 'kp, 'db) worker \<Rightarrow>
     ('vk, 'kp, 'db) worker_result" where
  "wake P L ev w =
     (case ev of (sighup, now) \<Rightarrow> tick P L now (w\<lparr>w_gucs := reloaded sighup (w_gucs w)\<rparr>))"

fun pgck_bridge_main ::
    "'db pg \<Rightarrow> ('vk, 'sg, 'kp, 'm) callout_libs_scheme \<Rightarrow> wake_event list \<Rightarrow> ('vk, 'kp, 'db) worker \<Rightarrow>
     ('vk, 'kp, 'db) worker_result" where
  "pgck_bridge_main P L [] w = (w, None)"
| "pgck_bridge_main P L (ev # evs) w = and_next (wake P L ev w) (pgck_bridge_main P L evs)"

section \<open>The worker and the relay thread together\<close>

inductive bridge_step ::
    "'db pg \<Rightarrow> ('vk, 'sg, 'kp, 'm) callout_libs_scheme \<Rightarrow> ('hm, 'addr, 'n) nats_libs_scheme \<Rightarrow>
     ('vk, 'kp, 'db) worker \<Rightarrow> ('vk, 'kp, 'db) worker \<Rightarrow> bool" for P L N where
  bridge_wake: "wake P L ev w = (w', p) \<Longrightarrow> bridge_step P L N w w'"
| bridge_relay: "Relay_Thread url ctx \<in> set (w_threads w) \<Longrightarrow>
     bridge_step P L N w (w\<lparr>w_queue := relay_message N msg (w_queue w)\<rparr>)"

definition bridge_reachable ::
    "'db pg \<Rightarrow> ('vk, 'sg, 'kp, 'm) callout_libs_scheme \<Rightarrow> ('hm, 'addr, 'n) nats_libs_scheme \<Rightarrow> gucs \<Rightarrow> 'db \<Rightarrow>
     ('vk, 'kp, 'db) worker \<Rightarrow> bool" where
  "bridge_reachable P L N g db w \<longleftrightarrow> (bridge_step P L N)\<^sup>*\<^sup>* (worker_start g db) w"

end
