(* ===== verification/Auth_Callout_Props.thy ===== *)
theory Auth_Callout_Props
  imports Auth_Callout Nats_Router "HOL-Library.Countable"
begin

text \<open>
  What the authorization responder promises. \<open>broker_view\<close> reads a response the way
  the broker does (decode the response, then the user JWT in it); \<open>callout_spec\<close>
  is the admission policy over these readings; the responder refines it on every
  branch. \<open>may_publish\<close> gives the rights a grant means on subjects.
\<close>

section \<open>The contract of the codec crates\<close>

text \<open>Documented behaviour of the crates: base64url decodes what it encodes and its
  alphabet has no dot, JSON text of a plain value parses back to it, and signing with
  a key pair that holds its seed does not fail.\<close>

definition codec_laws :: "('vk, 'sg, 'kp, 'm) callout_libs_scheme \<Rightarrow> 'kp \<Rightarrow> bool" where
  "codec_laws L kp \<longleftrightarrow>
     (\<forall>bs. b64_decode L (b64_encode L bs) = Some bs) \<and>
     (\<forall>bs. dot \<notin> set (b64_encode L bs)) \<and>
     (\<forall>j. json_plain j \<longrightarrow> (\<exists>bs. json_to_vec L j = Inr bs \<and> json_from_slice L bs = Some j)) \<and>
     (\<forall>msg. \<exists>sg. kp_sign L kp msg = Inr sg)"

lemma encode_and_sign_decodes:
  assumes "codec_laws L kp" "json_plain claims"
  shows "\<exists>t. encode_and_sign L claims kp = Inr t \<and>
    decode_claims L t = Some (json_insert (lit ''jti'') (JString (nats_jti L claims)) claims)"
proof -
  let ?c = "json_insert (lit ''jti'') (JString (nats_jti L claims)) claims"
  let ?h = "b64_encode L JWT_HEADER"
  have "json_plain ?c" using assms(2) by (simp add: json_plain_insert)
  with assms(1) obtain ser where ser: "json_to_vec L ?c = Inr ser" "json_from_slice L ser = Some ?c"
    unfolding codec_laws_def by blast
  let ?p = "b64_encode L ser"
  from assms(1) obtain sg where sg: "kp_sign L kp (as_bytes (?h @ dot # ?p)) = Inr sg"
    unfolding codec_laws_def by blast
  have nodot: "dot \<notin> set (b64_encode L bs)" for bs using assms(1) by (simp add: codec_laws_def)
  have "split_on dot (?h @ dot # ?p @ dot # b64_encode L sg) = [?h, ?p, b64_encode L sg]"
    by (simp add: split_on_append split_on_clean nodot)
  moreover have "b64_decode L ?p = Some ser" using assms(1) by (simp add: codec_laws_def)
  ultimately show ?thesis using ser sg by (simp add: encode_and_sign_def Let_def decode_claims_def)
qed

section \<open>Reading a response as the broker does\<close>

datatype publish_right = Pub_Deny "str list" | Pub_Allow "str list"

record grant =
  grantee :: str
  granted_by :: str
  publish :: publish_right
  subscribe :: "str list"
  valid_until :: "i64 option"

datatype verdict = Admit str grant | Refuse str str

definition read_strs :: "json \<Rightarrow> str list option" where
  "read_strs j = Option.bind (as_array j) (\<lambda>a. those (map as_str a))"

definition read_publish :: "json \<Rightarrow> publish_right option" where
  "read_publish j =
     (case json_get j (lit ''allow'') of
        Some a \<Rightarrow> map_option Pub_Allow (read_strs a)
      | None \<Rightarrow> map_option Pub_Deny (Option.bind (json_get j (lit ''deny'')) read_strs))"

definition read_grant :: "('vk, 'sg, 'm) verifier_libs_scheme \<Rightarrow> str \<Rightarrow> grant option" where
  "read_grant L user_jwt =
     Option.bind (decode_claims L user_jwt) (\<lambda>u.
     Option.bind (get_str u ''sub'') (\<lambda>nkey.
     Option.bind (get_str u ''iss'') (\<lambda>iss.
     Option.bind (Option.bind (json_path u [''nats'', ''pub'']) read_publish) (\<lambda>pub.
     Option.bind (Option.bind (json_path u [''nats'', ''sub'', ''allow'']) read_strs) (\<lambda>subs.
       Some \<lparr>grantee = nkey, granted_by = iss, publish = pub, subscribe = subs,
             valid_until = get_i64 u ''exp''\<rparr>)))))"

definition broker_view :: "('vk, 'sg, 'm) verifier_libs_scheme \<Rightarrow> str \<Rightarrow> verdict option" where
  "broker_view L resp =
     Option.bind (decode_claims L resp) (\<lambda>c.
     Option.bind (get_str c ''aud'') (\<lambda>srv.
     Option.bind (json_path c [''nats'']) (\<lambda>n.
       case get_str n ''jwt'' of
         Some jwt \<Rightarrow> map_option (Admit srv) (read_grant L jwt)
       | None \<Rightarrow> map_option (Refuse srv) (get_str n ''error''))))"

section \<open>The admission policy\<close>

fun grant_spec :: "str \<Rightarrow> str \<Rightarrow> str list \<Rightarrow> admission \<Rightarrow> grant" where
  "grant_spec nkey iss kernels (Verified sub exp) =
     \<lparr>grantee = nkey, granted_by = iss,
      publish = (if kernels = [] then Pub_Deny [lit ''>'']
                 else Pub_Allow (map (\<lambda>k. input_subject k (subject_token sub)) kernels)),
      subscribe = concat (map (\<lambda>k. [event_subject k, result_subject k]) kernels) @ [INBOX_SUBJECT],
      valid_until = Some exp\<rparr>"
| "grant_spec nkey iss kernels Anonymous =
     \<lparr>grantee = nkey, granted_by = iss, publish = Pub_Deny [lit ''>''],
      subscribe = map event_subject kernels, valid_until = None\<rparr>"

definition callout_spec ::
    "auth_request option \<Rightarrow> (str option \<Rightarrow> admission) \<Rightarrow> bool \<Rightarrow> str list \<Rightarrow> str \<Rightarrow> verdict" where
  "callout_spec req decide admit_anonymous kernels iss =
     (case req of
        None \<Rightarrow> Refuse [] MALFORMED_REASON
      | Some r \<Rightarrow>
          let a = decide (auth_token r)
          in if a = Anonymous \<and> \<not> admit_anonymous then Refuse (server_id r) REFUSED_REASON
             else Admit (server_id r) (grant_spec (user_nkey r) iss kernels a))"

section \<open>The responder refines the policy\<close>

lemma json_plain_strs [simp]: "0 < n \<Longrightarrow> json_plain_at n (json_strs ss)"
  unfolding json_strs_def by (rule json_plain_array) (auto simp: list_all_iff)

lemma read_strs_strs [simp]: "read_strs (json_strs ss) = Some ss"
proof -
  have "those (map Some ss) = Some ss" by (induction ss) simp_all
  then show ?thesis by (simp add: read_strs_def json_strs_def comp_def)
qed

lemma json_get_jti:
  "json_object_wf j \<Longrightarrow> \<exists>m. j = JObject m \<Longrightarrow> k \<noteq> ''jti'' \<Longrightarrow>
     json_get (json_insert (lit ''jti'') v j) (lit k) = json_get j (lit k)"
  by (simp add: json_get_insert_obj)

lemma json_obj_object: "\<exists>m. json_obj kvs = JObject m"
  by (simp add: json_obj_def)

lemma json_get_jti_obj [simp]:
  "k \<noteq> ''jti'' \<Longrightarrow> json_get (json_insert (lit ''jti'') v (json_obj kvs)) (lit k) = map_of (rev kvs) (lit k)"
  by (simp add: json_get_jti json_obj_object json_get_obj)

text \<open>The claims of a user JWT as one literal: the optional expiry is a further field.\<close>

lemma user_claims_obj:
  "\<exists>pub kvs. user_claims L nkey name perms kp iat exp = json_obj kvs \<and>
     list_all (\<lambda>(k, v). json_plain_at 126 v) kvs \<and>
     map_of (rev kvs) (lit ''sub'') = Some (JString nkey) \<and>
     map_of (rev kvs) (lit ''iss'') = Some (JString (public_key L kp)) \<and>
     map_of (rev kvs) (lit ''exp'') = map_option json_i64 exp \<and>
     (\<exists>n. map_of (rev kvs) (lit ''nats'') = Some n \<and> json_get n (lit ''pub'') = Some pub \<and>
        json_path n [''sub'', ''allow''] = Some (json_strs (sub_allow perms))) \<and>
     read_publish pub = Some (if pub_allow perms = [] then Pub_Deny [lit ''>''] else Pub_Allow (pub_allow perms))"
proof -
  let ?pub = "if pub_allow perms = [] then json_obj [(lit ''deny'', json_strs [lit ''>''])]
                      else json_obj [(lit ''allow'', json_strs (pub_allow perms))]"
  let ?nats = "json_obj [(lit ''pub'', ?pub), (lit ''sub'', json_obj [(lit ''allow'', json_strs (sub_allow perms))]),
     (lit ''subs'', JNumber (JInt (-1))), (lit ''data'', JNumber (JInt (-1))), (lit ''payload'', JNumber (JInt (-1))),
     (lit ''type'', JString (lit ''user'')), (lit ''version'', JNumber (JInt 2))]"
  let ?base = "[(lit ''iat'', json_i64 iat), (lit ''iss'', JString (public_key L kp)), (lit ''sub'', JString nkey),
     (lit ''aud'', JString (lit ''$G'')), (lit ''name'', JString name), (lit ''nats'', ?nats)]"
  let ?kvs = "?base @ (case exp of None \<Rightarrow> [] | Some e \<Rightarrow> [(lit ''exp'', json_i64 e)])"
  have obj: "user_claims L nkey name perms kp iat exp = json_obj ?kvs"
    by (cases exp) (simp_all add: user_claims_def Let_def json_obj_def)
  have pub: "json_plain_at 125 ?pub" by (simp add: json_plain_obj)
  have nats: "json_plain_at 126 ?nats" by (rule json_plain_obj) (simp_all add: pub json_plain_obj)
  have plain: "list_all (\<lambda>(k, v). json_plain_at 126 v) ?kvs" by (cases exp) (simp_all add: nats)
  have read: "read_publish ?pub = Some (if pub_allow perms = [] then Pub_Deny [lit ''>''] else Pub_Allow (pub_allow perms))"
    by (simp add: read_publish_def json_get_obj)
  have fields: "map_of (rev ?kvs) (lit ''sub'') = Some (JString nkey)"
    "map_of (rev ?kvs) (lit ''iss'') = Some (JString (public_key L kp))"
    "map_of (rev ?kvs) (lit ''exp'') = map_option json_i64 exp"
    "map_of (rev ?kvs) (lit ''nats'') = Some ?nats"
    by (cases exp; simp)+
  have "json_get ?nats (lit ''pub'') = Some ?pub" "json_path ?nats [''sub'', ''allow''] = Some (json_strs (sub_allow perms))"
    by (simp_all add: json_get_obj)
  with obj plain read fields show ?thesis by blast
qed

lemma user_jwt_reads_back:
  assumes "codec_laws L kp"
  shows "\<exists>t. build_user_jwt L nkey name perms kp iat exp = Inr t \<and>
    read_grant L t = Some \<lparr>grantee = nkey, granted_by = public_key L kp,
      publish = (if pub_allow perms = [] then Pub_Deny [lit ''>''] else Pub_Allow (pub_allow perms)),
      subscribe = sub_allow perms, valid_until = exp\<rparr>"
proof -
  obtain pub kvs n where obj: "user_claims L nkey name perms kp iat exp = json_obj kvs"
    and plain: "list_all (\<lambda>(k, v). json_plain_at 126 v) kvs"
    and f: "map_of (rev kvs) (lit ''sub'') = Some (JString nkey)"
      "map_of (rev kvs) (lit ''iss'') = Some (JString (public_key L kp))"
      "map_of (rev kvs) (lit ''exp'') = map_option json_i64 exp"
      "map_of (rev kvs) (lit ''nats'') = Some n" "json_get n (lit ''pub'') = Some pub"
      "json_path n [''sub'', ''allow''] = Some (json_strs (sub_allow perms))"
      "read_publish pub = Some (if pub_allow perms = [] then Pub_Deny [lit ''>''] else Pub_Allow (pub_allow perms))"
    using user_claims_obj[of L nkey name perms kp iat exp] by blast
  from plain have "json_plain (json_obj kvs)" by (simp add: json_plain_obj)
  from encode_and_sign_decodes[OF assms this] obtain t where
    "build_user_jwt L nkey name perms kp iat exp = Inr t"
    "decode_claims L t = Some (json_insert (lit ''jti'') (JString (nats_jti L (json_obj kvs))) (json_obj kvs))"
    unfolding build_user_jwt_def obj by blast
  moreover from f(6) obtain s where "json_get n (lit ''sub'') = Some s"
    "json_get s (lit ''allow'') = Some (json_strs (sub_allow perms))"
    by (auto simp: bind_eq_Some_conv)
  ultimately show ?thesis using f(1-5,7)
    by (cases exp) (simp_all add: read_grant_def get_str_def get_i64_def)
qed

lemma response_reads_back:
  assumes "codec_laws L kp" "\<And>jwt. result = Inr jwt \<Longrightarrow> read_grant L jwt = Some g"
  shows "broker_view L (unwrap_or (build_response L nkey srv kp result iat) []) =
    Some (case result of Inr jwt \<Rightarrow> Admit srv g | Inl reason \<Rightarrow> Refuse srv reason)"
proof -
  define n where "n = (case result of
            Inr user_jwt \<Rightarrow> json_obj [(lit ''jwt'', JString user_jwt),
              (lit ''type'', JString (lit ''authorization_response'')), (lit ''version'', JNumber (JInt 2))]
          | Inl reason \<Rightarrow> json_obj [(lit ''error'', JString reason),
              (lit ''type'', JString (lit ''authorization_response'')), (lit ''version'', JNumber (JInt 2))])"
  define kvs where "kvs = [(lit ''iat'', json_i64 iat), (lit ''iss'', JString (public_key L kp)),
           (lit ''sub'', JString nkey), (lit ''aud'', JString srv), (lit ''nats'', n)]"
  have n: "get_str n ''jwt'' = (case result of Inr j \<Rightarrow> Some j | Inl r \<Rightarrow> None)"
    "get_str n ''error'' = (case result of Inr j \<Rightarrow> None | Inl r \<Rightarrow> Some r)"
    by (cases result; simp add: n_def get_str_def json_get_obj)+
  have "json_plain_at 126 n" unfolding n_def by (cases result) (simp_all add: json_plain_obj)
  then have "json_plain (json_obj kvs)" by (intro json_plain_obj) (simp_all add: kvs_def)
  from encode_and_sign_decodes[OF assms(1) this] obtain t where
    t: "encode_and_sign L (json_obj kvs) kp = Inr t"
    "decode_claims L t = Some (json_insert (lit ''jti'') (JString (nats_jti L (json_obj kvs))) (json_obj kvs))"
    by blast
  have "build_response L nkey srv kp result iat = Inr t"
    using t(1) by (simp add: build_response_def n_def kvs_def Let_def)
  moreover have "map_of (rev kvs) (lit ''aud'') = Some (JString srv)" "map_of (rev kvs) (lit ''nats'') = Some n"
    by (simp_all add: kvs_def)
  ultimately show ?thesis using t(2) n assms(2)
    by (cases result) (simp_all add: broker_view_def get_str_def[of "json_insert _ _ _"])
qed

lemma grant_spec_permissions:
  "grant_spec nkey iss kernels a = \<lparr>grantee = nkey, granted_by = iss,
     publish = (if pub_allow (permissions_for a kernels) = [] then Pub_Deny [lit ''>'']
                else Pub_Allow (pub_allow (permissions_for a kernels))),
     subscribe = sub_allow (permissions_for a kernels), valid_until = admission_exp a\<rparr>"
  by (cases a) (simp_all add: Let_def)

lemma responder_refines_policy':
  assumes "codec_laws L account"
  shows "broker_view L (fst (handle_request L request_jwt cfg account now admit_anonymous kernels)) =
    Some (callout_spec (parse_auth_request L request_jwt) (\<lambda>tok. callout_identity L tok cfg now)
      admit_anonymous kernels (public_key L account))"
proof (cases "parse_auth_request L request_jwt")
  case None
  then show ?thesis
    using response_reads_back[OF assms, of "Inl MALFORMED_REASON"]
    by (simp add: handle_request_def callout_spec_def)
next
  case (Some req)
  let ?a = "callout_identity L (auth_token req) cfg now"
  obtain t where t: "build_user_jwt L (user_nkey req) (participant_name ?a) (permissions_for ?a kernels) account
      now (admission_exp ?a) = Inr t"
    and g: "read_grant L t = Some (grant_spec (user_nkey req) (public_key L account) kernels ?a)"
    using user_jwt_reads_back[OF assms, of "user_nkey req" "participant_name ?a" "permissions_for ?a kernels"
        now "admission_exp ?a"] unfolding grant_spec_permissions by blast
  show ?thesis
  proof (cases "?a = Anonymous \<and> \<not> admit_anonymous")
    case True
    then show ?thesis using Some response_reads_back[OF assms, of "Inl REFUSED_REASON"]
      by (simp add: handle_request_def callout_spec_def Let_def)
  next
    case False
    have "broker_view L (unwrap_or (build_response L (user_nkey req) (server_id req) account (Inr t) now) []) =
        Some (Admit (server_id req) (grant_spec (user_nkey req) (public_key L account) kernels ?a))"
      using response_reads_back[OF assms, of "Inr t"] g by simp
    moreover have "fst (handle_request L request_jwt cfg account now admit_anonymous kernels) =
        unwrap_or (build_response L (user_nkey req) (server_id req) account (Inr t) now) []"
      using False Some t by (auto simp: handle_request_def Let_def)
    moreover have "callout_spec (parse_auth_request L request_jwt) (\<lambda>tok. callout_identity L tok cfg now)
        admit_anonymous kernels (public_key L account) =
      Admit (server_id req) (grant_spec (user_nkey req) (public_key L account) kernels ?a)"
      unfolding callout_spec_def Some option.case Let_def by (rule if_not_P) (rule False)
    ultimately show ?thesis by simp
  qed
qed

section \<open>A concrete codec\<close>

text \<open>An instance of the crates that satisfies their contract: JSON text is a unary code
  of the value, base64 shifts every byte out of the ASCII range, and a signature is the
  signed text itself.\<close>

instance json_number :: countable by countable_datatype

instance json :: countable by countable_datatype

definition demo_crates :: "(nat, bytes, str) callout_libs" where
  "demo_crates = \<lparr>
     json_from_slice = (\<lambda>bs. Some (from_nat (length bs))),
     json_from_str = (\<lambda>s. None),
     b64_decode = (\<lambda>s. Some (map (\<lambda>c. word_of_nat (c - 200)) s)),
     vk_from_bytes = (\<lambda>bs. Some (length bs)),
     sig_from_slice = Some,
     ed_verify = (\<lambda>k msg sg. k = 7 \<and> msg = sg),
     json_to_vec = (\<lambda>j. Inr (replicate (to_nat j) 0)),
     b64_encode = map (\<lambda>b. 200 + unat b),
     kp_from_seed = Some,
     public_key = (\<lambda>kp. kp),
     kp_sign = (\<lambda>kp msg. Inr msg),
     sha256 = (\<lambda>bs. bs),
     base32_nopad = map unat\<rparr>"

definition demo_seg :: "json \<Rightarrow> str" where
  "demo_seg j = b64_encode demo_crates (replicate (to_nat j) 0)"

definition demo_token :: "i64 \<Rightarrow> str" where
  "demo_token e = (let m = demo_seg demo_header @ dot # demo_seg (demo_claims e)
                   in m @ dot # b64_encode demo_crates (as_bytes m))"

definition demo_request :: "str \<Rightarrow> str" where
  "demo_request tok = (let c = json_obj [(lit ''nats'', json_obj [
       (lit ''user_nkey'', JString (lit ''UA'')),
       (lit ''server_id'', json_obj [(lit ''id'', JString (lit ''NS''))]),
       (lit ''connect_opts'', json_obj [(lit ''auth_token'', JString tok)])])]
     in lit ''h'' @ dot # demo_seg c @ dot # lit ''s'')"

lemma demo_b64: "b64_decode demo_crates (b64_encode demo_crates bs) = Some bs"
  by (simp add: demo_crates_def comp_def)

lemma demo_nodot: "dot \<notin> set (b64_encode demo_crates bs)" "dot \<notin> set (demo_seg j)"
  by (auto simp: demo_seg_def demo_crates_def)

lemma demo_seg_decodes: "b64_decode demo_crates (demo_seg j) = Some (replicate (to_nat j) 0)"
  unfolding demo_seg_def by (rule demo_b64)

lemma demo_parses: "json_from_slice demo_crates (replicate (to_nat j) 0) = Some j"
  by (simp add: demo_crates_def)

lemma demo_codec_laws: "codec_laws demo_crates kp"
  unfolding codec_laws_def using demo_b64 demo_nodot(1)
  by (auto simp: demo_crates_def)

lemma demo_decode_json: "decode_json demo_crates (demo_seg j) = Inr j"
  by (simp add: decode_json_def b64_def demo_seg_decodes demo_parses)

lemma demo_token_split:
  "split_on dot (demo_token e) = [demo_seg demo_header, demo_seg (demo_claims e),
     b64_encode demo_crates (as_bytes (demo_seg demo_header @ dot # demo_seg (demo_claims e)))]"
  by (simp add: demo_token_def Let_def split_on_append split_on_clean demo_nodot)

lemma demo_token_admits:
  assumes "sint now < sint (e + 30)"
  shows "callout_identity demo_crates (Some (demo_token e)) (Some demo_config) now = Verified (lit ''alice'') e"
proof -
  let ?ident = "\<lparr>id_sub = lit ''alice'', preferred_username = get_str (demo_claims e) ''preferred_username'',
      id_exp = e\<rparr>"
  let ?m = "demo_seg demo_header @ dot # demo_seg (demo_claims e)"
  have "b64 demo_crates (b64_encode demo_crates bs) = Inr bs" for bs by (simp add: b64_def demo_b64)
  moreover have "sig_from_slice demo_crates sg = Some sg" "ed_verify demo_crates 7 msg msg" for sg msg
    by (simp_all add: demo_crates_def)
  ultimately have "authentic demo_crates 7 (demo_seg demo_header) (demo_seg (demo_claims e))
      (b64_encode demo_crates (as_bytes ?m))"
    by (simp add: authentic_def demo_decode_json demo_gets demo_b64)
  then have "config_verify demo_crates demo_config (demo_token e) now = Inr ?ident"
    unfolding config_verify_def verify_jwt_ok verify_eddsa_ok demo_token_split
    using assms by (simp add: demo_decode_json demo_gets claims_hold_def demo_config_def jwks_get_def)
  then show ?thesis by (auto simp: callout_identity_verified)
qed

lemma demo_request_parses:
  "tok \<noteq> [] \<Longrightarrow> parse_auth_request demo_crates (demo_request tok) =
     Some \<lparr>user_nkey = lit ''UA'', server_id = lit ''NS'', auth_token = Some tok\<rparr>"
proof -
  assume t: "tok \<noteq> []"
  have "split_on dot (demo_request tok) = [lit ''h'', demo_seg (json_obj [(lit ''nats'', json_obj [
       (lit ''user_nkey'', JString (lit ''UA'')),
       (lit ''server_id'', json_obj [(lit ''id'', JString (lit ''NS''))]),
       (lit ''connect_opts'', json_obj [(lit ''auth_token'', JString tok)])])]), lit ''s'']"
    unfolding demo_request_def Let_def
    by (subst split_on_append, simp add: lit_def, subst split_on_append, simp add: demo_nodot,
        subst split_on_clean, simp_all add: lit_def)
  then show ?thesis using t
    by (simp add: parse_auth_request_def decode_claims_def demo_seg_decodes demo_parses json_get_obj get_str_def)
qed

text \<open>C7: the responder refines the admission policy. Whatever bytes arrive on the
  callout subject, the broker reads the response as exactly the policy's verdict: a
  refusal for a malformed request or (in strict mode) for an unverified connection;
  otherwise an admission of the request's own user key, signed by the account, that
  lets a verified identity publish on its own subjects until its token expires and
  an anonymous one only listen to events.\<close>

theorem responder_refines_policy:
  assumes "codec_laws L account"
  shows "broker_view L (fst (handle_request L request_jwt cfg account now admit_anonymous kernels)) =
    Some (callout_spec (parse_auth_request L request_jwt) (\<lambda>tok. callout_identity L tok cfg now)
      admit_anonymous kernels (public_key L account))"
  by (rule responder_refines_policy'[OF assms])

theorem responder_refines_policy_witness:
  "broker_view demo_crates (fst (handle_request demo_crates (demo_request (demo_token 10000)) (Some demo_config)
       (lit ''ACCT'') 9000 False [lit ''pgCK''])) =
     Some (Admit (lit ''NS'') \<lparr>grantee = lit ''UA'', granted_by = lit ''ACCT'',
       publish = Pub_Allow [lit ''input.kernel.pgCK.id.alice.action.>''],
       subscribe = [lit ''event.kernel.pgCK.>'', lit ''result.kernel.pgCK.>'', lit ''_INBOX.>''],
       valid_until = Some 10000\<rparr>)"
proof -
  have ne: "demo_token 10000 \<noteq> []" by (simp add: demo_token_def Let_def)
  have a: "callout_identity demo_crates (Some (demo_token 10000)) (Some demo_config) 9000 = Verified (lit ''alice'') 10000"
    by (rule demo_token_admits) simp
  have "public_key demo_crates (lit ''ACCT'') = lit ''ACCT''" by (simp add: demo_crates_def)
  moreover have "subject_token (lit ''alice'') = lit ''alice''"
    by (simp add: subject_token_def lit_def is_ascii_alphanumeric_def)
  ultimately show ?thesis
    using responder_refines_policy[of demo_crates "lit ''ACCT''" "demo_request (demo_token 10000)"
        "Some demo_config" 9000 False "[lit ''pgCK'']", OF demo_codec_laws]
    by (simp add: demo_request_parses[OF ne] callout_spec_def a input_subject_def event_subject_def
        result_subject_def INBOX_SUBJECT_def flip: lit_append)
qed

section \<open>What a grant means on subjects\<close>

text \<open>A publish right as the broker enforces it, with the NATS matching rule.\<close>

fun may_publish :: "publish_right \<Rightarrow> str \<Rightarrow> bool" where
  "may_publish (Pub_Deny ps) s \<longleftrightarrow> \<not> list_ex (\<lambda>p. matches p s) ps"
| "may_publish (Pub_Allow ps) s \<longleftrightarrow> list_ex (\<lambda>p. matches p s) ps"

definition token_char :: "rchar \<Rightarrow> bool" where
  "token_char c \<longleftrightarrow> is_ascii_alphanumeric c \<or> c = underscore \<or> c = dash"

definition plain_subject :: "str \<Rightarrow> bool" where
  "plain_subject s \<longleftrightarrow> (\<forall>t \<in> set (split_on dot s). t \<noteq> tok_any \<and> t \<noteq> tok_tail)"

lemma token_char_plain: "token_char c \<Longrightarrow> c \<noteq> dot \<and> c \<noteq> star \<and> c \<noteq> gt \<and> \<not> is_whitespace c"
  by (auto simp: token_char_def is_ascii_alphanumeric_def is_ascii_digit_def is_whitespace_def)

lemma subject_token_chars: "c \<in> set (subject_token s) \<Longrightarrow> token_char c"
  by (auto simp: subject_token_def token_char_def Let_def split: if_splits)

lemma subject_token_not_Nil [simp]: "subject_token s \<noteq> []"
  by (simp add: subject_token_def Let_def)

lemma subject_token_id: "s \<noteq> [] \<Longrightarrow> \<forall>c \<in> set s. token_char c \<Longrightarrow> subject_token s = s"
  by (auto simp: subject_token_def token_char_def Let_def intro!: map_idI)

lemma subject_token_fixed: "subject_token s = s \<longleftrightarrow> s \<noteq> [] \<and> (\<forall>c \<in> set s. token_char c)"
  using subject_token_id[of s] subject_token_chars[of _ s] subject_token_not_Nil[of s] by metis

lemma subject_token_split [simp]: "split_on dot (subject_token s) = [subject_token s]"
  using subject_token_chars token_char_plain by (intro split_on_clean) blast

lemma subject_token_literal: "subject_token s \<noteq> tok_any" "subject_token s \<noteq> tok_tail"
proof -
  have "star \<notin> set (subject_token s)" "gt \<notin> set (subject_token s)"
    using subject_token_chars token_char_plain by blast+
  then show "subject_token s \<noteq> tok_any" "subject_token s \<noteq> tok_tail"
    by (auto simp: tok_any_def tok_tail_def lit_def)
qed

definition input_tokens :: "str \<Rightarrow> str \<Rightarrow> str list" where
  "input_tokens k t = [lit ''input'', lit ''kernel''] @ split_on dot k @ [lit ''id''] @ split_on dot t @ [lit ''action'']"

lemma input_subject_dots:
  "input_subject k t = lit ''input'' @ dot # lit ''kernel'' @ dot # k @ dot # lit ''id'' @ dot # t @ dot #
     lit ''action'' @ dot # lit ''>''"
  by (simp add: input_subject_def lit_def)

lemma split_on_lits:
  "split_on dot (lit ''input'') = [lit ''input'']" "split_on dot (lit ''kernel'') = [lit ''kernel'']"
  "split_on dot (lit ''id'') = [lit ''id'']" "split_on dot (lit ''action'') = [lit ''action'']"
  "split_on dot (lit ''>'') = [tok_tail]"
  by (simp_all add: split_on_clean lit_def tok_tail_def)

lemma split_input_subject: "split_on dot (input_subject k t) = input_tokens k t @ [tok_tail]"
  by (simp add: input_subject_dots split_on_append_all split_on_lits input_tokens_def)

lemma list_all2_tok_ok_literal:
  "\<forall>t \<in> set ps. t \<noteq> tok_any \<Longrightarrow> list_all2 tok_ok ps ss \<longleftrightarrow> ss = ps"
  by (induction ps arbitrary: ss) (auto simp: list_all2_Cons1 tok_ok_literal)

lemma input_tokens_literal:
  "plain_subject k \<Longrightarrow> plain_subject t \<Longrightarrow> x \<in> set (input_tokens k t) \<Longrightarrow> x \<noteq> tok_any \<and> x \<noteq> tok_tail"
  by (auto simp: input_tokens_def plain_subject_def tok_any_def tok_tail_def)

lemma matches_input_subject:
  assumes "plain_subject k" "plain_subject t"
  shows "matches (input_subject k t) s \<longleftrightarrow> (\<exists>r rest. split_on dot s = input_tokens k t @ r # rest)"
proof -
  have "tok_tail \<notin> set (input_tokens k t)" using input_tokens_literal[OF assms] by blast
  moreover have "list_all2 tok_ok (input_tokens k t) s1 \<longleftrightarrow> s1 = input_tokens k t" for s1
    using input_tokens_literal[OF assms] by (intro list_all2_tok_ok_literal) blast
  ultimately show ?thesis
    unfolding matches_iff split_input_subject by (auto simp: nats_match_tail)
qed

lemma matches_everything: "matches (lit ''>'') s"
  unfolding matches_iff split_on_lits by (simp add: nats_match_tail_Cons)

lemma subject_token_plain [simp]: "plain_subject (subject_token s)"
  by (simp add: plain_subject_def subject_token_literal)

lemma may_publish_grant:
  assumes "\<forall>k \<in> set kernels. plain_subject k"
  shows "may_publish (publish (grant_spec nkey iss kernels a)) s \<longleftrightarrow>
    (\<exists>sub exp k r rest. a = Verified sub exp \<and> k \<in> set kernels \<and>
       split_on dot s = input_tokens k (subject_token sub) @ r # rest)"
proof (cases a)
  case (Verified sub exp)
  have "matches (input_subject k (subject_token sub)) s \<longleftrightarrow>
      (\<exists>r rest. split_on dot s = input_tokens k (subject_token sub) @ r # rest)" if "k \<in> set kernels" for k
    using that assms by (intro matches_input_subject) simp_all
  then show ?thesis unfolding Verified by (auto simp: matches_everything list_ex_iff)
next
  case Anonymous
  then show ?thesis by (simp add: matches_everything)
qed

section \<open>Properties\<close>

text \<open>C10: what an admission lets a connection publish, exactly. For kernel names without
  wildcards, a connection that the responder admits may publish on a subject if and only
  if its token verified and the subject is an action of one of the kernels under that
  identity's own token: \<^verbatim>\<open>input.kernel.<k>.id.<token>.action.<something>\<close>. An anonymous
  connection may publish nothing, and no identity may publish under another one's token.\<close>

theorem publish_scope_exact:
  assumes "codec_laws L account" "\<forall>k \<in> set kernels. plain_subject k"
    and req: "parse_auth_request L request_jwt = Some req"
    and view: "broker_view L (fst (handle_request L request_jwt cfg account now admit_anonymous kernels)) =
      Some (Admit srv g)"
  shows "may_publish (publish g) s \<longleftrightarrow>
    (\<exists>sub exp k r rest. callout_identity L (auth_token req) cfg now = Verified sub exp \<and> k \<in> set kernels \<and>
       split_on dot s = [lit ''input'', lit ''kernel''] @ split_on dot k @
         [lit ''id'', subject_token sub, lit ''action''] @ r # rest)"
proof -
  have "g = grant_spec (user_nkey req) (public_key L account) kernels (callout_identity L (auth_token req) cfg now)"
    using responder_refines_policy'[OF assms(1), of request_jwt cfg now admit_anonymous kernels] view req
    by (auto simp: callout_spec_def Let_def split: if_splits)
  then show ?thesis using may_publish_grant[OF assms(2)] by (simp add: input_tokens_def)
qed

theorem publish_scope_exact_witness:
  "\<exists>srv g. broker_view demo_crates (fst (handle_request demo_crates (demo_request (demo_token 10000))
       (Some demo_config) (lit ''ACCT'') 9000 False [lit ''pgCK''])) = Some (Admit srv g) \<and>
     may_publish (publish g) (lit ''input.kernel.pgCK.id.alice.action.plan.create'') \<and>
     \<not> may_publish (publish g) (lit ''input.kernel.pgCK.id.bob.action.plan.create'')"
proof -
  let ?r = "demo_request (demo_token 10000)"
  have ne: "demo_token 10000 \<noteq> []" by (simp add: demo_token_def Let_def)
  have a: "callout_identity demo_crates (Some (demo_token 10000)) (Some demo_config) 9000 = Verified (lit ''alice'') 10000"
    by (rule demo_token_admits) simp
  obtain srv g where v: "broker_view demo_crates (fst (handle_request demo_crates ?r (Some demo_config)
      (lit ''ACCT'') 9000 False [lit ''pgCK''])) = Some (Admit srv g)"
    using responder_refines_policy'[of demo_crates "lit ''ACCT''" ?r "Some demo_config" 9000 False "[lit ''pgCK'']",
        OF demo_codec_laws] by (simp add: demo_request_parses[OF ne] callout_spec_def a)
  have k: "\<forall>k \<in> set [lit ''pgCK'']. plain_subject k"
    by (simp add: plain_subject_def split_on_clean lit_def tok_any_def tok_tail_def)
  have s: "split_on dot (lit ''input.kernel.pgCK.id.'' @ lit x @ lit ''.action.plan.create'') =
      [lit ''input'', lit ''kernel'', lit ''pgCK'', lit ''id'', lit x, lit ''action'', lit ''plan'', lit ''create'']"
    if "x \<in> {''alice'', ''bob''}" for x
    using that by (auto simp: split_on_def lit_def)
  have t: "subject_token (lit ''alice'') = lit ''alice''" "split_on dot (lit ''pgCK'') = [lit ''pgCK'']"
    by (simp_all add: subject_token_def split_on_def lit_def is_ascii_alphanumeric_def)
  note iff = publish_scope_exact[OF demo_codec_laws k demo_request_parses[OF ne] v]
  have "may_publish (publish g) (lit ''input.kernel.pgCK.id.alice.action.plan.create'')"
    unfolding iff using s[of "''alice''"] by (simp add: a t flip: lit_append)
  moreover have "\<not> may_publish (publish g) (lit ''input.kernel.pgCK.id.bob.action.plan.create'')"
    unfolding iff using s[of "''bob''"] by (simp add: a t flip: lit_append)
  ultimately show ?thesis using v by blast
qed

text \<open>A rejected token leaves no trace. Two requests of the same connection whose
  tokens are both rejected, each for a reason of its own (a forged signature, an expired
  or a foreign token), get the same response and the same log line.\<close>

theorem rejected_tokens_indistinguishable:
  assumes "parse_auth_request L r1 = Some \<lparr>user_nkey = u, server_id = srv, auth_token = Some t1\<rparr>"
    "parse_auth_request L r2 = Some \<lparr>user_nkey = u, server_id = srv, auth_token = Some t2\<rparr>"
    "config_verify L c t1 now = Inl e1" "config_verify L c t2 now = Inl e2"
  shows "handle_request L r1 (Some c) account now admit_anonymous kernels =
    handle_request L r2 (Some c) account now admit_anonymous kernels"
proof -
  have "callout_identity L (Some t1) (Some c) now = Anonymous" "callout_identity L (Some t2) (Some c) now = Anonymous"
    using assms(3,4) by (simp_all add: callout_identity_def)
  then show ?thesis using assms(1,2) by (simp add: handle_request_def)
qed

theorem rejected_tokens_indistinguishable_witness:
  "handle_request demo_crates (demo_request (demo_token 1000)) (Some demo_config) (lit ''ACCT'') 9000 True [] =
   handle_request demo_crates (demo_request (lit ''x'')) (Some demo_config) (lit ''ACCT'') 9000 True []"
proof (rule rejected_tokens_indistinguishable)
  show "parse_auth_request demo_crates (demo_request (demo_token 1000)) =
      Some \<lparr>user_nkey = lit ''UA'', server_id = lit ''NS'', auth_token = Some (demo_token 1000)\<rparr>"
    by (rule demo_request_parses) (simp add: demo_token_def Let_def)
  show "parse_auth_request demo_crates (demo_request (lit ''x'')) =
      Some \<lparr>user_nkey = lit ''UA'', server_id = lit ''NS'', auth_token = Some (lit ''x'')\<rparr>"
    by (rule demo_request_parses) (simp add: lit_def)
  have no: "config_verify demo_crates demo_config t 9000 \<noteq> Inr i"
    if "\<And>h p s. split_on dot t = [h, p, s] \<Longrightarrow> p = demo_seg (demo_claims 1000)" for t i
    using that unfolding config_verify_def verify_jwt_ok verify_eddsa_ok
    by (auto simp: demo_decode_json demo_config_def claims_hold_def demo_gets)
  have "config_verify demo_crates demo_config (demo_token 1000) 9000 \<noteq> Inr i" for i
    by (rule no) (simp add: demo_token_split)
  then show "config_verify demo_crates demo_config (demo_token 1000) 9000 =
      Inl (projl (config_verify demo_crates demo_config (demo_token 1000) 9000))"
    by (cases "config_verify demo_crates demo_config (demo_token 1000) 9000") auto
  have "config_verify demo_crates demo_config (lit ''x'') 9000 \<noteq> Inr i" for i
    by (rule no) (simp add: split_on_def lit_def)
  then show "config_verify demo_crates demo_config (lit ''x'') 9000 =
      Inl (projl (config_verify demo_crates demo_config (lit ''x'') 9000))"
    by (cases "config_verify demo_crates demo_config (lit ''x'') 9000") auto
qed

text \<open>The identity segment is always exactly one literal NATS token. Whatever the
  subject claim is, its token is not empty, has no dot, wildcard or white space, and is
  the claim itself exactly when that has only letters, digits, underscores and dashes.\<close>

theorem subject_token_is_literal_token:
  "subject_token s \<noteq> [] \<and> split_on dot (subject_token s) = [subject_token s] \<and>
   list_all (\<lambda>c. c \<noteq> star \<and> c \<noteq> gt \<and> \<not> is_whitespace c) (subject_token s) \<and>
   subject_token (subject_token s) = subject_token s \<and>
   (subject_token s = s \<longleftrightarrow> s \<noteq> [] \<and> list_all (\<lambda>c. is_ascii_alphanumeric c \<or> c = underscore \<or> c = dash) s)"
proof -
  have "subject_token (subject_token s) = subject_token s"
    using subject_token_chars by (intro subject_token_id) auto
  moreover have "list_all (\<lambda>c. c \<noteq> star \<and> c \<noteq> gt \<and> \<not> is_whitespace c) (subject_token s)"
    using subject_token_chars token_char_plain unfolding list_all_iff by blast
  ultimately show ?thesis
    using subject_token_fixed[of s] by (simp add: token_char_def) (simp add: list_all_iff)
qed

text \<open>The identity segment is not injective. An identity whose subject claim has a
  character outside the token alphabet shares all its publish subjects with a different
  identity, the one whose claim is the sanitized text.\<close>

theorem subject_tokens_collide:
  assumes "\<not> list_all (\<lambda>c. is_ascii_alphanumeric c \<or> c = underscore \<or> c = dash) sub"
  shows "subject_token sub \<noteq> sub \<and>
    pub_allow (permissions_for (Verified (subject_token sub) e') kernels) =
    pub_allow (permissions_for (Verified sub e) kernels)"
proof -
  have "subject_token (subject_token sub) = subject_token sub"
    using subject_token_chars by (intro subject_token_id) auto
  then show ?thesis using assms subject_token_fixed[of sub] by (auto simp: token_char_def list_all_iff)
qed

theorem subject_tokens_collide_witness:
  "subject_token (lit ''a.b'') = lit ''a-b'' \<and>
   pub_allow (permissions_for (Verified (lit ''a-b'') 1) [lit ''k'']) =
   pub_allow (permissions_for (Verified (lit ''a.b'') 2) [lit ''k''])"
proof -
  have "subject_token (lit ''a.b'') = lit ''a-b''"
    by (simp add: subject_token_def lit_def is_ascii_alphanumeric_def is_ascii_digit_def)
  then show ?thesis using subject_tokens_collide[of "lit ''a.b''" 1 "[lit ''k'']" 2]
    by (simp add: lit_def is_ascii_alphanumeric_def is_ascii_digit_def)
qed

end
