(* ===== verification/Realm_Mint.thy ===== *)
theory Realm_Mint
  imports Auth_Callout_Props
begin

text \<open>
  The issuing side of the tokens that \<^verbatim>\<open>jwt_verify.rs\<close> checks, as its test module plays the
  realm: keys published in a key set document, tokens minted with a key. The signing half
  of the Ed25519 crate extends the libraries. Minting and verifying are shown to fit: a
  token that the realm minted with a published key is judged by its claims alone.
\<close>

section \<open>The crates of the issuing side\<close>

record ('vk, 'sg, 'kp, 'sk) realm_libs = "('vk, 'sg, 'kp) callout_libs" +
  json_to_string :: "json \<Rightarrow> str"
  sk_from_bytes :: "bytes \<Rightarrow> 'sk"
  verifying_key :: "'sk \<Rightarrow> 'vk"
  vk_to_bytes :: "'vk \<Rightarrow> bytes"
  sk_sign :: "'sk \<Rightarrow> bytes \<Rightarrow> bytes"

text \<open>Their documented behaviour: base64url and JSON text round trips, a public key is 32
  bytes and is read back from them, and a signature verifies under the key's public
  half.\<close>

definition realm_laws :: "('vk, 'sg, 'kp, 'sk, 'm) realm_libs_scheme \<Rightarrow> bool" where
  "realm_laws L \<longleftrightarrow>
     (\<forall>bs. b64_decode L (b64_encode L bs) = Some bs) \<and>
     (\<forall>bs. dot \<notin> set (b64_encode L bs) \<and> wf_str (b64_encode L bs)) \<and>
     (\<forall>j. json_plain j \<longrightarrow> (\<exists>bs. json_to_vec L j = Inr bs \<and> json_from_slice L bs = Some j)) \<and>
     (\<forall>j. json_plain j \<longrightarrow> json_from_str L (json_to_string L j) = Some j) \<and>
     (\<forall>vk. length (vk_to_bytes L vk) = 32 \<and> vk_from_bytes L (vk_to_bytes L vk) = Some vk) \<and>
     (\<forall>sk m. \<exists>sg. sig_from_slice L (sk_sign L sk m) = Some sg \<and> ed_verify L (verifying_key L sk) m sg)"

text \<open>The idealisation of the scheme that the rejecting tests rely on: a signature verifies
  only for the key and the message it was made with.\<close>

definition ideal_signatures :: "('vk, 'sg, 'kp, 'sk, 'm) realm_libs_scheme \<Rightarrow> bool" where
  "ideal_signatures L \<longleftrightarrow>
     (\<forall>sk sk' m m' sg. sig_from_slice L (sk_sign L sk m) = Some sg \<longrightarrow>
        ed_verify L (verifying_key L sk') m' sg \<longrightarrow> verifying_key L sk' = verifying_key L sk \<and> m' = m)"

section \<open>Minting\<close>

definition realm_key :: "('vk, 'sg, 'kp, 'sk, 'm) realm_libs_scheme \<Rightarrow> u8 \<Rightarrow> 'sk" where
  "realm_key L seed = sk_from_bytes L (replicate 32 seed)"

definition realm_claims :: "str \<Rightarrow> str \<Rightarrow> str \<Rightarrow> i64 \<Rightarrow> json" where
  "realm_claims iss aud sub exp = json_obj [
     (lit ''iss'', JString iss), (lit ''aud'', JString aud), (lit ''sub'', JString sub),
     (lit ''exp'', json_i64 exp), (lit ''nbf'', JNumber (JInt 0)),
     (lit ''preferred_username'', JString (lit ''tester''))]"

text \<open>The body shared by \<^verbatim>\<open>mint\<close> and \<^verbatim>\<open>mint_kid\<close>; \<open>unwrap\<close> of a failed serialisation is a panic
  of the test, here the value \<open>None\<close>.\<close>

definition mint_with :: "('vk, 'sg, 'kp, 'sk, 'm) realm_libs_scheme \<Rightarrow> 'sk \<Rightarrow> json \<Rightarrow> json \<Rightarrow> str option" where
  "mint_with L sk header claims =
     (case (json_to_vec L header, json_to_vec L claims) of
        (Inr hbytes, Inr pbytes) \<Rightarrow>
          let h = b64_encode L hbytes; p = b64_encode L pbytes;
              signing_input = h @ dot # p;
              s = b64_encode L (sk_sign L sk (as_bytes signing_input))
          in Some (h @ dot # p @ dot # s)
      | _ \<Rightarrow> None)"

definition mint :: "('vk, 'sg, 'kp, 'sk, 'm) realm_libs_scheme \<Rightarrow> 'sk \<Rightarrow> json \<Rightarrow> str option" where
  "mint L sk claims =
     mint_with L sk (json_obj [(lit ''alg'', JString (lit ''EdDSA'')), (lit ''typ'', JString (lit ''JWT''))]) claims"

definition mint_kid :: "('vk, 'sg, 'kp, 'sk, 'm) realm_libs_scheme \<Rightarrow> 'sk \<Rightarrow> str \<Rightarrow> json \<Rightarrow> str option" where
  "mint_kid L sk kid claims =
     mint_with L sk (json_obj [(lit ''alg'', JString (lit ''EdDSA'')), (lit ''typ'', JString (lit ''JWT'')),
       (lit ''kid'', JString kid)]) claims"

definition test_expected :: "str \<Rightarrow> str \<Rightarrow> i64 \<Rightarrow> expected" where
  "test_expected iss aud now = \<lparr>issuer = iss, audience = aud, now_unix = now, leeway_secs = 30\<rparr>"

definition jwk :: "('vk, 'sg, 'kp, 'sk, 'm) realm_libs_scheme \<Rightarrow> 'sk \<Rightarrow> str \<Rightarrow> json" where
  "jwk L sk kid =
     (let x = b64_encode L (vk_to_bytes L (verifying_key L sk))
      in json_obj [(lit ''kty'', JString (lit ''OKP'')), (lit ''crv'', JString (lit ''Ed25519'')),
           (lit ''use'', JString (lit ''sig'')), (lit ''alg'', JString (lit ''EdDSA'')),
           (lit ''kid'', JString kid), (lit ''x'', JString x)])"

definition jwks_doc :: "('vk, 'sg, 'kp, 'sk, 'm) realm_libs_scheme \<Rightarrow> json list \<Rightarrow> str" where
  "jwks_doc L keys = json_to_string L (json_obj [(lit ''keys'', JArray keys)])"

section \<open>Reading back what was minted\<close>

lemma realm_b64:
  assumes "realm_laws L"
  shows "b64_decode L (b64_encode L bs) = Some bs" "dot \<notin> set (b64_encode L bs)"
    "wf_str (b64_encode L bs)"
  using assms by (simp_all add: realm_laws_def)

lemma realm_serialises:
  assumes "realm_laws L" "json_plain j"
  obtains bs where "json_to_vec L j = Inr bs" "json_from_slice L bs = Some j"
  using assms unfolding realm_laws_def by blast

text \<open>A minted token has three segments that decode to the header, the claims and a
  signature of the first two.\<close>

lemma mint_with_segments:
  assumes "realm_laws L" "json_plain header" "json_plain claims"
  obtains t h p s where "mint_with L sk header claims = Some t" "split_on dot t = [h, p, s]"
    "decode_json L h = Inr header" "decode_json L p = Inr claims"
    "b64_decode L s = Some (sk_sign L sk (as_bytes (h @ dot # p)))" "wf_str h" "wf_str p"
proof -
  obtain hb where hb: "json_to_vec L header = Inr hb" "json_from_slice L hb = Some header"
    using realm_serialises[OF assms(1,2)] .
  obtain pb where pb: "json_to_vec L claims = Inr pb" "json_from_slice L pb = Some claims"
    using realm_serialises[OF assms(1,3)] .
  let ?h = "b64_encode L hb" and ?p = "b64_encode L pb"
  let ?s = "b64_encode L (sk_sign L sk (as_bytes (?h @ dot # ?p)))"
  show thesis
  proof (rule that)
    show "mint_with L sk header claims = Some (?h @ dot # ?p @ dot # ?s)"
      by (simp add: mint_with_def hb(1) pb(1) Let_def)
    show "split_on dot (?h @ dot # ?p @ dot # ?s) = [?h, ?p, ?s]"
      by (simp add: split_on_append split_on_clean realm_b64[OF assms(1)])
    show "decode_json L ?h = Inr header" "decode_json L ?p = Inr claims"
      using hb(2) pb(2) by (simp_all add: decode_json_def b64_def realm_b64[OF assms(1)])
    show "b64_decode L ?s = Some (sk_sign L sk (as_bytes (?h @ dot # ?p)))"
      by (rule realm_b64(1)[OF assms(1)])
    show "wf_str ?h" "wf_str ?p" by (simp_all add: realm_b64[OF assms(1)])
  qed
qed

lemma minted_verifies:
  assumes "realm_laws L" "split_on dot t = [h, p, s]" "decode_json L h = Inr header"
    "decode_json L p = Inr claims" "b64_decode L s = Some (sk_sign L sk (as_bytes (h @ dot # p)))"
    "get_str header ''alg'' = Some (lit ''EdDSA'')"
  shows "verify_eddsa L t (verifying_key L sk) ex = check_claims claims ex"
proof -
  obtain sg where "sig_from_slice L (sk_sign L sk (as_bytes (h @ dot # p))) = Some sg"
    "ed_verify L (verifying_key L sk) (as_bytes (h @ dot # p)) sg"
    using assms(1) unfolding realm_laws_def by blast
  then have "authentic L (verifying_key L sk) h p s"
    using assms(3,5,6) unfolding authentic_def by blast
  from verify_eddsa_three[OF assms(2) this] assms(4) show ?thesis by simp
qed

lemma foreign_rejected:
  assumes "ideal_signatures L" "split_on dot t = [h, p, s]" "decode_json L h = Inr header"
    "b64_decode L s = Some (sk_sign L sk m)" "get_str header ''alg'' = Some (lit ''EdDSA'')"
    "realm_laws L" "verifying_key L sk' \<noteq> verifying_key L sk \<or> m \<noteq> as_bytes (h @ dot # p)"
  shows "verify_eddsa L t (verifying_key L sk') ex = Inl BadSignature"
proof -
  obtain sg where sg: "sig_from_slice L (sk_sign L sk m) = Some sg"
    using assms(6) unfolding realm_laws_def by blast
  with assms(1,7) have "\<not> ed_verify L (verifying_key L sk') (as_bytes (h @ dot # p)) sg"
    unfolding ideal_signatures_def by blast
  with assms(2-5) sg show ?thesis by (simp add: verify_eddsa_def b64_def Let_def)
qed

section \<open>Key sets\<close>

lemma jwk_plain: "0 < n \<Longrightarrow> json_plain_at n (jwk L sk kid)"
  unfolding jwk_def Let_def by (rule json_plain_obj) simp_all

lemma jwk_key_jwk:
  assumes "realm_laws L"
  shows "jwk_key L (jwk L sk kid) = Some (kid, verifying_key L sk)"
  using assms by (simp add: jwk_key_def jwk_def Let_def get_str_def json_get_obj realm_laws_def)

text \<open>What a document of published keys, with other entries among them, is read as.\<close>

lemma jwks_parse_doc:
  assumes "realm_laws L" "list_all (json_plain_at 125) es"
  shows "jwks_parse L (jwks_doc L es) =
    (if load_keys L es [] = [] then Inl Malformed else Inr (load_keys L es []))"
proof -
  have "json_plain_at 126 (JArray es)" using assms(2) by (simp add: json_plain_array)
  then have "json_plain (json_obj [(lit ''keys'', JArray es)])" by (intro json_plain_obj) simp_all
  then have "json_from_str L (jwks_doc L es) = Some (json_obj [(lit ''keys'', JArray es)])"
    using assms(1) unfolding jwks_doc_def realm_laws_def by blast
  then show ?thesis by (simp add: jwks_parse_load json_get_obj)
qed

definition publish_keys :: "('vk, 'sg, 'kp, 'sk, 'm) realm_libs_scheme \<Rightarrow> (str \<times> 'sk) list \<Rightarrow> str" where
  "publish_keys L ks = jwks_doc L (map (\<lambda>(kid, sk). jwk L sk kid) ks)"

lemma jwks_parse_published:
  assumes "realm_laws L" "ks \<noteq> []"
  obtains keys where "jwks_parse L (publish_keys L ks) = Inr keys"
    "\<And>kid. jwks_get keys kid = map_option (verifying_key L) (map_of (rev ks) kid)"
proof -
  let ?es = "map (\<lambda>(kid, sk). jwk L sk kid) ks"
  have key: "List.map_filter (jwk_key L) ?es = map (\<lambda>(kid, sk). (kid, verifying_key L sk)) ks"
    by (induction ks) (auto simp: List.map_filter_def jwk_key_jwk[OF assms(1)])
  have "load_keys L ?es [] \<noteq> []"
    using assms(2) by (cases ks) (auto simp: load_keys_Nil jwk_key_jwk[OF assms(1)])
  moreover have "list_all (json_plain_at 125) ?es" by (auto simp: list_all_iff jwk_plain)
  ultimately have "jwks_parse L (publish_keys L ks) = Inr (load_keys L ?es [])"
    by (simp add: publish_keys_def jwks_parse_doc[OF assms(1)])
  moreover have "jwks_get (load_keys L ?es []) kid = map_option (verifying_key L) (map_of (rev ks) kid)" for kid
    by (simp add: jwks_get_def load_keys_lookup key rev_map map_of_map split: option.splits)
  ultimately show thesis by (rule that)
qed

section \<open>From the realm to the admission\<close>

lemma mint_kid_verifies:
  assumes "realm_laws L" "json_plain claims"
  obtains t where "mint_kid L sk kid claims = Some t"
    "\<And>keys ex. jwks_get keys kid = Some (verifying_key L sk) \<Longrightarrow> verify_jwt L t keys ex = check_claims claims ex"
proof -
  let ?header = "json_obj [(lit ''alg'', JString (lit ''EdDSA'')), (lit ''typ'', JString (lit ''JWT'')),
       (lit ''kid'', JString kid)]"
  have plain: "json_plain ?header" by (rule json_plain_obj) simp_all
  obtain t h p s where t: "mint_with L sk ?header claims = Some t" "split_on dot t = [h, p, s]"
    "decode_json L h = Inr ?header" "decode_json L p = Inr claims"
    "b64_decode L s = Some (sk_sign L sk (as_bytes (h @ dot # p)))"
    using mint_with_segments[OF assms(1) plain assms(2)] .
  have g: "get_str ?header ''alg'' = Some (lit ''EdDSA'')" "get_str ?header ''kid'' = Some kid"
    by (simp_all add: get_str_def json_get_obj)
  show thesis
  proof (rule that)
    show "mint_kid L sk kid claims = Some t" using t(1) by (simp add: mint_kid_def)
    fix keys ex assume "jwks_get keys kid = Some (verifying_key L sk)"
    with t(2,3) g(2) minted_verifies[OF assms(1) t(2-5) g(1), of ex]
    show "verify_jwt L t keys ex = check_claims claims ex" by (simp add: verify_jwt_def)
  qed
qed

text \<open>C24: a token that the realm issued is judged by its claims alone. When the realm's key
  set document publishes a key under an identifier, the document always loads, and the
  token that is minted with that key and identifier for any claims that \<^verbatim>\<open>serde_json\<close> prints and reads back (\<open>json_plain\<close>, nested at most 127 deep) is admitted exactly
  as the claims deserve: with the subject and expiry of valid claims, and anonymously
  otherwise. No encoding, key lookup or signature check on the way can refuse it.\<close>

theorem issued_token_round_trip:
  assumes "realm_laws L" "json_plain claims" "map_of (rev ks) kid = Some sk"
  shows "\<exists>cfg t. from_parts L (publish_keys L ks) iss aud = Inr cfg \<and> mint_kid L sk kid claims = Some t \<and>
    callout_identity L (Some t) (Some cfg) now =
      (case check_claims claims \<lparr>issuer = iss, audience = aud, now_unix = now, leeway_secs = 30\<rparr> of
         Inr ident \<Rightarrow> Verified (id_sub ident) (id_exp ident)
       | Inl e \<Rightarrow> Anonymous)"
proof -
  have "ks \<noteq> []" using assms(3) by auto
  from jwks_parse_published[OF assms(1) this] obtain keys where k: "jwks_parse L (publish_keys L ks) = Inr keys"
    "jwks_get keys kid = Some (verifying_key L sk)" using assms(3) by (metis option.map(2))
  obtain t where t: "mint_kid L sk kid claims = Some t"
    "\<And>keys ex. jwks_get keys kid = Some (verifying_key L sk) \<Longrightarrow> verify_jwt L t keys ex = check_claims claims ex"
    using mint_kid_verifies[OF assms(1,2)] by metis
  show ?thesis using k t by (simp add: from_parts_def callout_identity_def config_verify_def)
qed

section \<open>An instance of the issuing side\<close>

text \<open>The codec of \<open>demo_crates\<close> with a readable JSON text and signatures that name their
  key: they satisfy the contract, and the idealisation too.\<close>

definition demo_realm :: "(u8, u8 \<times> bytes, str, u8) realm_libs" where
  "demo_realm = \<lparr>
     json_from_slice = (\<lambda>bs. Some (from_nat (length bs))),
     json_from_str = (\<lambda>s. Some (from_nat (length s))),
     b64_decode = (\<lambda>s. Some (map (\<lambda>c. word_of_nat (c - 200)) s)),
     vk_from_bytes = (\<lambda>bs. Some (hd bs)),
     sig_from_slice = (\<lambda>bs. Some (hd bs, tl bs)),
     ed_verify = (\<lambda>k msg sg. sg = (k, msg)),
     json_to_vec = (\<lambda>j. Inr (replicate (to_nat j) 0)),
     b64_encode = map (\<lambda>b. 200 + unat b),
     kp_from_seed = Some,
     public_key = (\<lambda>kp. kp),
     kp_sign = (\<lambda>kp msg. Inr msg),
     sha256 = (\<lambda>bs. bs),
     base32_nopad = map unat,
     json_to_string = (\<lambda>j. replicate (to_nat j) 0),
     sk_from_bytes = hd,
     verifying_key = (\<lambda>sk. sk),
     vk_to_bytes = (\<lambda>vk. vk # replicate 31 0),
     sk_sign = (\<lambda>sk msg. sk # msg)\<rparr>"

lemma demo_realm_laws: "realm_laws demo_realm" "ideal_signatures demo_realm"
proof -
  have "is_scalar (200 + unat b)" for b :: u8
    using unsigned_less[of b, where 'a = nat] by (simp add: is_scalar_def)
  then show "realm_laws demo_realm"
    by (auto simp: realm_laws_def demo_realm_def comp_def wf_str_def list_all_iff)
  show "ideal_signatures demo_realm" by (auto simp: ideal_signatures_def demo_realm_def)
qed

lemma realm_claims_plain: "json_plain (realm_claims iss aud sub exp)"
  unfolding realm_claims_def by (rule json_plain_obj) simp_all

lemma realm_claims_gets:
  "get_str (realm_claims iss aud sub exp) ''iss'' = Some iss"
  "get_str (realm_claims iss aud sub exp) ''sub'' = Some sub"
  "get_str (realm_claims iss aud sub exp) ''preferred_username'' = Some (lit ''tester'')"
  "json_get (realm_claims iss aud sub exp) (lit ''aud'') = Some (JString aud)"
  "get_i64 (realm_claims iss aud sub exp) ''exp'' = Some exp"
  "get_i64 (realm_claims iss aud sub exp) ''nbf'' = Some 0"
  by (simp_all add: get_str_def get_i64_def realm_claims_def json_get_obj)

text \<open>The verdict on the claims the tests use.\<close>

lemma realm_claims_verdict:
  "check_claims (realm_claims iss aud sub exp) ex =
     (if iss \<noteq> issuer ex then Inl WrongIssuer
      else if aud \<noteq> audience ex then Inl WrongAudience
      else if \<not> sint (now_unix ex) < sint (exp + leeway_secs ex) then Inl Expired
      else if sint (now_unix ex) < sint (0 - leeway_secs ex) then Inl NotYetValid
      else Inr \<lparr>id_sub = sub, preferred_username = Some (lit ''tester''), id_exp = exp\<rparr>)"
  by (simp add: check_claims_def realm_claims_gets)

theorem issued_token_round_trip_witness:
  "\<exists>cfg t. from_parts demo_realm (publish_keys demo_realm [(lit ''k1'', 1)]) (lit ''R'') (lit ''ck'') = Inr cfg \<and>
     mint_kid demo_realm 1 (lit ''k1'') (realm_claims (lit ''R'') (lit ''ck'') (lit ''alice'') 10000) = Some t \<and>
     callout_identity demo_realm (Some t) (Some cfg) 9000 = Verified (lit ''alice'') 10000"
proof -
  have "map_of (rev [(lit ''k1'', 1 :: u8)]) (lit ''k1'') = Some 1" by simp
  from issued_token_round_trip[OF demo_realm_laws(1) realm_claims_plain this,
      of "lit ''R''" "lit ''ck''" "lit ''R''" "lit ''ck''" "lit ''alice''" 10000 9000]
  show ?thesis by (simp add: realm_claims_verdict)
qed

end
