(* ===== verification/Conformance_Jwt.thy ===== *)
theory Conformance_Jwt
  imports Realm_Mint
begin

text \<open>
  The unit tests of \<^verbatim>\<open>jwt_verify.rs\<close>, translated assertion by assertion. They play the realm
  with the crates of \<open>realm_libs\<close> and hold under their documented behaviour; the ones that
  expect a rejected signature also need that a signature fits only its own key and
  message, and that the keys they make are different. An \<^verbatim>\<open>unwrap\<close> that would panic makes
  the test \<open>False\<close>.
\<close>

section \<open>The tests\<close>

definition ISS :: str where "ISS = lit ''https://id.example/realms/R''"
definition AUD :: str where "AUD = lit ''ck-browser''"

definition rsa_entry :: json where
  "rsa_entry = json_obj [(lit ''kty'', JString (lit ''RSA'')), (lit ''kid'', JString (lit ''rsa1'')),
     (lit ''n'', JString (lit ''x'')), (lit ''e'', JString (lit ''AQAB''))]"

definition parse_jwks_loads_ed25519_keys_by_kid :: "('vk, 'sg, 'kp, 'sk, 'm) realm_libs_scheme \<Rightarrow> bool" where
  "parse_jwks_loads_ed25519_keys_by_kid L \<longleftrightarrow>
     (let sk = realm_key L 1
      in case jwks_parse L (jwks_doc L [jwk L sk (lit ''k1'')]) of
           Inl _ \<Rightarrow> False
         | Inr jwks \<Rightarrow> jwks_len jwks = 1 \<and> jwks_get jwks (lit ''k1'') \<noteq> None \<and>
             jwks_get jwks (lit ''nope'') = None)"

definition parse_jwks_skips_non_ed25519_keys :: "('vk, 'sg, 'kp, 'sk, 'm) realm_libs_scheme \<Rightarrow> bool" where
  "parse_jwks_skips_non_ed25519_keys L \<longleftrightarrow>
     (let sk = realm_key L 1
      in case jwks_parse L (jwks_doc L [rsa_entry, jwk L sk (lit ''ed1'')]) of
           Inl _ \<Rightarrow> False
         | Inr jwks \<Rightarrow> jwks_len jwks = 1 \<and> jwks_get jwks (lit ''ed1'') \<noteq> None \<and>
             jwks_get jwks (lit ''rsa1'') = None)"

definition verify_jwt_selects_the_key_by_kid :: "('vk, 'sg, 'kp, 'sk, 'm) realm_libs_scheme \<Rightarrow> bool" where
  "verify_jwt_selects_the_key_by_kid L \<longleftrightarrow>
     (let k1 = realm_key L 1; k2 = realm_key L 2
      in case (jwks_parse L (jwks_doc L [jwk L k1 (lit ''k1''), jwk L k2 (lit ''k2'')]),
               mint_kid L k2 (lit ''k2'') (realm_claims ISS AUD (lit ''alice'') 10000)) of
           (Inr jwks, Some t) \<Rightarrow>
             (case verify_jwt L t jwks (test_expected ISS AUD 9000) of
                Inl _ \<Rightarrow> False
              | Inr ident \<Rightarrow> id_sub ident = lit ''alice'')
         | _ \<Rightarrow> False)"

definition verify_jwt_rejects_a_kid_signed_by_the_wrong_key :: "('vk, 'sg, 'kp, 'sk, 'm) realm_libs_scheme \<Rightarrow> bool" where
  "verify_jwt_rejects_a_kid_signed_by_the_wrong_key L \<longleftrightarrow>
     (let k1 = realm_key L 1; k2 = realm_key L 2
      in case (jwks_parse L (jwks_doc L [jwk L k1 (lit ''k1''), jwk L k2 (lit ''k2'')]),
               mint_kid L k1 (lit ''k2'') (realm_claims ISS AUD (lit ''mallory'') 10000)) of
           (Inr jwks, Some t) \<Rightarrow> verify_jwt L t jwks (test_expected ISS AUD 9000) = Inl BadSignature
         | _ \<Rightarrow> False)"

definition verify_jwt_rejects_an_unknown_kid :: "('vk, 'sg, 'kp, 'sk, 'm) realm_libs_scheme \<Rightarrow> bool" where
  "verify_jwt_rejects_an_unknown_kid L \<longleftrightarrow>
     (let k1 = realm_key L 1
      in case (jwks_parse L (jwks_doc L [jwk L k1 (lit ''k1'')]),
               mint_kid L k1 (lit ''unknown'') (realm_claims ISS AUD (lit ''alice'') 10000)) of
           (Inr jwks, Some t) \<Rightarrow> verify_jwt L t jwks (test_expected ISS AUD 9000) = Inl BadSignature
         | _ \<Rightarrow> False)"

definition auth_config_verifies_from_env_delivered_jwks_without_network ::
    "('vk, 'sg, 'kp, 'sk, 'm) realm_libs_scheme \<Rightarrow> bool" where
  "auth_config_verifies_from_env_delivered_jwks_without_network L \<longleftrightarrow>
     (let realm = realm_key L 1; foreign = realm_key L 9
      in case (from_parts L (jwks_doc L [jwk L realm (lit ''k1'')]) ISS AUD,
               mint_kid L realm (lit ''k1'') (realm_claims ISS AUD (lit ''alice'') 10000),
               mint_kid L foreign (lit ''k1'') (realm_claims ISS AUD (lit ''mallory'') 10000)) of
           (Inr cfg, Some valid, Some bad) \<Rightarrow>
             (case config_verify L cfg valid 9000 of Inl _ \<Rightarrow> False | Inr ident \<Rightarrow> id_sub ident = lit ''alice'') \<and>
             config_verify L cfg bad 9000 = Inl BadSignature
         | _ \<Rightarrow> False)"

definition callout_admits_anonymous_when_no_token :: "('vk, 'sg, 'kp, 'sk, 'm) realm_libs_scheme \<Rightarrow> bool" where
  "callout_admits_anonymous_when_no_token L \<longleftrightarrow>
     (case from_parts L (jwks_doc L [jwk L (realm_key L 1) (lit ''k1'')]) ISS AUD of
        Inl _ \<Rightarrow> False
      | Inr cfg \<Rightarrow> callout_identity L None (Some cfg) 9000 = Anonymous)"

definition callout_admits_anonymous_when_verification_not_configured ::
    "('vk, 'sg, 'kp, 'sk, 'm) realm_libs_scheme \<Rightarrow> bool" where
  "callout_admits_anonymous_when_verification_not_configured L \<longleftrightarrow>
     (case mint_kid L (realm_key L 1) (lit ''k1'') (realm_claims ISS AUD (lit ''alice'') 10000) of
        None \<Rightarrow> False
      | Some t \<Rightarrow> callout_identity L (Some t) None 9000 = Anonymous)"

definition callout_verifies_a_valid_token_to_its_sub :: "('vk, 'sg, 'kp, 'sk, 'm) realm_libs_scheme \<Rightarrow> bool" where
  "callout_verifies_a_valid_token_to_its_sub L \<longleftrightarrow>
     (let realm = realm_key L 1
      in case (from_parts L (jwks_doc L [jwk L realm (lit ''k1'')]) ISS AUD,
               mint_kid L realm (lit ''k1'') (realm_claims ISS AUD (lit ''alice'') 10000)) of
           (Inr cfg, Some t) \<Rightarrow>
             callout_identity L (Some t) (Some cfg) 9000 = Verified (lit ''alice'') 10000
         | _ \<Rightarrow> False)"

definition callout_drops_a_forged_token_to_anonymous_never_admitting_the_claim ::
    "('vk, 'sg, 'kp, 'sk, 'm) realm_libs_scheme \<Rightarrow> bool" where
  "callout_drops_a_forged_token_to_anonymous_never_admitting_the_claim L \<longleftrightarrow>
     (let realm = realm_key L 1; foreign = realm_key L 9
      in case (from_parts L (jwks_doc L [jwk L realm (lit ''k1'')]) ISS AUD,
               mint_kid L foreign (lit ''k1'') (realm_claims ISS AUD (lit ''mallory'') 10000)) of
           (Inr cfg, Some forged) \<Rightarrow> callout_identity L (Some forged) (Some cfg) 9000 = Anonymous
         | _ \<Rightarrow> False)"

definition accepts_a_valid_token_signed_by_the_realm_key :: "('vk, 'sg, 'kp, 'sk, 'm) realm_libs_scheme \<Rightarrow> bool" where
  "accepts_a_valid_token_signed_by_the_realm_key L \<longleftrightarrow>
     (let sk = realm_key L 1
      in case mint L sk (realm_claims ISS AUD (lit ''alice'') 10000) of
           None \<Rightarrow> False
         | Some t \<Rightarrow>
             (case verify_eddsa L t (verifying_key L sk) (test_expected ISS AUD 9000) of
                Inl _ \<Rightarrow> False
              | Inr ident \<Rightarrow> id_sub ident = lit ''alice'' \<and>
                  preferred_username ident = Some (lit ''tester'')))"

definition rejects_a_token_signed_by_a_foreign_realm_key :: "('vk, 'sg, 'kp, 'sk, 'm) realm_libs_scheme \<Rightarrow> bool" where
  "rejects_a_token_signed_by_a_foreign_realm_key L \<longleftrightarrow>
     (let realm = realm_key L 1; foreign = realm_key L 2
      in case mint L foreign (realm_claims ISS AUD (lit ''mallory'') 10000) of
           None \<Rightarrow> False
         | Some t \<Rightarrow> verify_eddsa L t (verifying_key L realm) (test_expected ISS AUD 9000) = Inl BadSignature)"

definition rejects_a_tampered_payload_keeping_the_original_signature ::
    "('vk, 'sg, 'kp, 'sk, 'm) realm_libs_scheme \<Rightarrow> bool" where
  "rejects_a_tampered_payload_keeping_the_original_signature L \<longleftrightarrow>
     (let sk = realm_key L 1
      in case (mint L sk (realm_claims ISS AUD (lit ''alice'') 10000),
               mint L sk (realm_claims ISS AUD (lit ''bob'') 10000)) of
           (Some alice, Some bob) \<Rightarrow>
             let a = split_on dot alice; b = split_on dot bob;
                 forged = a ! 0 @ dot # b ! 1 @ dot # a ! 2
             in verify_eddsa L forged (verifying_key L sk) (test_expected ISS AUD 9000) = Inl BadSignature
         | _ \<Rightarrow> False)"

text \<open>The three tests on one claim that does not fit.\<close>

definition verdict_on :: "('vk, 'sg, 'kp, 'sk, 'm) realm_libs_scheme \<Rightarrow> json \<Rightarrow> (verify_error + verified_identity) option" where
  "verdict_on L claims =
     (let sk = realm_key L 1
      in map_option (\<lambda>t. verify_eddsa L t (verifying_key L sk) (test_expected ISS AUD 9000)) (mint L sk claims))"

definition rejects_an_expired_token :: "('vk, 'sg, 'kp, 'sk, 'm) realm_libs_scheme \<Rightarrow> bool" where
  "rejects_an_expired_token L \<longleftrightarrow>
     verdict_on L (realm_claims ISS AUD (lit ''alice'') 1000) = Some (Inl Expired)"

definition rejects_a_wrong_issuer :: "('vk, 'sg, 'kp, 'sk, 'm) realm_libs_scheme \<Rightarrow> bool" where
  "rejects_a_wrong_issuer L \<longleftrightarrow>
     verdict_on L (realm_claims (lit ''https://evil/realms/X'') AUD (lit ''alice'') 10000) = Some (Inl WrongIssuer)"

definition rejects_a_wrong_audience :: "('vk, 'sg, 'kp, 'sk, 'm) realm_libs_scheme \<Rightarrow> bool" where
  "rejects_a_wrong_audience L \<longleftrightarrow>
     verdict_on L (realm_claims ISS (lit ''some-other-client'') (lit ''alice'') 10000) = Some (Inl WrongAudience)"

text \<open>The test on a live realm's token, over the values it takes from the environment. The
  tampered token has one byte of its payload segment replaced.\<close>

definition flip_middle :: "str \<Rightarrow> str" where
  "flip_middle p = (let i = length p div 2 in p[i := if p ! i = 97 then 98 else 97])"

definition verifies_a_real_keycloak_token_from_env ::
    "('vk, 'sg, 'kp, 'sk, 'm) realm_libs_scheme \<Rightarrow> str \<Rightarrow> str \<Rightarrow> str \<Rightarrow> str \<Rightarrow> i64 \<Rightarrow> bool" where
  "verifies_a_real_keycloak_token_from_env L jwks token iss aud now \<longleftrightarrow>
     (case from_parts L jwks iss aud of
        Inl _ \<Rightarrow> False
      | Inr cfg \<Rightarrow>
          (case config_verify L cfg token now of
             Inl _ \<Rightarrow> False
           | Inr ident \<Rightarrow>
               id_sub ident \<noteq> [] \<and>
               (let parts = split_on dot token;
                    tampered = parts ! 0 @ dot # flip_middle (parts ! 1) @ dot # parts ! 2
                in config_verify L cfg tampered now = Inl BadSignature)))"

section \<open>What the tests rest on\<close>

definition keys_differ :: "('vk, 'sg, 'kp, 'sk, 'm) realm_libs_scheme \<Rightarrow> bool" where
  "keys_differ L \<longleftrightarrow> distinct (map (\<lambda>seed. verifying_key L (realm_key L seed)) [1, 2, 9])"

lemma keys_differ_neq:
  assumes "keys_differ L"
  shows "verifying_key L (realm_key L 2) \<noteq> verifying_key L (realm_key L 1)"
    "verifying_key L (realm_key L 1) \<noteq> verifying_key L (realm_key L 2)"
    "verifying_key L (realm_key L 1) \<noteq> verifying_key L (realm_key L 9)"
  using assms by (auto simp: keys_differ_def)

lemma header_gets:
  "get_str (json_obj [(lit ''alg'', JString (lit ''EdDSA'')), (lit ''typ'', JString (lit ''JWT''))]) ''alg'' =
     Some (lit ''EdDSA'')"
  "get_str (json_obj [(lit ''alg'', JString (lit ''EdDSA'')), (lit ''typ'', JString (lit ''JWT'')),
     (lit ''kid'', JString kid)]) ''alg'' = Some (lit ''EdDSA'')"
  "get_str (json_obj [(lit ''alg'', JString (lit ''EdDSA'')), (lit ''typ'', JString (lit ''JWT'')),
     (lit ''kid'', JString kid)]) ''kid'' = Some kid"
  by (simp_all add: get_str_def json_get_obj)

lemma mint_header_plain:
  "json_plain (json_obj [(lit ''alg'', JString (lit ''EdDSA'')), (lit ''typ'', JString (lit ''JWT''))])"
  "json_plain (json_obj [(lit ''alg'', JString (lit ''EdDSA'')), (lit ''typ'', JString (lit ''JWT'')),
     (lit ''kid'', JString kid)])"
  by (rule json_plain_obj, simp, simp)+

text \<open>The verdict on a minted token under its own key and under another.\<close>

lemma mint_verdicts:
  assumes "realm_laws L" "json_plain claims"
  obtains t where "mint L sk claims = Some t"
    "\<And>ex. verify_eddsa L t (verifying_key L sk) ex = check_claims claims ex"
    "\<And>sk' ex. ideal_signatures L \<Longrightarrow> verifying_key L sk' \<noteq> verifying_key L sk \<Longrightarrow>
       verify_eddsa L t (verifying_key L sk') ex = Inl BadSignature"
proof -
  obtain t h p s where t: "mint L sk claims = Some t" "split_on dot t = [h, p, s]"
    "decode_json L h = Inr (json_obj [(lit ''alg'', JString (lit ''EdDSA'')), (lit ''typ'', JString (lit ''JWT''))])"
    "decode_json L p = Inr claims" "b64_decode L s = Some (sk_sign L sk (as_bytes (h @ dot # p)))"
    using mint_with_segments[OF assms(1) mint_header_plain(1) assms(2), folded mint_def] by metis
  show thesis
    using that[OF t(1) minted_verifies[OF assms(1) t(2-5) header_gets(1)]]
      foreign_rejected[OF _ t(2,3,5) header_gets(1) assms(1)] by blast
qed

lemma mint_kid_verdicts:
  assumes "realm_laws L" "json_plain claims"
  obtains t where "mint_kid L sk kid claims = Some t"
    "\<And>keys ex. jwks_get keys kid = Some (verifying_key L sk) \<Longrightarrow> verify_jwt L t keys ex = check_claims claims ex"
    "\<And>keys ex sk'. ideal_signatures L \<Longrightarrow> jwks_get keys kid = Some (verifying_key L sk') \<Longrightarrow>
       verifying_key L sk' \<noteq> verifying_key L sk \<Longrightarrow> verify_jwt L t keys ex = Inl BadSignature"
    "\<And>keys ex. jwks_get keys kid = None \<Longrightarrow> verify_jwt L t keys ex = Inl BadSignature"
proof -
  let ?header = "json_obj [(lit ''alg'', JString (lit ''EdDSA'')), (lit ''typ'', JString (lit ''JWT'')),
     (lit ''kid'', JString kid)]"
  obtain t h p s where t: "mint_kid L sk kid claims = Some t" "split_on dot t = [h, p, s]"
    "decode_json L h = Inr ?header" "decode_json L p = Inr claims"
    "b64_decode L s = Some (sk_sign L sk (as_bytes (h @ dot # p)))"
    using mint_with_segments[OF assms(1) mint_header_plain(2) assms(2)] unfolding mint_kid_def by metis
  have sel: "verify_jwt L t keys ex =
      and_then (ok_or (jwks_get keys kid) BadSignature) (\<lambda>key. verify_eddsa L t key ex)" for keys ex
    by (simp add: verify_jwt_def t(2,3) header_gets(3))
  show thesis
  proof (rule that[OF t(1)])
    show "verify_jwt L t keys ex = check_claims claims ex"
      if "jwks_get keys kid = Some (verifying_key L sk)" for keys ex
      using that minted_verifies[OF assms(1) t(2-5) header_gets(2)] by (simp add: sel)
    show "verify_jwt L t keys ex = Inl BadSignature"
      if "ideal_signatures L" "jwks_get keys kid = Some (verifying_key L sk')"
        "verifying_key L sk' \<noteq> verifying_key L sk" for keys ex sk'
      using that foreign_rejected[OF that(1) t(2,3,5) header_gets(2) assms(1)] by (simp add: sel)
    show "verify_jwt L t keys ex = Inl BadSignature" if "jwks_get keys kid = None" for keys ex
      using that by (simp add: sel)
  qed
qed

text \<open>The key sets of the tests.\<close>

lemma rsa_entry_skipped: "json_plain_at 125 rsa_entry" "jwk_key L rsa_entry = None"
proof -
  show "json_plain_at 125 rsa_entry" unfolding rsa_entry_def by (rule json_plain_obj) simp_all
  show "jwk_key L rsa_entry = None"
    by (simp add: rsa_entry_def jwk_key_def get_str_def json_get_obj)
qed

lemma test_jwks:
  assumes "realm_laws L"
  shows "jwks_parse L (jwks_doc L [jwk L sk kid]) = Inr [(kid, verifying_key L sk)]"
    "jwks_parse L (jwks_doc L [rsa_entry, jwk L sk kid]) = Inr [(kid, verifying_key L sk)]"
    "kid' \<noteq> kid \<Longrightarrow> jwks_parse L (jwks_doc L [jwk L sk kid, jwk L sk' kid']) =
       Inr [(kid, verifying_key L sk), (kid', verifying_key L sk')]"
  using assms
  by (simp_all add: jwks_parse_doc jwk_plain rsa_entry_skipped load_keys_def jwk_key_jwk)

lemma test_config:
  "realm_laws L \<Longrightarrow> from_parts L (jwks_doc L [jwk L sk kid]) iss aud =
     Inr \<lparr>cfg_jwks = [(kid, verifying_key L sk)], cfg_issuer = iss, cfg_audience = aud, cfg_leeway_secs = 30\<rparr>"
  by (simp add: from_parts_def test_jwks)

section \<open>The tests hold\<close>

lemma jwks_tests_pass:
  assumes "realm_laws L"
  shows "parse_jwks_loads_ed25519_keys_by_kid L" "parse_jwks_skips_non_ed25519_keys L"
  by (simp_all add: parse_jwks_loads_ed25519_keys_by_kid_def parse_jwks_skips_non_ed25519_keys_def
      test_jwks[OF assms] jwks_len_def jwks_get_def)

lemma kid_test_passes:
  assumes "realm_laws L"
  shows "verify_jwt_selects_the_key_by_kid L"
proof -
  obtain t where t: "mint_kid L (realm_key L 2) (lit ''k2'') (realm_claims ISS AUD (lit ''alice'') 10000) = Some t"
    "\<And>keys ex. jwks_get keys (lit ''k2'') = Some (verifying_key L (realm_key L 2)) \<Longrightarrow>
       verify_jwt L t keys ex = check_claims (realm_claims ISS AUD (lit ''alice'') 10000) ex"
    using mint_kid_verdicts[OF assms realm_claims_plain] by metis
  then show ?thesis
    by (simp add: verify_jwt_selects_the_key_by_kid_def test_jwks[OF assms] jwks_get_def realm_claims_verdict
        test_expected_def)
qed

lemma foreign_kid_tests_pass:
  assumes "realm_laws L" "ideal_signatures L" "keys_differ L"
  shows "verify_jwt_rejects_a_kid_signed_by_the_wrong_key L" "verify_jwt_rejects_an_unknown_kid L"
proof -
  obtain t where t: "mint_kid L (realm_key L 1) (lit ''k2'') (realm_claims ISS AUD (lit ''mallory'') 10000) = Some t"
    "\<And>keys ex sk'. ideal_signatures L \<Longrightarrow> jwks_get keys (lit ''k2'') = Some (verifying_key L sk') \<Longrightarrow>
       verifying_key L sk' \<noteq> verifying_key L (realm_key L 1) \<Longrightarrow> verify_jwt L t keys ex = Inl BadSignature"
    using mint_kid_verdicts[OF assms(1) realm_claims_plain] by metis
  note bad = t(2)[OF assms(2) _ keys_differ_neq(1)[OF assms(3)]]
  show "verify_jwt_rejects_a_kid_signed_by_the_wrong_key L"
    by (simp add: verify_jwt_rejects_a_kid_signed_by_the_wrong_key_def test_jwks[OF assms(1)] t(1) bad jwks_get_def)
  obtain u where "mint_kid L (realm_key L 1) (lit ''unknown'') (realm_claims ISS AUD (lit ''alice'') 10000) = Some u"
    "\<And>keys ex. jwks_get keys (lit ''unknown'') = None \<Longrightarrow> verify_jwt L u keys ex = Inl BadSignature"
    using mint_kid_verdicts[OF assms(1) realm_claims_plain] by metis
  then show "verify_jwt_rejects_an_unknown_kid L"
    by (simp add: verify_jwt_rejects_an_unknown_kid_def test_jwks[OF assms(1)] jwks_get_def)
qed

lemma config_tests_pass:
  assumes "realm_laws L" "ideal_signatures L" "keys_differ L"
  shows "auth_config_verifies_from_env_delivered_jwks_without_network L"
    "callout_drops_a_forged_token_to_anonymous_never_admitting_the_claim L"
proof -
  obtain v where v: "mint_kid L (realm_key L 1) (lit ''k1'') (realm_claims ISS AUD (lit ''alice'') 10000) = Some v"
    "\<And>keys ex. jwks_get keys (lit ''k1'') = Some (verifying_key L (realm_key L 1)) \<Longrightarrow>
       verify_jwt L v keys ex = check_claims (realm_claims ISS AUD (lit ''alice'') 10000) ex"
    using mint_kid_verdicts[OF assms(1) realm_claims_plain] by metis
  obtain b where b: "mint_kid L (realm_key L 9) (lit ''k1'') (realm_claims ISS AUD (lit ''mallory'') 10000) = Some b"
    "\<And>keys ex sk'. ideal_signatures L \<Longrightarrow> jwks_get keys (lit ''k1'') = Some (verifying_key L sk') \<Longrightarrow>
       verifying_key L sk' \<noteq> verifying_key L (realm_key L 9) \<Longrightarrow> verify_jwt L b keys ex = Inl BadSignature"
    using mint_kid_verdicts[OF assms(1) realm_claims_plain] by metis
  note bad = b(2)[OF assms(2) _ keys_differ_neq(3)[OF assms(3)]]
  show "auth_config_verifies_from_env_delivered_jwks_without_network L"
    by (simp add: auth_config_verifies_from_env_delivered_jwks_without_network_def test_config[OF assms(1)]
        config_verify_def v b(1) bad jwks_get_def realm_claims_verdict)
  show "callout_drops_a_forged_token_to_anonymous_never_admitting_the_claim L"
    by (simp add: callout_drops_a_forged_token_to_anonymous_never_admitting_the_claim_def
        test_config[OF assms(1)] callout_identity_def config_verify_def b(1) bad jwks_get_def)
qed

lemma callout_tests_pass:
  assumes "realm_laws L"
  shows "callout_admits_anonymous_when_no_token L"
    "callout_admits_anonymous_when_verification_not_configured L"
    "callout_verifies_a_valid_token_to_its_sub L"
proof -
  obtain v where v: "mint_kid L (realm_key L 1) (lit ''k1'') (realm_claims ISS AUD (lit ''alice'') 10000) = Some v"
    "\<And>keys ex. jwks_get keys (lit ''k1'') = Some (verifying_key L (realm_key L 1)) \<Longrightarrow>
       verify_jwt L v keys ex = check_claims (realm_claims ISS AUD (lit ''alice'') 10000) ex"
    using mint_kid_verdicts[OF assms(1) realm_claims_plain] by metis
  show "callout_admits_anonymous_when_no_token L" "callout_admits_anonymous_when_verification_not_configured L"
    by (simp_all add: callout_admits_anonymous_when_no_token_def test_config[OF assms] callout_identity_def
        callout_admits_anonymous_when_verification_not_configured_def v(1))
  show "callout_verifies_a_valid_token_to_its_sub L"
    by (simp add: callout_verifies_a_valid_token_to_its_sub_def test_config[OF assms] callout_identity_def
        config_verify_def v jwks_get_def realm_claims_verdict)
qed

lemma verdict_on_minted:
  assumes "realm_laws L" "json_plain claims"
  shows "verdict_on L claims = Some (check_claims claims (test_expected ISS AUD 9000))"
proof -
  obtain t where "mint L (realm_key L 1) claims = Some t"
    "\<And>ex. verify_eddsa L t (verifying_key L (realm_key L 1)) ex = check_claims claims ex"
    using mint_verdicts[OF assms] by metis
  then show ?thesis by (simp add: verdict_on_def)
qed

lemma claim_tests_pass:
  assumes "realm_laws L"
  shows "accepts_a_valid_token_signed_by_the_realm_key L" "rejects_an_expired_token L"
    "rejects_a_wrong_issuer L" "rejects_a_wrong_audience L"
proof -
  note v = verdict_on_minted[OF assms realm_claims_plain]
  have "accepts_a_valid_token_signed_by_the_realm_key L \<longleftrightarrow>
      (case verdict_on L (realm_claims ISS AUD (lit ''alice'') 10000) of
         Some (Inr ident) \<Rightarrow> id_sub ident = lit ''alice'' \<and> preferred_username ident = Some (lit ''tester'')
       | _ \<Rightarrow> False)"
    by (auto simp: accepts_a_valid_token_signed_by_the_realm_key_def verdict_on_def Let_def
        split: option.splits sum.splits)
  then show "accepts_a_valid_token_signed_by_the_realm_key L"
    by (simp add: v realm_claims_verdict test_expected_def)
  show "rejects_an_expired_token L" "rejects_a_wrong_issuer L" "rejects_a_wrong_audience L"
    by (simp_all add: rejects_an_expired_token_def rejects_a_wrong_issuer_def rejects_a_wrong_audience_def v
        realm_claims_verdict test_expected_def ISS_def AUD_def)
qed

text \<open>Strings that Rust can hold are told apart by their bytes.\<close>

lemma as_bytes_inj: "wf_str a \<Longrightarrow> wf_str b \<Longrightarrow> as_bytes a = as_bytes b \<longleftrightarrow> a = b"
  using from_utf8_as_bytes by (metis option.inject)

lemma wf_str_dot: "wf_str h \<Longrightarrow> wf_str p \<Longrightarrow> wf_str (h @ dot # p)"
  by (auto simp: wf_str_def is_scalar_def)

lemma signature_tests_pass:
  assumes "realm_laws L" "ideal_signatures L" "keys_differ L"
  shows "rejects_a_token_signed_by_a_foreign_realm_key L"
    "rejects_a_tampered_payload_keeping_the_original_signature L"
proof -
  obtain f where f: "mint L (realm_key L 2) (realm_claims ISS AUD (lit ''mallory'') 10000) = Some f"
    "\<And>sk' ex. ideal_signatures L \<Longrightarrow> verifying_key L sk' \<noteq> verifying_key L (realm_key L 2) \<Longrightarrow>
       verify_eddsa L f (verifying_key L sk') ex = Inl BadSignature"
    using mint_verdicts[OF assms(1) realm_claims_plain] by metis
  show "rejects_a_token_signed_by_a_foreign_realm_key L"
    by (simp add: rejects_a_token_signed_by_a_foreign_realm_key_def f(1)
        f(2)[OF assms(2) keys_differ_neq(2)[OF assms(3)]])
  let ?header = "json_obj [(lit ''alg'', JString (lit ''EdDSA'')), (lit ''typ'', JString (lit ''JWT''))]"
  let ?sk = "realm_key L 1"
  let ?ca = "realm_claims ISS AUD (lit ''alice'') 10000" and ?cb = "realm_claims ISS AUD (lit ''bob'') 10000"
  obtain a h p s where a: "mint L ?sk ?ca = Some a" "split_on dot a = [h, p, s]" "decode_json L h = Inr ?header"
    "decode_json L p = Inr ?ca" "b64_decode L s = Some (sk_sign L ?sk (as_bytes (h @ dot # p)))" "wf_str h" "wf_str p"
    using mint_with_segments[OF assms(1) mint_header_plain(1) realm_claims_plain, folded mint_def] .
  obtain b h' p' s' where b: "mint L ?sk ?cb = Some b" "split_on dot b = [h', p', s']"
    "decode_json L h' = Inr ?header" "decode_json L p' = Inr ?cb"
    "b64_decode L s' = Some (sk_sign L ?sk (as_bytes (h' @ dot # p')))" "wf_str h'" "wf_str p'"
    using mint_with_segments[OF assms(1) mint_header_plain(1) realm_claims_plain, folded mint_def] .
  have "?ca \<noteq> ?cb" using realm_claims_gets(2)[of ISS AUD "lit ''alice''" 10000]
      realm_claims_gets(2)[of ISS AUD "lit ''bob''" 10000] by auto
  then have "p \<noteq> p'" using a(4) b(4) by auto
  then have m: "as_bytes (h @ dot # p) \<noteq> as_bytes (h @ dot # p')"
    using as_bytes_inj[OF wf_str_dot[OF a(6,7)] wf_str_dot[OF a(6) b(7)]] by simp
  have clean: "dot \<notin> set h" "dot \<notin> set p'" "dot \<notin> set s"
    using split_on_piece_clean[of _ dot a] split_on_piece_clean[of _ dot b] a(2) b(2) by auto
  then have "split_on dot (h @ dot # p' @ dot # s) = [h, p', s]"
    by (simp add: split_on_append split_on_clean)
  from foreign_rejected[OF assms(2) this a(3,5) header_gets(1) assms(1) disjI2[OF m]]
  show "rejects_a_tampered_payload_keeping_the_original_signature L"
    by (simp add: rejects_a_tampered_payload_keeping_the_original_signature_def a(1,2) b(1,2) numeral_2_eq_2)
qed

section \<open>A token of a live realm\<close>

text \<open>Whatever the realm issued: once its token is accepted, the token with one character of
  the payload segment replaced is refused for its signature, before any claim of the
  altered payload is looked at. Needed of the crates: no signature fits two messages
  under one key, and the empty text is no JSON.\<close>

definition one_message :: "('vk, 'sg, 'm) verifier_libs_scheme \<Rightarrow> bool" where
  "one_message L \<longleftrightarrow>
     (\<forall>vk m m' sg. ed_verify L vk m sg \<longrightarrow> ed_verify L vk m' sg \<longrightarrow> m' = m) \<and>
     b64_decode L [] = Some [] \<and> json_from_slice L [] = None"

lemma flip_middle_differs: "p \<noteq> [] \<Longrightarrow> flip_middle p \<noteq> p"
proof
  assume "p \<noteq> []" and eq: "flip_middle p = p"
  let ?i = "length p div 2"
  have "?i < length p" using \<open>p \<noteq> []\<close> by (simp add: div_less_dividend)
  then have "flip_middle p ! ?i = (if p ! ?i = 97 then 98 else 97)" by (simp add: flip_middle_def Let_def)
  with eq show False by (simp split: if_splits)
qed

lemma flip_middle_clean:
  "dot \<notin> set p \<Longrightarrow> dot \<notin> set (flip_middle p)" "wf_str p \<Longrightarrow> wf_str (flip_middle p)"
  unfolding flip_middle_def Let_def wf_str_def list_all_iff
  by (auto simp: is_scalar_def dest!: set_update_subset_insert[THEN subsetD])

lemma split_on_three:
  assumes "split_on dot t = [h, p, s]"
  shows "t = h @ dot # p @ dot # s" "dot \<notin> set h" "dot \<notin> set p" "dot \<notin> set s"
proof -
  have "join_on dot [h, p, s] = t" using assms by (metis join_split)
  then show "t = h @ dot # p @ dot # s" by simp
  show "dot \<notin> set h" "dot \<notin> set p" "dot \<notin> set s" using split_on_piece_clean[of _ dot t] assms by auto
qed

lemma altered_payload_refused:
  assumes one: "one_message L" and wf: "wf_str token" and ok: "verify_jwt L token keys ex = Inr ident"
    and parts: "split_on dot token = [h, p, s]"
  shows "verify_jwt L (h @ dot # flip_middle p @ dot # s) keys ex = Inl BadSignature"
proof -
  note t = split_on_three[OF parts]
  have split': "split_on dot (h @ dot # flip_middle p @ dot # s) = [h, flip_middle p, s]"
    using t flip_middle_clean(1)[OF t(3)] by (simp add: split_on_append split_on_clean)
  from ok parts obtain header kid key claims where
    hd: "decode_json L h = Inr header" "get_str header ''kid'' = Some kid" "jwks_get keys kid = Some key"
    and au: "authentic L key h p s" and cl: "decode_json L p = Inr claims"
    by (auto simp: verify_jwt_ok verify_eddsa_ok)
  from au hd(1) obtain sb sg where sg: "get_str header ''alg'' = Some (lit ''EdDSA'')" "b64_decode L s = Some sb"
    "sig_from_slice L sb = Some sg" "ed_verify L key (as_bytes (h @ dot # p)) sg"
    unfolding authentic_def by auto
  have "p \<noteq> []" using cl one by (auto simp: one_message_def decode_json_def b64_def ok_or_def)
  moreover have w: "wf_str h" "wf_str p" using wf unfolding t(1) by (simp_all add: wf_str_def)
  ultimately have "as_bytes (h @ dot # flip_middle p) \<noteq> as_bytes (h @ dot # p)"
    using as_bytes_inj[OF wf_str_dot[OF w(1) flip_middle_clean(2)[OF w(2)]] wf_str_dot[OF w]] flip_middle_differs[of p]
    by simp
  then have "\<not> ed_verify L key (as_bytes (h @ dot # flip_middle p)) sg"
    using sg(4) one unfolding one_message_def by blast
  then have "verify_eddsa L (h @ dot # flip_middle p @ dot # s) key ex = Inl BadSignature"
    using hd(1) sg(1-3) by (simp add: verify_eddsa_def split' b64_def Let_def)
  then show ?thesis using hd by (simp add: verify_jwt_def split')
qed

lemma live_token_test_passes:
  assumes "one_message L" "wf_str token" "from_parts L jwks iss aud = Inr cfg"
    "config_verify L cfg token now = Inr ident" "id_sub ident \<noteq> []"
  shows "verifies_a_real_keycloak_token_from_env L jwks token iss aud now"
proof -
  obtain h p s where parts: "split_on dot token = [h, p, s]"
    using assms(4) by (auto simp: config_verify_def verify_jwt_ok verify_eddsa_ok)
  have "config_verify L cfg (h @ dot # flip_middle p @ dot # s) now = Inl BadSignature"
    using altered_payload_refused[OF assms(1,2) assms(4)[unfolded config_verify_def] parts]
    by (simp add: config_verify_def)
  then show ?thesis
    using assms(3-5) parts by (simp add: verifies_a_real_keycloak_token_from_env_def numeral_2_eq_2)
qed

end
