(* ===== verification/Conformance_Auth.thy ===== *)
theory Conformance_Auth
  imports Conformance_Jwt Nats_Parser
begin

text \<open>
  The unit tests of \<^verbatim>\<open>auth_callout.rs\<close>, translated assertion by assertion and run on the
  responder's definitions. A fresh key pair is an argument of a test, an \<^verbatim>\<open>unwrap\<close> or
  \<^verbatim>\<open>expect\<close> that would panic makes it \<open>False\<close>. Two of the tests are from before the kernel
  segment was spelled in lower case; for them the code is shown to contradict the test.
\<close>

section \<open>The crates of the tests\<close>

record ('vk, 'sg, 'kp, 'sk) nkeys_libs = "('vk, 'sg, 'kp, 'sk) realm_libs" +
  kp_seed :: "'kp \<Rightarrow> str option"
  kp_verify :: "'kp \<Rightarrow> bytes \<Rightarrow> bytes \<Rightarrow> bool"
  base32_decode :: "bytes \<Rightarrow> bytes option"

text \<open>Documented behaviour of a key pair that holds its seed: it signs, and verifies what it
  signed; its seed is a word from which a pair with the same public key is made.\<close>

definition key_pair_laws :: "('vk, 'sg, 'kp, 'sk, 'm) nkeys_libs_scheme \<Rightarrow> 'kp \<Rightarrow> bool" where
  "key_pair_laws L kp \<longleftrightarrow>
     (\<forall>msg. \<exists>sg. kp_sign L kp msg = Inr sg \<and> kp_verify L kp msg sg) \<and>
     (\<exists>seed kp'. kp_seed L kp = Some seed \<and> is_token seed \<and> kp_from_seed L seed = Some kp' \<and>
        public_key L kp' = public_key L kp)"

text \<open>What \<^verbatim>\<open>serde_json\<close> answers to an index.\<close>

definition json_index :: "json \<Rightarrow> string \<Rightarrow> json" where
  "json_index j k = (case json_get j (lit k) of None \<Rightarrow> JNull | Some v \<Rightarrow> v)"

fun json_first :: "json \<Rightarrow> json" where
  "json_first (JArray (v # _)) = v"
| "json_first _ = JNull"

section \<open>Helpers of the tests\<close>

definition kv :: "str list" where
  "kv = [lit ''pgck'']"

definition fake_request_claims :: "str \<Rightarrow> str \<Rightarrow> str option \<Rightarrow> json" where
  "fake_request_claims nkey srv token =
     (let opts = (case token of Some t \<Rightarrow> json_obj [(lit ''auth_token'', JString t)] | None \<Rightarrow> json_obj [])
      in json_obj [
           (lit ''iat'', JNumber (JInt 1700000000)),
           (lit ''aud'', JString (lit ''nats-authorization-request'')),
           (lit ''nats'', json_obj [
              (lit ''server_id'', json_obj [(lit ''id'', JString srv), (lit ''name'', JString (lit ''pgck-local''))]),
              (lit ''user_nkey'', JString nkey),
              (lit ''connect_opts'', opts),
              (lit ''type'', JString (lit ''authorization_request'')),
              (lit ''version'', JNumber (JInt 2))])])"

definition fake_request_jwt :: "('vk, 'sg, 'kp, 'm) callout_libs_scheme \<Rightarrow> str \<Rightarrow> str \<Rightarrow> str option \<Rightarrow> str option" where
  "fake_request_jwt L nkey srv token =
     (case json_to_vec L (fake_request_claims nkey srv token) of
        Inl _ \<Rightarrow> None
      | Inr ser \<Rightarrow> Some (b64_encode L JWT_HEADER @ dot # b64_encode L ser @ lit ''.sig''))"

definition fresh_ed25519 :: "('vk, 'sg, 'kp, 'sk, 'm) nkeys_libs_scheme \<Rightarrow> 'kp \<Rightarrow> 'sk option" where
  "fresh_ed25519 L user =
     Option.bind (kp_seed L user) (\<lambda>seed_b32.
     Option.bind (base32_decode L (as_bytes seed_b32)) (\<lambda>raw.
       if length raw < 34 then None else Some (sk_from_bytes L (take 32 (drop 2 raw)))))"

definition realm_header_text :: "str \<Rightarrow> str" where
  "realm_header_text kid =
     lit ''{'' @ [34] @ lit ''alg'' @ [34] @ lit '':'' @ [34] @ lit ''EdDSA'' @ [34] @ lit '','' @
       [34] @ lit ''typ'' @ [34] @ lit '':'' @ [34] @ lit ''JWT'' @ [34] @ lit '','' @
       [34] @ lit ''kid'' @ [34] @ lit '':'' @ [34] @ kid @ [34] @ lit ''}''"

definition sign_realm_jwt :: "('vk, 'sg, 'kp, 'sk, 'm) realm_libs_scheme \<Rightarrow> json \<Rightarrow> str \<Rightarrow> 'sk \<Rightarrow> str option" where
  "sign_realm_jwt L claims kid key =
     (let header = b64_encode L (as_bytes (realm_header_text kid))
      in case json_to_vec L claims of
           Inl _ \<Rightarrow> None
         | Inr ser \<Rightarrow>
             let payload = b64_encode L ser;
                 input = header @ dot # payload;
                 sg = sk_sign L key (as_bytes input)
             in Some (input @ dot # b64_encode L sg))"

section \<open>Tests of the permissions\<close>

definition verified_pub_grant_is_scoped_to_the_connections_own_identity :: bool where
  "verified_pub_grant_is_scoped_to_the_connections_own_identity \<longleftrightarrow>
     (let sub = lit ''some-verified-sub'';
          p = permissions_for (Verified sub 2000000000) kv
      in pub_allow p = [lit ''input.kernel.pgCK.id.'' @ sub @ lit ''.action.>''] \<and>
         list_ex (\<lambda>s. s = event_subject (lit ''pgck'')) (sub_allow p) \<and>
         list_ex (\<lambda>s. s = result_subject (lit ''pgck'')) (sub_allow p))"

fun str_contains :: "str \<Rightarrow> str \<Rightarrow> bool" where
  "str_contains needle [] \<longleftrightarrow> needle = []"
| "str_contains needle (c # s) \<longleftrightarrow> starts_with needle (c # s) \<or> str_contains needle s"

definition grant_is_derived_per_kernel_not_a_pgck_literal :: bool where
  "grant_is_derived_per_kernel_not_a_pgck_literal \<longleftrightarrow>
     (let sub = lit ''u-1'';
          kernels = [lit ''demo'', lit ''Dictionary''];
          p = permissions_for (Verified sub 2000000000) kernels
      in pub_allow p = [lit ''input.kernel.demo.id.'' @ sub @ lit ''.action.>'',
           lit ''input.kernel.Dictionary.id.'' @ sub @ lit ''.action.>''] \<and>
         \<not> list_ex (str_contains (lit ''.pgCK.'')) (pub_allow p) \<and>
         event_subject (lit ''demo'') \<in> set (sub_allow p) \<and>
         result_subject (lit ''Dictionary'') \<in> set (sub_allow p) \<and>
         INBOX_SUBJECT \<in> set (sub_allow p) \<and>
         length (filter (\<lambda>s. s = INBOX_SUBJECT) (sub_allow p)) = 1)"

definition anonymous_reads_every_configured_kernel_event_stream :: bool where
  "anonymous_reads_every_configured_kernel_event_stream \<longleftrightarrow>
     (let kernels = [lit ''demo'', lit ''Dictionary'']; p = permissions_for Anonymous kernels
      in pub_allow p = [] \<and> sub_allow p = [event_subject (lit ''demo''), event_subject (lit ''Dictionary'')])"

definition empty_kernel_set_grants_nothing_kernel_scoped :: bool where
  "empty_kernel_set_grants_nothing_kernel_scoped \<longleftrightarrow>
     (let p = permissions_for (Verified (lit ''u'') 2000000000) []
      in pub_allow p = [] \<and> sub_allow p = [INBOX_SUBJECT])"

definition subject_token_neutralises_nats_reserved_bytes :: bool where
  "subject_token_neutralises_nats_reserved_bytes \<longleftrightarrow>
     subject_token (lit ''a.b c*d>e/f'') = lit ''a-b-c-d-e-f'' \<and>
     subject_token [] = lit ''-'' \<and>
     subject_token (lit ''abc-123_XYZ'') = lit ''abc-123_XYZ''"

definition anonymous_is_subscribe_only :: bool where
  "anonymous_is_subscribe_only \<longleftrightarrow>
     (let p = permissions_for Anonymous kv
      in pub_allow p = [] \<and> list_ex (\<lambda>s. s = event_subject (lit ''pgck'')) (sub_allow p))"

lemma grant_tests_pass:
  "grant_is_derived_per_kernel_not_a_pgck_literal" "anonymous_reads_every_configured_kernel_event_stream"
  "empty_kernel_set_grants_nothing_kernel_scoped" "subject_token_neutralises_nats_reserved_bytes"
  "anonymous_is_subscribe_only"
  unfolding grant_is_derived_per_kernel_not_a_pgck_literal_def
    anonymous_reads_every_configured_kernel_event_stream_def empty_kernel_set_grants_nothing_kernel_scoped_def
    subject_token_neutralises_nats_reserved_bytes_def anonymous_is_subscribe_only_def
  by (simp_all add: kv_def lit_def subject_token_def is_ascii_alphanumeric_def is_ascii_digit_def
      input_subject_def event_subject_def result_subject_def INBOX_SUBJECT_def starts_with_def)

text \<open>The assertion on the publish grant spells the kernel \<^verbatim>\<open>pgCK\<close>, which is not in the
  kernel set of the test; the two on the subscriptions hold.\<close>

lemma verified_pub_grant_test_is_stale: "\<not> verified_pub_grant_is_scoped_to_the_connections_own_identity"
  by (simp add: verified_pub_grant_is_scoped_to_the_connections_own_identity_def kv_def input_subject_def lit_def)

section \<open>Tests of the account seed\<close>

definition parse_account_seed_accepts_an_account_seed ::
    "('vk, 'sg, 'kp, 'sk, 'm) nkeys_libs_scheme \<Rightarrow> 'kp \<Rightarrow> bool" where
  "parse_account_seed_accepts_an_account_seed L kp \<longleftrightarrow>
     (case kp_seed L kp of
        None \<Rightarrow> False
      | Some seed \<Rightarrow>
          (case parse_account_seed L (lit ''  '' @ seed @ [lf]) of
             None \<Rightarrow> False
           | Some parsed \<Rightarrow> public_key L parsed = public_key L kp))"

definition parse_account_seed_rejects_user_seeds_and_garbage ::
    "('vk, 'sg, 'kp, 'sk, 'm) nkeys_libs_scheme \<Rightarrow> 'kp \<Rightarrow> bool" where
  "parse_account_seed_rejects_user_seeds_and_garbage L user \<longleftrightarrow>
     (case kp_seed L user of
        None \<Rightarrow> False
      | Some user_seed \<Rightarrow> parse_account_seed L user_seed = None \<and>
          parse_account_seed L (lit ''not-a-seed'') = None \<and> parse_account_seed L [] = None)"

lemma trim_padded: "is_token t \<Longrightarrow> trim (lit ''  '' @ t @ [lf]) = t" "is_token t \<Longrightarrow> trim t = t"
proof -
  assume t: "is_token t"
  then obtain c r where c: "t = c # r" "\<not> is_whitespace c" by (cases t) (auto simp: is_token_def)
  from t obtain r' d where d: "t = r' @ [d]" "\<not> is_whitespace d"
    by (cases t rule: rev_cases) (auto simp: is_token_def)
  have "trim_start (lit ''  '' @ t @ [lf]) = t @ [lf]" "trim_start t = t"
    using c by (simp_all add: trim_start_def lit_def)
  moreover have "is_whitespace lf" by (simp add: is_whitespace_def)
  then have "trim_end (t @ [lf]) = t" "trim_end t = t" using d by (simp_all add: trim_end_def)
  ultimately show "trim (lit ''  '' @ t @ [lf]) = t" "trim t = t" by (simp_all add: trim_def)
qed

text \<open>An account's public key starts with \<^verbatim>\<open>A\<close>, a user's with another letter; the words
  \<^verbatim>\<open>not-a-seed\<close> and the empty one are not seeds.\<close>

lemma seed_tests_pass:
  assumes "key_pair_laws L account" "starts_with (lit ''A'') (public_key L account)"
    "key_pair_laws L user" "\<not> starts_with (lit ''A'') (public_key L user)"
    "kp_from_seed L (lit ''not-a-seed'') = None" "kp_from_seed L [] = None"
  shows "parse_account_seed_accepts_an_account_seed L account"
    "parse_account_seed_rejects_user_seeds_and_garbage L user"
proof -
  obtain seed kp' where "kp_seed L account = Some seed" "is_token seed" "kp_from_seed L seed = Some kp'"
    "public_key L kp' = public_key L account"
    using assms(1) unfolding key_pair_laws_def by blast
  with assms(2) show "parse_account_seed_accepts_an_account_seed L account"
    by (simp add: parse_account_seed_accepts_an_account_seed_def parse_account_seed_def trim_padded)
  obtain seed kp' where "kp_seed L user = Some seed" "is_token seed" "kp_from_seed L seed = Some kp'"
    "public_key L kp' = public_key L user"
    using assms(3) unfolding key_pair_laws_def by blast
  moreover have "is_token (lit ''not-a-seed'')" by (simp add: is_token_def lit_def is_whitespace_def)
  moreover have "trim [] = []" by (simp add: trim_def trim_start_def trim_end_def)
  ultimately show "parse_account_seed_rejects_user_seeds_and_garbage L user" using assms(4-6)
    by (simp add: parse_account_seed_rejects_user_seeds_and_garbage_def parse_account_seed_def trim_padded)
qed

section \<open>Tests of the request\<close>

definition parses_user_nkey_server_and_token :: "('vk, 'sg, 'kp, 'm) callout_libs_scheme \<Rightarrow> bool" where
  "parses_user_nkey_server_and_token L \<longleftrightarrow>
     (case Option.bind (fake_request_jwt L (lit ''UAAA'') (lit ''NBBB'') (Some (lit ''the.keycloak.jwt'')))
             (parse_auth_request L) of
        None \<Rightarrow> False
      | Some req \<Rightarrow> user_nkey req = lit ''UAAA'' \<and> server_id req = lit ''NBBB'' \<and>
          auth_token req = Some (lit ''the.keycloak.jwt''))"

definition absent_token_parses_as_none :: "('vk, 'sg, 'kp, 'm) callout_libs_scheme \<Rightarrow> bool" where
  "absent_token_parses_as_none L \<longleftrightarrow>
     (case Option.bind (fake_request_jwt L (lit ''UAAA'') (lit ''NBBB'') None) (parse_auth_request L) of
        None \<Rightarrow> False
      | Some req \<Rightarrow> auth_token req = None)"

definition malformed_request_is_none :: "('vk, 'sg, 'm) verifier_libs_scheme \<Rightarrow> bool" where
  "malformed_request_is_none L \<longleftrightarrow> parse_auth_request L (lit ''not-a-jwt'') = None"

lemma fake_request_claims_plain: "json_plain (fake_request_claims nkey srv token)"
proof -
  have "json_plain_at 125 (case token of Some t \<Rightarrow> json_obj [(lit ''auth_token'', JString t)] | None \<Rightarrow> json_obj [])"
    by (cases token) (simp_all add: json_plain_obj)
  then show ?thesis unfolding fake_request_claims_def Let_def by (intro json_plain_obj) (simp_all add: json_plain_obj)
qed

lemma fake_request_parses:
  assumes "codec_laws L kp" "token \<noteq> Some []"
  obtains r where "fake_request_jwt L nkey srv token = Some r"
    "parse_auth_request L r = Some \<lparr>user_nkey = nkey, server_id = srv, auth_token = token\<rparr>"
proof -
  obtain ser where ser: "json_to_vec L (fake_request_claims nkey srv token) = Inr ser"
    "json_from_slice L ser = Some (fake_request_claims nkey srv token)"
    using assms(1) fake_request_claims_plain unfolding codec_laws_def by blast
  let ?r = "b64_encode L JWT_HEADER @ dot # b64_encode L ser @ lit ''.sig''"
  have b: "b64_decode L (b64_encode L bs) = Some bs" "dot \<notin> set (b64_encode L bs)" for bs
    using assms(1) by (simp_all add: codec_laws_def)
  have "lit ''.sig'' = dot # lit ''sig''" "dot \<notin> set (lit ''sig'')" by (simp_all add: lit_def)
  then have "split_on dot ?r = [b64_encode L JWT_HEADER, b64_encode L ser, lit ''sig'']"
    by (simp add: split_on_append split_on_clean b)
  then have "decode_claims L ?r = Some (fake_request_claims nkey srv token)"
    by (simp add: decode_claims_def b ser(2))
  then have "parse_auth_request L ?r = Some \<lparr>user_nkey = nkey, server_id = srv, auth_token = token\<rparr>"
    using assms(2)
    by (cases token) (simp_all add: parse_auth_request_def fake_request_claims_def json_get_obj get_str_def)
  moreover have "fake_request_jwt L nkey srv token = Some ?r" using ser(1) by (simp add: fake_request_jwt_def)
  ultimately show thesis by (intro that)
qed

lemma request_tests_pass:
  assumes "codec_laws L kp"
  shows "parses_user_nkey_server_and_token L" "absent_token_parses_as_none L" "malformed_request_is_none L"
proof -
  have "Some (lit ''the.keycloak.jwt'') \<noteq> Some []" by (simp add: lit_def)
  then obtain r where "fake_request_jwt L (lit ''UAAA'') (lit ''NBBB'') (Some (lit ''the.keycloak.jwt'')) = Some r"
    "parse_auth_request L r = Some \<lparr>user_nkey = lit ''UAAA'', server_id = lit ''NBBB'',
       auth_token = Some (lit ''the.keycloak.jwt'')\<rparr>"
    by (rule fake_request_parses[OF assms])
  then show "parses_user_nkey_server_and_token L" by (simp add: parses_user_nkey_server_and_token_def)
  obtain r where "fake_request_jwt L (lit ''UAAA'') (lit ''NBBB'') None = Some r"
    "parse_auth_request L r = Some \<lparr>user_nkey = lit ''UAAA'', server_id = lit ''NBBB'', auth_token = None\<rparr>"
    by (rule fake_request_parses[OF assms, where token = None and nkey = "lit ''UAAA''" and srv = "lit ''NBBB''"])
      simp_all
  then show "absent_token_parses_as_none L" by (simp add: absent_token_parses_as_none_def)
  show "malformed_request_is_none L"
    by (simp add: malformed_request_is_none_def parse_auth_request_def decode_claims_def split_on_def lit_def)
qed

section \<open>Tests of the minted user token\<close>

text \<open>The source calls \<^verbatim>\<open>build_user_jwt\<close> in the first of these tests without its last argument,
  so that the test does not compile; the missing expiry is a parameter here.\<close>

definition user_jwt_is_signed_by_account_and_well_formed ::
    "('vk, 'sg, 'kp, 'sk, 'm) nkeys_libs_scheme \<Rightarrow> 'kp \<Rightarrow> i64 option \<Rightarrow> bool" where
  "user_jwt_is_signed_by_account_and_well_formed L account exp \<longleftrightarrow>
     (let sub = lit ''some-verified-sub'';
          perms = permissions_for (Verified sub 2000000000) kv
      in case build_user_jwt L (lit ''UXYZ'') (lit ''urn:ckp:participant:'' @ sub) perms account 1700000000 exp of
           Inl _ \<Rightarrow> False
         | Inr jwt \<Rightarrow>
             let parts = split_on dot jwt
             in length parts = 3 \<and>
                (case b64_decode L (parts ! 2) of
                   None \<Rightarrow> False
                 | Some sg \<Rightarrow> kp_verify L account (as_bytes (parts ! 0 @ dot # parts ! 1)) sg) \<and>
                (case decode_claims L jwt of
                   None \<Rightarrow> False
                 | Some claims \<Rightarrow>
                     json_index claims ''sub'' = JString (lit ''UXYZ'') \<and>
                     json_index (json_index claims ''nats'') ''type'' = JString (lit ''user'') \<and>
                     json_first (json_index (json_index (json_index claims ''nats'') ''pub'') ''allow'') =
                       JString (lit ''input.kernel.pgCK.id.'' @ sub @ lit ''.action.>'')))"

text \<open>The token the next three tests mint, and its claims.\<close>

definition anonymous_user_claims :: "('vk, 'sg, 'kp, 'm) callout_libs_scheme \<Rightarrow> 'kp \<Rightarrow> json option" where
  "anonymous_user_claims L account =
     (let perms = permissions_for Anonymous kv
      in case build_user_jwt L (lit ''UXYZ'') (lit ''urn:ckp:participant:anon'') perms account 1 None of
           Inl _ \<Rightarrow> None
         | Inr jwt \<Rightarrow> decode_claims L jwt)"

definition anonymous_user_jwt_denies_publish :: "('vk, 'sg, 'kp, 'm) callout_libs_scheme \<Rightarrow> 'kp \<Rightarrow> bool" where
  "anonymous_user_jwt_denies_publish L account \<longleftrightarrow>
     (case anonymous_user_claims L account of
        None \<Rightarrow> False
      | Some claims \<Rightarrow>
          json_first (json_index (json_index (json_index claims ''nats'') ''pub'') ''deny'') = JString (lit ''>''))"

definition user_jwt_audience_is_the_global_account :: "('vk, 'sg, 'kp, 'm) callout_libs_scheme \<Rightarrow> 'kp \<Rightarrow> bool" where
  "user_jwt_audience_is_the_global_account L account \<longleftrightarrow>
     (case anonymous_user_claims L account of
        None \<Rightarrow> False
      | Some claims \<Rightarrow> json_index claims ''aud'' = JString (lit ''$G''))"

definition user_jwt_carries_no_issuer_account_in_config_mode ::
    "('vk, 'sg, 'kp, 'm) callout_libs_scheme \<Rightarrow> 'kp \<Rightarrow> bool" where
  "user_jwt_carries_no_issuer_account_in_config_mode L account \<longleftrightarrow>
     (case anonymous_user_claims L account of
        None \<Rightarrow> False
      | Some claims \<Rightarrow> json_get (json_index claims ''nats'') (lit ''issuer_account'') = None)"

text \<open>A signed token, taken apart: three segments, the second the claims, the third a
  signature of the first two that the key pair made.\<close>

lemma encode_and_sign_segments:
  assumes "codec_laws L kp" "json_plain claims"
  obtains t h p s sg where "encode_and_sign L claims kp = Inr t" "split_on dot t = [h, p, s]"
    "decode_claims L t = Some (json_insert (lit ''jti'') (JString (nats_jti L claims)) claims)"
    "b64_decode L s = Some sg" "kp_sign L kp (as_bytes (h @ dot # p)) = Inr sg"
proof -
  let ?c = "json_insert (lit ''jti'') (JString (nats_jti L claims)) claims" and ?h = "b64_encode L JWT_HEADER"
  have "json_plain ?c" using assms(2) by (simp add: json_plain_insert)
  with assms(1) obtain ser where ser: "json_to_vec L ?c = Inr ser" unfolding codec_laws_def by blast
  let ?p = "b64_encode L ser"
  from assms(1) obtain sg where sg: "kp_sign L kp (as_bytes (?h @ dot # ?p)) = Inr sg"
    unfolding codec_laws_def by blast
  have b: "b64_decode L (b64_encode L bs) = Some bs" "dot \<notin> set (b64_encode L bs)" for bs
    using assms(1) by (simp_all add: codec_laws_def)
  let ?t = "?h @ dot # ?p @ dot # b64_encode L sg"
  have t: "encode_and_sign L claims kp = Inr ?t" using ser sg by (simp add: encode_and_sign_def Let_def)
  moreover have "split_on dot ?t = [?h, ?p, b64_encode L sg]" by (simp add: split_on_append split_on_clean b)
  moreover have "decode_claims L ?t = Some ?c" using encode_and_sign_decodes[OF assms] t by auto
  ultimately show thesis using b(1) sg by (rule that)
qed

lemma user_claims_plain: "json_plain (user_claims L nkey name perms kp iat exp)"
  using user_claims_obj[of L nkey name perms kp iat exp] by (auto simp: json_plain_obj)

text \<open>The fields of a minted user token that the tests look at.\<close>

definition user_fields :: "json \<Rightarrow> str \<Rightarrow> user_permissions \<Rightarrow> i64 option \<Rightarrow> bool" where
  "user_fields c nkey perms exp \<longleftrightarrow>
     json_index c ''sub'' = JString nkey \<and> json_index c ''aud'' = JString (lit ''$G'') \<and>
     json_get c (lit ''exp'') = map_option json_i64 exp \<and>
     json_index (json_index c ''nats'') ''type'' = JString (lit ''user'') \<and>
     json_get (json_index c ''nats'') (lit ''issuer_account'') = None \<and>
     json_index (json_index c ''nats'') ''pub'' =
       (if pub_allow perms = [] then json_obj [(lit ''deny'', json_strs [lit ''>''])]
        else json_obj [(lit ''allow'', json_strs (pub_allow perms))])"

lemma user_claims_fields:
  "user_fields (json_insert (lit ''jti'') (JString j) (user_claims L nkey name perms kp iat exp)) nkey perms exp"
  by (cases exp)
    (simp_all add: user_fields_def user_claims_def Let_def json_obj_snoc[symmetric] json_index_def json_get_obj)

lemma minted_user_jwt:
  assumes "codec_laws L kp"
  shows "\<exists>t h p s sg c. build_user_jwt L nkey name perms kp iat exp = Inr t \<and>
    split_on dot t = [h, p, s] \<and> decode_claims L t = Some c \<and> user_fields c nkey perms exp \<and>
    b64_decode L s = Some sg \<and> kp_sign L kp (as_bytes (h @ dot # p)) = Inr sg"
proof -
  let ?u = "user_claims L nkey name perms kp iat exp"
  obtain t h p s sg where t: "encode_and_sign L ?u kp = Inr t" "split_on dot t = [h, p, s]"
    "decode_claims L t = Some (json_insert (lit ''jti'') (JString (nats_jti L ?u)) ?u)"
    "b64_decode L s = Some sg" "kp_sign L kp (as_bytes (h @ dot # p)) = Inr sg"
    using encode_and_sign_segments[OF assms user_claims_plain] .
  then show ?thesis unfolding build_user_jwt_def
    using user_claims_fields[of _ L nkey name perms kp iat exp] by blast
qed

lemma json_index_obj: "json_index (json_obj kvs) k = (case map_of (rev kvs) (lit k) of None \<Rightarrow> JNull | Some v \<Rightarrow> v)"
  by (simp add: json_index_def json_get_obj)

lemma user_jwt_tests_pass:
  assumes "codec_laws L account"
  shows "anonymous_user_jwt_denies_publish L account" "user_jwt_audience_is_the_global_account L account"
    "user_jwt_carries_no_issuer_account_in_config_mode L account"
proof -
  obtain t c where t: "build_user_jwt L (lit ''UXYZ'') (lit ''urn:ckp:participant:anon'') (permissions_for Anonymous kv)
      account 1 None = Inr t" "decode_claims L t = Some c" "user_fields c (lit ''UXYZ'') (permissions_for Anonymous kv) None"
    using minted_user_jwt[OF assms] by blast
  then have "anonymous_user_claims L account = Some c"
    by (simp add: anonymous_user_claims_def del: permissions_for.simps)
  with t(3) show "anonymous_user_jwt_denies_publish L account" "user_jwt_audience_is_the_global_account L account"
    "user_jwt_carries_no_issuer_account_in_config_mode L account"
    by (simp_all add: anonymous_user_jwt_denies_publish_def user_jwt_audience_is_the_global_account_def
        user_jwt_carries_no_issuer_account_in_config_mode_def user_fields_def json_index_obj json_strs_def)
qed

text \<open>Every assertion of the first test holds but the last, which expects a grant on the
  kernel segment \<^verbatim>\<open>pgCK\<close> with the kernel set \<^verbatim>\<open>pgck\<close>.\<close>

lemma user_jwt_signed_test_is_stale:
  assumes "codec_laws L account"
  shows "\<not> user_jwt_is_signed_by_account_and_well_formed L account exp"
proof -
  let ?sub = "lit ''some-verified-sub''"
  define perms where "perms = permissions_for (Verified ?sub 2000000000) kv"
  have al: "pub_allow perms = [lit ''input.kernel.pgck.id.some-verified-sub.action.>'']"
    by (simp add: perms_def kv_def input_subject_def subject_token_def lit_def is_ascii_alphanumeric_def
        is_ascii_digit_def)
  obtain t c where "build_user_jwt L (lit ''UXYZ'') (lit ''urn:ckp:participant:'' @ ?sub) perms account 1700000000 exp = Inr t"
    "decode_claims L t = Some c" "user_fields c (lit ''UXYZ'') perms exp"
    using minted_user_jwt[OF assms] by blast
  moreover have "JString (lit ''input.kernel.pgck.id.some-verified-sub.action.>'') \<noteq>
      JString (lit ''input.kernel.pgCK.id.'' @ ?sub @ lit ''.action.>'')"
    by (simp add: lit_def)
  ultimately show ?thesis
    by (simp add: user_jwt_is_signed_by_account_and_well_formed_def Let_def perms_def[symmetric] user_fields_def al
        json_index_obj json_strs_def del: permissions_for.simps)
qed

section \<open>Tests of the whole responder\<close>

definition unverified_is_refused_when_admit_anonymous_is_false ::
    "('vk, 'sg, 'kp, 'm) callout_libs_scheme \<Rightarrow> 'kp \<Rightarrow> bool" where
  "unverified_is_refused_when_admit_anonymous_is_false L account \<longleftrightarrow>
     (case fake_request_jwt L (lit ''UCONN'') (lit ''NSERVER'') (Some (lit ''not-a-jwt-at-all'')) of
        None \<Rightarrow> False
      | Some req \<Rightarrow>
          let strict = fst (handle_request L req None account 1800000000 False kv);
              lenient = fst (handle_request L req None account 1800000000 True kv)
          in case (decode_claims L lenient, decode_claims L strict) of
               (Some lclaims, Some sclaims) \<Rightarrow>
                 as_str (json_index (json_index lclaims ''nats'') ''jwt'') \<noteq> None \<and>
                 (case as_str (json_index (json_index sclaims ''nats'') ''jwt'') of None \<Rightarrow> True | Some t \<Rightarrow> t = []) \<and>
                 strict \<noteq> lenient \<and> strict \<noteq> []
             | _ \<Rightarrow> False)"

definition handle_request_without_config_admits_anonymous ::
    "('vk, 'sg, 'kp, 'm) callout_libs_scheme \<Rightarrow> 'kp \<Rightarrow> bool" where
  "handle_request_without_config_admits_anonymous L account \<longleftrightarrow>
     (case fake_request_jwt L (lit ''UCONN'') (lit ''NSERVER'') (Some (lit ''unverifiable.token'')) of
        None \<Rightarrow> False
      | Some req \<Rightarrow>
          let resp = fst (handle_request L req None account 1700000000 True kv)
          in length (split_on dot resp) = 3 \<and>
             (case decode_claims L resp of
                None \<Rightarrow> False
              | Some claims \<Rightarrow>
                  json_index claims ''sub'' = JString (lit ''UCONN'') \<and>
                  json_index claims ''aud'' = JString (lit ''NSERVER'') \<and>
                  (case Option.bind (as_str (json_index (json_index claims ''nats'') ''jwt'')) (decode_claims L) of
                     None \<Rightarrow> False
                   | Some uclaims \<Rightarrow>
                       json_first (json_index (json_index (json_index uclaims ''nats'') ''pub'') ''deny'') =
                         JString (lit ''>''))))"

definition response_is_signed_by_account :: "('vk, 'sg, 'kp, 'sk, 'm) nkeys_libs_scheme \<Rightarrow> 'kp \<Rightarrow> bool" where
  "response_is_signed_by_account L account \<longleftrightarrow>
     (case fake_request_jwt L (lit ''UCONN'') (lit ''NSERVER'') None of
        None \<Rightarrow> False
      | Some req \<Rightarrow>
          let resp = fst (handle_request L req None account 1 True kv);
              parts = split_on dot resp
          in case b64_decode L (parts ! 2) of
               None \<Rightarrow> False
             | Some sg \<Rightarrow> kp_verify L account (as_bytes (parts ! 0 @ dot # parts ! 1)) sg)"

definition anonymous_user_jwt_carries_no_exp :: "('vk, 'sg, 'kp, 'm) callout_libs_scheme \<Rightarrow> 'kp \<Rightarrow> bool" where
  "anonymous_user_jwt_carries_no_exp L account \<longleftrightarrow>
     (case fake_request_jwt L (lit ''UCONN'') (lit ''NSERVER'') None of
        None \<Rightarrow> False
      | Some req \<Rightarrow>
          let resp = fst (handle_request L req None account 1700000000 True kv)
          in case Option.bind (decode_claims L resp)
                    (\<lambda>r. Option.bind (as_str (json_index (json_index r ''nats'') ''jwt'')) (decode_claims L)) of
               None \<Rightarrow> False
             | Some uclaims \<Rightarrow> json_get uclaims (lit ''exp'') = None)"

definition verified_user_jwt_inherits_the_tokens_exp ::
    "('vk, 'sg, 'kp, 'sk, 'm) realm_libs_scheme \<Rightarrow> 'sk \<Rightarrow> 'kp \<Rightarrow> bool" where
  "verified_user_jwt_inherits_the_tokens_exp L realm account \<longleftrightarrow>
     (let kid = lit ''exp-test''; iss = lit ''https://pgck-exp.invalid/realms/t''; aud = lit ''account'';
          x = b64_encode L (vk_to_bytes L (verifying_key L realm));
          jwks = json_to_string L (json_obj [(lit ''keys'', JArray [json_obj [(lit ''kty'', JString (lit ''OKP'')),
            (lit ''crv'', JString (lit ''Ed25519'')), (lit ''kid'', JString kid), (lit ''x'', JString x)]])]);
          now = 1700000000;
          token_exp = now + 300;
          claims = json_obj [(lit ''iss'', JString iss), (lit ''aud'', JString aud), (lit ''sub'', JString (lit ''exp-sub'')),
            (lit ''iat'', json_i64 now), (lit ''exp'', json_i64 token_exp)]
      in case (from_parts L jwks iss aud, sign_realm_jwt L claims kid realm) of
           (Inr cfg, Some token) \<Rightarrow>
             (case fake_request_jwt L (lit ''UCONN'') (lit ''NSERVER'') (Some token) of
                None \<Rightarrow> False
              | Some req \<Rightarrow>
                  let resp = fst (handle_request L req (Some cfg) account now True kv)
                  in case Option.bind (decode_claims L resp)
                            (\<lambda>r. Option.bind (as_str (json_index (json_index r ''nats'') ''jwt'')) (decode_claims L)) of
                       None \<Rightarrow> False
                     | Some uclaims \<Rightarrow> get_i64 uclaims ''exp'' = Some token_exp)
         | _ \<Rightarrow> False)"

text \<open>A response, taken apart.\<close>

lemma minted_response:
  assumes "codec_laws L kp"
  shows "\<exists>t h p s sg c. build_response L nkey srv kp result iat = Inr t \<and> split_on dot t = [h, p, s] \<and>
    decode_claims L t = Some c \<and> json_index c ''sub'' = JString nkey \<and> json_index c ''aud'' = JString srv \<and>
    json_index (json_index c ''nats'') ''jwt'' = (case result of Inl _ \<Rightarrow> JNull | Inr u \<Rightarrow> JString u) \<and>
    b64_decode L s = Some sg \<and> kp_sign L kp (as_bytes (h @ dot # p)) = Inr sg"
proof -
  define n where "n = (case result of
            Inr user_jwt \<Rightarrow> json_obj [(lit ''jwt'', JString user_jwt),
              (lit ''type'', JString (lit ''authorization_response'')), (lit ''version'', JNumber (JInt 2))]
          | Inl reason \<Rightarrow> json_obj [(lit ''error'', JString reason),
              (lit ''type'', JString (lit ''authorization_response'')), (lit ''version'', JNumber (JInt 2))])"
  define r where "r = json_obj [(lit ''iat'', json_i64 iat), (lit ''iss'', JString (public_key L kp)),
           (lit ''sub'', JString nkey), (lit ''aud'', JString srv), (lit ''nats'', n)]"
  have "json_plain_at 126 n" unfolding n_def by (cases result) (simp_all add: json_plain_obj)
  then have plain: "json_plain r" unfolding r_def by (intro json_plain_obj) simp_all
  obtain t h p s sg where t: "encode_and_sign L r kp = Inr t" "split_on dot t = [h, p, s]"
    "decode_claims L t = Some (json_insert (lit ''jti'') (JString (nats_jti L r)) r)"
    "b64_decode L s = Some sg" "kp_sign L kp (as_bytes (h @ dot # p)) = Inr sg"
    using encode_and_sign_segments[OF assms plain] .
  have "build_response L nkey srv kp result iat = Inr t"
    using t(1) by (simp add: build_response_def r_def n_def Let_def)
  moreover have "json_index n ''jwt'' = (case result of Inl _ \<Rightarrow> JNull | Inr u \<Rightarrow> JString u)"
    by (cases result) (simp_all add: n_def json_index_obj)
  ultimately show ?thesis using t(2-5) by (simp add: r_def json_index_def)
qed

text \<open>What the responder answers when it admits: a signed response that carries the minted
  user token.\<close>

lemma admitted_response:
  assumes "codec_laws L kp" "parse_auth_request L req = Some \<lparr>user_nkey = nkey, server_id = srv, auth_token = tok\<rparr>"
    "callout_identity L tok cfg now = a"
  shows "\<exists>h p s sg c u uc. split_on dot (fst (handle_request L req cfg kp now True kernels)) = [h, p, s] \<and>
    decode_claims L (fst (handle_request L req cfg kp now True kernels)) = Some c \<and>
    json_index c ''sub'' = JString nkey \<and> json_index c ''aud'' = JString srv \<and>
    json_index (json_index c ''nats'') ''jwt'' = JString u \<and> decode_claims L u = Some uc \<and>
    user_fields uc nkey (permissions_for a kernels) (admission_exp a) \<and>
    b64_decode L s = Some sg \<and> kp_sign L kp (as_bytes (h @ dot # p)) = Inr sg"
proof -
  obtain u uc where u: "build_user_jwt L nkey (participant_name a) (permissions_for a kernels) kp now (admission_exp a) = Inr u"
    "decode_claims L u = Some uc" "user_fields uc nkey (permissions_for a kernels) (admission_exp a)"
    using minted_user_jwt[OF assms(1)] by blast
  have "fst (handle_request L req cfg kp now True kernels) = unwrap_or (build_response L nkey srv kp (Inr u) now) []"
    using assms(2,3) u(1) by (simp add: handle_request_def Let_def)
  with minted_response[OF assms(1), of nkey srv "Inr u" now] u(2,3) show ?thesis by auto
qed

lemma unconfigured_anonymous: "callout_identity L tok None now = Anonymous"
  by (simp add: callout_identity_def split: option.splits)

lemma refusal_test_passes:
  assumes "codec_laws L account"
  shows "unverified_is_refused_when_admit_anonymous_is_false L account"
proof -
  let ?tok = "Some (lit ''not-a-jwt-at-all'')"
  have "?tok \<noteq> Some []" by (simp add: lit_def)
  then obtain req where req: "fake_request_jwt L (lit ''UCONN'') (lit ''NSERVER'') ?tok = Some req"
    "parse_auth_request L req = Some \<lparr>user_nkey = lit ''UCONN'', server_id = lit ''NSERVER'', auth_token = ?tok\<rparr>"
    by (rule fake_request_parses[OF assms])
  let ?l = "fst (handle_request L req None account 1800000000 True kv)"
  let ?s = "fst (handle_request L req None account 1800000000 False kv)"
  obtain c u where l: "decode_claims L ?l = Some c" "json_index (json_index c ''nats'') ''jwt'' = JString u"
    using admitted_response[OF assms req(2) unconfigured_anonymous] by blast
  have "?s = unwrap_or (build_response L (lit ''UCONN'') (lit ''NSERVER'') account (Inl REFUSED_REASON) 1800000000) []"
    using req(2) by (simp add: handle_request_def unconfigured_anonymous Let_def)
  with minted_response[OF assms, of "lit ''UCONN''" "lit ''NSERVER''" "Inl REFUSED_REASON" 1800000000]
  obtain d h p q where s: "decode_claims L ?s = Some d" "json_index (json_index d ''nats'') ''jwt'' = JNull"
    "split_on dot ?s = [h, p, q]"
    by auto
  have "?s \<noteq> ?l" using l s by auto
  moreover have "?s \<noteq> []" using s(3) by (auto simp: split_on_clean)
  ultimately show ?thesis
    using l s(1,2) by (simp add: unverified_is_refused_when_admit_anonymous_is_false_def req(1))
qed

lemma anonymous_response_tests_pass:
  assumes "codec_laws L account"
  shows "handle_request_without_config_admits_anonymous L account" "anonymous_user_jwt_carries_no_exp L account"
proof -
  let ?tok = "Some (lit ''unverifiable.token'')"
  have "?tok \<noteq> Some []" by (simp add: lit_def)
  then obtain req where req: "fake_request_jwt L (lit ''UCONN'') (lit ''NSERVER'') ?tok = Some req"
    "parse_auth_request L req = Some \<lparr>user_nkey = lit ''UCONN'', server_id = lit ''NSERVER'', auth_token = ?tok\<rparr>"
    by (rule fake_request_parses[OF assms])
  obtain h p s c u uc where r: "split_on dot (fst (handle_request L req None account 1700000000 True kv)) = [h, p, s]"
    "decode_claims L (fst (handle_request L req None account 1700000000 True kv)) = Some c"
    "json_index c ''sub'' = JString (lit ''UCONN'')" "json_index c ''aud'' = JString (lit ''NSERVER'')"
    "json_index (json_index c ''nats'') ''jwt'' = JString u" "decode_claims L u = Some uc"
    "user_fields uc (lit ''UCONN'') (permissions_for Anonymous kv) (admission_exp Anonymous)"
    using admitted_response[OF assms req(2) unconfigured_anonymous] by blast
  then show "handle_request_without_config_admits_anonymous L account"
    by (simp add: handle_request_without_config_admits_anonymous_def req(1) user_fields_def json_index_obj json_strs_def)
  have "None \<noteq> Some ([] :: str)" by simp
  then obtain req where req: "fake_request_jwt L (lit ''UCONN'') (lit ''NSERVER'') None = Some req"
    "parse_auth_request L req = Some \<lparr>user_nkey = lit ''UCONN'', server_id = lit ''NSERVER'', auth_token = None\<rparr>"
    by (rule fake_request_parses[OF assms])
  obtain c u uc where "decode_claims L (fst (handle_request L req None account 1700000000 True kv)) = Some c"
    "json_index (json_index c ''nats'') ''jwt'' = JString u" "decode_claims L u = Some uc"
    "user_fields uc (lit ''UCONN'') (permissions_for Anonymous kv) (admission_exp Anonymous)"
    using admitted_response[OF assms req(2) unconfigured_anonymous] by blast
  then show "anonymous_user_jwt_carries_no_exp L account"
    by (simp add: anonymous_user_jwt_carries_no_exp_def req(1) user_fields_def)
qed

lemma signed_response_test_passes:
  assumes "codec_laws L account" "key_pair_laws L account"
  shows "response_is_signed_by_account L account"
proof -
  have "None \<noteq> Some ([] :: str)" by simp
  then obtain req where req: "fake_request_jwt L (lit ''UCONN'') (lit ''NSERVER'') None = Some req"
    "parse_auth_request L req = Some \<lparr>user_nkey = lit ''UCONN'', server_id = lit ''NSERVER'', auth_token = None\<rparr>"
    by (rule fake_request_parses[OF assms(1)])
  obtain h p s sg where r: "split_on dot (fst (handle_request L req None account 1 True kv)) = [h, p, s]"
    "b64_decode L s = Some sg" "kp_sign L account (as_bytes (h @ dot # p)) = Inr sg"
    using admitted_response[OF assms(1) req(2) unconfigured_anonymous] by blast
  moreover from r(3) assms(2) have "kp_verify L account (as_bytes (h @ dot # p)) sg"
    unfolding key_pair_laws_def by (metis sum.inject(2))
  ultimately show ?thesis by (simp add: response_is_signed_by_account_def req(1) numeral_2_eq_2)
qed

section \<open>The realm's own tokens\<close>

text \<open>The header that the helper writes as text is read as the object it spells.\<close>

definition header_text_law :: "('vk, 'sg, 'm) verifier_libs_scheme \<Rightarrow> str \<Rightarrow> bool" where
  "header_text_law L kid \<longleftrightarrow>
     json_from_slice L (as_bytes (realm_header_text kid)) =
       Some (json_obj [(lit ''alg'', JString (lit ''EdDSA'')), (lit ''typ'', JString (lit ''JWT'')),
         (lit ''kid'', JString kid)])"

lemma sign_realm_jwt_verdicts:
  assumes "realm_laws L" "json_plain claims" "header_text_law L kid"
  shows "\<exists>t. sign_realm_jwt L claims kid sk = Some t \<and> t \<noteq> [] \<and>
    (\<forall>keys ex. jwks_get keys kid = Some (verifying_key L sk) \<longrightarrow> verify_jwt L t keys ex = check_claims claims ex) \<and>
    (\<forall>keys ex sk'. ideal_signatures L \<longrightarrow> jwks_get keys kid = Some (verifying_key L sk') \<longrightarrow>
       verifying_key L sk' \<noteq> verifying_key L sk \<longrightarrow> verify_jwt L t keys ex = Inl BadSignature)"
proof -
  obtain ser where ser: "json_to_vec L claims = Inr ser" "json_from_slice L ser = Some claims"
    using realm_serialises[OF assms(1,2)] .
  let ?header = "json_obj [(lit ''alg'', JString (lit ''EdDSA'')), (lit ''typ'', JString (lit ''JWT'')),
     (lit ''kid'', JString kid)]"
  let ?h = "b64_encode L (as_bytes (realm_header_text kid))" and ?p = "b64_encode L ser"
  let ?s = "b64_encode L (sk_sign L sk (as_bytes (?h @ dot # ?p)))"
  let ?t = "?h @ dot # ?p @ dot # ?s"
  note b = realm_b64[OF assms(1)]
  have split: "split_on dot ?t = [?h, ?p, ?s]" by (simp add: split_on_append split_on_clean b)
  have dec: "decode_json L ?h = Inr ?header" "decode_json L ?p = Inr claims"
    using assms(3) ser(2) by (simp_all add: decode_json_def b64_def b header_text_law_def)
  have sel: "verify_jwt L ?t keys ex =
      and_then (ok_or (jwks_get keys kid) BadSignature) (\<lambda>key. verify_eddsa L ?t key ex)" for keys ex
    unfolding verify_jwt_def split by (simp add: dec header_gets(3))
  have "sign_realm_jwt L claims kid sk = Some ?t" using ser(1) by (simp add: sign_realm_jwt_def Let_def)
  moreover have "verify_jwt L ?t keys ex = check_claims claims ex"
    if "jwks_get keys kid = Some (verifying_key L sk)" for keys ex
    using minted_verifies[OF assms(1) split dec b(1) header_gets(2)] that unfolding sel by simp
  moreover have "verify_jwt L ?t keys ex = Inl BadSignature"
    if "ideal_signatures L" "jwks_get keys kid = Some (verifying_key L sk')" "verifying_key L sk' \<noteq> verifying_key L sk"
    for keys ex sk'
    using foreign_rejected[OF that(1) split dec(1) b(1) header_gets(2) assms(1)] that(2,3) unfolding sel by simp
  ultimately show ?thesis by (intro exI[of _ ?t]) blast
qed

text \<open>A key set with one key in the short form the helper tests use.\<close>

definition one_key_jwks :: "('vk, 'sg, 'kp, 'sk, 'm) realm_libs_scheme \<Rightarrow> str \<Rightarrow> 'sk \<Rightarrow> str" where
  "one_key_jwks L kid realm =
     (let x = b64_encode L (vk_to_bytes L (verifying_key L realm))
      in json_to_string L (json_obj [(lit ''keys'', JArray [json_obj [(lit ''kty'', JString (lit ''OKP'')),
           (lit ''crv'', JString (lit ''Ed25519'')), (lit ''kid'', JString kid), (lit ''x'', JString x)]])]))"

lemma one_key_config:
  assumes "realm_laws L"
  shows "from_parts L (one_key_jwks L kid realm) iss aud =
    Inr \<lparr>cfg_jwks = [(kid, verifying_key L realm)], cfg_issuer = iss, cfg_audience = aud, cfg_leeway_secs = 30\<rparr>"
proof -
  let ?e = "json_obj [(lit ''kty'', JString (lit ''OKP'')), (lit ''crv'', JString (lit ''Ed25519'')),
    (lit ''kid'', JString kid), (lit ''x'', JString (b64_encode L (vk_to_bytes L (verifying_key L realm))))]"
  have plain: "json_plain_at 125 ?e" by (rule json_plain_obj) simp_all
  have "jwk_key L ?e = Some (kid, verifying_key L realm)"
    using assms by (simp add: jwk_key_def get_str_def json_get_obj realm_laws_def)
  then have "jwks_parse L (jwks_doc L [?e]) = Inr [(kid, verifying_key L realm)]"
    using assms plain by (simp add: jwks_parse_doc load_keys_def)
  then show ?thesis by (simp add: from_parts_def one_key_jwks_def jwks_doc_def Let_def)
qed

text \<open>Claims with the fields the realm of these tests puts into a token.\<close>

definition short_claims :: "str \<Rightarrow> str \<Rightarrow> str \<Rightarrow> i64 \<Rightarrow> i64 \<Rightarrow> json" where
  "short_claims iss aud sub iat exp = json_obj [(lit ''iss'', JString iss), (lit ''aud'', JString aud),
     (lit ''sub'', JString sub), (lit ''iat'', json_i64 iat), (lit ''exp'', json_i64 exp)]"

lemma short_claims_plain: "json_plain (short_claims iss aud sub iat exp)"
  unfolding short_claims_def by (rule json_plain_obj) simp_all

lemma short_claims_verdict:
  assumes "sint now < sint (exp + 30)"
  shows "check_claims (short_claims iss aud sub iat exp)
      \<lparr>issuer = iss, audience = aud, now_unix = now, leeway_secs = 30\<rparr> =
    Inr \<lparr>id_sub = sub, preferred_username = None, id_exp = exp\<rparr>"
  using assms by (simp add: check_claims_def short_claims_def get_str_def get_i64_def json_get_obj)

text \<open>A token of the realm is admitted by the responder's configuration, a stranger's is not.\<close>

lemma realm_admissions:
  assumes "realm_laws L" "header_text_law L kid" "sint now < sint (exp + 30)"
  shows "\<exists>t cfg. sign_realm_jwt L (short_claims iss aud sub iat exp) kid realm = Some t \<and> t \<noteq> [] \<and>
    from_parts L (one_key_jwks L kid realm) iss aud = Inr cfg \<and>
    callout_identity L (Some t) (Some cfg) now = Verified sub exp"
  using sign_realm_jwt_verdicts[OF assms(1) short_claims_plain assms(2), of iss aud sub iat exp realm]
    one_key_config[OF assms(1), of kid realm iss aud] short_claims_verdict[OF assms(3), of iss aud sub iat]
  by (auto simp: callout_identity_def config_verify_def jwks_get_def)

lemma stranger_admissions:
  assumes "realm_laws L" "header_text_law L kid" "ideal_signatures L"
    "verifying_key L realm \<noteq> verifying_key L stranger"
  shows "\<exists>t cfg. sign_realm_jwt L (short_claims iss aud sub iat exp) kid stranger = Some t \<and>
    from_parts L (one_key_jwks L kid realm) iss aud = Inr cfg \<and>
    callout_identity L (Some t) (Some cfg) now = Anonymous"
  using sign_realm_jwt_verdicts[OF assms(1) short_claims_plain assms(2), of iss aud sub iat exp stranger]
    one_key_config[OF assms(1), of kid realm iss aud] assms(3,4)
  by (auto simp: callout_identity_def config_verify_def jwks_get_def)

lemma inherited_exp_test_passes:
  assumes "realm_laws L" "codec_laws L account" "header_text_law L (lit ''exp-test'')"
  shows "verified_user_jwt_inherits_the_tokens_exp L realm account"
proof -
  let ?iss = "lit ''https://pgck-exp.invalid/realms/t''" and ?aud = "lit ''account''" and ?kid = "lit ''exp-test''"
  let ?now = "1700000000 :: i64" and ?exp = "1700000300 :: i64"
  have "sint ?now < sint (?exp + 30)" by simp
  from realm_admissions[OF assms(1,3) this, of ?iss ?aud "lit ''exp-sub''" ?now realm]
  obtain t cfg where t: "sign_realm_jwt L (short_claims ?iss ?aud (lit ''exp-sub'') ?now ?exp) ?kid realm = Some t"
    "t \<noteq> []" "from_parts L (one_key_jwks L ?kid realm) ?iss ?aud = Inr cfg"
    "callout_identity L (Some t) (Some cfg) ?now = Verified (lit ''exp-sub'') ?exp"
    by blast
  have "Some t \<noteq> Some []" using t(2) by simp
  then obtain req where req: "fake_request_jwt L (lit ''UCONN'') (lit ''NSERVER'') (Some t) = Some req"
    "parse_auth_request L req = Some \<lparr>user_nkey = lit ''UCONN'', server_id = lit ''NSERVER'', auth_token = Some t\<rparr>"
    by (rule fake_request_parses[OF assms(2)])
  obtain c u uc where "decode_claims L (fst (handle_request L req (Some cfg) account ?now True kv)) = Some c"
    "json_index (json_index c ''nats'') ''jwt'' = JString u" "decode_claims L u = Some uc"
    "user_fields uc (lit ''UCONN'') (permissions_for (Verified (lit ''exp-sub'') ?exp) kv)
       (admission_exp (Verified (lit ''exp-sub'') ?exp))"
    using admitted_response[OF assms(2) req(2) t(4)] by blast
  then show ?thesis using t(1,3) req(1)
    by (simp add: verified_user_jwt_inherits_the_tokens_exp_def Let_def short_claims_def one_key_jwks_def
        user_fields_def get_i64_def)
qed

section \<open>The fixtures of the end-to-end run\<close>

text \<open>\<^verbatim>\<open>e2e_emit_callout_fixtures\<close> over the keys and the clock it draws: the files it writes, or
  \<open>None\<close> where an assertion or an \<^verbatim>\<open>expect\<close> stops it.\<close>

definition e2e_env :: "('vk, 'sg, 'kp, 'sk, 'm) nkeys_libs_scheme \<Rightarrow> 'kp \<Rightarrow> str \<Rightarrow> str \<Rightarrow> str \<Rightarrow> str \<Rightarrow> str \<Rightarrow> str" where
  "e2e_env L account seed sub iss aud jwks =
     (let line = (\<lambda>name v. lit name @ lit ''='' @ [39] @ v @ [39, lf])
      in line ''PGCK_E2E_SUB'' sub @ line ''PGCK_E2E_ISSUER'' iss @ line ''PGCK_E2E_AUDIENCE'' aud @
         line ''PGCK_CALLOUT_ISSUER'' (public_key L account) @ line ''PGCK_E2E_ACCOUNT_SEED'' seed @
         line ''PGCK_E2E_JWKS'' jwks)"

definition e2e_emit_callout_fixtures ::
    "('vk, 'sg, 'kp, 'sk, 'm) nkeys_libs_scheme \<Rightarrow> 'sk \<Rightarrow> 'sk \<Rightarrow> 'kp \<Rightarrow> i64 \<Rightarrow> (str \<times> str) list option" where
  "e2e_emit_callout_fixtures L realm stranger account now =
     (let sub = lit ''e2e-verified-sub''; iss = lit ''https://pgck-e2e.invalid/realms/e2e'';
          aud = lit ''account''; kid = lit ''e2e'';
          jwks = one_key_jwks L kid realm;
          claims = short_claims iss aud sub now (now + 3600)
      in case (sign_realm_jwt L claims kid realm, sign_realm_jwt L claims kid stranger, from_parts L jwks iss aud,
               kp_seed L account) of
           (Some valid, Some forged, Inr cfg, Some seed) \<Rightarrow>
             if (case callout_identity L (Some valid) (Some cfg) now of Verified _ _ \<Rightarrow> True | Anonymous \<Rightarrow> False) \<and>
                callout_identity L (Some forged) (Some cfg) now = Anonymous
             then Some [(lit ''token.valid'', valid), (lit ''token.forged'', forged),
                        (lit ''e2e.env'', e2e_env L account seed sub iss aud jwks)]
             else None
         | _ \<Rightarrow> None)"

text \<open>The assertions never stop it, at any clock before the last hours of the 64-bit range.\<close>

lemma e2e_fixtures_emitted:
  assumes "realm_laws L" "ideal_signatures L" "header_text_law L (lit ''e2e'')" "key_pair_laws L account"
    "verifying_key L realm \<noteq> verifying_key L stranger" "sint now < 2 ^ 63 - 3630"
  shows "\<exists>valid forged env. e2e_emit_callout_fixtures L realm stranger account now =
    Some [(lit ''token.valid'', valid), (lit ''token.forged'', forged), (lit ''e2e.env'', env)]"
proof -
  let ?iss = "lit ''https://pgck-e2e.invalid/realms/e2e''" and ?aud = "lit ''account''" and ?sub = "lit ''e2e-verified-sub''"
  have "sint (now + 3600 + 30) = sint now + 3630"
    using assms(6) i64_range(1)[of now] i64_add_exact[of now 3630] by (simp add: add.assoc)
  then have "sint now < sint (now + 3600 + 30)" by simp
  note v = realm_admissions[OF assms(1,3) this, of ?iss ?aud ?sub now realm]
  note f = stranger_admissions[OF assms(1,3,2,5), of ?iss ?aud ?sub now "now + 3600" now]
  obtain seed where "kp_seed L account = Some seed" using assms(4) unfolding key_pair_laws_def by blast
  with v f show ?thesis by (auto simp: e2e_emit_callout_fixtures_def Let_def)
qed

end
