(* ===== verification/Conformance.thy ===== *)
theory Conformance
  imports Conformance_Nats Conformance_Auth Pgck_Config
begin

text \<open>
  The remaining unit tests, on the build identity of \<^verbatim>\<open>lib.rs\<close>, with the constant the
  compiler takes from \<^verbatim>\<open>Cargo.toml\<close> and the directive \<^verbatim>\<open>build.rs\<close> prints.
\<close>

definition CARGO_PKG_VERSION :: str where
  "CARGO_PKG_VERSION = lit ''0.4.112''"

text \<open>The lines the build script prints for cargo.\<close>

definition build_script_main :: "str list" where
  "build_script_main = [lit ''cargo:rerun-if-env-changed=PGCK_BUILD_ID'']"

text \<open>The server settings under which the database tests run.\<close>

definition postgresql_conf_options :: "str list" where
  "postgresql_conf_options = [lit ''shared_preload_libraries = '' @ [39] @ lit ''pgck'' @ [39]]"

definition build_id_carries_no_paths :: "str option \<Rightarrow> bool" where
  "build_id_carries_no_paths env \<longleftrightarrow>
     (let i = build_id env
      in i \<noteq> [] \<and>
         list_all (\<lambda>bad. \<not> str_contains bad i)
           [lit ''/Users'', lit ''/home'', lit ''/root'', lit ''/tmp'', [92], lit ''@''])"

definition version_present :: bool where
  "version_present \<longleftrightarrow> pgck_version CARGO_PKG_VERSION = lit ''pgck '' @ CARGO_PKG_VERSION"

definition version_is_bare_semver :: bool where
  "version_is_bare_semver \<longleftrightarrow>
     (let v = ckp_version CARGO_PKG_VERSION;
          parts = split_on dot v
      in v = CARGO_PKG_VERSION \<and> length parts = 3 \<and>
         list_all (\<lambda>p. p \<noteq> [] \<and> list_all is_ascii_digit p) parts)"

definition version_agrees_with_pgck_version :: bool where
  "version_agrees_with_pgck_version \<longleftrightarrow>
     pgck_version CARGO_PKG_VERSION = lit ''pgck '' @ ckp_version CARGO_PKG_VERSION"

lemma version_tests_pass:
  "version_present" "version_is_bare_semver" "version_agrees_with_pgck_version"
  by (simp_all add: version_present_def version_is_bare_semver_def version_agrees_with_pgck_version_def
      pgck_version_def ckp_version_def CARGO_PKG_VERSION_def split_on_def lit_def is_ascii_digit_def)

text \<open>The build id of an unmarked build, and of any build whose mark is a non-empty word of
  letters, digits, dots, dashes and plus signs, as the release script writes it.\<close>

lemma str_contains_absent: "c \<in> set bad \<Longrightarrow> c \<notin> set s \<Longrightarrow> \<not> str_contains bad s"
proof (induction s)
  case (Cons d s)
  have "\<not> starts_with bad (d # s)"
  proof
    assume "starts_with bad (d # s)"
    then obtain r where "d # s = bad @ r" by (auto simp: starts_with_iff)
    then have "set bad \<subseteq> set (d # s)" by simp
    with Cons.prems show False by auto
  qed
  with Cons show ?case by auto
qed auto

lemma build_id_test_passes:
  assumes "env = None \<or> (\<exists>i. env = Some i \<and> i \<noteq> [] \<and> 47 \<notin> set i \<and> 92 \<notin> set i \<and> 64 \<notin> set i)"
  shows "build_id_carries_no_paths env"
proof -
  have clean: "build_id env \<noteq> []" "47 \<notin> set (build_id env)" "92 \<notin> set (build_id env)" "64 \<notin> set (build_id env)"
    using assms by (auto simp: build_id_def lit_def)
  have "47 \<in> set (lit ''/Users'')" "47 \<in> set (lit ''/home'')" "47 \<in> set (lit ''/root'')" "47 \<in> set (lit ''/tmp'')"
    "92 \<in> set ([92] :: str)" "64 \<in> set (lit ''@'')"
    by (simp_all add: lit_def)
  note absent = this(1-4)[THEN str_contains_absent, OF clean(2)] this(5)[THEN str_contains_absent, OF clean(3)]
    this(6)[THEN str_contains_absent, OF clean(4)]
  show ?thesis using clean(1) absent by (simp add: build_id_carries_no_paths_def)
qed

end
