(* ===== verification/Sql_Base.thy ===== *)
theory Sql_Base
  imports Pg_Spi Rust_Utf8
begin

text \<open>
  What the installed SQL functions of \<^verbatim>\<open>src/sql/pgck-baseline.sql\<close> use of PostgreSQL:
  text functions, the operators of \<^verbatim>\<open>jsonb\<close>, null handling and settings. A nullable
  \<^verbatim>\<open>text\<close> is a \<open>str option\<close>. Letter case depends on the database's collation and the
  text form of a \<^verbatim>\<open>jsonb\<close> value on its output function, so \<open>lower\<close> and the printer
  are arguments. An \<^verbatim>\<open>Inl\<close> result is a raised exception; it carries no state, because
  PostgreSQL rolls the statement back.
\<close>

section \<open>Text\<close>

definition btrim :: "rchar \<Rightarrow> str \<Rightarrow> str" where
  "btrim c s = rev (dropWhile (\<lambda>x. x = c) (rev (dropWhile (\<lambda>x. x = c) s)))"

definition nullif_empty :: "str option \<Rightarrow> str option" where
  "nullif_empty x = (if x = Some [] then None else x)"

definition coalesce_text :: "str option \<Rightarrow> str \<Rightarrow> str" where
  "coalesce_text x d = (case x of None \<Rightarrow> d | Some s \<Rightarrow> s)"

text \<open>\<^verbatim>\<open>regexp_replace(s, '[\<dots>]+', '-', 'g')\<close>: every maximal run becomes one dash.\<close>

fun dash_runs :: "(rchar \<Rightarrow> bool) \<Rightarrow> bool \<Rightarrow> str \<Rightarrow> str" where
  "dash_runs P inrun [] = []"
| "dash_runs P inrun (c # cs) =
     (if P c then (if inrun then dash_runs P True cs else dash # dash_runs P True cs)
      else c # dash_runs P False cs)"

definition ascii_lower_digit :: "rchar \<Rightarrow> bool" where
  "ascii_lower_digit c \<longleftrightarrow> (97 \<le> c \<and> c \<le> 122) \<or> (48 \<le> c \<and> c \<le> 57)"

definition urn_char :: "rchar \<Rightarrow> bool" where
  "urn_char c \<longleftrightarrow> ascii_lower_digit c \<or> c = dash"

definition urn_normalise :: "(str \<Rightarrow> str) \<Rightarrow> str option \<Rightarrow> str" where
  "urn_normalise lower p_raw = dash_runs (\<lambda>c. \<not> urn_char c) False (lower (btrim spc (coalesce_text p_raw [])))"

definition slug :: "(str \<Rightarrow> str) \<Rightarrow> str \<Rightarrow> str" where
  "slug lower p =
     (let s = btrim dash (dash_runs (\<lambda>c. \<not> ascii_lower_digit c) False (lower p))
      in if s = [] then lit ''x'' else s)"

text \<open>\<^verbatim>\<open>regexp_replace(s, '^.*[\<dots>]', '')\<close>: what follows the last such character, the
  whole text when there is none.\<close>

definition after_last :: "(rchar \<Rightarrow> bool) \<Rightarrow> str \<Rightarrow> str" where
  "after_last P s = rev (takeWhile (\<lambda>c. \<not> P c) (rev s))"

text \<open>\<^verbatim>\<open>regexp_replace(s, '^<pre>(.*)<post>$', '\1')\<close>: the part in between, the whole text
  when it does not match.\<close>

definition between :: "str \<Rightarrow> str \<Rightarrow> str \<Rightarrow> str" where
  "between pre post s =
     (case strip_prefix pre s of
        None \<Rightarrow> s
      | Some r \<Rightarrow> (case strip_prefix (rev post) (rev r) of None \<Rightarrow> s | Some m \<Rightarrow> rev m))"

section \<open>jsonb\<close>

text \<open>\<^verbatim>\<open>j->>k\<close>: null for an absent key and for JSON null, the characters of a string, the
  text form of any other value.\<close>

definition text_of :: "(json \<Rightarrow> str) \<Rightarrow> json \<Rightarrow> str option" where
  "text_of print v =
     (case v of JNull \<Rightarrow> None | JString s \<Rightarrow> Some s
      | JBool b \<Rightarrow> Some (if b then lit ''true'' else lit ''false'') | _ \<Rightarrow> Some (print v))"

definition get_text :: "(json \<Rightarrow> str) \<Rightarrow> json \<Rightarrow> str \<Rightarrow> str option" where
  "get_text print j k = Option.bind (json_get j k) (text_of print)"

text \<open>\<^verbatim>\<open>j ? k\<close>: a key of an object, a text element of an array, the text itself.\<close>

fun has_key :: "json \<Rightarrow> str \<Rightarrow> bool" where
  "has_key (JObject m) k \<longleftrightarrow> map_of m k \<noteq> None"
| "has_key (JArray a) k \<longleftrightarrow> JString k \<in> set a"
| "has_key (JString s) k \<longleftrightarrow> s = k"
| "has_key _ k \<longleftrightarrow> False"

fun jsonb_minus :: "json \<Rightarrow> str \<Rightarrow> json" where
  "jsonb_minus (JObject m) k = JObject (btree_remove k m)"
| "jsonb_minus j k = j"

text \<open>\<^verbatim>\<open>a || b\<close> on two objects, with \<open>b\<close> winning, and the appending of an element to an
  array.\<close>

fun jsonb_concat :: "json \<Rightarrow> json \<Rightarrow> json" where
  "jsonb_concat (JObject a) (JObject b) = JObject (fold (\<lambda>(k, v) m. btree_insert k v m) b a)"
| "jsonb_concat (JArray a) b = JArray (a @ [b])"
| "jsonb_concat a b = a"

text \<open>\<^verbatim>\<open>jsonb_each\<close>: the members in the storage order of \<^verbatim>\<open>jsonb\<close>, by the byte length of the
  key and then bytewise.\<close>

definition jsonb_each :: "json \<Rightarrow> (str \<times> json) list" where
  "jsonb_each j = (case j of JObject m \<Rightarrow> sort_key (\<lambda>e. length (as_bytes (fst e))) m | _ \<Rightarrow> [])"

definition is_object :: "json \<Rightarrow> bool" where
  "is_object j \<longleftrightarrow> as_object j \<noteq> None"

section \<open>Settings and queries\<close>

text \<open>\<^verbatim>\<open>NULLIF(trim(COALESCE(current_setting(name, true), '')), '')\<close>\<close>

definition guc_trimmed :: "(str \<Rightarrow> str option) \<Rightarrow> string \<Rightarrow> str option" where
  "guc_trimmed s name = nullif_empty (Some (btrim spc (coalesce_text (s (lit name)) [])))"

definition guc_nonempty :: "(str \<Rightarrow> str option) \<Rightarrow> string \<Rightarrow> str option" where
  "guc_nonempty s name = nullif_empty (s (lit name))"

text \<open>\<^verbatim>\<open>ORDER BY k DESC LIMIT 1\<close>\<close>

definition latest_by :: "('a \<Rightarrow> 'b::linorder) \<Rightarrow> 'a list \<Rightarrow> 'a option" where
  "latest_by k xs = (if xs = [] then None else Some (last (sort_key k xs)))"

definition max_opt :: "int list \<Rightarrow> int option" where
  "max_opt xs = (if xs = [] then None else Some (Max (set xs)))"

section \<open>Lemmas\<close>

lemma lit_Nil_iff [simp]: "lit s = [] \<longleftrightarrow> s = []" "[] = lit s \<longleftrightarrow> s = []"
  by (auto simp: lit_def)

lemma dash_runs_chars: "\<forall>c \<in> set (dash_runs P b s). \<not> P c \<or> c = dash"
  by (induction s arbitrary: b) auto

lemma dash_runs_id: "\<forall>c \<in> set s. \<not> P c \<Longrightarrow> dash_runs P b s = s"
  by (induction s arbitrary: b) auto

lemma urn_normalise_chars: "\<forall>c \<in> set (urn_normalise lower r). urn_char c"
  using dash_runs_chars[of "\<lambda>c. \<not> urn_char c" False "lower (btrim spc (coalesce_text r []))"]
  by (auto simp: urn_normalise_def urn_char_def)

lemma btrim_id: "c \<notin> set s \<Longrightarrow> btrim c s = s"
proof -
  have d: "c \<notin> set s \<Longrightarrow> dropWhile (\<lambda>x. x = c) s = s" for s by (cases s) auto
  assume "c \<notin> set s"
  then show ?thesis unfolding btrim_def by (simp add: d)
qed

lemma urn_normalise_id:
  assumes "\<forall>c \<in> set s. urn_char c" "lower s = s"
  shows "urn_normalise lower (Some s) = s"
proof -
  have "spc \<notin> set s" using assms(1) by (auto simp: urn_char_def ascii_lower_digit_def)
  then show ?thesis
    using assms by (simp add: urn_normalise_def coalesce_text_def btrim_id dash_runs_id)
qed

lemma between_match: "between pre post (pre @ m @ post) = m"
  by (simp add: between_def)

lemma jsonb_minus_wf [inv_intros]: "json_object_wf j \<Longrightarrow> json_object_wf (jsonb_minus j k)"
  by (cases j) (simp_all add: inv_intros)

lemma jsonb_concat_wf [inv_intros]: "json_object_wf a \<Longrightarrow> json_object_wf (jsonb_concat a b)"
  by (cases "(a, b)" rule: jsonb_concat.cases) (simp_all add: btree_wf_fold)

lemma json_get_minus: "json_get (jsonb_minus j k) k' = (if k' = k then None else json_get j k')"
  by (cases j) (simp_all add: map_of_btree_remove)

lemma map_of_rev_wf: "btree_wf m \<Longrightarrow> map_of (rev m) = map_of m"
  using btree.entries_distinct by (metis distinct_rev map_of_eqI map_of_inject_set rev_map set_rev)

lemma json_get_concat:
  assumes "is_object a" "is_object b" "json_object_wf a" "json_object_wf b"
  shows "json_get (jsonb_concat a b) k = (case json_get b k of None \<Rightarrow> json_get a k | Some v \<Rightarrow> Some v)"
  using assms by (cases a; cases b) (auto simp: is_object_def map_of_fold_insert map_of_rev_wf split: option.splits)

lemma is_object_ops [simp]:
  "is_object (JObject m)"
  "is_object (jsonb_minus j k) = is_object j"
  "is_object j \<Longrightarrow> is_object (jsonb_concat j j')"
  "is_object (json_obj kvs)"
  "is_object (json_insert k v j) = is_object j"
  by (cases j; cases j'; simp add: is_object_def json_obj_def)+

lemma has_key_get: "json_get j k = Some v \<Longrightarrow> has_key j k"
  by (cases j) simp_all

lemma has_key_object: "is_object j \<Longrightarrow> has_key j k \<longleftrightarrow> json_get j k \<noteq> None"
  by (cases j) (simp_all add: is_object_def)

lemma get_text_is_object: "get_text print j k = Some v \<Longrightarrow> is_object j"
  by (cases j) (simp_all add: get_text_def is_object_def)

lemma set_jsonb_each: "set (jsonb_each (JObject m)) = set m"
  by (simp add: jsonb_each_def)

lemma max_opt_None [simp]: "max_opt xs = None \<longleftrightarrow> xs = []"
  by (simp add: max_opt_def)

lemma max_opt_greatest: "max_opt xs = Some m \<Longrightarrow> x \<in> set xs \<Longrightarrow> x \<le> m"
  by (auto simp: max_opt_def split: if_splits)

lemma max_opt_in: "max_opt xs = Some m \<Longrightarrow> m \<in> set xs"
  by (auto simp: max_opt_def split: if_splits intro: Max_in)

lemma max_opt_snoc: "\<forall>x \<in> set xs. x < y \<Longrightarrow> max_opt (xs @ [y]) = Some y"
  by (auto simp: max_opt_def intro!: Max_eqI)

lemma latest_by_in: "latest_by k xs = Some x \<Longrightarrow> x \<in> set xs"
  by (auto simp: latest_by_def split: if_splits) (metis last_in_set set_sort sort_key_simps(1) set_empty)

lemma latest_by_greatest: "latest_by k xs = Some x \<Longrightarrow> y \<in> set xs \<Longrightarrow> k y \<le> k x"
proof -
  assume a: "latest_by k xs = Some x" "y \<in> set xs"
  let ?s = "sort_key k xs"
  have ne: "?s \<noteq> []" using a(2) by (metis empty_iff list.set(1) set_sort)
  have x: "x = last ?s" using a(1) by (auto simp: latest_by_def split: if_splits)
  have "sorted (map k (butlast ?s @ [last ?s]))" using ne by simp
  then have "\<forall>z \<in> set (butlast ?s). k z \<le> k x" unfolding x map_append sorted_append by simp
  moreover have "y \<in> set (butlast ?s @ [last ?s])" using a(2) ne by (metis append_butlast_last_id set_sort)
  ultimately show ?thesis using x by auto
qed

lemma latest_by_snoc: "\<forall>x \<in> set xs. k x < k y \<Longrightarrow> latest_by k (xs @ [y]) = Some y"
proof -
  assume a: "\<forall>x \<in> set xs. k x < k y"
  obtain z where z: "latest_by k (xs @ [y]) = Some z" by (simp add: latest_by_def)
  from latest_by_in[OF z] latest_by_greatest[OF z, of y] a have "z = y" by fastforce
  with z show ?thesis by simp
qed

text \<open>Two objects with the same members are the same value.\<close>

lemma btree_ext:
  assumes "btree_wf m" "btree_wf m'" "map_of m = map_of m'"
  shows "m = m'"
proof -
  have "fst ` set m = fst ` set m'" using assms(3) by (metis dom_map_of_conv_image_fst)
  then have k: "map fst m = map fst m'"
    using assms(1,2) unfolding btree_wf_def by (intro strict_sorted_equal) simp_all
  have v: "n = map (\<lambda>k. (k, the (map_of n k))) (map fst n)" if "btree_wf n" for n :: "('a, 'b) btree_map"
    using btree.entries_distinct[OF that] by (auto simp: comp_def intro!: map_idI[symmetric])
  show ?thesis using v[OF assms(1)] v[OF assms(2)] k assms(3) by simp
qed

lemma json_object_ext:
  assumes "json_object_wf a" "json_object_wf b" "is_object a" "is_object b" "\<And>k. json_get a k = json_get b k"
  shows "a = b"
  using assms by (cases a; cases b) (auto simp: is_object_def fun_eq_iff intro!: btree_ext)

end
