(* ===== verification/Ckp_Store.thy ===== *)
theory Ckp_Store
  imports Sql_Base Publish_Drain
begin

text \<open>
  The tables of \<^verbatim>\<open>src/sql/pgck-baseline.sql\<close> that the governed path writes, the interface to
  what it calls outside the repository, and its pure helpers: the Turtle renderings that
  the shape gate validates, the server-derived stamps, the admission of types, the proof
  obligations and the resolution of the session's project.

  The record \<open>ckp_env\<close> holds what is outside the repository: the RDF engine \<^verbatim>\<open>pgrdf\<close> (its
  store is the abstract component \<open>rdf\<close> of the database), \<^verbatim>\<open>pgcrypto\<close>, and the
  collation-dependent functions of PostgreSQL. The functions whose body is a sequence of
  \<^verbatim>\<open>pgrdf\<close> calls (\<^verbatim>\<open>_composed_shapes\<close>, \<^verbatim>\<open>validate\<close>, \<^verbatim>\<open>project_links\<close>,
  \<^verbatim>\<open>_project_instance_spine\<close>) are part of that interface: they read the tables and change
  only the RDF store.
\<close>

section \<open>Tables\<close>

record instance_row =
  i_id :: str
  i_body :: json
  i_created :: int
  i_updated :: int

record ledger_row =
  l_seq :: int
  l_instance_id :: str
  l_body_sha256 :: str
  l_sig :: str
  l_prev_seq :: "int option"

record proof_row =
  pr_id :: int
  pr_about :: str
  pr_method :: str
  pr_digest :: str

record obligation_row =
  o_project :: str
  o_obligation :: str
  o_target_type :: str
  o_check_name :: str
  o_added_epoch :: int
  o_active :: bool

record 'g ckp_db =
  t_config :: "str \<Rightarrow> str option"
  t_instances :: "instance_row list"
  t_ledger :: "ledger_row list"
  t_proof :: "proof_row list"
  t_outbox :: "outbox_row list"
  t_kernel_epoch :: "str \<Rightarrow> int option"
  t_obligations :: "obligation_row list"
  s_ledger :: int
  s_proof :: int
  s_outbox :: int
  rdf :: 'g

section \<open>Exceptions\<close>

text \<open>One constructor per \<^verbatim>\<open>RAISE EXCEPTION\<close> of the modelled functions; \<open>Engine_Error\<close>
  is an exception raised below them, with its \<^verbatim>\<open>SQLSTATE\<close> and \<^verbatim>\<open>SQLERRM\<close>.\<close>

datatype sql_error =
    Seal_No_Type
  | Seal_No_Identity_Key
  | Seal_Unattributed
  | Seal_Not_Owner str str
  | Seal_Type_Not_Admitted str
  | Seal_No_Kernel_Named
  | Seal_Shape_Gate str
  | Seal_Obligation_Refused str
  | Seal_Ledger_Shape
  | Seal_Proof_Shape
  | Seal_Obligation_Proof_Shape str
  | Seal_Token_Residue nat
  | Seal_Residue_Proof_Shape
  | Seal_Grant_Ref str
  | Seal_Grant_Proof_Shape
  | Project_Ambiguous str "str list"
  | Project_Not_Canonical str
  | Sequence_Limit
  | Governed_Op_Refused string
  | Engine_Error str str

definition sqlstate :: "sql_error \<Rightarrow> str" where
  "sqlstate e = (case e of Seal_Not_Owner _ _ \<Rightarrow> lit ''42501'' | Engine_Error s _ \<Rightarrow> s
     | Sequence_Limit \<Rightarrow> lit ''2200H'' | _ \<Rightarrow> lit ''P0001'')"

type_synonym 'a sql = "sql_error + 'a"

section \<open>What lies outside the repository\<close>

record 'g ckp_env =
  lower_text :: "str \<Rightarrow> str"
  jsonb_text :: "json \<Rightarrow> str"
  int4_in :: "str \<Rightarrow> int sql"
  jsonb_in :: "str \<Rightarrow> json sql"
  utc_text :: "int \<Rightarrow> str"
  local_text :: "int \<Rightarrow> str"
  sha256_hex :: "bytes \<Rightarrow> str"
  hmac_sha256_hex :: "str \<Rightarrow> str \<Rightarrow> str"
  graph_iri :: "int \<Rightarrow> 'g \<Rightarrow> str option"
  graph_nonempty :: "str \<Rightarrow> 'g \<Rightarrow> bool"
  graph_names :: "'g \<Rightarrow> str list sql"
  pinned_digest :: "str \<Rightarrow> 'g \<Rightarrow> str option"
  structural_digest :: "str \<Rightarrow> 'g \<Rightarrow> str option sql"
  ask_declared :: "str option \<Rightarrow> str \<Rightarrow> 'g \<Rightarrow> str option sql"
  target_shape :: "str option \<Rightarrow> str \<Rightarrow> 'g \<Rightarrow> str option sql"
  shape_datatypes :: "str option \<Rightarrow> 'g \<Rightarrow> (str \<times> str) list sql"
  superclasses :: "str option \<Rightarrow> str \<Rightarrow> 'g \<Rightarrow> str list sql"
  shacl_report :: "str option \<Rightarrow> int option \<Rightarrow> 'g \<Rightarrow> (json \<times> 'g) sql"
  composed_shapes :: "str option \<Rightarrow> str option \<Rightarrow> 'g ckp_db \<Rightarrow> (int \<times> 'g) sql"
  validate_ttl :: "str \<Rightarrow> int option \<Rightarrow> 'g ckp_db \<Rightarrow> (bool \<times> 'g) sql"
  project_links :: "str option \<Rightarrow> str \<Rightarrow> json \<Rightarrow> 'g ckp_db \<Rightarrow> 'g sql"
  project_instance_spine :: "str \<Rightarrow> json \<Rightarrow> str option \<Rightarrow> 'g ckp_db \<Rightarrow> 'g"

text \<open>The namespace \<^verbatim>\<open>N\<close> of the functions.\<close>

definition core_ns :: str where
  "core_ns = lit ''https://conceptkernel.org/ontology/v3.11/core#''"

definition core :: "string \<Rightarrow> str" where
  "core x = core_ns @ lit x"

abbreviation body_text :: "'g ckp_env \<Rightarrow> json \<Rightarrow> str \<Rightarrow> str option" where
  "body_text E \<equiv> get_text (jsonb_text E)"

definition urn :: "'g ckp_env \<Rightarrow> str \<Rightarrow> str" where
  "urn E s = urn_normalise (lower_text E) (Some s)"

section \<open>The session's project\<close>

definition kernel_iri :: "str \<Rightarrow> str" where
  "kernel_iri k = lit ''urn:ckp:'' @ k @ lit ''/kernel''"

definition kernel_graph_iri :: "str \<Rightarrow> str" where
  "kernel_graph_iri k = lit ''urn:ckp:'' @ k @ lit ''/kernel/ck''"

text \<open>\<^verbatim>\<open>^[a-z0-9]+(-[a-z0-9]+)*$\<close>\<close>

definition canonical :: "str \<Rightarrow> bool" where
  "canonical s \<longleftrightarrow> list_all (\<lambda>p. p \<noteq> [] \<and> list_all ascii_lower_digit p) (split_on dash s)"

definition sealed_kernel_ids :: "'g ckp_env \<Rightarrow> 'g ckp_db \<Rightarrow> str list" where
  "sealed_kernel_ids E db =
     List.map_filter (\<lambda>i. body_text E (i_body i) (lit ''@id''))
       (filter (\<lambda>i. body_text E (i_body i) (lit ''type'') = Some (core ''Kernel'')) (t_instances db))"

definition one_project :: "str \<Rightarrow> str list \<Rightarrow> (str \<Rightarrow> str) \<Rightarrow> str option sql \<Rightarrow> str option sql" where
  "one_project v_raw hits name next_clause =
     (case hits of
        [] \<Rightarrow> next_clause
      | [h] \<Rightarrow> Inr (Some (name h))
      | _ \<Rightarrow> Inl (Project_Ambiguous v_raw hits))"

definition resolve_project :: "'g ckp_env \<Rightarrow> (str \<Rightarrow> str option) \<Rightarrow> 'g ckp_db \<Rightarrow> str option sql" where
  "resolve_project E s db =
     (case guc_nonempty s ''ckp.project'' of
        None \<Rightarrow> Inr None
      | Some v_raw \<Rightarrow>
          if canonical v_raw \<and> kernel_iri v_raw \<in> set (sealed_kernel_ids E db) then Inr (Some v_raw)
          else
            let name = between (lit ''urn:ckp:'') (lit ''/kernel'');
                hits = remdups (filter (\<lambda>k. lower_text E k = lower_text E (kernel_iri v_raw) \<and> canonical (name k))
                         (sealed_kernel_ids E db))
            in one_project v_raw hits name
                 (and_then (graph_names E (rdf db)) (\<lambda>gs.
                    let ghits = remdups (filter (\<lambda>g. lower_text E g = lower_text E (kernel_graph_iri v_raw)) gs)
                    in one_project v_raw ghits (between (lit ''urn:ckp:'') (lit ''/kernel/ck''))
                         (if canonical v_raw then Inr (Some v_raw) else Inl (Project_Not_Canonical v_raw)))))"

section \<open>Turtle renderings\<close>

text \<open>A plpgsql string literal's \<^verbatim>\<open>replace(replace(replace(s,'\','\\'),'"','\"'),chr(10),'\n')\<close>.\<close>

definition ttl_escape :: "str \<Rightarrow> str" where
  "ttl_escape s = concat (map (\<lambda>c. if c = 92 then [92, 92] else if c = 34 then [92, 34]
     else if c = lf then [92, 110] else [c]) s)"

text \<open>\<^verbatim>\<open>^[a-z][a-z0-9+.-]*:[^ ]\<close>\<close>

definition iri_like :: "str \<Rightarrow> bool" where
  "iri_like s \<longleftrightarrow>
     (case s of [] \<Rightarrow> False
      | c # cs \<Rightarrow> 97 \<le> c \<and> c \<le> 122 \<and>
          (case dropWhile (\<lambda>c. ascii_lower_digit c \<or> c = 43 \<or> c = dot \<or> c = dash) cs of
             a # b # _ \<Rightarrow> a = 58 \<and> b \<noteq> spc
           | _ \<Rightarrow> False))"

definition XSD_STRING :: str where
  "XSD_STRING = lit ''http://www.w3.org/2001/XMLSchema#string''"

definition ttl_object :: "str option \<Rightarrow> str \<Rightarrow> str" where
  "ttl_object v_d s =
     (if iri_like s \<and> (v_d = None \<or> v_d = Some []) then lit ''<'' @ s @ lit ''>''
      else lit [CHR 0x22] @ ttl_escape s @ lit [CHR 0x22] @
        (case v_d of None \<Rightarrow> [] | Some d \<Rightarrow> if d \<noteq> XSD_STRING then lit ''^^<'' @ d @ lit ''>'' else []))"

definition ttl_line :: "str \<Rightarrow> str \<Rightarrow> str \<Rightarrow> str" where
  "ttl_line subj key obj = lit ''<'' @ subj @ lit ''> <'' @ key @ lit ''> '' @ obj @ lit '' .'' @ [lf]"

definition type_line :: "str \<Rightarrow> str \<Rightarrow> str" where
  "type_line subj ty = lit ''<'' @ subj @ lit ''> a <'' @ ty @ lit ''> .'' @ [lf]"

definition skipped_keys :: "str list" where
  "skipped_keys = [lit ''type'', lit ''@id'', lit ''participant'', lit ''participant_display_name'',
     lit ''participant_email'']"

text \<open>The lines of one member; \<^verbatim>\<open>jsonb_array_elements_text\<close> gives null for a JSON null, and a
  concatenation with null would be null, so such an element adds nothing it can keep: the
  whole text becomes null. That case is \<open>None\<close>.\<close>

fun member_lines :: "(json \<Rightarrow> str) \<Rightarrow> str \<Rightarrow> (str \<Rightarrow> str option) \<Rightarrow> str \<times> json \<Rightarrow> str option" where
  "member_lines print subj dt (k, v) =
     (if k \<in> set skipped_keys \<or> 58 \<notin> set k then Some []
      else case v of
        JNumber _ \<Rightarrow> Some (ttl_line subj k (print v))
      | JBool b \<Rightarrow> Some (ttl_line subj k (if b then lit ''true'' else lit ''false''))
      | JString s \<Rightarrow> Some (ttl_line subj k (ttl_object (dt k) s))
      | JArray a \<Rightarrow>
          (if list_all (\<lambda>e. text_of print e \<noteq> None) a
           then Some (concat (map (\<lambda>s. ttl_line subj k (ttl_object (dt k) s)) (List.map_filter (text_of print) a)))
           else None)
      | _ \<Rightarrow> Some [])"

fun all_lines :: "str option list \<Rightarrow> str option" where
  "all_lines [] = Some []"
| "all_lines (x # xs) = Option.bind x (\<lambda>a. map_option ((@) a) (all_lines xs))"

definition body_to_ttl :: "(json \<Rightarrow> str) \<Rightarrow> (str \<times> str) list \<Rightarrow> json \<Rightarrow> str \<Rightarrow> str option" where
  "body_to_ttl print datatypes p_body p_subj =
     map_option ((@) (type_line p_subj (coalesce_text (get_text print p_body (lit ''type'')) (lit ''urn:ckp:Unknown''))))
       (all_lines (map (member_lines print p_subj (map_of (rev datatypes))) (jsonb_each p_body)))"

definition parent_closure_ttl :: "str \<Rightarrow> str list \<Rightarrow> str" where
  "parent_closure_ttl p_subj parents = concat (map (type_line p_subj) parents)"

definition stamp_iri_line :: "(json \<Rightarrow> str) \<Rightarrow> str \<Rightarrow> json \<Rightarrow> string \<Rightarrow> str" where
  "stamp_iri_line print subj stamps name =
     (case get_text print stamps (core name) of
        None \<Rightarrow> [] | Some v \<Rightarrow> ttl_line subj (core name) (lit ''<'' @ v @ lit ''>''))"

definition stamps_to_ttl :: "(json \<Rightarrow> str) \<Rightarrow> str \<Rightarrow> json \<Rightarrow> str" where
  "stamps_to_ttl print p_subj p_stamps =
     stamp_iri_line print p_subj p_stamps ''producedBy'' @
     stamp_iri_line print p_subj p_stamps ''createdBy'' @
     (case get_text print p_stamps (core ''sealedAtEpoch'') of
        None \<Rightarrow> [] | Some v \<Rightarrow> ttl_line p_subj (core ''sealedAtEpoch'') v) @
     stamp_iri_line print p_subj p_stamps ''conformsToShape''"

section \<open>Admission, stamps, reports\<close>

definition is_true :: "str option \<Rightarrow> bool" where
  "is_true x \<longleftrightarrow> x = Some (lit ''true'')"

definition type_admitted :: "'g ckp_env \<Rightarrow> str option \<Rightarrow> str option \<Rightarrow> int \<Rightarrow> 'g \<Rightarrow> bool sql" where
  "type_admitted E p_type p_project p_comp g =
     (case p_type of
        None \<Rightarrow> Inr False
      | Some ty \<Rightarrow>
          if 58 \<notin> set ty then Inr False
          else and_then (ask_declared E (graph_iri E p_comp g) ty g) (\<lambda>v_ask.
            if is_true v_ask then Inr True
            else and_then (ask_declared E (Some (lit ''urn:ckp:'' @ coalesce_text p_project [] @ lit ''/kernel/board'')) ty g)
                   (\<lambda>v_ask. Inr (is_true v_ask))))"

text \<open>\<^verbatim>\<open>_derived_stamps\<close>: the stamps only the server writes.\<close>

definition on_behalf_of :: "'g ckp_env \<Rightarrow> (str \<Rightarrow> str option) \<Rightarrow> str \<Rightarrow> (str \<times> json) list" where
  "on_behalf_of E s p_participant =
     (case guc_trimmed s ''ckp.on_behalf_of'' of
        None \<Rightarrow> []
      | Some v \<Rightarrow>
          let obo = lit ''urn:ckp:participant:'' @ urn E v
          in if obo \<noteq> p_participant then [(core ''onBehalfOf'', JString obo)] else [])"

definition derived_stamps ::
    "'g ckp_env \<Rightarrow> (str \<Rightarrow> str option) \<Rightarrow> str \<Rightarrow> str option \<Rightarrow> str \<Rightarrow> int \<Rightarrow> 'g ckp_db \<Rightarrow> json sql" where
  "derived_stamps E s p_type p_project p_participant p_shapes_graph db =
     (case p_project of
        None \<Rightarrow> Inl Seal_No_Kernel_Named
      | Some proj \<Rightarrow>
          if btrim spc proj = [] then Inl Seal_No_Kernel_Named
          else and_then (target_shape E (graph_iri E p_shapes_graph (rdf db)) p_type (rdf db)) (\<lambda>v_shp.
            Inr (json_obj
              ([(core ''producedBy'', JString (kernel_graph_iri proj)),
                (core ''createdBy'', JString p_participant)] @
               on_behalf_of E s p_participant @
               [(core ''sealedAtEpoch'', JNumber (JInt (case t_kernel_epoch db proj of None \<Rightarrow> 0 | Some e \<Rightarrow> e)))] @
               (case v_shp of None \<Rightarrow> [] | Some x \<Rightarrow> [(core ''conformsToShape'', JString x)])))))"

text \<open>\<^verbatim>\<open>_report_summary\<close>: \<^verbatim>\<open>string_agg\<close> over no row, and over rows whose text is null, is null.\<close>

definition NOT_ARRAY :: sql_error where
  "NOT_ARRAY = Engine_Error (lit ''22023'') (lit ''cannot extract elements from a scalar'')"

definition array_elements :: "json option \<Rightarrow> json list sql" where
  "array_elements j = (case j of None \<Rightarrow> Inr [] | Some (JArray a) \<Rightarrow> Inr a | Some _ \<Rightarrow> Inl NOT_ARRAY)"

text \<open>\<^verbatim>\<open>regexp_replace(s, '.*shacl#', '')\<close>: up to and with the last occurrence.\<close>

fun before_sub :: "str \<Rightarrow> str \<Rightarrow> str option" where
  "before_sub pat [] = None"
| "before_sub pat (c # cs) =
     (case strip_prefix pat (c # cs) of
        Some _ \<Rightarrow> Some []
      | None \<Rightarrow> map_option ((#) c) (before_sub pat cs))"

definition after_last_sub :: "str \<Rightarrow> str \<Rightarrow> str" where
  "after_last_sub pat s = (case before_sub (rev pat) (rev s) of None \<Rightarrow> s | Some r \<Rightarrow> rev r)"

definition summary_row :: "(json \<Rightarrow> str) \<Rightarrow> json \<Rightarrow> str option" where
  "summary_row print v =
     map_option (\<lambda>c. after_last_sub (lit ''shacl#'') c @
         (case get_text print v (lit ''resultPath'') of
            None \<Rightarrow> [] | Some p \<Rightarrow> lit '' on '' @ after_last (\<lambda>c. c = 35 \<or> c = 47) p) @
         (case get_text print v (lit ''resultMessage'') of
            None \<Rightarrow> [] | Some m \<Rightarrow> lit '' ('' @ m @ lit '')''))
       (get_text print v (lit ''sourceConstraintComponent''))"

definition report_summary :: "(json \<Rightarrow> str) \<Rightarrow> json \<Rightarrow> str option sql" where
  "report_summary print p_report =
     and_then (array_elements (json_get p_report (lit ''results''))) (\<lambda>vs.
       Inr (case List.map_filter (summary_row print) vs of
              [] \<Rightarrow> None
            | r # rs \<Rightarrow> Some (r @ concat (map (\<lambda>x. lit ''; '' @ x) rs))))"

text \<open>\<^verbatim>\<open>validate_report\<close> keeps the verdict and the results of the engine's report.\<close>

definition validate_report :: "'g ckp_env \<Rightarrow> str option \<Rightarrow> int option \<Rightarrow> 'g \<Rightarrow> (json \<times> 'g) sql" where
  "validate_report E p_ttl p_shapes_graph g =
     and_then (shacl_report E p_ttl p_shapes_graph g) (\<lambda>(v_report, g').
       Inr (json_obj
         [(lit ''conforms'', JBool (is_true (body_text E v_report (lit ''conforms'')))),
          (lit ''violations'', case json_get v_report (lit ''results'') of None \<Rightarrow> JArray [] | Some r \<Rightarrow> r)], g'))"

section \<open>Proof obligations\<close>

definition scope_members :: "(json \<Rightarrow> str) \<Rightarrow> json \<Rightarrow> str list" where
  "scope_members print body =
     (case json_get body (core ''includesKernel'') of
        Some (JArray a) \<Rightarrow> List.map_filter (text_of print) a
      | Some v \<Rightarrow> List.map_filter (text_of print) [v]
      | None \<Rightarrow> [])"

definition obligation_binds :: "'g ckp_env \<Rightarrow> 'g ckp_db \<Rightarrow> str \<Rightarrow> obligation_row \<Rightarrow> bool" where
  "obligation_binds E db p_project po \<longleftrightarrow>
     o_project po = p_project \<or>
     (starts_with (lit ''ckp://Scope#'') (o_project po) \<and>
      list_ex (\<lambda>sc. body_text E (i_body sc) (lit ''@id'') = Some (o_project po) \<and>
                 body_text E (i_body sc) (lit ''type'') = Some (core ''Scope'') \<and>
                 kernel_iri p_project \<in> set (scope_members (jsonb_text E) (i_body sc)))
        (t_instances db))"

definition oblig_digest_match :: "'g ckp_env \<Rightarrow> 'g ckp_db \<Rightarrow> json \<Rightarrow> bool" where
  "oblig_digest_match E db p_body \<longleftrightarrow>
     (case body_text E p_body (core ''surfaceDigest'') of
        None \<Rightarrow> True
      | Some v_digest \<Rightarrow>
          list_ex (\<lambda>i. body_text E (i_body i) (lit ''type'') = Some (core ''Epoch'') \<and>
             body_text E (i_body i) (core ''surfaceDigest'') = Some v_digest \<and>
             (case body_text E p_body (core ''epoch'') of
                None \<Rightarrow> True | Some e \<Rightarrow> body_text E (i_body i) (core ''epoch'') = Some e))
            (t_instances db))"

definition oblig_adopts_resolves :: "'g ckp_env \<Rightarrow> 'g ckp_db \<Rightarrow> json \<Rightarrow> bool" where
  "oblig_adopts_resolves E db p_body \<longleftrightarrow>
     (case body_text E p_body (core ''adopts'') of
        None \<Rightarrow> True | Some g \<Rightarrow> graph_nonempty E g (rdf db))"

definition oblig_structural_pin :: "'g ckp_env \<Rightarrow> 'g ckp_db \<Rightarrow> json \<Rightarrow> bool sql" where
  "oblig_structural_pin E db p_body =
     (case body_text E p_body (core ''adopts'') of
        None \<Rightarrow> Inr True
      | Some g \<Rightarrow> (case pinned_digest E g (rdf db) of
          None \<Rightarrow> Inr True
        | Some v_pin \<Rightarrow> and_then (structural_digest E g (rdf db)) (\<lambda>v_now.
            Inr (case v_now of None \<Rightarrow> True | Some d \<Rightarrow> d = v_pin))))"

text \<open>The check reads the warnings the gate has just left in the setting.\<close>

definition oblig_no_warnings :: "'g ckp_env \<Rightarrow> (str \<Rightarrow> str option) \<Rightarrow> bool sql" where
  "oblig_no_warnings E s =
     (case guc_nonempty s ''ckp.last_warnings'' of
        None \<Rightarrow> Inr True
      | Some w \<Rightarrow> and_then (jsonb_in E w) (\<lambda>j. and_then (array_elements (Some j)) (\<lambda>a. Inr (a = []))))"

text \<open>\<open>True\<close> is satisfaction (the check returned null); an unknown check fails closed.\<close>

definition run_check ::
    "'g ckp_env \<Rightarrow> (str \<Rightarrow> str option) \<Rightarrow> 'g ckp_db \<Rightarrow> json \<Rightarrow> str \<Rightarrow> bool sql" where
  "run_check E s db p_body check_name =
     (if check_name = lit ''digest-match'' then Inr (oblig_digest_match E db p_body)
      else if check_name = lit ''adopts-resolves'' then Inr (oblig_adopts_resolves E db p_body)
      else if check_name = lit ''structural-pin'' then oblig_structural_pin E db p_body
      else if check_name = lit ''no-warnings'' then oblig_no_warnings E s
      else Inr False)"

text \<open>\<open>Inl name\<close> is the refusal by that obligation, \<open>Inr names\<close> the satisfied ones.\<close>

fun run_obligations :: "(str \<Rightarrow> bool sql) \<Rightarrow> obligation_row list \<Rightarrow> str list \<Rightarrow> (str + str list) sql" where
  "run_obligations check [] v_sat = Inr (Inr v_sat)"
| "run_obligations check (r # rs) v_sat =
     and_then (check (o_check_name r)) (\<lambda>pass.
       if pass then run_obligations check rs (v_sat @ [o_obligation r]) else Inr (Inl (o_obligation r)))"

definition run_proof_obligations ::
    "'g ckp_env \<Rightarrow> (str \<Rightarrow> str option) \<Rightarrow> 'g ckp_db \<Rightarrow> str \<Rightarrow> json \<Rightarrow> str \<Rightarrow> (str + str list) sql" where
  "run_proof_obligations E s db p_type p_body p_project =
     run_obligations (run_check E s db p_body)
       (sort_key o_obligation
         (filter (\<lambda>po. o_active po \<and> o_target_type po = p_type \<and> obligation_binds E db p_project po) (t_obligations db)))
       []"

end
