(* ===== verification/Ckp_Seal.thy ===== *)
theory Ckp_Seal
  imports Ckp_Store
begin

text \<open>
  The write path of \<^verbatim>\<open>src/sql/pgck-baseline.sql\<close>: \<^verbatim>\<open>ckp.seal\<close>, the trigger
  \<^verbatim>\<open>ledger_to_outbox\<close> that fires on its ledger insert, and \<^verbatim>\<open>ckp.verify\<close>. One definition per
  numbered step of \<^verbatim>\<open>seal\<close>, composed in its order. A seal that raises has no result
  state: the statement is rolled back.
\<close>

section \<open>Identity\<close>

definition identity_key :: "(str \<Rightarrow> str option) \<Rightarrow> 'g ckp_db \<Rightarrow> str option" where
  "identity_key s db =
     (case guc_nonempty s ''ckp.identity_key'' of
        Some k \<Rightarrow> Some k | None \<Rightarrow> t_config db (lit ''identity_key''))"

definition participant_claim :: "'g ckp_env \<Rightarrow> json \<Rightarrow> string \<Rightarrow> str option" where
  "participant_claim E p_body k =
     Option.bind (json_get p_body (lit ''participant'')) (\<lambda>p. body_text E p (lit k))"

definition participant_urn :: "'g ckp_env \<Rightarrow> str \<Rightarrow> str" where
  "participant_urn E x = lit ''urn:ckp:participant:'' @ urn E x"

text \<open>Step 0: the verified requester wins, a claimed \<^verbatim>\<open>sub\<close> stands only without one, and with
  neither the write is refused.\<close>

definition resolve_participant :: "'g ckp_env \<Rightarrow> (str \<Rightarrow> str option) \<Rightarrow> json \<Rightarrow> str sql" where
  "resolve_participant E s p_body =
     (case guc_trimmed s ''ckp.requester'' of
        Some v_req \<Rightarrow> Inr (participant_urn E v_req)
      | None \<Rightarrow> (case participant_claim E p_body ''sub'' of
          Some v_sub \<Rightarrow> if btrim spc v_sub \<noteq> [] then Inr (participant_urn E v_sub) else Inl Seal_Unattributed
        | None \<Rightarrow> Inl Seal_Unattributed))"

definition display_claim :: "'g ckp_env \<Rightarrow> json \<Rightarrow> string \<Rightarrow> str option" where
  "display_claim E p_body k = nullif_empty (Some (btrim spc (coalesce_text (participant_claim E p_body k) [])))"

definition set_opt :: "string \<Rightarrow> str option \<Rightarrow> json \<Rightarrow> json" where
  "set_opt k v j = (case v of None \<Rightarrow> j | Some s \<Rightarrow> json_insert (lit k) (JString s) j)"

definition attribute_body :: "'g ckp_env \<Rightarrow> str \<Rightarrow> json \<Rightarrow> json" where
  "attribute_body E v_participant p_body =
     set_opt ''participant_email'' (display_claim E p_body ''email'')
       (set_opt ''participant_display_name'' (display_claim E p_body ''preferred_username'')
         (jsonb_concat (jsonb_minus p_body (lit ''participant''))
            (json_obj [(core ''participant'', JString v_participant)])))"

text \<open>Step 0b: the five keys a caller cannot assert.\<close>

definition stamp_keys :: "str list" where
  "stamp_keys = [core ''producedBy'', core ''createdBy'', core ''sealedAtEpoch'', core ''conformsToShape'',
     core ''onBehalfOf'']"

definition strip_stamps :: "json \<Rightarrow> json" where
  "strip_stamps p_body = fold (\<lambda>k j. jsonb_minus j k) stamp_keys p_body"

definition project_owner :: "'g ckp_env \<Rightarrow> 'g ckp_db \<Rightarrow> str \<Rightarrow> str option" where
  "project_owner E db v_mo =
     Option.bind
       (latest_by i_created
         (filter (\<lambda>i. body_text E (i_body i) (lit ''@id'') = Some v_mo \<and>
                      body_text E (i_body i) (lit ''type'') = Some (core ''Project'')) (t_instances db)))
       (\<lambda>i. body_text E (i_body i) (core ''ownedBy''))"

definition membership_gate :: "'g ckp_env \<Rightarrow> 'g ckp_db \<Rightarrow> str \<Rightarrow> json \<Rightarrow> unit sql" where
  "membership_gate E db v_participant p_body =
     (if body_text E p_body (lit ''type'') \<noteq> Some (core ''Membership'') then Inr ()
      else case body_text E p_body (core ''memberOf'') of
        None \<Rightarrow> Inr ()
      | Some v_mo \<Rightarrow> (case project_owner E db v_mo of
          None \<Rightarrow> Inr ()
        | Some v_mown \<Rightarrow> guard_or (v_mown = v_participant) (Seal_Not_Owner v_mo v_mown)))"

section \<open>The shape gate\<close>

text \<open>The graph a Supersession excludes: what the sealed Adoption it names adopts.\<close>

definition superseded_graph :: "'g ckp_env \<Rightarrow> 'g ckp_db \<Rightarrow> str \<Rightarrow> json \<Rightarrow> str option" where
  "superseded_graph E db v_type p_body =
     (if v_type \<noteq> core ''Supersession'' then None
      else case body_text E p_body (core ''supersedes'') of
        None \<Rightarrow> None
      | Some target \<Rightarrow> Option.bind
          (List.find (\<lambda>a. body_text E (i_body a) (lit ''@id'') = Some target \<and>
                          body_text E (i_body a) (lit ''type'') = Some (core ''Adoption'')) (t_instances db))
          (\<lambda>a. body_text E (i_body a) (core ''adopts'')))"

definition is_guidance :: "'g ckp_env \<Rightarrow> json \<Rightarrow> bool" where
  "is_guidance E r \<longleftrightarrow> body_text E r (lit ''resultSeverity'') \<in> {Some (lit ''sh:Warning''), Some (lit ''sh:Info'')}"

definition gate_refusal :: "'g ckp_env \<Rightarrow> json list \<Rightarrow> sql_error" where
  "gate_refusal E v_viol =
     (case report_summary (jsonb_text E)
             (json_obj [(lit ''conforms'', JString (lit ''false'')), (lit ''violations'', JArray v_viol)]) of
        Inl e \<Rightarrow> e
      | Inr m \<Rightarrow> Seal_Shape_Gate (coalesce_text m (jsonb_text E (JArray v_viol))))"

definition candidate_ttl ::
    "'g ckp_env \<Rightarrow> str \<Rightarrow> str \<Rightarrow> json \<Rightarrow> json \<Rightarrow> int \<Rightarrow> 'g \<Rightarrow> str option sql" where
  "candidate_ttl E p_instance_id v_type p_body v_stamps v_comp g =
     and_then (shape_datatypes E (graph_iri E v_comp g) g) (\<lambda>dts.
     and_then (superclasses E (graph_iri E v_comp g) v_type g) (\<lambda>parents.
       Inr (map_option (\<lambda>b. b @ parent_closure_ttl p_instance_id parents @
                            stamps_to_ttl (jsonb_text E) p_instance_id v_stamps)
              (body_to_ttl (jsonb_text E) dts p_body p_instance_id))))"

text \<open>Step 1. The result is the stamps, the value of \<^verbatim>\<open>ckp.last_warnings\<close> and the RDF store.\<close>

definition shape_gate ::
    "'g ckp_env \<Rightarrow> (str \<Rightarrow> str option) \<Rightarrow> str \<Rightarrow> str \<Rightarrow> str option \<Rightarrow> str \<Rightarrow> json \<Rightarrow> 'g ckp_db
       \<Rightarrow> (json \<times> str \<times> 'g) sql" where
  "shape_gate E s p_instance_id v_type v_project v_participant p_body db =
     and_then (composed_shapes E v_project (superseded_graph E db v_type p_body) db) (\<lambda>(v_comp, g1).
     and_then (type_admitted E (Some v_type) v_project v_comp g1) (\<lambda>admitted.
     and_then (guard_or admitted (Seal_Type_Not_Admitted v_type)) (\<lambda>_.
     and_then (derived_stamps E s v_type v_project v_participant v_comp (db\<lparr>rdf := g1\<rparr>)) (\<lambda>v_stamps.
     and_then (candidate_ttl E p_instance_id v_type p_body v_stamps v_comp g1) (\<lambda>v_cand.
     and_then (validate_report E v_cand (Some v_comp) g1) (\<lambda>(v_report, g2).
     and_then (array_elements (json_get v_report (lit ''violations''))) (\<lambda>rs.
       let v_viol = filter (\<lambda>r. \<not> is_guidance E r) rs; v_warn = filter (is_guidance E) rs
       in and_then (guard_or (v_viol = []) (gate_refusal E v_viol)) (\<lambda>_.
            Inr (v_stamps, if v_warn = [] then [] else jsonb_text E (JArray v_warn), g2)))))))))"

section \<open>The writes\<close>

definition upsert_instance :: "int \<Rightarrow> str \<Rightarrow> json \<Rightarrow> instance_row list \<Rightarrow> instance_row list" where
  "upsert_instance now p_id p_body rows =
     (if list_ex (\<lambda>i. i_id i = p_id) rows
      then map (\<lambda>i. if i_id i = p_id then i\<lparr>i_body := p_body, i_updated := now\<rparr> else i) rows
      else rows @ [\<lparr>i_id = p_id, i_body = p_body, i_created = now, i_updated = now\<rparr>])"

definition find_instance :: "'g ckp_db \<Rightarrow> str \<Rightarrow> json option" where
  "find_instance db p_id = map_option i_body (List.find (\<lambda>i. i_id i = p_id) (t_instances db))"

text \<open>\<^verbatim>\<open>nextval\<close> on a \<^verbatim>\<open>bigint\<close> sequence.\<close>

definition nextval :: "int \<Rightarrow> int sql" where
  "nextval n = (if n < 2 ^ 63 then Inr n else Inl Sequence_Limit)"

definition compute_publish_subject :: "str option \<Rightarrow> str \<Rightarrow> str" where
  "compute_publish_subject p_type_uri p_project =
     lit ''event.kernel.'' @ p_project @ lit ''.'' @
     coalesce_text (nullif_empty (Some (after_last (\<lambda>c. c = 47 \<or> c = 35) (coalesce_text p_type_uri []))))
       (lit ''Instance'') @ lit ''.sealed''"

text \<open>The project an event belongs to: from the sealed stamp, else the session's.\<close>

definition event_project :: "'g ckp_env \<Rightarrow> (str \<Rightarrow> str option) \<Rightarrow> 'g ckp_db \<Rightarrow> json \<Rightarrow> str sql" where
  "event_project E s db v_body =
     (let produced = coalesce_text (body_text E v_body (core ''producedBy'')) [];
          v_proj = between (lit ''urn:ckp:'') (lit ''/kernel/ck'') produced
      in if v_proj = [] \<or> v_proj = produced
         then and_then (resolve_project E s db) (\<lambda>p. Inr (coalesce_text p []))
         else Inr v_proj)"

definition sender_header :: "'g ckp_env \<Rightarrow> json \<Rightarrow> (str \<times> json) list" where
  "sender_header E v_body =
     (let by = (\<lambda>k. case body_text E v_body k of None \<Rightarrow> JNull | Some v \<Rightarrow> JString v)
      in if has_key v_body (core ''createdBy'') then [(lit ''by'', by (core ''createdBy''))]
         else if has_key v_body (lit ''urn:ckp:board/created_by'')
         then [(lit ''by'', by (lit ''urn:ckp:board/created_by''))]
         else [])"

definition event_row :: "'g ckp_env \<Rightarrow> int \<Rightarrow> str \<Rightarrow> json \<Rightarrow> drained_row" where
  "event_row E seq proj v_body =
     \<lparr>d_ledger_seq = word_of_int seq,
      d_subject = compute_publish_subject (body_text E v_body (lit ''type'')) proj,
      d_payload = as_bytes (jsonb_text E v_body),
      d_headers = json_obj
        ([(lit ''Ck-Seq'', JString (show_i64 (word_of_int seq))),
          (lit ''Content-Type'', JString (lit ''application/json''))] @ sender_header E v_body)\<rparr>"

definition ledger_to_outbox ::
    "'g ckp_env \<Rightarrow> (str \<Rightarrow> str option) \<Rightarrow> ledger_row \<Rightarrow> 'g ckp_db \<Rightarrow> 'g ckp_db sql" where
  "ledger_to_outbox E s new db =
     (case find_instance db (l_instance_id new) of
        None \<Rightarrow> Inr db
      | Some v_body \<Rightarrow>
          and_then (event_project E s db v_body) (\<lambda>v_proj.
          and_then (nextval (s_outbox db)) (\<lambda>n.
            Inr (db\<lparr>t_outbox := t_outbox db @ [\<lparr>ob_seq = n, ob_data = event_row E (l_seq new) v_proj v_body\<rparr>],
                    s_outbox := n + 1\<rparr>))))"

definition insert_ledger ::
    "'g ckp_env \<Rightarrow> (str \<Rightarrow> str option) \<Rightarrow> str \<Rightarrow> str \<Rightarrow> str \<Rightarrow> int option \<Rightarrow> 'g ckp_db \<Rightarrow> 'g ckp_db sql" where
  "insert_ledger E s p_id v_sha v_sig v_prev db =
     and_then (nextval (s_ledger db)) (\<lambda>n.
       let row = \<lparr>l_seq = n, l_instance_id = p_id, l_body_sha256 = v_sha, l_sig = v_sig, l_prev_seq = v_prev\<rparr>
       in ledger_to_outbox E s row (db\<lparr>t_ledger := t_ledger db @ [row], s_ledger := n + 1\<rparr>))"

definition insert_proof :: "str \<Rightarrow> str \<Rightarrow> str \<Rightarrow> 'g ckp_db \<Rightarrow> 'g ckp_db sql" where
  "insert_proof about meth digest db =
     and_then (nextval (s_proof db)) (\<lambda>n.
       Inr (db\<lparr>t_proof := t_proof db @ [\<lparr>pr_id = n, pr_about = about, pr_method = meth, pr_digest = digest\<rparr>],
               s_proof := n + 1\<rparr>))"

text \<open>The Turtle of the protocol's own operations.\<close>

definition ttl_prefixes :: "str list" where
  "ttl_prefixes = [lit ''@prefix ckp: <https://conceptkernel.org/ontology/v3.11/core#> .'',
     lit ''@prefix xsd: <http://www.w3.org/2001/XMLSchema#> .'']"

definition quoted :: "str \<Rightarrow> str" where
  "quoted s = lit [CHR 0x22] @ s @ lit [CHR 0x22]"

definition indented :: "str \<Rightarrow> str list \<Rightarrow> str" where
  "indented pad ls = concat (map (\<lambda>l. lf # pad @ l) ls)"

definition show_int :: "int \<Rightarrow> str" where
  "show_int i = (if i < 0 then lit ''-'' @ show_nat (nat (- i)) else show_nat (nat i))"

definition ledger_ttl :: "str \<Rightarrow> str \<Rightarrow> str \<Rightarrow> int option \<Rightarrow> str \<Rightarrow> str" where
  "ledger_ttl p_id v_sha v_sig v_prev ts =
     indented (lit ''    '') (ttl_prefixes @
       [lit ''<urn:ckp:led:'' @ p_id @ lit ''> a ckp:LedgerEntry ;'',
        lit ''  ckp:about <'' @ p_id @ lit ''> ; ckp:bodySha '' @ quoted v_sha @ lit '' ; ckp:sig '' @ quoted v_sig @ lit '' ;'',
        lit ''  ckp:prev '' @ show_int (case v_prev of None \<Rightarrow> 0 | Some n \<Rightarrow> n) @ lit '' ;'',
        lit ''  ckp:ts '' @ quoted ts @ lit ''^^xsd:dateTime .''])"

definition proof_ttl :: "str \<Rightarrow> str \<Rightarrow> str \<Rightarrow> str \<Rightarrow> str \<Rightarrow> str \<Rightarrow> str" where
  "proof_ttl pad node p_id meth digest ts =
     indented pad (ttl_prefixes @
       [lit ''<urn:ckp:prf:'' @ node @ lit ''> a ckp:Proof ;'',
        lit ''  ckp:about <'' @ p_id @ lit ''> ; ckp:method '' @ quoted meth @ lit '' ; ckp:digest '' @ quoted digest @ lit '' ;'',
        lit ''  ckp:verifiedAt '' @ quoted ts @ lit ''^^xsd:dateTime .''])"

text \<open>\<^verbatim>\<open>IF NOT ckp.validate(\<dots>) THEN RAISE\<close>; the engine may leave its store changed.\<close>

definition check_ttl :: "'g ckp_env \<Rightarrow> int option \<Rightarrow> str \<Rightarrow> sql_error \<Rightarrow> 'g ckp_db \<Rightarrow> 'g ckp_db sql" where
  "check_ttl E v_core ttl err db =
     and_then (validate_ttl E ttl v_core db) (\<lambda>(ok, g). if ok then Inr (db\<lparr>rdf := g\<rparr>) else Inl err)"

definition checked_proof ::
    "'g ckp_env \<Rightarrow> int option \<Rightarrow> str \<Rightarrow> sql_error \<Rightarrow> str \<Rightarrow> str \<Rightarrow> str \<Rightarrow> 'g ckp_db \<Rightarrow> 'g ckp_db sql" where
  "checked_proof E v_core ttl err about meth digest db =
     and_then (check_ttl E v_core ttl err db) (insert_proof about meth digest)"

fun obligation_proofs ::
    "'g ckp_env \<Rightarrow> int option \<Rightarrow> str \<Rightarrow> str \<Rightarrow> str \<Rightarrow> str list \<Rightarrow> 'g ckp_db \<Rightarrow> 'g ckp_db sql" where
  "obligation_proofs E v_core p_id v_sha ts [] db = Inr db"
| "obligation_proofs E v_core p_id v_sha ts (v_ob # obs) db =
     and_then (checked_proof E v_core
        (proof_ttl (lit ''      '') (p_id @ lit '':'' @ v_ob) p_id (lit ''obligation:'' @ v_ob) v_sha ts)
        (Seal_Obligation_Proof_Shape v_ob) p_id (lit ''obligation:'' @ v_ob) v_sha db)
       (obligation_proofs E v_core p_id v_sha ts obs)"

text \<open>\<^verbatim>\<open>^[0-9a-f]{64}$\<close> and \<^verbatim>\<open>^[A-Za-z][A-Za-z0-9+.:#/_-]*$\<close>\<close>

definition hex64 :: "str \<Rightarrow> bool" where
  "hex64 s \<longleftrightarrow> length s = 64 \<and> list_all (\<lambda>c. is_ascii_digit c \<or> (97 \<le> c \<and> c \<le> 102)) s"

definition iri_chars :: "str \<Rightarrow> bool" where
  "iri_chars s \<longleftrightarrow> (case s of [] \<Rightarrow> False
     | c # cs \<Rightarrow> is_ascii_alphanumeric c \<and> \<not> is_ascii_digit c \<and>
         list_all (\<lambda>c. is_ascii_alphanumeric c \<or> c \<in> set (lit ''+.:#/_-'')) cs)"

definition residue_proof ::
    "'g ckp_env \<Rightarrow> (str \<Rightarrow> str option) \<Rightarrow> int option \<Rightarrow> str \<Rightarrow> str \<Rightarrow> 'g ckp_db \<Rightarrow> 'g ckp_db sql" where
  "residue_proof E s v_core p_id ts db =
     (case guc_trimmed s ''ckp.token_residue'' of
        None \<Rightarrow> Inr db
      | Some v_res \<Rightarrow>
          and_then (guard_or (hex64 v_res) (Seal_Token_Residue (length v_res))) (\<lambda>_.
            checked_proof E v_core
              (proof_ttl (lit ''      '') (p_id @ lit '':tr'') p_id (lit ''token-residue'') v_res ts)
              Seal_Residue_Proof_Shape p_id (lit ''token-residue'') v_res db))"

definition grant_proof ::
    "'g ckp_env \<Rightarrow> (str \<Rightarrow> str option) \<Rightarrow> int option \<Rightarrow> str \<Rightarrow> str \<Rightarrow> str \<Rightarrow> 'g ckp_db \<Rightarrow> 'g ckp_db sql" where
  "grant_proof E s v_core p_id v_sha ts db =
     (case guc_trimmed s ''ckp.grant_ref'' of
        None \<Rightarrow> Inr db
      | Some v_gref \<Rightarrow>
          and_then (guard_or (iri_chars v_gref) (Seal_Grant_Ref v_gref)) (\<lambda>_.
            checked_proof E v_core
              (proof_ttl (lit ''      '') (p_id @ lit '':gr'') p_id (lit ''grant-ref:'' @ v_gref) v_sha ts)
              Seal_Grant_Proof_Shape p_id (lit ''grant-ref:'' @ v_gref) v_sha db))"

definition HMAC_METHOD :: str where "HMAC_METHOD = lit ''hmac+sha256''"

definition body_digest :: "'g ckp_env \<Rightarrow> json \<Rightarrow> str" where
  "body_digest E body = sha256_hex E (as_bytes (jsonb_text E body))"

text \<open>Steps 2 to 6: the digest over the final body, the instance, the ledger entry (with
  the trigger), the proofs and the projections.\<close>

definition seal_writes ::
    "'g ckp_env \<Rightarrow> (str \<Rightarrow> str option) \<Rightarrow> int \<Rightarrow> int option \<Rightarrow> str \<Rightarrow> str option \<Rightarrow> str list \<Rightarrow> str \<Rightarrow> json \<Rightarrow> 'g ckp_db
       \<Rightarrow> (str \<times> 'g ckp_db) sql" where
  "seal_writes E s now v_core key v_project obs p_id body db =
     (let v_sha = body_digest E body;
          v_sig = hmac_sha256_hex E v_sha key;
          v_prev = max_opt (map l_seq (t_ledger db));
          ts = local_text E now;
          db1 = db\<lparr>t_instances := upsert_instance now p_id body (t_instances db)\<rparr>
      in and_then (check_ttl E v_core (ledger_ttl p_id v_sha v_sig v_prev ts) Seal_Ledger_Shape db1) (\<lambda>db2.
         and_then (insert_ledger E s p_id v_sha v_sig v_prev db2) (\<lambda>db3.
         and_then (checked_proof E v_core (proof_ttl (lit ''    '') p_id p_id HMAC_METHOD v_sha ts) Seal_Proof_Shape
                     p_id HMAC_METHOD v_sha db3) (\<lambda>db4.
         and_then (obligation_proofs E v_core p_id v_sha ts obs db4) (\<lambda>db5.
         and_then (residue_proof E s v_core p_id ts db5) (\<lambda>db6.
         and_then (grant_proof E s v_core p_id v_sha ts db6) (\<lambda>db7.
         and_then (project_links E v_project p_id body db7) (\<lambda>g8.
           let db8 = db7\<lparr>rdf := g8\<rparr>
           in Inr (v_sha, db8\<lparr>rdf := project_instance_spine E p_id body v_project db8\<rparr>)))))))))"

definition config_int :: "'g ckp_env \<Rightarrow> 'g ckp_db \<Rightarrow> string \<Rightarrow> int option sql" where
  "config_int E db k =
     (case t_config db (lit k) of None \<Rightarrow> Inr None | Some v \<Rightarrow> and_then (int4_in E v) (\<lambda>n. Inr (Some n)))"

section \<open>seal\<close>

definition set_setting :: "string \<Rightarrow> str \<Rightarrow> 'db txn \<Rightarrow> 'db txn" where
  "set_setting k v t = t\<lparr>settings := (settings t)(lit k \<mapsto> v)\<rparr>"

text \<open>The gates of steps 0b to 1b on the attributed and stripped body: the stamps, the satisfied
  obligations, and the transaction with the warnings set and the RDF store advanced.\<close>

definition seal_gates ::
    "'g ckp_env \<Rightarrow> str \<Rightarrow> str \<Rightarrow> str option \<Rightarrow> str \<Rightarrow> json \<Rightarrow> 'g ckp_db txn \<Rightarrow> (json \<times> str list \<times> 'g ckp_db txn) sql" where
  "seal_gates E p_id v_type v_project v_participant body t =
     and_then (membership_gate E (txn_db t) v_participant body) (\<lambda>_.
     and_then (shape_gate E (settings t) p_id v_type v_project v_participant body (txn_db t)) (\<lambda>(v_stamps, v_warn, g).
       let t1 = set_setting ''ckp.last_warnings'' v_warn (t\<lparr>txn_db := (txn_db t)\<lparr>rdf := g\<rparr>\<rparr>)
       in and_then (run_proof_obligations E (settings t1) (txn_db t1) v_type body (coalesce_text v_project [])) (\<lambda>v_oblig.
            case v_oblig of
              Inl name \<Rightarrow> Inl (Seal_Obligation_Refused name)
            | Inr obs \<Rightarrow> Inr (v_stamps, obs, t1))))"

definition ckp_seal :: "'g ckp_env \<Rightarrow> int \<Rightarrow> str \<Rightarrow> json \<Rightarrow> 'g ckp_db txn \<Rightarrow> (str \<times> 'g ckp_db txn) sql" where
  "ckp_seal E now p_id p_body t =
     (let s = settings t; db = txn_db t
      in and_then (config_int E db ''core_graph_id'') (\<lambda>v_core.
         and_then (config_int E db ''kernel_graph_id'') (\<lambda>v_kgraph.
         and_then (resolve_project E s db) (\<lambda>v_project.
         and_then (ok_or (body_text E p_body (lit ''type'')) Seal_No_Type) (\<lambda>v_type.
         and_then (ok_or (nullif_empty (identity_key s db)) Seal_No_Identity_Key) (\<lambda>v_key.
         and_then (resolve_participant E s p_body) (\<lambda>v_participant.
           let body1 = strip_stamps (attribute_body E v_participant p_body)
           in and_then (seal_gates E p_id v_type v_project v_participant body1 t) (\<lambda>(v_stamps, obs, t1).
              and_then (seal_writes E (settings t1) now v_core v_key v_project obs p_id
                          (jsonb_concat body1 v_stamps) (txn_db t1)) (\<lambda>(v_sha, db').
                Inr (v_sha, t1\<lparr>txn_db := db'\<rparr>))))))))))"

section \<open>verify\<close>

definition ckp_verify :: "'g ckp_env \<Rightarrow> (str \<Rightarrow> str option) \<Rightarrow> 'g ckp_db \<Rightarrow> str \<Rightarrow> bool" where
  "ckp_verify E s db p_id =
     (case nullif_empty (identity_key s db) of
        None \<Rightarrow> False
      | Some key \<Rightarrow> (case find_instance db p_id of
        None \<Rightarrow> False
      | Some v_body \<Rightarrow>
          (case (latest_by l_seq (filter (\<lambda>l. l_instance_id l = p_id) (t_ledger db)),
                 latest_by pr_id (filter (\<lambda>p. pr_about p = p_id \<and> pr_method p = HMAC_METHOD) (t_proof db))) of
             (Some l, Some p) \<Rightarrow>
               let v_recompute = body_digest E v_body
               in l_prev_seq l = max_opt (map l_seq (filter (\<lambda>r. l_seq r < l_seq l) (t_ledger db))) \<and>
                  v_recompute = l_body_sha256 l \<and> l_body_sha256 l = pr_digest p \<and>
                  l_sig l = hmac_sha256_hex E v_recompute key
           | _ \<Rightarrow> False)))"

end
