(* ===== verification/Ckp_Seal_Props.thy ===== *)
theory Ckp_Seal_Props
  imports Ckp_Seal
begin

text \<open>
  What \<^verbatim>\<open>ckp.seal\<close> does when it returns, the invariant of the tables it writes, and the
  properties of sealed instances: they verify and keep verifying, tampering is detected,
  their identity is the requester's, and their events reach the outbox.
\<close>

section \<open>Effect of the writes\<close>

lemma find_upsert [simp]: "List.find (\<lambda>i. i_id i = p) (upsert_instance now p b rows) \<noteq> None"
  by (auto simp: upsert_instance_def find_None_iff list_ex_iff)

lemma body_find_upsert:
  "map_option i_body (List.find (\<lambda>i. i_id i = q) (upsert_instance now p b rows)) =
     (if q = p then Some b else map_option i_body (List.find (\<lambda>i. i_id i = q) rows))"
proof (cases "list_ex (\<lambda>i. i_id i = p) rows")
  case True
  have "map_option i_body (List.find (\<lambda>i. i_id i = q)
      (map (\<lambda>i. if i_id i = p then i\<lparr>i_body := b, i_updated := now\<rparr> else i) rows)) =
    (if q = p \<and> list_ex (\<lambda>i. i_id i = p) rows then Some b else map_option i_body (List.find (\<lambda>i. i_id i = q) rows))"
    by (induction rows) auto
  with True show ?thesis by (simp add: upsert_instance_def)
next
  case False
  then show ?thesis unfolding upsert_instance_def by (induction rows) auto
qed

lemma nextval_ok [ok_iff]: "nextval n = Inr m \<longleftrightarrow> n < 2 ^ 63 \<and> m = n"
  by (auto simp: nextval_def)

lemma set_setting_simps [simp]:
  "txn_db (set_setting k v t) = txn_db t" "settings (set_setting k v t) = (settings t)(lit k \<mapsto> v)"
  by (simp_all add: set_setting_def)

text \<open>What a proof insert does not touch.\<close>

definition frame where
  "frame db = (t_config db, t_instances db, t_ledger db, t_outbox db, t_kernel_epoch db, t_obligations db,
     s_ledger db, s_outbox db)"

lemma check_ttl_ok:
  "check_ttl E c ttl err db = Inr db' \<Longrightarrow> frame db' = frame db \<and> t_proof db' = t_proof db \<and> s_proof db' = s_proof db"
  by (auto simp: check_ttl_def ok_iff frame_def split: if_splits)

text \<open>A run of proof inserts: consecutive identifiers, all about one instance.\<close>

definition proofs_added :: "str \<Rightarrow> proof_row list \<Rightarrow> 'g ckp_db \<Rightarrow> 'g ckp_db \<Rightarrow> bool" where
  "proofs_added p_id ps db db' \<longleftrightarrow>
     frame db' = frame db \<and> t_proof db' = t_proof db @ ps \<and> s_proof db' = s_proof db + int (length ps) \<and>
     map pr_id ps = map (\<lambda>i. s_proof db + int i) [0..<length ps] \<and> (\<forall>p \<in> set ps. pr_about p = p_id)"

lemma proofs_added_Nil [simp]: "proofs_added p [] db db"
  by (simp add: proofs_added_def)

lemma proofs_added_trans:
  assumes "proofs_added p ps db db1" "proofs_added p qs db1 db2"
  shows "proofs_added p (ps @ qs) db db2"
proof -
  have "map (\<lambda>i. s_proof db + int (length ps) + int i) [0..<length qs] =
      map (\<lambda>i. s_proof db + int i) [length ps..<length ps + length qs]"
    by (rule nth_equalityI) simp_all
  then show ?thesis
    using assms by (auto simp: proofs_added_def upt_add_eq_append[of 0, simplified])
qed

lemma checked_proof_ok:
  assumes "checked_proof E c ttl err p meth dig db = Inr db'"
  shows "\<exists>q. proofs_added p [q] db db' \<and> pr_method q = meth \<and> pr_digest q = dig"
proof -
  obtain db1 where "check_ttl E c ttl err db = Inr db1" and ins: "insert_proof p meth dig db1 = Inr db'"
    using assms by (auto simp: checked_proof_def ok_iff)
  with check_ttl_ok have "frame db1 = frame db" "t_proof db1 = t_proof db" "s_proof db1 = s_proof db" by blast+
  with ins have "proofs_added p [\<lparr>pr_id = s_proof db, pr_about = p, pr_method = meth, pr_digest = dig\<rparr>] db db'"
    by (auto simp: insert_proof_def proofs_added_def frame_def ok_iff)
  then show ?thesis by fastforce
qed

text \<open>The rows after the byte proof name another method.\<close>

definition other_method :: "proof_row \<Rightarrow> bool" where
  "other_method q \<longleftrightarrow> pr_method q \<noteq> HMAC_METHOD"

lemma method_neq:
  "lit ''obligation:'' @ x \<noteq> HMAC_METHOD" "lit ''token-residue'' \<noteq> HMAC_METHOD" "lit ''grant-ref:'' @ x \<noteq> HMAC_METHOD"
  by (simp_all add: HMAC_METHOD_def lit_def)

lemma obligation_proofs_ok:
  "obligation_proofs E c p sha ts obs db = Inr db' \<Longrightarrow>
     \<exists>qs. proofs_added p qs db db' \<and> map pr_method qs = map ((@) (lit ''obligation:'')) obs \<and>
       (\<forall>q \<in> set qs. other_method q \<and> pr_digest q = sha)"
proof (induction obs arbitrary: db)
  case Nil
  then show ?case by (intro exI[of _ "[]"]) simp
next
  case (Cons ob obs)
  then obtain db1 q where q: "proofs_added p [q] db db1" "pr_method q = lit ''obligation:'' @ ob" "pr_digest q = sha"
    and rest: "obligation_proofs E c p sha ts obs db1 = Inr db'"
    by (auto simp: ok_iff dest!: checked_proof_ok)
  from Cons.IH[OF rest] obtain qs where qs: "proofs_added p qs db1 db'"
    "map pr_method qs = map ((@) (lit ''obligation:'')) obs" "\<forall>q \<in> set qs. other_method q \<and> pr_digest q = sha" by blast
  have "proofs_added p (q # qs) db db'" using proofs_added_trans[OF q(1) qs(1)] by simp
  with q qs show ?case by (intro exI[of _ "q # qs"]) (simp add: other_method_def method_neq)
qed

lemma residue_proof_ok:
  assumes "residue_proof E s c p ts db = Inr db'"
  shows "\<exists>qs. proofs_added p qs db db' \<and> (\<forall>q \<in> set qs. other_method q \<and> hex64 (pr_digest q))"
proof (cases "guc_trimmed s ''ckp.token_residue''")
  case None
  with assms show ?thesis by (intro exI[of _ "[]"]) (simp add: residue_proof_def)
next
  case (Some r)
  with assms have "hex64 r" "\<exists>q. proofs_added p [q] db db' \<and> pr_method q = lit ''token-residue'' \<and> pr_digest q = r"
    by (auto simp: residue_proof_def ok_iff dest!: checked_proof_ok)
  then show ?thesis by (fastforce simp: other_method_def method_neq)
qed

lemma grant_proof_ok:
  assumes "grant_proof E s c p sha ts db = Inr db'"
  shows "\<exists>qs. proofs_added p qs db db' \<and> (\<forall>q \<in> set qs. other_method q)"
proof (cases "guc_trimmed s ''ckp.grant_ref''")
  case None
  with assms show ?thesis by (intro exI[of _ "[]"]) (simp add: grant_proof_def)
next
  case (Some r)
  with assms have "\<exists>q. proofs_added p [q] db db' \<and> pr_method q = lit ''grant-ref:'' @ r"
    by (auto simp: grant_proof_def ok_iff dest!: checked_proof_ok)
  then show ?thesis by (fastforce simp: other_method_def method_neq)
qed

definition sealed_row :: "'g ckp_env \<Rightarrow> 'g ckp_db \<Rightarrow> str \<Rightarrow> str \<Rightarrow> json \<Rightarrow> ledger_row" where
  "sealed_row E db key p_id body =
     \<lparr>l_seq = s_ledger db, l_instance_id = p_id, l_body_sha256 = body_digest E body,
      l_sig = hmac_sha256_hex E (body_digest E body) key, l_prev_seq = max_opt (map l_seq (t_ledger db))\<rparr>"

definition event_of :: "'g ckp_env \<Rightarrow> 'g ckp_db \<Rightarrow> str \<Rightarrow> json \<Rightarrow> outbox_row" where
  "event_of E db proj body = \<lparr>ob_seq = s_outbox db, ob_data = event_row E (s_ledger db) proj body\<rparr>"

text \<open>The relation of the tables before and after the writes of one seal.\<close>

definition sealed ::
    "'g ckp_env \<Rightarrow> int \<Rightarrow> str \<Rightarrow> str list \<Rightarrow> str \<Rightarrow> json \<Rightarrow> str \<Rightarrow> 'g ckp_db \<Rightarrow> 'g ckp_db \<Rightarrow> bool" where
  "sealed E now key obs p_id body proj db db' \<longleftrightarrow>
     t_config db' = t_config db \<and> t_kernel_epoch db' = t_kernel_epoch db \<and> t_obligations db' = t_obligations db \<and>
     t_instances db' = upsert_instance now p_id body (t_instances db) \<and>
     t_ledger db' = t_ledger db @ [sealed_row E db key p_id body] \<and> s_ledger db' = s_ledger db + 1 \<and>
     t_outbox db' = t_outbox db @ [event_of E db proj body] \<and> s_outbox db' = s_outbox db + 1 \<and>
     (\<exists>q qs. t_proof db' = t_proof db @ q # qs \<and> s_proof db' = s_proof db + 1 + int (length qs) \<and>
        map pr_id (q # qs) = map (\<lambda>i. s_proof db + int i) [0..<length (q # qs)] \<and>
        pr_about q = p_id \<and> pr_method q = HMAC_METHOD \<and> pr_digest q = body_digest E body \<and>
        (\<forall>r \<in> set qs. pr_about r = p_id \<and> other_method r) \<and>
        take (length obs) (map pr_method qs) = map ((@) (lit ''obligation:'')) obs \<and>
        (\<forall>r \<in> set (take (length obs) qs). pr_digest r = body_digest E body))"

lemma insert_ledger_ok:
  assumes "insert_ledger E s p sha sg prev db = Inr db'" "find_instance db p = Some body"
  shows "\<exists>proj dbx. event_project E s dbx body = Inr proj \<and> s_ledger db < 2 ^ 63 \<and> s_outbox db < 2 ^ 63 \<and>
    db' = db\<lparr>t_ledger := t_ledger db @ [\<lparr>l_seq = s_ledger db, l_instance_id = p, l_body_sha256 = sha, l_sig = sg, l_prev_seq = prev\<rparr>],
      s_ledger := s_ledger db + 1,
      t_outbox := t_outbox db @ [\<lparr>ob_seq = s_outbox db, ob_data = event_row E (s_ledger db) proj body\<rparr>],
      s_outbox := s_outbox db + 1\<rparr>"
  using assms by (auto simp: insert_ledger_def ledger_to_outbox_def find_instance_def Let_def ok_iff) blast

lemma find_after_upsert:
  "t_instances db' = upsert_instance now p b (t_instances db) \<Longrightarrow>
     find_instance db' q = (if q = p then Some b else find_instance db q)"
  by (simp add: find_instance_def body_find_upsert)

lemma seal_writes_ok:
  assumes "seal_writes E s now c key proj obs p body db = Inr (sha, db')"
  shows "sha = body_digest E body \<and> s_ledger db < 2 ^ 63 \<and>
    (\<exists>ep dbx. event_project E s dbx body = Inr ep \<and> sealed E now key obs p body ep db db')"
proof -
  let ?sha = "body_digest E body" and ?ts = "local_text E now"
  let ?prev = "max_opt (map l_seq (t_ledger db))"
  let ?sig = "hmac_sha256_hex E ?sha key"
  let ?db1 = "db\<lparr>t_instances := upsert_instance now p body (t_instances db)\<rparr>"
  obtain db2 db3 db4 db5 db6 db7 g8 where
    s2: "check_ttl E c (ledger_ttl p ?sha ?sig ?prev ?ts) Seal_Ledger_Shape ?db1 = Inr db2"
    and s3: "insert_ledger E s p ?sha ?sig ?prev db2 = Inr db3"
    and s4: "checked_proof E c (proof_ttl (lit ''    '') p p HMAC_METHOD ?sha ?ts) Seal_Proof_Shape p HMAC_METHOD ?sha db3 = Inr db4"
    and s5: "obligation_proofs E c p ?sha ?ts obs db4 = Inr db5"
    and s6: "residue_proof E s c p ?ts db5 = Inr db6" and s7: "grant_proof E s c p ?sha ?ts db6 = Inr db7"
    and r: "sha = ?sha" "db' = db7\<lparr>rdf := rdf db'\<rparr>"
    using assms unfolding seal_writes_def Let_def by (auto simp: ok_iff)
  note f2 = check_ttl_ok[OF s2]
  then have fi: "find_instance db2 p = Some body"
    by (simp add: frame_def find_instance_def body_find_upsert)
  from insert_ledger_ok[OF s3 fi] obtain ep dbx where ep: "event_project E s dbx body = Inr ep"
    and lim: "s_ledger db2 < 2 ^ 63" and d3: "db3 = db2\<lparr>t_ledger := t_ledger db2 @ [\<lparr>l_seq = s_ledger db2, l_instance_id = p,
          l_body_sha256 = ?sha, l_sig = ?sig, l_prev_seq = ?prev\<rparr>],
        s_ledger := s_ledger db2 + 1,
        t_outbox := t_outbox db2 @ [\<lparr>ob_seq = s_outbox db2, ob_data = event_row E (s_ledger db2) ep body\<rparr>],
        s_outbox := s_outbox db2 + 1\<rparr>" by blast
  obtain q where q: "proofs_added p [q] db3 db4" "pr_method q = HMAC_METHOD" "pr_digest q = ?sha"
    using checked_proof_ok[OF s4] by blast
  obtain qs1 where q1: "proofs_added p qs1 db4 db5" "map pr_method qs1 = map ((@) (lit ''obligation:'')) obs"
    "\<forall>q \<in> set qs1. other_method q \<and> pr_digest q = ?sha" using obligation_proofs_ok[OF s5] by blast
  obtain qs2 where q2: "proofs_added p qs2 db5 db6" "\<forall>q \<in> set qs2. other_method q" using residue_proof_ok[OF s6] by blast
  obtain qs3 where q3: "proofs_added p qs3 db6 db7" "\<forall>q \<in> set qs3. other_method q" using grant_proof_ok[OF s7] by blast
  note all = proofs_added_trans[OF q(1) proofs_added_trans[OF q1(1) proofs_added_trans[OF q2(1) q3(1)]]]
  have len: "length qs1 = length obs" using arg_cong[OF q1(2), of length] by simp
  have fr: "frame db' = frame db7" "t_proof db' = t_proof db7" "s_proof db' = s_proof db7"
    by (subst r(2), simp add: frame_def)+
  have "sealed E now key obs p body ep db db'"
    unfolding sealed_def sealed_row_def event_of_def
    using all fr f2 q(2,3) q1(2,3) q2(2) q3(2) len d3
    by (auto simp: proofs_added_def frame_def simp flip: take_map
        intro!: exI[of _ q] exI[of _ "qs1 @ qs2 @ qs3"])
  moreover have "s_ledger db < 2 ^ 63" using lim f2 by (simp add: frame_def)
  ultimately show ?thesis using r(1) ep by blast
qed

lemma sealed_rdf [simp]: "sealed E now key obs p body ep (db\<lparr>rdf := g\<rparr>) db' = sealed E now key obs p body ep db db'"
  by (simp add: sealed_def sealed_row_def event_of_def)

definition final_body :: "'g ckp_env \<Rightarrow> str \<Rightarrow> json \<Rightarrow> json \<Rightarrow> json" where
  "final_body E participant p_body stamps = jsonb_concat (strip_stamps (attribute_body E participant p_body)) stamps"

text \<open>A seal that returns has passed every gate and has written exactly the rows of \<open>sealed\<close>.\<close>

lemma seal_ok:
  assumes "ckp_seal E now p body t = Inr (sha, t')"
  obtains ty key who proj stamps warn g obs ep dbx where
    "body_text E body (lit ''type'') = Some ty"
    "identity_key (settings t) (txn_db t) = Some key" "key \<noteq> []"
    "resolve_participant E (settings t) body = Inr who"
    "resolve_project E (settings t) (txn_db t) = Inr proj"
    "membership_gate E (txn_db t) who (strip_stamps (attribute_body E who body)) = Inr ()"
    "shape_gate E (settings t) p ty proj who (strip_stamps (attribute_body E who body)) (txn_db t) = Inr (stamps, warn, g)"
    "settings t' = (settings t)(lit ''ckp.last_warnings'' \<mapsto> warn)"
    "run_proof_obligations E (settings t') ((txn_db t)\<lparr>rdf := g\<rparr>) ty
       (strip_stamps (attribute_body E who body)) (coalesce_text proj []) = Inr (Inr obs)"
    "sha = body_digest E (final_body E who body stamps)"
    "event_project E (settings t') dbx (final_body E who body stamps) = Inr ep"
    "s_ledger (txn_db t) < 2 ^ 63"
    "sealed E now key obs p (final_body E who body stamps) ep (txn_db t) (txn_db t')"
proof -
  obtain ty key who proj stamps obs t1 db' c where
    h: "body_text E body (lit ''type'') = Some ty"
    "nullif_empty (identity_key (settings t) (txn_db t)) = Some key"
    "resolve_participant E (settings t) body = Inr who"
    "resolve_project E (settings t) (txn_db t) = Inr proj"
    and g: "seal_gates E p ty proj who (strip_stamps (attribute_body E who body)) t = Inr (stamps, obs, t1)"
    and w: "seal_writes E (settings t1) now c key proj obs p (final_body E who body stamps) (txn_db t1) = Inr (sha, db')"
    and t': "t' = t1\<lparr>txn_db := db'\<rparr>"
    using assms unfolding ckp_seal_def Let_def final_body_def by (auto simp: ok_iff)
  from g obtain warn g where
    g1: "membership_gate E (txn_db t) who (strip_stamps (attribute_body E who body)) = Inr ()"
    "shape_gate E (settings t) p ty proj who (strip_stamps (attribute_body E who body)) (txn_db t) = Inr (stamps, warn, g)"
    and t1: "t1 = set_setting ''ckp.last_warnings'' warn (t\<lparr>txn_db := (txn_db t)\<lparr>rdf := g\<rparr>\<rparr>)"
    and ob: "run_proof_obligations E (settings t1) (txn_db t1) ty
       (strip_stamps (attribute_body E who body)) (coalesce_text proj []) = Inr (Inr obs)"
    unfolding seal_gates_def Let_def by (auto simp: ok_iff sum_case_ok)
  from seal_writes_ok[OF w] obtain ep dbx where "sha = body_digest E (final_body E who body stamps)"
    "event_project E (settings t1) dbx (final_body E who body stamps) = Inr ep"
    "s_ledger (txn_db t1) < 2 ^ 63"
    "sealed E now key obs p (final_body E who body stamps) ep (txn_db t1) db'" by auto
  with h g1 ob t' t1 show ?thesis
    by (intro that[of ty key who proj stamps warn g obs dbx ep])
      (auto simp: set_setting_def nullif_empty_def split: if_splits)
qed

section \<open>The invariant of the tables\<close>

definition chained :: "ledger_row list \<Rightarrow> bool" where
  "chained rows \<longleftrightarrow> list_all (\<lambda>i. l_prev_seq (rows ! i) = max_opt (map l_seq (take i rows))) [0..<length rows]"

definition store_wf :: "'g ckp_db \<Rightarrow> bool" where
  "store_wf db \<longleftrightarrow>
     distinct (map i_id (t_instances db)) \<and>
     sorted_wrt (<) (map l_seq (t_ledger db)) \<and> list_all (\<lambda>l. l_seq l < s_ledger db) (t_ledger db) \<and>
     chained (t_ledger db) \<and>
     list_all (\<lambda>l. find_instance db (l_instance_id l) \<noteq> None) (t_ledger db) \<and>
     sorted_wrt (<) (map pr_id (t_proof db)) \<and> list_all (\<lambda>q. pr_id q < s_proof db) (t_proof db) \<and>
     sorted_wrt (<) (map ob_seq (t_outbox db)) \<and> list_all (\<lambda>o'. ob_seq o' < s_outbox db) (t_outbox db) \<and>
     list_all (\<lambda>o'. \<exists>l \<in> set (t_ledger db). d_ledger_seq (ob_data o') = word_of_int (l_seq l)) (t_outbox db)"

lemma chained_snoc: "chained (rows @ [r]) \<longleftrightarrow> chained rows \<and> l_prev_seq r = max_opt (map l_seq rows)"
proof -
  have "list_all (\<lambda>i. l_prev_seq ((rows @ [r]) ! i) = max_opt (map l_seq (take i (rows @ [r])))) [0..<length rows] =
      list_all (\<lambda>i. l_prev_seq (rows ! i) = max_opt (map l_seq (take i rows))) [0..<length rows]"
    by (intro list.pred_cong) (auto simp: nth_append)
  then show ?thesis by (simp add: chained_def)
qed

lemma distinct_upsert: "distinct (map i_id rows) \<Longrightarrow> distinct (map i_id (upsert_instance now p b rows))"
proof -
  assume d: "distinct (map i_id rows)"
  have e: "(\<lambda>x. i_id (if i_id x = p then x\<lparr>i_body := b, i_updated := now\<rparr> else x)) = i_id"
    by (auto simp: fun_eq_iff)
  show ?thesis
  proof (cases "list_ex (\<lambda>i. i_id i = p) rows")
    case True
    with d show ?thesis by (simp add: upsert_instance_def comp_def e)
  qed (use d in \<open>auto simp: upsert_instance_def list_ex_iff\<close>)
qed

lemma sealed_wf [inv_intros]:
  assumes "store_wf db" "sealed E now key obs p body ep db db'"
  shows "store_wf db'"
proof -
  note S = assms(2)[unfolded sealed_def]
  from S obtain q qs where pf: "t_proof db' = t_proof db @ q # qs" "s_proof db' = s_proof db + 1 + int (length qs)"
    and ids: "map pr_id (q # qs) = map (\<lambda>i. s_proof db + int i) [0..<length (q # qs)]" by blast
  have fnd: "find_instance db' x \<noteq> None" if "find_instance db x \<noteq> None \<or> x = p" for x
    using S find_after_upsert[of db' now p body db x] that by auto
  have "set (map pr_id (q # qs)) \<subseteq> {s_proof db ..< s_proof db'}" unfolding ids pf by auto
  then have new: "\<forall>r \<in> set (q # qs). s_proof db \<le> pr_id r \<and> pr_id r < s_proof db'" by auto
  have "sorted_wrt (<) (map pr_id (q # qs))" 
    unfolding ids sorted_wrt_map by (rule sorted_wrt_mono_rel[OF _ sorted_wrt_upt]) simp
  moreover have old: "\<forall>r \<in> set (t_proof db). pr_id r < s_proof db" using assms(1) by (simp add: store_wf_def list_all_iff)
  ultimately have "sorted_wrt (<) (map pr_id (t_proof db'))"
    using new assms(1) unfolding pf(1) map_append sorted_wrt_append store_wf_def by fastforce
  moreover have "list_all (\<lambda>r. pr_id r < s_proof db') (t_proof db')"
    using new old pf by (fastforce simp: list_all_iff)
  ultimately show ?thesis
    using assms(1) S fnd
    by (auto simp: store_wf_def list_all_iff distinct_upsert sorted_wrt_append chained_snoc
        sealed_row_def event_of_def event_row_def)
qed

section \<open>Verification\<close>

text \<open>\<^verbatim>\<open>verify\<close> once the key is known.\<close>

definition verifies_with :: "'g ckp_env \<Rightarrow> str \<Rightarrow> 'g ckp_db \<Rightarrow> str \<Rightarrow> bool" where
  "verifies_with E key db p \<longleftrightarrow>
     (\<exists>body l q. find_instance db p = Some body \<and>
        latest_by l_seq (filter (\<lambda>l. l_instance_id l = p) (t_ledger db)) = Some l \<and>
        latest_by pr_id (filter (\<lambda>r. pr_about r = p \<and> pr_method r = HMAC_METHOD) (t_proof db)) = Some q \<and>
        l_prev_seq l = max_opt (map l_seq (filter (\<lambda>r. l_seq r < l_seq l) (t_ledger db))) \<and>
        body_digest E body = l_body_sha256 l \<and> l_body_sha256 l = pr_digest q \<and>
        l_sig l = hmac_sha256_hex E (body_digest E body) key)"

lemma ckp_verify_iff:
  "ckp_verify E s db p \<longleftrightarrow> (\<exists>key. identity_key s db = Some key \<and> key \<noteq> [] \<and> verifies_with E key db p)"
  by (auto simp: ckp_verify_def verifies_with_def nullif_empty_def Let_def split: option.splits if_splits)

lemma sealed_verifies:
  assumes "store_wf db" "sealed E now key obs p body ep db db'"
  shows "verifies_with E key db' p"
proof -
  note S = assms(2)[unfolded sealed_def]
  let ?row = "sealed_row E db key p body"
  have lt: "\<forall>l \<in> set (t_ledger db). l_seq l < l_seq ?row"
    using assms(1) by (simp add: store_wf_def list_all_iff sealed_row_def)
  then have 1: "latest_by l_seq (filter (\<lambda>l. l_instance_id l = p) (t_ledger db')) = Some ?row"
    using S by (simp add: sealed_row_def latest_by_snoc)
  have 2: "filter (\<lambda>r. l_seq r < l_seq ?row) (t_ledger db') = t_ledger db"
    using S lt by simp
  obtain q qs where pf: "t_proof db' = t_proof db @ q # qs" "map pr_id (q # qs) = map (\<lambda>i. s_proof db + int i) [0..<length (q # qs)]"
    "pr_about q = p" "pr_method q = HMAC_METHOD" "pr_digest q = body_digest E body" "\<forall>r \<in> set qs. other_method r"
    using S by blast
  have idq: "pr_id q = s_proof db" using arg_cong[OF pf(2), of hd] by (simp add: upt_conv_Cons del: upt_Suc)
  have "filter (\<lambda>r. pr_about r = p \<and> pr_method r = HMAC_METHOD) (t_proof db') =
      filter (\<lambda>r. pr_about r = p \<and> pr_method r = HMAC_METHOD) (t_proof db) @ [q]"
    using pf(3,4,6) unfolding pf(1) by (simp add: other_method_def filter_empty_conv)
  then have 3: "latest_by pr_id (filter (\<lambda>r. pr_about r = p \<and> pr_method r = HMAC_METHOD) (t_proof db')) = Some q"
    using assms(1) idq by (simp add: latest_by_snoc store_wf_def list_all_iff)
  have "find_instance db' p = Some body" using S find_after_upsert[of db' now p body db p] by simp
  then show ?thesis unfolding verifies_with_def using 1 2 3 pf(5)
    by (intro exI[of _ body] exI[of _ ?row] exI[of _ q]) (simp add: sealed_row_def)
qed

lemma sealed_keeps_verified:
  assumes "store_wf db" "sealed E now key obs p body ep db db'" "x \<noteq> p" "verifies_with E k db x"
  shows "verifies_with E k db' x"
proof -
  note S = assms(2)[unfolded sealed_def]
  obtain q qs where pf: "t_proof db' = t_proof db @ q # qs" "pr_about q = p" "\<forall>r \<in> set qs. pr_about r = p"
    using S by blast
  have 1: "filter (\<lambda>r. pr_about r = x \<and> pr_method r = HMAC_METHOD) (t_proof db') =
      filter (\<lambda>r. pr_about r = x \<and> pr_method r = HMAC_METHOD) (t_proof db)"
    using pf assms(3) by (auto simp: filter_empty_conv)
  have 2: "filter (\<lambda>l. l_instance_id l = x) (t_ledger db') = filter (\<lambda>l. l_instance_id l = x) (t_ledger db)"
    using S assms(3) by (simp add: sealed_row_def)
  have 3: "find_instance db' x = find_instance db x"
    using S find_after_upsert[of db' now p body db x] assms(3) by simp
  from assms(4) obtain b l q where v: "find_instance db x = Some b"
    "latest_by l_seq (filter (\<lambda>l. l_instance_id l = x) (t_ledger db)) = Some l"
    "latest_by pr_id (filter (\<lambda>r. pr_about r = x \<and> pr_method r = HMAC_METHOD) (t_proof db)) = Some q"
    "l_prev_seq l = max_opt (map l_seq (filter (\<lambda>r. l_seq r < l_seq l) (t_ledger db)))"
    "body_digest E b = l_body_sha256 l \<and> l_body_sha256 l = pr_digest q \<and> l_sig l = hmac_sha256_hex E (body_digest E b) k"
    unfolding verifies_with_def by blast
  have "l \<in> set (t_ledger db)" using latest_by_in[OF v(2)] by simp
  then have "l_seq l < s_ledger db" using assms(1) by (simp add: store_wf_def list_all_iff)
  moreover have "t_ledger db' = t_ledger db @ [sealed_row E db key p body]" using S by blast
  ultimately have 4: "filter (\<lambda>r. l_seq r < l_seq l) (t_ledger db') = filter (\<lambda>r. l_seq r < l_seq l) (t_ledger db)"
    by (simp add: sealed_row_def)
  from v show ?thesis unfolding verifies_with_def 1[symmetric] 2[symmetric] 3[symmetric] 4[symmetric] by blast
qed

section \<open>Runs of the store\<close>

text \<open>What happens to the tables over time, under one identity key: seals that return; drains
  of the outbox; sequence numbers used up by statements that were rolled back; and changes
  of the tables that sealing only reads.\<close>

inductive store_step :: "'g ckp_env \<Rightarrow> str \<Rightarrow> 'g ckp_db \<Rightarrow> 'g ckp_db \<Rightarrow> bool" for E key where
  step_seal: "ckp_seal E now p body t = Inr (sha, t') \<Longrightarrow> identity_key (settings t) (txn_db t) = Some key \<Longrightarrow>
    store_step E key (txn_db t) (txn_db t')"
| step_drain: "store_step E key db (db\<lparr>t_outbox := remaining (t_outbox db)\<rparr>)"
| step_burn: "s_ledger db \<le> a \<Longrightarrow> s_proof db \<le> b \<Longrightarrow> s_outbox db \<le> c \<Longrightarrow>
    store_step E key db (db\<lparr>s_ledger := a, s_proof := b, s_outbox := c\<rparr>)"
| step_read_tables: "store_step E key db (db\<lparr>t_kernel_epoch := e, t_obligations := ob, rdf := g\<rparr>)"

definition empty_store :: "(str \<Rightarrow> str option) \<Rightarrow> 'g \<Rightarrow> 'g ckp_db" where
  "empty_store cfg g = \<lparr>t_config = cfg, t_instances = [], t_ledger = [], t_proof = [], t_outbox = [],
     t_kernel_epoch = (\<lambda>_. None), t_obligations = [], s_ledger = 1, s_proof = 1, s_outbox = 1, rdf = g\<rparr>"

definition store_inv :: "'g ckp_env \<Rightarrow> str \<Rightarrow> 'g ckp_db \<Rightarrow> bool" where
  "store_inv E key db \<longleftrightarrow> store_wf db \<and> (\<forall>p. find_instance db p \<noteq> None \<longrightarrow> verifies_with E key db p)"

lemma store_step_inv [inv_intros]: "store_step E key db db' \<Longrightarrow> store_inv E key db \<Longrightarrow> store_inv E key db'"
proof (induction rule: store_step.induct)
  case (step_seal now p body t sha t')
  note inv = step_seal.prems[unfolded store_inv_def]
  from step_seal.hyps obtain b obs ep where s: "sealed E now key obs p b ep (txn_db t) (txn_db t')"
    by (elim seal_ok) auto
  have find: "find_instance (txn_db t') x = (if x = p then Some b else find_instance (txn_db t) x)" for x
    using s[unfolded sealed_def] by (intro find_after_upsert) blast
  have "verifies_with E key (txn_db t') x" if "find_instance (txn_db t') x \<noteq> None" for x
    using that inv sealed_verifies[OF _ s] sealed_keeps_verified[OF _ s, of x key] find[of x] by (cases "x = p") auto
  with inv sealed_wf[OF _ s] show ?case by (simp add: store_inv_def)
next
  case (step_drain db)
  have "sorted_wrt (<) (map ob_seq (remaining (t_outbox db)))" if "sorted_wrt (<) (map ob_seq (t_outbox db))"
    using that by (simp add: remaining_def sorted_wrt_map sorted_wrt_filter)
  with step_drain show ?case
    by (auto simp: store_inv_def store_wf_def verifies_with_def find_instance_def list_all_iff remaining_def)
next
  case (step_burn db a b c)
  then show ?case
    by (fastforce simp: store_inv_def store_wf_def verifies_with_def find_instance_def list_all_iff)
next
  case (step_read_tables db e ob g)
  then show ?case
    by (simp add: store_inv_def store_wf_def verifies_with_def find_instance_def)
qed

lemma store_reachable_inv: "(store_step E key)\<^sup>*\<^sup>* (empty_store cfg g) db \<Longrightarrow> store_inv E key db"
proof (induction rule: rtranclp_induct)
  case base
  show ?case by (simp add: store_inv_def store_wf_def empty_store_def find_instance_def chained_def)
qed (rule store_step_inv)

section \<open>The sealed body\<close>

lemma core_eq_iff [simp]: "core x = core y \<longleftrightarrow> x = y"
  by (simp add: core_def)

lemma core_neq [simp]:
  "core x \<noteq> lit ''type''" "core x \<noteq> lit ''@id''" "core x \<noteq> lit ''participant''"
  "core x \<noteq> lit ''participant_email''" "core x \<noteq> lit ''participant_display_name''"
  "lit ''type'' \<noteq> core x" "lit ''@id'' \<noteq> core x" "lit ''participant'' \<noteq> core x"
  "lit ''participant_email'' \<noteq> core x" "lit ''participant_display_name'' \<noteq> core x"
  by (simp_all add: core_def core_ns_def lit_def)

lemma attribute_body_wf [inv_intros]: "json_object_wf j \<Longrightarrow> json_object_wf (attribute_body E who j)"
  by (auto simp: attribute_body_def set_opt_def intro!: inv_intros split: option.splits)

lemma attribute_body_object [simp]: "is_object j \<Longrightarrow> is_object (attribute_body E who j)"
  by (auto simp: attribute_body_def set_opt_def split: option.splits)

lemma json_get_json_insert:
  "json_object_wf j \<Longrightarrow> is_object j \<Longrightarrow> json_get (json_insert k v j) k' = (if k' = k then Some v else json_get j k')"
  by (cases j) (simp_all add: is_object_def map_of_btree_insert)

lemma json_get_set_opt:
  assumes "json_object_wf j" "is_object j"
  shows "json_get (set_opt n x j) k =
    (if k = lit n \<and> x \<noteq> None then map_option JString x else json_get j k)"
  using assms by (cases x) (simp_all add: set_opt_def json_get_json_insert)

lemma set_opt_object [simp]: "is_object j \<Longrightarrow> is_object (set_opt n x j)"
  by (cases x) (simp_all add: set_opt_def)

lemma set_opt_wf [inv_intros]: "json_object_wf j \<Longrightarrow> json_object_wf (set_opt n x j)"
  by (cases x) (simp_all add: set_opt_def inv_intros)

lemma json_get_attribute:
  assumes "json_object_wf j" "is_object j"
  shows "json_get (attribute_body E who j) k =
    (if k = lit ''participant_email'' \<and> display_claim E j ''email'' \<noteq> None
     then map_option JString (display_claim E j ''email'')
     else if k = lit ''participant_display_name'' \<and> display_claim E j ''preferred_username'' \<noteq> None
     then map_option JString (display_claim E j ''preferred_username'')
     else if k = core ''participant'' then Some (JString who)
     else if k = lit ''participant'' then None else json_get j k)"
proof -
  let ?base = "jsonb_concat (jsonb_minus j (lit ''participant'')) (json_obj [(core ''participant'', JString who)])"
  have b: "json_object_wf ?base" "is_object ?base"
    using assms by (auto intro!: inv_intros)
  have base: "json_get ?base k = (if k = core ''participant'' then Some (JString who)
      else if k = lit ''participant'' then None else json_get j k)"
    using assms by (simp add: json_get_concat inv_intros json_get_obj json_get_minus)
  show ?thesis
    unfolding attribute_body_def json_get_set_opt[OF set_opt_wf[OF b(1)] set_opt_object[OF b(2)]] json_get_set_opt[OF b] base ..
qed

lemma json_get_strip: "json_get (strip_stamps j) k = (if k \<in> set stamp_keys then None else json_get j k)"
  by (simp add: strip_stamps_def stamp_keys_def json_get_minus)

lemma strip_stamps_wf [inv_intros]: "json_object_wf j \<Longrightarrow> json_object_wf (strip_stamps j)"
  by (simp add: strip_stamps_def stamp_keys_def inv_intros)

lemma strip_stamps_object [simp]: "is_object (strip_stamps j) = is_object j"
  by (simp add: strip_stamps_def stamp_keys_def)

lemma json_get_final:
  assumes "json_object_wf j" "is_object j" "json_object_wf st" "is_object st"
  shows "json_get (final_body E who j st) k =
    (case json_get st k of Some v \<Rightarrow> Some v
     | None \<Rightarrow> if k \<in> set stamp_keys then None else json_get (attribute_body E who j) k)"
  using assms
  by (simp add: final_body_def json_get_concat inv_intros json_get_strip split: option.splits)

text \<open>The stamps the gate returns.\<close>

lemma shape_gate_ok:
  assumes "shape_gate E s p ty proj who body db = Inr (stamps, warn, g)"
  shows "\<exists>pr shp comp g1. proj = Some pr \<and> btrim spc pr \<noteq> [] \<and>
    type_admitted E (Some ty) proj comp g1 = Inr True \<and>
    derived_stamps E s ty proj who comp (db\<lparr>rdf := g1\<rparr>) = Inr stamps \<and>
    stamps = json_obj ([(core ''producedBy'', JString (kernel_graph_iri pr)), (core ''createdBy'', JString who)] @
       on_behalf_of E s who @
       [(core ''sealedAtEpoch'', JNumber (JInt (case t_kernel_epoch db pr of None \<Rightarrow> 0 | Some e \<Rightarrow> e)))] @
       (case shp of None \<Rightarrow> [] | Some x \<Rightarrow> [(core ''conformsToShape'', JString x)]))"
proof -
  obtain comp g1 where ad: "type_admitted E (Some ty) proj comp g1 = Inr True"
    and ds: "derived_stamps E s ty proj who comp (db\<lparr>rdf := g1\<rparr>) = Inr stamps"
    using assms unfolding shape_gate_def Let_def by (auto simp: ok_iff)
  then show ?thesis
    unfolding derived_stamps_def by (cases proj) (auto simp: ok_iff split: if_splits)
qed

lemma btrim_nonempty: "btrim c s \<noteq> [] \<Longrightarrow> s \<noteq> []"
  by (auto simp: btrim_def)

lemma event_project_stamped:
  assumes "json_get body (core ''producedBy'') = Some (JString (kernel_graph_iri pr))" "pr \<noteq> []"
  shows "event_project E s db body = Inr pr"
proof -
  have "between (lit ''urn:ckp:'') (lit ''/kernel/ck'') (kernel_graph_iri pr) = pr"
    unfolding kernel_graph_iri_def by (rule between_match)
  moreover have "length pr < length (kernel_graph_iri pr)" by (simp add: kernel_graph_iri_def)
  then have "pr \<noteq> kernel_graph_iri pr" by (metis less_irrefl)
  ultimately show ?thesis
    using assms by (simp add: event_project_def get_text_def text_of_def coalesce_text_def Let_def)
qed

text \<open>The five stamp keys of the stored body come from the gate, whatever the payload held.\<close>

lemma final_body_stamps:
  assumes "shape_gate E s p ty proj who b db = Inr (stamps, warn, g)" "json_object_wf j" "is_object j"
  shows "\<exists>pr. proj = Some pr \<and> pr \<noteq> [] \<and>
    json_get (final_body E who j stamps) (core ''producedBy'') = Some (JString (kernel_graph_iri pr)) \<and>
    json_get (final_body E who j stamps) (core ''createdBy'') = Some (JString who) \<and>
    json_get (final_body E who j stamps) (core ''participant'') = Some (JString who) \<and>
    json_get (final_body E who j stamps) (core ''sealedAtEpoch'') =
      Some (JNumber (JInt (case t_kernel_epoch db pr of None \<Rightarrow> 0 | Some e \<Rightarrow> e))) \<and>
    json_get (final_body E who j stamps) (core ''onBehalfOf'') = map_of (on_behalf_of E s who) (core ''onBehalfOf'') \<and>
    json_get (final_body E who j stamps) (lit ''type'') = json_get j (lit ''type'')"
proof -
  from shape_gate_ok[OF assms(1)] obtain pr shp where pr: "proj = Some pr" "btrim spc pr \<noteq> []"
    and st: "stamps = json_obj ([(core ''producedBy'', JString (kernel_graph_iri pr)), (core ''createdBy'', JString who)] @
       on_behalf_of E s who @
       [(core ''sealedAtEpoch'', JNumber (JInt (case t_kernel_epoch db pr of None \<Rightarrow> 0 | Some e \<Rightarrow> e)))] @
       (case shp of None \<Rightarrow> [] | Some x \<Rightarrow> [(core ''conformsToShape'', JString x)]))" by blast
  have w: "json_object_wf stamps" "is_object stamps" unfolding st by simp_all
  have "\<exists>obo. on_behalf_of E s who = [] \<or> on_behalf_of E s who = [(core ''onBehalfOf'', obo)]"
    by (auto simp: on_behalf_of_def Let_def split: option.splits)
  then have "json_get stamps (core ''producedBy'') = Some (JString (kernel_graph_iri pr))"
    "json_get stamps (core ''createdBy'') = Some (JString who)"
    "json_get stamps (core ''participant'') = None" "json_get stamps (lit ''type'') = None"
    "json_get stamps (core ''sealedAtEpoch'') = Some (JNumber (JInt (case t_kernel_epoch db pr of None \<Rightarrow> 0 | Some e \<Rightarrow> e)))"
    "json_get stamps (core ''onBehalfOf'') = map_of (on_behalf_of E s who) (core ''onBehalfOf'')"
    unfolding st json_get_obj by (auto split: option.splits)
  with pr btrim_nonempty[OF pr(2)] assms(2,3) w show ?thesis
    by (auto simp: json_get_final json_get_attribute stamp_keys_def split: option.split)
qed

text \<open>Every other key keeps the payload's value.\<close>

lemma final_body_other:
  assumes "shape_gate E s p ty proj who b db = Inr (stamps, warn, g)" "json_object_wf j" "is_object j"
    "k \<notin> set stamp_keys" "k \<notin> {core ''participant'', lit ''participant'', lit ''participant_email'', lit ''participant_display_name''}"
  shows "json_get (final_body E who j stamps) k = json_get j k"
proof -
  from shape_gate_ok[OF assms(1)] obtain pr shp where
    st: "stamps = json_obj ([(core ''producedBy'', JString (kernel_graph_iri pr)), (core ''createdBy'', JString who)] @
       on_behalf_of E s who @
       [(core ''sealedAtEpoch'', JNumber (JInt (case t_kernel_epoch db pr of None \<Rightarrow> 0 | Some e \<Rightarrow> e)))] @
       (case shp of None \<Rightarrow> [] | Some x \<Rightarrow> [(core ''conformsToShape'', JString x)]))" by blast
  have w: "json_object_wf stamps" "is_object stamps" unfolding st by simp_all
  have "\<exists>obo. on_behalf_of E s who = [] \<or> on_behalf_of E s who = [(core ''onBehalfOf'', obo)]"
    by (auto simp: on_behalf_of_def Let_def split: option.splits)
  then have "json_get stamps k = None" using assms(4) unfolding st json_get_obj by (auto simp: stamp_keys_def split: option.splits)
  with assms w show ?thesis by (auto simp: json_get_final json_get_attribute)
qed

end
