(* ===== verification/Ckp_Ledger.thy ===== *)
theory Ckp_Ledger
  imports Ckp_Seal_Props
begin

text \<open>
  The properties of the governed write path, over \<^verbatim>\<open>ckp.seal\<close>, \<^verbatim>\<open>ckp.verify\<close> and the trigger
  \<^verbatim>\<open>ledger_to_outbox\<close>, with an instance of the interface on which a seal succeeds.
\<close>

section \<open>An instance of the interface\<close>

text \<open>An engine that admits every type and accepts every graph, a printer of JSON, and
  stand-ins for the digests.\<close>

definition ascii_lower :: "str \<Rightarrow> str" where
  "ascii_lower s = map (\<lambda>c. if 65 \<le> c \<and> c \<le> 90 then c + 32 else c) s"

fun demo_print :: "json \<Rightarrow> str" where
  "demo_print JNull = lit ''null''"
| "demo_print (JBool b) = (if b then lit ''true'' else lit ''false'')"
| "demo_print (JNumber (JInt i)) = show_int i"
| "demo_print (JNumber (JOther s)) = s"
| "demo_print (JString s) = quoted (ttl_escape s)"
| "demo_print (JArray a) = lit ''['' @ concat (map (\<lambda>j. demo_print j @ lit '','') a) @ lit '']''"
| "demo_print (JObject m) = lit ''{'' @ concat (map (\<lambda>(k, j). quoted (ttl_escape k) @ lit '':'' @ demo_print j @ lit '','') m) @ lit ''}''"

definition demo_ckp :: "unit ckp_env" where
  "demo_ckp = \<lparr>lower_text = ascii_lower, jsonb_text = demo_print,
     int4_in = (\<lambda>s. Inr 1), jsonb_in = (\<lambda>s. Inr (JArray [])), utc_text = show_int, local_text = show_int,
     sha256_hex = (\<lambda>b. map unat b), hmac_sha256_hex = (\<lambda>d k. k @ d),
     graph_iri = (\<lambda>i g. Some (lit ''urn:g'')), graph_nonempty = (\<lambda>i g. True), graph_names = (\<lambda>g. Inr []),
     pinned_digest = (\<lambda>i g. None), structural_digest = (\<lambda>i g. Inr None),
     ask_declared = (\<lambda>i ty g. Inr (Some (lit ''true''))), target_shape = (\<lambda>i ty g. Inr None),
     shape_datatypes = (\<lambda>i g. Inr []), superclasses = (\<lambda>i ty g. Inr []),
     shacl_report = (\<lambda>ttl sh g. Inr (json_obj [(lit ''conforms'', JBool True), (lit ''results'', JArray [])], ())),
     composed_shapes = (\<lambda>p x db. Inr (1, ())), validate_ttl = (\<lambda>ttl c db. Inr (True, ())),
     project_links = (\<lambda>p i b db. Inr ()), project_instance_spine = (\<lambda>i b p db. ())\<rparr>"

definition demo_ckp_config :: "str \<Rightarrow> str option" where
  "demo_ckp_config = [lit ''identity_key'' \<mapsto> lit ''secret'']"

definition demo_session :: "str \<Rightarrow> str option" where
  "demo_session = [lit ''ckp.requester'' \<mapsto> lit ''Alice'', lit ''ckp.project'' \<mapsto> lit ''acme'']"

definition demo_txn :: "unit ckp_db txn" where
  "demo_txn = \<lparr>txn_db = empty_store demo_ckp_config (), settings = demo_session\<rparr>"

definition demo_body :: json where
  "demo_body = json_obj [(lit ''type'', JString (lit ''urn:x/Note'')), (core ''createdBy'', JString (lit ''urn:ckp:participant:mallory''))]"

lemma demo_body_ok: "json_object_wf demo_body" "is_object demo_body" "body_text demo_ckp demo_body (lit ''type'') = Some (lit ''urn:x/Note'')"
  by (simp_all add: demo_body_def get_text_def json_get_obj text_of_def)

lemma demo_key: "identity_key demo_session (empty_store demo_ckp_config g) = Some (lit ''secret'')"
  by (simp add: identity_key_def guc_nonempty_def nullif_empty_def demo_session_def demo_ckp_config_def empty_store_def)

lemma demo_requester: "guc_trimmed demo_session ''ckp.requester'' = Some (lit ''Alice'')"
  by (simp add: guc_trimmed_def demo_session_def coalesce_text_def nullif_empty_def btrim_def lit_def)

lemma demo_project:
  assumes "sealed_kernel_ids demo_ckp db = []"
  shows "resolve_project demo_ckp demo_session db = Inr (Some (lit ''acme''))"
  using assms
  by (simp add: resolve_project_def guc_nonempty_def nullif_empty_def demo_session_def
      one_project_def demo_ckp_def canonical_def split_on_def lit_def ascii_lower_digit_def)

lemma unit_rdf [simp]: "(db :: unit ckp_db)\<lparr>rdf := ()\<rparr> = db"
  by (cases db) simp

text \<open>This engine never refuses, so a seal returns when the checks of the SQL pass.\<close>

lemma demo_proofs:
  "s_proof db + int (length obs) < 2 ^ 63 \<Longrightarrow> \<exists>db'. obligation_proofs demo_ckp c p sha ts obs db = Inr db' \<and> s_proof db' = s_proof db + int (length obs)"
proof (induction obs arbitrary: db)
  case (Cons ob obs)
  let ?db = "db\<lparr>rdf := (), t_proof := t_proof db @ [\<lparr>pr_id = s_proof db, pr_about = p, pr_method = lit ''obligation:'' @ ob, pr_digest = sha\<rparr>],
     s_proof := s_proof db + 1\<rparr>"
  have "\<exists>db'. obligation_proofs demo_ckp c p sha ts obs ?db = Inr db' \<and> s_proof db' = s_proof ?db + int (length obs)" using Cons.prems by (intro Cons.IH) simp
  with Cons.prems show ?case
    by (simp add: checked_proof_def check_ttl_def insert_proof_def nextval_def demo_ckp_def algebra_simps)
qed simp

lemma demo_writes:
  assumes "guc_trimmed s ''ckp.token_residue'' = None" "guc_trimmed s ''ckp.grant_ref'' = None"
    "\<And>db. \<exists>ep. event_project demo_ckp s db body = Inr ep"
    "s_ledger db < 2 ^ 63" "s_outbox db < 2 ^ 63" "s_proof db + 1 + int (length obs) < 2 ^ 63"
  shows "\<exists>sha db'. seal_writes demo_ckp s now c k pr obs p body db = Inr (sha, db') \<and> s_proof db' = s_proof db + 1 + int (length obs)"
proof -
  let ?db1 = "db\<lparr>t_instances := upsert_instance now p body (t_instances db)\<rparr>"
  let ?row = "sealed_row demo_ckp db k p body"
  let ?db2 = "?db1\<lparr>t_ledger := t_ledger db @ [?row], s_ledger := s_ledger db + 1\<rparr>"
  obtain ep where ep: "event_project demo_ckp s ?db2 body = Inr ep" using assms(3) by blast
  have fi: "find_instance ?db2 p = Some body" by (simp add: find_instance_def body_find_upsert)
  let ?db3 = "?db2\<lparr>t_outbox := t_outbox db @ [\<lparr>ob_seq = s_outbox db, ob_data = event_row demo_ckp (s_ledger db) ep body\<rparr>],
     s_outbox := s_outbox db + 1\<rparr>"
  let ?db4 = "?db3\<lparr>t_proof := t_proof db @ [\<lparr>pr_id = s_proof db, pr_about = p, pr_method = HMAC_METHOD, pr_digest = body_digest demo_ckp body\<rparr>],
     s_proof := s_proof db + 1\<rparr>"
  have ck: "check_ttl demo_ckp c' ttl e d = Inr d" for c' ttl e d by (simp add: check_ttl_def demo_ckp_def)
  have l: "insert_ledger demo_ckp s p (body_digest demo_ckp body) (hmac_sha256_hex demo_ckp (body_digest demo_ckp body) k)
      (max_opt (map l_seq (t_ledger db))) ?db1 = Inr ?db3"
    using assms(4,5) ep fi by (simp add: insert_ledger_def ledger_to_outbox_def nextval_def Let_def sealed_row_def)
  have pf: "checked_proof demo_ckp c ttl e p HMAC_METHOD (body_digest demo_ckp body) ?db3 = Inr ?db4" for ttl e
    using assms(6) by (simp add: checked_proof_def ck insert_proof_def nextval_def)
  obtain db5 where "obligation_proofs demo_ckp c p (body_digest demo_ckp body) (local_text demo_ckp now) obs ?db4 = Inr db5" "s_proof db5 = s_proof db + 1 + int (length obs)"
    using demo_proofs[of ?db4 obs c p "body_digest demo_ckp body" "local_text demo_ckp now"] assms(6) by auto
  moreover have "project_links demo_ckp x y z w = Inr ()" for x y z w by (simp add: demo_ckp_def)
  ultimately show ?thesis using assms(1,2)
    by (simp add: seal_writes_def Let_def ck l pf residue_proof_def grant_proof_def)
qed

text \<open>The settings a seal leaves in force: the warnings may have been set.\<close>

definition demo_like :: "(str \<Rightarrow> str option) \<Rightarrow> bool" where
  "demo_like s \<longleftrightarrow> (\<forall>k. k \<noteq> lit ''ckp.last_warnings'' \<longrightarrow> s k = demo_session k)"

lemma demo_like_settings:
  assumes "demo_like s"
  shows "guc_trimmed s ''ckp.requester'' = Some (lit ''Alice'')" "guc_trimmed s ''ckp.token_residue'' = None"
    "guc_trimmed s ''ckp.grant_ref'' = None" "t_config db = demo_ckp_config \<Longrightarrow> identity_key s db = Some (lit ''secret'')"
    "sealed_kernel_ids demo_ckp db = [] \<Longrightarrow> resolve_project demo_ckp s db = Inr (Some (lit ''acme''))" "demo_like (s(lit ''ckp.last_warnings'' \<mapsto> w))"
proof -
  have k: "s (lit x) = demo_session (lit x)" if "x \<noteq> ''ckp.last_warnings''" for x using assms that by (simp add: demo_like_def)
  show "guc_trimmed s ''ckp.requester'' = Some (lit ''Alice'')" using demo_requester by (simp add: guc_trimmed_def k)
  show "guc_trimmed s ''ckp.token_residue'' = None" "guc_trimmed s ''ckp.grant_ref'' = None"
    by (simp_all add: guc_trimmed_def k demo_session_def coalesce_text_def nullif_empty_def btrim_def)
  show "t_config db = demo_ckp_config \<Longrightarrow> identity_key s db = Some (lit ''secret'')"
    by (simp add: identity_key_def guc_nonempty_def k nullif_empty_def demo_session_def demo_ckp_config_def)
  show "sealed_kernel_ids demo_ckp db = [] \<Longrightarrow> resolve_project demo_ckp s db = Inr (Some (lit ''acme''))"
    using demo_project[of db] by (simp add: resolve_project_def guc_nonempty_def k cong: option.case_cong)
  show "demo_like (s(lit ''ckp.last_warnings'' \<mapsto> w))" using assms by (simp add: demo_like_def)
qed

lemma demo_seal_like:
  assumes "json_object_wf b" "body_text demo_ckp b (lit ''type'') = Some ty" "58 \<in> set ty"
    "t_config db = demo_ckp_config" "demo_like s" "resolve_project demo_ckp s db = Inr (Some (lit ''acme''))"
    "membership_gate demo_ckp db (participant_urn demo_ckp (lit ''Alice''))
       (strip_stamps (attribute_body demo_ckp (participant_urn demo_ckp (lit ''Alice'')) b)) = Inr ()"
    "run_proof_obligations demo_ckp (s(lit ''ckp.last_warnings'' \<mapsto> [])) db ty
       (strip_stamps (attribute_body demo_ckp (participant_urn demo_ckp (lit ''Alice'')) b)) (lit ''acme'') = Inr (Inr obs)"
    "s_ledger db < 2 ^ 63" "s_outbox db < 2 ^ 63" "s_proof db + 1 + int (length obs) < 2 ^ 63"
  shows "\<exists>sha t'. ckp_seal demo_ckp now p b \<lparr>txn_db = db, settings = s\<rparr> = Inr (sha, t') \<and>
    settings t' = s(lit ''ckp.last_warnings'' \<mapsto> []) \<and> s_proof (txn_db t') = s_proof db + 1 + int (length obs)"
proof -
  let ?who = "participant_urn demo_ckp (lit ''Alice'')" and ?s = "s(lit ''ckp.last_warnings'' \<mapsto> [])"
  let ?t = "\<lparr>txn_db = db, settings = s\<rparr>" and ?b = "strip_stamps (attribute_body demo_ckp (participant_urn demo_ckp (lit ''Alice'')) b)"
  have ac: "btrim spc (lit ''acme'') \<noteq> []" by (simp add: btrim_def lit_def)
  obtain st where gate: "shape_gate demo_ckp s p ty (Some (lit ''acme'')) ?who ?b db = Inr (st, [], ())"
    using ac assms(3)
    by (simp add: shape_gate_def demo_ckp_def type_admitted_def is_true_def derived_stamps_def candidate_ttl_def validate_report_def
        json_get_obj array_elements_def Let_def)
  have gates: "seal_gates demo_ckp p ty (Some (lit ''acme'')) ?who ?b ?t = Inr (st, obs, set_setting ''ckp.last_warnings'' [] ?t)"
    using assms(7,8) gate by (simp add: seal_gates_def coalesce_text_def Let_def)
  have "\<exists>ep. event_project demo_ckp ?s d (final_body demo_ckp ?who b st) = Inr ep" for d
    using final_body_stamps[OF gate assms(1) get_text_is_object[OF assms(2)]] event_project_stamped by blast
  note sl = demo_like_settings[OF demo_like_settings(6)[OF assms(5), of "[]"]]
  obtain sha db' where "seal_writes demo_ckp ?s now None (lit ''secret'') (Some (lit ''acme'')) obs p (final_body demo_ckp ?who b st) db = Inr (sha, db')"
    "s_proof db' = s_proof db + 1 + int (length obs)"
    using demo_writes[of ?s "final_body demo_ckp ?who b st" db obs now None "lit ''secret''" "Some (lit ''acme'')" p] assms(9-) sl(2,3)
      \<open>\<And>d. \<exists>ep. event_project demo_ckp ?s d (final_body demo_ckp ?who b st) = Inr ep\<close> by blast
  then show ?thesis
    using gates assms(2,4,6) demo_like_settings(1)[OF assms(5)] demo_like_settings(4)[OF assms(5,4)]
    by (auto simp: ckp_seal_def Let_def config_int_def resolve_participant_def nullif_empty_def final_body_def demo_ckp_config_def)
qed

lemma demo_seal_at:
  assumes "json_object_wf b" "body_text demo_ckp b (lit ''type'') = Some ty" "58 \<in> set ty"
    "t_config db = demo_ckp_config" "resolve_project demo_ckp demo_session db = Inr (Some (lit ''acme''))"
    "membership_gate demo_ckp db (participant_urn demo_ckp (lit ''Alice''))
       (strip_stamps (attribute_body demo_ckp (participant_urn demo_ckp (lit ''Alice'')) b)) = Inr ()"
    "run_proof_obligations demo_ckp (demo_session(lit ''ckp.last_warnings'' \<mapsto> [])) db ty
       (strip_stamps (attribute_body demo_ckp (participant_urn demo_ckp (lit ''Alice'')) b)) (lit ''acme'') = Inr (Inr obs)"
    "s_ledger db < 2 ^ 63" "s_outbox db < 2 ^ 63" "s_proof db + 1 + int (length obs) < 2 ^ 63"
  shows "\<exists>sha t'. ckp_seal demo_ckp now p b \<lparr>txn_db = db, settings = demo_session\<rparr> = Inr (sha, t')"
  using demo_seal_like[OF assms(1-4) _ assms(5-10), of now p] by (auto simp: demo_like_def)

lemma demo_seal_gen:
  assumes "json_object_wf b" "body_text demo_ckp b (lit ''type'') = Some ty" "58 \<in> set ty"
    "t_config db = demo_ckp_config" "sealed_kernel_ids demo_ckp db = []"
    "membership_gate demo_ckp db (participant_urn demo_ckp (lit ''Alice''))
       (strip_stamps (attribute_body demo_ckp (participant_urn demo_ckp (lit ''Alice'')) b)) = Inr ()"
    "run_proof_obligations demo_ckp (demo_session(lit ''ckp.last_warnings'' \<mapsto> [])) db ty
       (strip_stamps (attribute_body demo_ckp (participant_urn demo_ckp (lit ''Alice'')) b)) (lit ''acme'') = Inr (Inr obs)"
    "s_ledger db < 2 ^ 63" "s_outbox db < 2 ^ 63" "s_proof db + 1 + int (length obs) < 2 ^ 63"
  shows "\<exists>sha t'. ckp_seal demo_ckp now p b \<lparr>txn_db = db, settings = demo_session\<rparr> = Inr (sha, t')"
  by (rule demo_seal_at[OF assms(1-4) demo_project[OF assms(5)] assms(6-10)])

lemma demo_gate_ok:
  "ty \<noteq> core ''Membership'' \<Longrightarrow> json_object_wf b \<Longrightarrow> body_text demo_ckp b (lit ''type'') = Some ty \<Longrightarrow>
     membership_gate demo_ckp db who (strip_stamps (attribute_body demo_ckp who b)) = Inr ()"
  using get_text_is_object[of demo_print b "lit ''type''" ty]
  by (simp add: membership_gate_def get_text_def json_get_strip json_get_attribute stamp_keys_def demo_ckp_def)

lemma demo_seal: "\<exists>sha t'. ckp_seal demo_ckp 7 (lit ''n1'') demo_body demo_txn = Inr (sha, t')"
  unfolding demo_txn_def
proof (rule demo_seal_gen[OF demo_body_ok(1,3), where obs = "[]"])
  show "membership_gate demo_ckp (empty_store demo_ckp_config ()) (participant_urn demo_ckp (lit ''Alice''))
      (strip_stamps (attribute_body demo_ckp (participant_urn demo_ckp (lit ''Alice'')) demo_body)) = Inr ()"
    using demo_body_ok by (intro demo_gate_ok) (simp_all add: core_def core_ns_def lit_def)
qed (simp_all add: empty_store_def sealed_kernel_ids_def map_filter_simps run_proof_obligations_def lit_def)

lemma demo_step:
  assumes "ckp_seal demo_ckp 7 (lit ''n1'') demo_body demo_txn = Inr (sha, t')"
  shows "(store_step demo_ckp (lit ''secret''))\<^sup>*\<^sup>* (empty_store demo_ckp_config ()) (txn_db t')"
    "find_instance (txn_db t') (lit ''n1'') \<noteq> None" "identity_key demo_session (txn_db t') = Some (lit ''secret'')"
proof -
  have k: "identity_key (settings demo_txn) (txn_db demo_txn) = Some (lit ''secret'')"
    by (simp add: demo_txn_def demo_key)
  from step_seal[OF assms k]
  show "(store_step demo_ckp (lit ''secret''))\<^sup>*\<^sup>* (empty_store demo_ckp_config ()) (txn_db t')"
    by (simp add: demo_txn_def)
  from seal_ok[OF assms] obtain key obs b ep where s: "sealed demo_ckp 7 key obs (lit ''n1'') b ep (txn_db demo_txn) (txn_db t')"
    by metis
  then show "find_instance (txn_db t') (lit ''n1'') \<noteq> None"
    using find_after_upsert[of "txn_db t'" 7 "lit ''n1''" b "txn_db demo_txn" "lit ''n1''"] by (simp add: sealed_def)
  show "identity_key demo_session (txn_db t') = Some (lit ''secret'')"
    using s k by (auto simp: sealed_def identity_key_def demo_txn_def split: option.splits)
qed

section \<open>The ledger\<close>

text \<open>Sealed instances verify, and keep verifying. In every state the store can reach from
  empty under one identity key, by seals of any caller (new identifiers or identifiers
  sealed before), drains of the outbox, rolled back statements and changes of the other
  tables, \<^verbatim>\<open>ckp.verify\<close> is true of every stored instance.\<close>

theorem sealed_instances_verify:
  assumes "(store_step E key)\<^sup>*\<^sup>* (empty_store cfg g) db" "find_instance db p \<noteq> None"
    "identity_key s db = Some key" "key \<noteq> []"
  shows "ckp_verify E s db p"
  using store_reachable_inv[OF assms(1)] assms(2-) by (simp add: ckp_verify_iff store_inv_def)

theorem sealed_instances_verify_witness:
  "\<exists>sha t'. ckp_seal demo_ckp 7 (lit ''n1'') demo_body demo_txn = Inr (sha, t') \<and>
     ckp_verify demo_ckp demo_session (txn_db t') (lit ''n1'')"
proof -
  obtain sha t' where t': "ckp_seal demo_ckp 7 (lit ''n1'') demo_body demo_txn = Inr (sha, t')" using demo_seal by blast
  with sealed_instances_verify[OF demo_step[OF t']] show ?thesis by auto
qed

text \<open>C12: the ledger is one unbroken chain. In every reachable state the sequence numbers
  strictly increase, and each entry's \<^verbatim>\<open>prev_seq\<close> is the number of the entry before it, with
  null for the first only; identifiers of instances and of proofs are unique.\<close>

theorem ledger_is_chain:
  assumes "(store_step E key)\<^sup>*\<^sup>* (empty_store cfg g) db"
  shows "sorted_wrt (<) (map l_seq (t_ledger db)) \<and> distinct (map i_id (t_instances db)) \<and>
    distinct (map pr_id (t_proof db)) \<and>
    map l_prev_seq (t_ledger db) = take (length (t_ledger db)) (None # map (Some \<circ> l_seq) (t_ledger db))"
proof -
  have wf: "store_wf db" using store_reachable_inv[OF assms] by (simp add: store_inv_def)
  then have so: "sorted_wrt (<) (map l_seq (t_ledger db))" and ch: "chained (t_ledger db)" by (simp_all add: store_wf_def)
  have "l_prev_seq (t_ledger db ! i) = (None # map (Some \<circ> l_seq) (t_ledger db)) ! i" if i: "i < length (t_ledger db)" for i
  proof (cases i)
    case 0
    with ch i show ?thesis by (simp add: chained_def list_all_iff max_opt_def)
  next
    case (Suc j)
    let ?L = "map l_seq (t_ledger db)"
    have "take i ?L = take j ?L @ [?L ! j]" using Suc i by (simp add: take_Suc_conv_app_nth)
    moreover have "\<forall>x \<in> set (take j ?L). x < ?L ! j"
      using so i Suc unfolding sorted_wrt_iff_nth_less by (auto simp: in_set_conv_nth)
    ultimately have "max_opt (take i ?L) = Some (?L ! j)" by (simp only: max_opt_snoc)
    with ch i Suc show ?thesis by (simp add: chained_def list_all_iff take_map)
  qed
  then have "map l_prev_seq (t_ledger db) = take (length (t_ledger db)) (None # map (Some \<circ> l_seq) (t_ledger db))"
    by (intro nth_equalityI) simp_all
  with wf so show ?thesis by (simp add: store_wf_def strict_sorted_iff)
qed

theorem ledger_is_chain_witness:
  "\<exists>sha t'. ckp_seal demo_ckp 7 (lit ''n1'') demo_body demo_txn = Inr (sha, t') \<and>
     sorted_wrt (<) (map l_seq (t_ledger (txn_db t')))"
proof -
  obtain sha t' where t': "ckp_seal demo_ckp 7 (lit ''n1'') demo_body demo_txn = Inr (sha, t')" using demo_seal by blast
  with ledger_is_chain[OF demo_step(1)[OF t']] show ?thesis by auto
qed

text \<open>C9: a changed body is detected. If the body of an instance of a reachable store is
  replaced in the table and \<^verbatim>\<open>ckp.verify\<close> still accepts it, then the two bodies have the
  same SHA-256 digest: their text is byte for byte the same or a collision has been found.\<close>

theorem tampered_body_detected:
  assumes "(store_step E key)\<^sup>*\<^sup>* (empty_store cfg g) db" "find_instance db p = Some b"
    "ckp_verify E s (db\<lparr>t_instances := map (\<lambda>i. if i_id i = p then i\<lparr>i_body := b'\<rparr> else i) (t_instances db)\<rparr>) p"
  shows "as_bytes (jsonb_text E b') = as_bytes (jsonb_text E b) \<or>
    (as_bytes (jsonb_text E b') \<noteq> as_bytes (jsonb_text E b) \<and>
     sha256_hex E (as_bytes (jsonb_text E b')) = sha256_hex E (as_bytes (jsonb_text E b)))"
proof -
  let ?db = "db\<lparr>t_instances := map (\<lambda>i. if i_id i = p then i\<lparr>i_body := b'\<rparr> else i) (t_instances db)\<rparr>"
  have "verifies_with E key db p" using store_reachable_inv[OF assms(1)] assms(2) by (simp add: store_inv_def)
  then obtain l where l: "latest_by l_seq (filter (\<lambda>l. l_instance_id l = p) (t_ledger db)) = Some l" "body_digest E b = l_body_sha256 l"
    using assms(2) unfolding verifies_with_def by auto
  obtain body where b: "find_instance ?db p = Some body" "body_digest E body = l_body_sha256 l"
    using assms(3) l(1) unfolding ckp_verify_iff verifies_with_def by auto
  have "map_option i_body (List.find (\<lambda>i. i_id i = p) (map (\<lambda>i. if i_id i = p then i\<lparr>i_body := b'\<rparr> else i) rows)) =
      map_option (\<lambda>_. b') (List.find (\<lambda>i. i_id i = p) rows)" for rows
    by (induction rows) auto
  then have "find_instance ?db p = map_option (\<lambda>_. b') (List.find (\<lambda>i. i_id i = p) (t_instances db))"
    by (simp add: find_instance_def)
  also have "\<dots> = Some b'" using assms(2) by (auto simp: find_instance_def)
  finally have "body = b'" using b(1) by simp
  then show ?thesis using b(2) l(2) by (simp add: body_digest_def)
qed

theorem tampered_body_detected_witness:
  "\<exists>sha t' b. ckp_seal demo_ckp 7 (lit ''n1'') demo_body demo_txn = Inr (sha, t') \<and> find_instance (txn_db t') (lit ''n1'') = Some b \<and>
     \<not> ckp_verify demo_ckp demo_session ((txn_db t')\<lparr>t_instances := map (\<lambda>i. if i_id i = lit ''n1'' then i\<lparr>i_body := JString []\<rparr> else i)
          (t_instances (txn_db t'))\<rparr>) (lit ''n1'')"
proof -
  obtain sha t' where t': "ckp_seal demo_ckp 7 (lit ''n1'') demo_body demo_txn = Inr (sha, t')" using demo_seal by blast
  from seal_ok[OF t'] obtain key obs who st ep where s: "sealed demo_ckp 7 key obs (lit ''n1'') (final_body demo_ckp who demo_body st) ep (txn_db demo_txn) (txn_db t')"
    by metis
  let ?b = "final_body demo_ckp who demo_body st"
  have f: "find_instance (txn_db t') (lit ''n1'') = Some ?b"
    using s find_after_upsert[of "txn_db t'" 7 "lit ''n1''" ?b "txn_db demo_txn" "lit ''n1''"] by (simp add: sealed_def)
  have sha: "sha256_hex demo_ckp x = map unat x" for x by (simp add: demo_ckp_def)
  have inj: "map unat x = map unat y \<longleftrightarrow> x = y" for x y :: bytes
    by (simp add: inj_map_eq_map injI word_unat_eq_iff)
  have "is_object ?b" using demo_body_ok(2) by (simp add: final_body_def)
  then obtain m where "?b = JObject m" by (cases ?b) (auto simp: is_object_def)
  then have "as_bytes (demo_print (JString [])) \<noteq> as_bytes (demo_print ?b)"
    by (simp add: quoted_def ttl_escape_def lit_def encode_char_def byte_def)
  with tampered_body_detected[OF demo_step(1)[OF t'] f, of demo_session "JString []"]
  show ?thesis using t' f by (auto simp: sha inj demo_ckp_def)
qed

text \<open>C26: two seals that overlap break the chain. \<^verbatim>\<open>seal\<close> reads \<^verbatim>\<open>max(seq)\<close> and inserts later,
  with no lock between: if two seals of different instances both read before either
  inserts, the second one's entry names the same predecessor as the first one's, and
  \<^verbatim>\<open>ckp.verify\<close> of the second is false from then on, although both sealed without error.\<close>

theorem overlapping_seals_break_verify:
  assumes "store_wf db" "find_instance db a = Some ba" "find_instance db b = Some bb"
    "insert_ledger E s a sha_a sig_a (max_opt (map l_seq (t_ledger db))) db = Inr db1"
    "insert_ledger E s' b sha_b sig_b (max_opt (map l_seq (t_ledger db))) db1 = Inr db2"
  shows "\<not> ckp_verify E s'' db2 b"
proof -
  from insert_ledger_ok[OF assms(4,2)] have d1: "t_ledger db1 = t_ledger db @
      [\<lparr>l_seq = s_ledger db, l_instance_id = a, l_body_sha256 = sha_a, l_sig = sig_a, l_prev_seq = max_opt (map l_seq (t_ledger db))\<rparr>]"
    "s_ledger db1 = s_ledger db + 1" "find_instance db1 b = Some bb"
    using assms(3) by (auto simp: find_instance_def)
  let ?r = "\<lparr>l_seq = s_ledger db + 1, l_instance_id = b, l_body_sha256 = sha_b, l_sig = sig_b, l_prev_seq = max_opt (map l_seq (t_ledger db))\<rparr>"
  from insert_ledger_ok[OF assms(5) d1(3)] d1 have d2: "t_ledger db2 = t_ledger db1 @ [?r]" by auto
  have lt: "\<forall>l \<in> set (t_ledger db). l_seq l < s_ledger db" using assms(1) by (simp add: store_wf_def list_all_iff)
  then have "\<forall>l \<in> set (t_ledger db1). l_seq l < l_seq ?r" unfolding d1 by auto
  then have latest: "latest_by l_seq (filter (\<lambda>l. l_instance_id l = b) (t_ledger db2)) = Some ?r"
    and earlier: "filter (\<lambda>r. l_seq r < l_seq ?r) (t_ledger db2) = t_ledger db1"
    unfolding d2 by (simp_all add: latest_by_snoc)
  have "max_opt (map l_seq (t_ledger db1)) = Some (s_ledger db)"
    using lt unfolding d1(1) by (simp add: max_opt_snoc)
  moreover have "max_opt (map l_seq (t_ledger db)) \<noteq> Some (s_ledger db)"
    using lt max_opt_in[of "map l_seq (t_ledger db)" "s_ledger db"] by fastforce
  ultimately show ?thesis
    unfolding ckp_verify_iff verifies_with_def latest using earlier by auto
qed

definition demo_stamped :: json where
  "demo_stamped = json_obj [(core ''producedBy'', JString (kernel_graph_iri (lit ''acme'')))]"

definition demo_pair :: "unit ckp_db" where
  "demo_pair = (empty_store demo_ckp_config ())\<lparr>t_instances :=
     [\<lparr>i_id = lit ''a'', i_body = demo_stamped, i_created = 1, i_updated = 1\<rparr>,
      \<lparr>i_id = lit ''b'', i_body = demo_stamped, i_created = 1, i_updated = 1\<rparr>]\<rparr>"

theorem overlapping_seals_break_verify_witness:
  "\<exists>db1 db2. insert_ledger demo_ckp demo_session (lit ''a'') [1] [2] None demo_pair = Inr db1 \<and>
     insert_ledger demo_ckp demo_session (lit ''b'') [3] [4] None db1 = Inr db2 \<and> \<not> ckp_verify demo_ckp demo_session db2 (lit ''b'')"
proof -
  have ep: "event_project demo_ckp demo_session db demo_stamped = Inr (lit ''acme'')" for db
    by (rule event_project_stamped) (simp_all add: demo_stamped_def json_get_obj)
  have wf: "store_wf demo_pair" by (simp add: store_wf_def demo_pair_def empty_store_def chained_def)
  have f: "find_instance demo_pair (lit ''a'') = Some demo_stamped" "find_instance demo_pair (lit ''b'') = Some demo_stamped"
    by (simp_all add: find_instance_def demo_pair_def)
  have pr: "max_opt (map l_seq (t_ledger demo_pair)) = None" by (simp add: demo_pair_def empty_store_def)
  obtain db1 where 1: "insert_ledger demo_ckp demo_session (lit ''a'') [1] [2] None demo_pair = Inr db1"
    by (simp add: insert_ledger_def ledger_to_outbox_def find_instance_def demo_pair_def empty_store_def nextval_def ep Let_def)
  moreover obtain db2 where "insert_ledger demo_ckp demo_session (lit ''b'') [3] [4] None db1 = Inr db2"
    using 1 by (auto simp: insert_ledger_def ledger_to_outbox_def find_instance_def demo_pair_def empty_store_def nextval_def ep Let_def)
  ultimately show ?thesis
    using overlapping_seals_break_verify[OF wf f, unfolded pr] by blast
qed

section \<open>Identity and stamps\<close>

text \<open>The stored body after a seal, with the stamps of the gate.\<close>

lemma seal_stored:
  assumes "ckp_seal E now p body t = Inr (sha, t')" "json_object_wf body"
  obtains who pr b where
    "resolve_participant E (settings t) body = Inr who" "resolve_project E (settings t) (txn_db t) = Inr (Some pr)" "pr \<noteq> []"
    "find_instance (txn_db t') p = Some b" "sha = body_digest E b"
    "json_get b (core ''participant'') = Some (JString who)" "json_get b (core ''createdBy'') = Some (JString who)"
    "json_get b (core ''producedBy'') = Some (JString (kernel_graph_iri pr))"
    "json_get b (lit ''type'') = json_get body (lit ''type'')"
    "t_outbox (txn_db t') = t_outbox (txn_db t) @ [event_of E (txn_db t) pr b]"
    "\<exists>key. t_ledger (txn_db t') = t_ledger (txn_db t) @ [sealed_row E (txn_db t) key p b]"
  using assms(1)
proof (rule seal_ok)
  fix ty key who proj stamps warn g obs ep dbx
  assume h: "body_text E body (lit ''type'') = Some ty" "resolve_participant E (settings t) body = Inr who"
    "resolve_project E (settings t) (txn_db t) = Inr proj"
    "shape_gate E (settings t) p ty proj who (strip_stamps (attribute_body E who body)) (txn_db t) = Inr (stamps, warn, g)"
    "sha = body_digest E (final_body E who body stamps)"
    "event_project E (settings t') dbx (final_body E who body stamps) = Inr ep"
    and s: "sealed E now key obs p (final_body E who body stamps) ep (txn_db t) (txn_db t')"
  from final_body_stamps[OF h(4) assms(2) get_text_is_object[OF h(1)]] obtain pr where
    pr: "proj = Some pr" "pr \<noteq> []" "json_get (final_body E who body stamps) (core ''producedBy'') = Some (JString (kernel_graph_iri pr))"
    "json_get (final_body E who body stamps) (core ''createdBy'') = Some (JString who)"
    "json_get (final_body E who body stamps) (core ''participant'') = Some (JString who)"
    "json_get (final_body E who body stamps) (lit ''type'') = json_get body (lit ''type'')" by blast
  have "ep = pr" using h(6) event_project_stamped[OF pr(3,2), of E "settings t'" dbx] by simp
  moreover have "find_instance (txn_db t') p = Some (final_body E who body stamps)"
    using s find_after_upsert[of "txn_db t'" now p "final_body E who body stamps" "txn_db t" p] by (simp add: sealed_def)
  ultimately show thesis using h(2,3,5) pr s by (intro that[of who pr "final_body E who body stamps"]) (auto simp: sealed_def)
qed

lemma sealed_by_requester:
  assumes "ckp_seal E now p body t = Inr (sha, t')" "json_object_wf body"
    "guc_trimmed (settings t) ''ckp.requester'' = Some r"
  shows "\<exists>b ev. find_instance (txn_db t') p = Some b \<and>
    json_get b (core ''participant'') = Some (JString (participant_urn E r)) \<and>
    json_get b (core ''createdBy'') = Some (JString (participant_urn E r)) \<and>
    t_outbox (txn_db t') = t_outbox (txn_db t) @ [ev] \<and>
    json_get (d_headers (ob_data ev)) (lit ''by'') = Some (JString (participant_urn E r))"
  using assms(1,2)
proof (rule seal_stored)
  fix who pr b
  assume h: "resolve_participant E (settings t) body = Inr who" "find_instance (txn_db t') p = Some b"
    "json_get b (core ''participant'') = Some (JString who)" "json_get b (core ''createdBy'') = Some (JString who)"
    "t_outbox (txn_db t') = t_outbox (txn_db t) @ [event_of E (txn_db t) pr b]"
  have "who = participant_urn E r" using h(1) assms(3) by (simp add: resolve_participant_def)
  with h show ?thesis
    by (auto simp: event_of_def event_row_def sender_header_def has_key_get get_text_def text_of_def json_get_obj Let_def)
qed

text \<open>C3: the identity of a sealed fact is the verified requester. When the transaction carries
  \<^verbatim>\<open>ckp.requester\<close>, the stored body names that participant as \<^verbatim>\<open>participant\<close> and as \<^verbatim>\<open>createdBy\<close>,
  and the event's \<^verbatim>\<open>by\<close> header carries it, whatever identity the payload claims.\<close>

theorem sealed_identity_is_requester:
  assumes "ckp_seal E now p body t = Inr (sha, t')" "json_object_wf body"
    "guc_trimmed (settings t) ''ckp.requester'' = Some r"
  shows "\<exists>b ev. find_instance (txn_db t') p = Some b \<and>
    json_get b (core ''participant'') = Some (JString (participant_urn E r)) \<and>
    json_get b (core ''createdBy'') = Some (JString (participant_urn E r)) \<and>
    t_outbox (txn_db t') = t_outbox (txn_db t) @ [ev] \<and>
    json_get (d_headers (ob_data ev)) (lit ''by'') = Some (JString (participant_urn E r))"
  using sealed_by_requester[OF assms] .

theorem sealed_identity_is_requester_witness:
  "\<exists>sha t' b. ckp_seal demo_ckp 7 (lit ''n1'') demo_body demo_txn = Inr (sha, t') \<and> find_instance (txn_db t') (lit ''n1'') = Some b \<and>
     json_get b (core ''createdBy'') = Some (JString (participant_urn demo_ckp (lit ''Alice'')))"
proof -
  obtain sha t' where t': "ckp_seal demo_ckp 7 (lit ''n1'') demo_body demo_txn = Inr (sha, t')" using demo_seal by blast
  have "guc_trimmed (settings demo_txn) ''ckp.requester'' = Some (lit ''Alice'')" by (simp add: demo_txn_def demo_requester)
  from sealed_identity_is_requester[OF t' demo_body_ok(1) this] t' show ?thesis by blast
qed

lemma claim_insert:
  assumes "json_object_wf j" "is_object j" "k \<noteq> lit ''participant''"
  shows "display_claim E (json_insert k v j) n = display_claim E j n"
    "participant_claim E (json_insert k v j) n = participant_claim E j n"
  using assms by (simp_all add: display_claim_def participant_claim_def json_get_json_insert)

lemma strip_attribute_insert:
  assumes "json_object_wf j" "is_object j" "k \<in> set stamp_keys"
  shows "strip_stamps (attribute_body E who (json_insert k v j)) = strip_stamps (attribute_body E who j)"
proof (rule json_object_ext)
  have "k \<noteq> lit ''participant''" using assms(3) by (auto simp: stamp_keys_def)
  note c = claim_insert(1)[OF assms(1,2) this]
  show "json_get (strip_stamps (attribute_body E who (json_insert k v j))) x = json_get (strip_stamps (attribute_body E who j)) x" for x
    using assms by (auto simp: json_get_strip json_get_attribute inv_intros c json_get_json_insert)
qed (use assms in \<open>auto intro!: inv_intros\<close>)

text \<open>C8: the five server-derived stamps cannot be asserted. Adding any value under one of the
  keys \<^verbatim>\<open>producedBy\<close>, \<^verbatim>\<open>createdBy\<close>, \<^verbatim>\<open>sealedAtEpoch\<close>, \<^verbatim>\<open>conformsToShape\<close> or \<^verbatim>\<open>onBehalfOf\<close> to a payload
  changes nothing at all: the seal returns the same digest and the same state, or refuses
  with the same error.\<close>

theorem stamps_not_assertable:
  assumes "json_object_wf body" "k \<in> set stamp_keys"
  shows "ckp_seal E now p (json_insert k v body) t = ckp_seal E now p body t"
proof (cases "is_object body")
  case True
  have k: "k \<noteq> lit ''participant''" "k \<noteq> lit ''type''" using assms(2) by (auto simp: stamp_keys_def)
  have "body_text E (json_insert k v body) (lit ''type'') = body_text E body (lit ''type'')"
    using k assms(1) True by (simp add: get_text_def json_get_json_insert)
  moreover have "resolve_participant E (settings t) (json_insert k v body) = resolve_participant E (settings t) body"
    unfolding resolve_participant_def claim_insert(2)[OF assms(1) True k(1)] ..
  ultimately show ?thesis
    unfolding ckp_seal_def strip_attribute_insert[OF assms(1) True assms(2)] by simp
qed (cases body, simp_all add: is_object_def)

theorem stamps_not_assertable_witness:
  "ckp_seal demo_ckp 7 (lit ''n1'') (json_insert (core ''createdBy'') (JString (lit ''me'')) demo_body) demo_txn =
     ckp_seal demo_ckp 7 (lit ''n1'') demo_body demo_txn"
  using stamps_not_assertable[OF demo_body_ok(1), of "core ''createdBy''"] by (simp add: stamp_keys_def)

section \<open>Refusals\<close>

lemma seal_needs_author_and_kernel:
  assumes "(guc_trimmed (settings t) ''ckp.requester'' = None \<and> btrim spc (coalesce_text (participant_claim E body ''sub'') []) = []) \<or>
    guc_nonempty (settings t) ''ckp.project'' = None"
  shows "\<exists>e. ckp_seal E now p body t = Inl e"
proof (cases "ckp_seal E now p body t")
  case (Inr r)
  then obtain sha t' where r: "ckp_seal E now p body t = Inr (sha, t')" by (cases r) simp
  from r have False
  proof (rule seal_ok)
    fix ty who proj stamps warn g
    assume h: "resolve_participant E (settings t) body = Inr who" "resolve_project E (settings t) (txn_db t) = Inr proj"
      "shape_gate E (settings t) p ty proj who (strip_stamps (attribute_body E who body)) (txn_db t) = Inr (stamps, warn, g)"
    show False
      using assms h(1,2) shape_gate_ok[OF h(3)]
      by (auto simp: resolve_participant_def resolve_project_def coalesce_text_def split: option.splits if_splits)
  qed
  then show ?thesis ..
qed simp

text \<open>No fact is sealed without an author or without a kernel. A seal by a transaction that
  carries no requester, on a payload whose \<^verbatim>\<open>participant.sub\<close> is absent or blank, raises; so
  does every seal of a transaction in which \<^verbatim>\<open>ckp.project\<close> is unset. Nothing is written.\<close>

theorem anonymous_or_unplaced_seal_refused:
  assumes "(guc_trimmed (settings t) ''ckp.requester'' = None \<and> btrim spc (coalesce_text (participant_claim E body ''sub'') []) = []) \<or>
    guc_nonempty (settings t) ''ckp.project'' = None"
  shows "\<exists>e. ckp_seal E now p body t = Inl e"
  using seal_needs_author_and_kernel[OF assms] .

theorem anonymous_or_unplaced_seal_refused_witness:
  "\<exists>e. ckp_seal demo_ckp 7 (lit ''n1'') demo_body (demo_txn\<lparr>settings := [lit ''ckp.requester'' \<mapsto> lit ''Alice'']\<rparr>) = Inl e"
  by (rule anonymous_or_unplaced_seal_refused) (simp add: guc_nonempty_def nullif_empty_def)

lemma run_obligations_ok:
  "run_obligations check rs acc = Inr (Inr obs) \<Longrightarrow>
     obs = acc @ map o_obligation rs \<and> (\<forall>r \<in> set rs. check (o_check_name r) = Inr True)"
  by (induction rs arbitrary: acc) (fastforce simp: ok_iff split: if_splits)+

text \<open>The checks read three properties of a body.\<close>

lemma run_check_cong:
  assumes "\<And>k. k \<in> {core ''surfaceDigest'', core ''epoch'', core ''adopts''} \<Longrightarrow> json_get b k = json_get c k"
  shows "run_check E s db b n = run_check E s db c n"
proof -
  have eq: "body_text E b (core ''surfaceDigest'') = body_text E c (core ''surfaceDigest'')" "body_text E b (core ''epoch'') = body_text E c (core ''epoch'')"
    "body_text E b (core ''adopts'') = body_text E c (core ''adopts'')"
    using assms by (simp_all add: get_text_def)
  show ?thesis unfolding run_check_def oblig_digest_match_def oblig_adopts_resolves_def oblig_structural_pin_def eq ..
qed

text \<open>C20: an agreed check is never skipped. When a seal returns, every active obligation that
  binds the kernel for the sealed type has passed its check on the very body that is then stored under the
  identifier, against the tables before the seal, the graphs as the shape gate left them and the warnings the gate gave;
  and it has left a proof row about the instance that names it and carries the digest of that body.\<close>

theorem obligations_hold_on_sealed:
  assumes "ckp_seal E now p body t = Inr (sha, t')" "json_object_wf body" "resolve_project E (settings t) (txn_db t) = Inr (Some proj)"
    "po \<in> set (t_obligations (txn_db t))" "o_active po" "body_text E body (lit ''type'') = Some (o_target_type po)"
    "obligation_binds E (txn_db t) proj po"
  shows "\<exists>who stamps warn g b. resolve_participant E (settings t) body = Inr who \<and>
    shape_gate E (settings t) p (o_target_type po) (Some proj) who (strip_stamps (attribute_body E who body)) (txn_db t) = Inr (stamps, warn, g) \<and>
    settings t' = (settings t)(lit ''ckp.last_warnings'' \<mapsto> warn) \<and>
    find_instance (txn_db t') p = Some b \<and> sha = body_digest E b \<and>
    run_check E (settings t') ((txn_db t)\<lparr>rdf := g\<rparr>) b (o_check_name po) = Inr True \<and>
    (\<exists>q \<in> set (t_proof (txn_db t')). pr_about q = p \<and> pr_method q = lit ''obligation:'' @ o_obligation po \<and> pr_digest q = sha)"
  using assms(1)
proof (rule seal_ok)
  fix ty key who proj' stamps warn g obs ep
  let ?c = "strip_stamps (attribute_body E who body)" and ?b = "final_body E who body stamps"
  assume ty: "body_text E body (lit ''type'') = Some ty" and who: "resolve_participant E (settings t) body = Inr who"
    and pr: "resolve_project E (settings t) (txn_db t) = Inr proj'"
    and gate: "shape_gate E (settings t) p ty proj' who ?c (txn_db t) = Inr (stamps, warn, g)"
    and warn: "settings t' = (settings t)(lit ''ckp.last_warnings'' \<mapsto> warn)"
    and run: "run_proof_obligations E (settings t') ((txn_db t)\<lparr>rdf := g\<rparr>) ty ?c (coalesce_text proj' []) = Inr (Inr obs)"
    and sha: "sha = body_digest E ?b"
    and s: "sealed E now key obs p ?b ep (txn_db t) (txn_db t')"
  have eq: "ty = o_target_type po" "proj' = Some proj" using ty pr assms(3,6) by simp_all
  have binds: "obligation_binds E ((txn_db t)\<lparr>rdf := g\<rparr>) proj po" using assms(7) by (simp add: obligation_binds_def)
  have ob: "o_obligation po \<in> set obs" and ck: "run_check E (settings t') ((txn_db t)\<lparr>rdf := g\<rparr>) ?c (o_check_name po) = Inr True"
    using run_obligations_ok[OF run[unfolded run_proof_obligations_def]] assms(4,5) binds by (auto simp: eq coalesce_text_def)
  note o = get_text_is_object[OF ty]
  have "json_get ?b k = json_get ?c k" if "k \<in> {core ''surfaceDigest'', core ''epoch'', core ''adopts''}" for k
    using that final_body_other[OF gate assms(2) o] assms(2) o by (auto simp: json_get_strip json_get_attribute stamp_keys_def)
  then have "run_check E (settings t') ((txn_db t)\<lparr>rdf := g\<rparr>) ?b (o_check_name po) = run_check E (settings t') ((txn_db t)\<lparr>rdf := g\<rparr>) ?c (o_check_name po)"
    by (rule run_check_cong)
  with ck have cb: "run_check E (settings t') ((txn_db t)\<lparr>rdf := g\<rparr>) ?b (o_check_name po) = Inr True" by simp
  have find: "find_instance (txn_db t') p = Some ?b" using s[unfolded sealed_def] find_after_upsert[of "txn_db t'" now p ?b "txn_db t" p] by simp
  from s obtain q qs where qs: "t_proof (txn_db t') = t_proof (txn_db t) @ q # qs" "\<forall>r \<in> set qs. pr_about r = p"
    "take (length obs) (map pr_method qs) = map ((@) (lit ''obligation:'')) obs"
    "\<forall>r \<in> set (take (length obs) qs). pr_digest r = sha"
    unfolding sealed_def sha[symmetric] by blast
  have "lit ''obligation:'' @ o_obligation po \<in> set (map pr_method (take (length obs) qs))"
    using ob qs(3) by (simp add: take_map)
  then obtain r where r: "r \<in> set (take (length obs) qs)" "pr_method r = lit ''obligation:'' @ o_obligation po" by auto
  then have "r \<in> set qs" using in_set_takeD by fast
  then have "\<exists>q \<in> set (t_proof (txn_db t')). pr_about q = p \<and> pr_method q = lit ''obligation:'' @ o_obligation po \<and> pr_digest q = sha"
    using r qs by auto
  with who gate warn find sha cb show ?thesis unfolding eq by blast
qed

definition demo_obligation :: obligation_row where
  "demo_obligation = \<lparr>o_project = lit ''acme'', o_obligation = lit ''strict'', o_target_type = lit ''urn:x/Note'',
     o_check_name = lit ''no-warnings'', o_added_epoch = 1, o_active = True\<rparr>"

definition demo_guarded :: "unit ckp_db" where
  "demo_guarded = (empty_store demo_ckp_config ())\<lparr>t_obligations := [demo_obligation]\<rparr>"

theorem obligations_hold_on_sealed_witness:
  "\<exists>sha t'. ckp_seal demo_ckp 7 (lit ''n1'') demo_body \<lparr>txn_db = demo_guarded, settings = demo_session\<rparr> = Inr (sha, t') \<and>
     (\<exists>b. find_instance (txn_db t') (lit ''n1'') = Some b \<and> run_check demo_ckp (settings t') demo_guarded b (lit ''no-warnings'') = Inr True) \<and>
     (\<exists>q \<in> set (t_proof (txn_db t')). pr_about q = lit ''n1'' \<and> pr_method q = lit ''obligation:'' @ lit ''strict'' \<and> pr_digest q = sha)"
proof -
  let ?t = "\<lparr>txn_db = demo_guarded, settings = demo_session\<rparr>"
  have k: "sealed_kernel_ids demo_ckp demo_guarded = []" by (simp add: sealed_kernel_ids_def demo_guarded_def empty_store_def map_filter_simps)
  have run: "run_proof_obligations demo_ckp (demo_session(lit ''ckp.last_warnings'' \<mapsto> [])) demo_guarded (lit ''urn:x/Note'') x (lit ''acme'')
      = Inr (Inr [lit ''strict''])" for x
    by (simp add: run_proof_obligations_def demo_guarded_def demo_obligation_def obligation_binds_def run_check_def
        oblig_no_warnings_def guc_nonempty_def nullif_empty_def)
  have "\<exists>sha t'. ckp_seal demo_ckp 7 (lit ''n1'') demo_body ?t = Inr (sha, t')"
  proof (rule demo_seal_gen[OF demo_body_ok(1,3) _ _ k _ run])
    show "membership_gate demo_ckp demo_guarded (participant_urn demo_ckp (lit ''Alice''))
        (strip_stamps (attribute_body demo_ckp (participant_urn demo_ckp (lit ''Alice'')) demo_body)) = Inr ()"
      using demo_body_ok by (intro demo_gate_ok) (simp_all add: core_def core_ns_def lit_def)
  qed (simp_all add: demo_guarded_def empty_store_def lit_def)
  then obtain sha t' where t': "ckp_seal demo_ckp 7 (lit ''n1'') demo_body ?t = Inr (sha, t')" by blast
  have "resolve_project demo_ckp (settings ?t) (txn_db ?t) = Inr (Some (lit ''acme''))" using demo_project[OF k] by simp
  from obligations_hold_on_sealed[OF t' demo_body_ok(1) this, of demo_obligation] demo_body_ok(3)
  obtain b g where "find_instance (txn_db t') (lit ''n1'') = Some b"
    "run_check demo_ckp (settings t') (demo_guarded\<lparr>rdf := g\<rparr>) b (o_check_name demo_obligation) = Inr True"
    "\<exists>q \<in> set (t_proof (txn_db t')). pr_about q = lit ''n1'' \<and> pr_method q = lit ''obligation:'' @ o_obligation demo_obligation \<and> pr_digest q = sha"
    by (auto simp: demo_guarded_def demo_obligation_def obligation_binds_def)
  with t' show ?thesis by (auto simp: demo_obligation_def)
qed

text \<open>C21: memberships are the owner's to write. A sealed Membership in a project that declares an
  owner was sealed by that owner.\<close>

theorem membership_sealed_by_owner:
  assumes "ckp_seal E now p body t = Inr (sha, t')" "json_object_wf body"
    "body_text E body (lit ''type'') = Some (core ''Membership'')" "body_text E body (core ''memberOf'') = Some m"
    "project_owner E (txn_db t) m = Some owner"
  shows "resolve_participant E (settings t) body = Inr owner"
  using assms(1)
proof (rule seal_ok)
  fix who
  assume h: "resolve_participant E (settings t) body = Inr who"
    "membership_gate E (txn_db t) who (strip_stamps (attribute_body E who body)) = Inr ()"
  have "is_object body" using get_text_is_object[OF assms(3)] .
  then have "body_text E (strip_stamps (attribute_body E who body)) k = body_text E body k"
    if "k \<in> {lit ''type'', core ''memberOf''}" for k
    using that assms(2) by (auto simp: get_text_def json_get_strip json_get_attribute stamp_keys_def)
  with h(2) assms(3-5) have "who = owner" by (simp add: membership_gate_def ok_iff)
  with h(1) show ?thesis by simp
qed

definition demo_owned :: "unit ckp_db" where
  "demo_owned = (empty_store demo_ckp_config ())\<lparr>t_instances :=
     [\<lparr>i_id = lit ''p'', i_body = json_obj [(lit ''@id'', JString (lit ''urn:p'')), (lit ''type'', JString (core ''Project'')),
        (core ''ownedBy'', JString (participant_urn demo_ckp (lit ''Alice'')))], i_created = 1, i_updated = 1\<rparr>]\<rparr>"

definition demo_membership :: json where
  "demo_membership = json_obj [(lit ''type'', JString (core ''Membership'')), (core ''memberOf'', JString (lit ''urn:p''))]"

lemma demo_owner: "project_owner demo_ckp demo_owned (lit ''urn:p'') = Some (participant_urn demo_ckp (lit ''Alice''))"
  by (simp add: project_owner_def demo_owned_def latest_by_def get_text_def json_get_obj text_of_def)

lemma demo_membership_ok: "json_object_wf demo_membership" "is_object demo_membership"
  "body_text demo_ckp demo_membership (lit ''type'') = Some (core ''Membership'')"
  "body_text demo_ckp demo_membership (core ''memberOf'') = Some (lit ''urn:p'')"
  by (simp_all add: demo_membership_def get_text_def json_get_obj text_of_def)

theorem membership_sealed_by_owner_witness:
  "\<exists>sha t'. ckp_seal demo_ckp 7 (lit ''m'') demo_membership \<lparr>txn_db = demo_owned, settings = demo_session\<rparr> = Inr (sha, t') \<and>
     resolve_participant demo_ckp demo_session demo_membership = Inr (participant_urn demo_ckp (lit ''Alice''))"
proof -
  have "\<exists>sha t'. ckp_seal demo_ckp 7 (lit ''m'') demo_membership \<lparr>txn_db = demo_owned, settings = demo_session\<rparr> = Inr (sha, t')"
  proof (rule demo_seal_gen[OF demo_membership_ok(1,3), where obs = "[]"])
    show "membership_gate demo_ckp demo_owned (participant_urn demo_ckp (lit ''Alice''))
        (strip_stamps (attribute_body demo_ckp (participant_urn demo_ckp (lit ''Alice'')) demo_membership)) = Inr ()"
      using demo_membership_ok demo_owner
      by (simp add: membership_gate_def get_text_def json_get_strip json_get_attribute stamp_keys_def)
  qed (simp_all add: demo_owned_def empty_store_def sealed_kernel_ids_def map_filter_simps get_text_def json_get_obj text_of_def
      run_proof_obligations_def core_def core_ns_def lit_def)
  then obtain sha t' where t': "ckp_seal demo_ckp 7 (lit ''m'') demo_membership \<lparr>txn_db = demo_owned, settings = demo_session\<rparr> = Inr (sha, t')"
    by blast
  with membership_sealed_by_owner[OF t' demo_membership_ok(1,3,4)] demo_owner show ?thesis by auto
qed

section \<open>From the seal to the bus\<close>

text \<open>A run of seals, with the ledger number, the project and the stored body of each.\<close>

inductive seal_run :: "'g ckp_env \<Rightarrow> 'g ckp_db \<Rightarrow> (int \<times> str \<times> json) list \<Rightarrow> 'g ckp_db \<Rightarrow> bool" for E where
  run_nil: "seal_run E db [] db"
| run_seal: "ckp_seal E now p body t = Inr (sha, t') \<Longrightarrow> json_object_wf body \<Longrightarrow> find_instance (txn_db t') p = Some b \<Longrightarrow>
    resolve_project E (settings t) (txn_db t) = Inr (Some pr) \<Longrightarrow> seal_run E (txn_db t') evs db \<Longrightarrow>
    seal_run E (txn_db t) ((s_ledger (txn_db t), pr, b) # evs) db"

lemma seal_run_outbox:
  "seal_run E db evs db' \<Longrightarrow>
     store_wf db \<Longrightarrow> store_wf db' \<and> (\<exists>rows. t_outbox db' = t_outbox db @ rows \<and> map ob_data rows = map (\<lambda>(n, pr, b). event_row E n pr b) evs)"
proof (induction rule: seal_run.induct)
  case (run_seal now p body t sha t' b pr evs db)
  from run_seal.hyps(1) have wf: "store_wf (txn_db t')"
    by (rule seal_ok) (use run_seal.prems in \<open>auto intro: sealed_wf\<close>)
  have ev: "t_outbox (txn_db t') = t_outbox (txn_db t) @ [event_of E (txn_db t) pr b]"
    using run_seal.hyps(1,2) by (rule seal_stored) (use run_seal.hyps(3,4) in auto)
  from run_seal.IH[OF wf] obtain rows where "store_wf db" "t_outbox db = t_outbox (txn_db t') @ rows"
    "map ob_data rows = map (\<lambda>(n, pr, b). event_row E n pr b) evs" by blast
  with ev show ?case by (intro conjI exI[of _ "event_of E (txn_db t) pr b # rows"]) (simp_all add: event_of_def)
qed simp

text \<open>The publish calls of one sealed fact: its event on the core connection and, with a
  stream, the same event with the ledger number as message id.\<close>

definition fact_headers :: "'g ckp_env \<Rightarrow> int \<times> str \<times> json \<Rightarrow> headers" where
  "fact_headers E = (\<lambda>(n, pr, b). json_to_header_pairs (d_headers (event_row E n pr b)))"

definition facts_published :: "'g ckp_env \<Rightarrow> bool \<Rightarrow> (int \<times> str \<times> json) multiset \<Rightarrow> cmd multiset" where
  "facts_published E js facts =
     image_mset (\<lambda>(n, pr, b). Publish (compute_publish_subject (body_text E b (lit ''type'')) pr) (as_bytes (jsonb_text E b))
       (fact_headers E (n, pr, b))) facts +
     (if js then image_mset (\<lambda>(n, pr, b). PublishJs (compute_publish_subject (body_text E b (lit ''type'')) pr) (as_bytes (jsonb_text E b))
       (fact_headers E (n, pr, b) @ [(lit ''Nats-Msg-Id'', show_i64 (word_of_int n))])) facts
      else {#})"

lemma rows_published_events:
  assumes "map ob_data rows = map (\<lambda>(n, pr, b). event_row E n pr b) evs"
  shows "rows_published js (mset rows) = facts_published E js (mset evs)"
proof -
  have im: "image_mset f (image_mset ob_data (mset rows)) = image_mset f (image_mset (\<lambda>(n, pr, b). event_row E n pr b) (mset evs))" for f :: "drained_row \<Rightarrow> cmd"
    using arg_cong[OF assms, of "\<lambda>l. image_mset f (mset l)"] by simp
  from im[of "\<lambda>d. Publish (d_subject d) (d_payload d) (json_to_header_pairs (d_headers d))"]
    im[of "\<lambda>d. PublishJs (d_subject d) (d_payload d) (json_to_header_pairs (d_headers d) @ [(lit ''Nats-Msg-Id'', show_i64 (d_ledger_seq d))])"]
  show ?thesis
    unfolding rows_published_def facts_published_def fact_headers_def
    by (simp add: image_mset.compositionality comp_def split_beta event_row_def cong: image_mset_cong)
qed

text \<open>C11: every sealed fact is announced exactly once. After any run of seals that return, on a
  store whose outbox was empty, enough drains of the worker leave the outbox empty and
  have made exactly one publish call per sealed fact (two with a stream): on the subject of
  the producing kernel and the type, with the stored body's text as payload and the ledger
  number as the stream's message id.\<close>

theorem sealed_facts_published_once:
  assumes "seal_run E db0 evs db" "store_wf db0" "t_outbox db0 = []"
    "drain_law P t_outbox (\<lambda>rows db. db\<lparr>t_outbox := rows\<rparr>) order" "length evs \<le> 100 * n"
    "drain_times P g n db = (calls, db')"
  shows "t_outbox db' = [] \<and> mset calls = facts_published E (nats_js_stream g \<noteq> None) (mset evs)"
proof -
  from seal_run_outbox[OF assms(1,2)] assms(3) obtain rows where wf: "store_wf db" "t_outbox db = rows"
    and rows: "map ob_data rows = map (\<lambda>(n, pr, b). event_row E n pr b) evs" by auto
  have "distinct (map ob_seq (t_outbox db))" using wf(1) by (simp add: store_wf_def strict_sorted_iff)
  moreover have "length (t_outbox db) \<le> 100 * n" using wf(2) arg_cong[OF rows, of length] assms(5) by simp
  ultimately have "t_outbox db' = []" "mset calls = rows_published (nats_js_stream g \<noteq> None) (mset (t_outbox db))"
    using outbox_drained[OF assms(4) _ _ assms(6)] by auto
  then show ?thesis unfolding wf(2) rows_published_events[OF rows] by simp
qed

definition demo_ckp_pg :: "unit ckp_db pg" where
  "demo_ckp_pg = \<lparr>pg_exec = (\<lambda>stmt t. (Spi_Ok (map (row_cells \<circ> ob_data) (oldest (t_outbox (txn_db t)))),
     t\<lparr>txn_db := (txn_db t)\<lparr>t_outbox := remaining (t_outbox (txn_db t))\<rparr>\<rparr>))\<rparr>"

theorem sealed_facts_published_once_witness:
  "\<exists>sha t' b calls db'. ckp_seal demo_ckp 7 (lit ''n1'') demo_body demo_txn = Inr (sha, t') \<and>
     drain_times demo_ckp_pg guc_defaults 1 (txn_db t') = (calls, db') \<and> t_outbox db' = [] \<and>
     mset calls = facts_published demo_ckp (nats_js_stream guc_defaults \<noteq> None) {#(1, lit ''acme'', b)#}"
proof -
  obtain sha t' where t': "ckp_seal demo_ckp 7 (lit ''n1'') demo_body demo_txn = Inr (sha, t')" using demo_seal by blast
  obtain b where b: "find_instance (txn_db t') (lit ''n1'') = Some b" using demo_step(2)[OF t'] by blast
  have r: "resolve_project demo_ckp (settings demo_txn) (txn_db demo_txn) = Inr (Some (lit ''acme''))"
    by (simp add: demo_txn_def demo_project sealed_kernel_ids_def empty_store_def map_filter_simps)
  have db0: "store_wf (txn_db demo_txn)" "t_outbox (txn_db demo_txn) = []" "s_ledger (txn_db demo_txn) = 1"
    by (simp_all add: demo_txn_def empty_store_def store_wf_def chained_def)
  have run: "seal_run demo_ckp (txn_db demo_txn) [(1, lit ''acme'', b)] (txn_db t')"
    using seal_run.run_seal[OF t' demo_body_ok(1) b r seal_run.run_nil] db0(3) by simp
  have law: "drain_law demo_ckp_pg t_outbox (\<lambda>rows db. db\<lparr>t_outbox := rows\<rparr>) (\<lambda>r. r)"
    by (simp add: drain_law_def demo_ckp_pg_def)
  obtain calls db' where "drain_times demo_ckp_pg guc_defaults 1 (txn_db t') = (calls, db')" by (metis surj_pair)
  with sealed_facts_published_once[OF run db0(1,2) law _ this] t' show ?thesis by auto
qed

end
