(* ===== verification/Ckp_Gate.thy ===== *)
theory Ckp_Gate
  imports Ckp_Ledger
begin

text \<open>
  What the shape gate of \<^verbatim>\<open>ckp.seal\<close> judges: the Turtle text built by \<^verbatim>\<open>_body_to_ttl\<close>,
  \<^verbatim>\<open>_parent_closure_ttl\<close> and \<^verbatim>\<open>_stamps_to_ttl\<close>, against the body that is stored.
\<close>

section \<open>Lemmas\<close>

lemma dropWhile_append_nonempty: "dropWhile P xs \<noteq> [] \<Longrightarrow> dropWhile P (xs @ ys) = dropWhile P xs @ ys"
  by (induction xs) auto

lemma iri_like_append: "iri_like s \<Longrightarrow> iri_like (s @ r)"
proof (cases s)
  case (Cons c cs)
  let ?P = "\<lambda>c. ascii_lower_digit c \<or> c = 43 \<or> c = dot \<or> c = dash"
  assume "iri_like s"
  with Cons obtain b rest where "97 \<le> c" "c \<le> 122" "b \<noteq> spc" and d: "dropWhile ?P cs = 58 # b # rest"
    by (auto simp: iri_like_def split: list.splits)
  moreover from d have "dropWhile ?P (cs @ r) = 58 # b # rest @ r" by (simp add: dropWhile_append_nonempty)
  ultimately show ?thesis using Cons by (simp add: iri_like_def)
qed (simp add: iri_like_def)

lemma ttl_object_iri: "iri_like s \<Longrightarrow> ttl_object None s = lit ''<'' @ s @ lit ''>''"
  by (simp add: ttl_object_def)

text \<open>A literal is closed by its own quote only: the escaped text has no bare quote and no line
  break.\<close>

lemma ttl_escape_no_lf: "lf \<notin> set (ttl_escape s)"
  by (auto simp: ttl_escape_def split: if_splits)

section \<open>What is checked and what is stored\<close>

text \<open>The tail of a value that closes its own IRI and states another triple.\<close>

definition smuggled :: "str \<Rightarrow> str \<Rightarrow> str \<Rightarrow> str" where
  "smuggled subj key v = lit ''> .'' @ [lf] @ lit ''<'' @ subj @ lit ''> <'' @ key @ lit ''> <'' @ v"

definition two_keys :: "str \<Rightarrow> str \<Rightarrow> str \<Rightarrow> json" where
  "two_keys ty a b = json_obj [(lit ''type'', JString ty), (lit ''urn:p'', JString a), (lit ''urn:q'', JString b)]"

definition one_key :: "str \<Rightarrow> str \<Rightarrow> json" where
  "one_key ty a = json_obj [(lit ''type'', JString ty), (lit ''urn:p'', JString a)]"

lemma each_two: "jsonb_each (two_keys ty a b) = [(lit ''type'', JString ty), (lit ''urn:p'', JString a), (lit ''urn:q'', JString b)]"
  by (simp add: jsonb_each_def two_keys_def json_obj_def lit_def as_bytes_def encode_char_def)

lemma each_one: "jsonb_each (one_key ty a) = [(lit ''type'', JString ty), (lit ''urn:p'', JString a)]"
  by (simp add: jsonb_each_def one_key_def json_obj_def lit_def as_bytes_def encode_char_def)

lemma key_kept: "lit ''urn:p'' \<notin> set skipped_keys" "lit ''urn:q'' \<notin> set skipped_keys"
  "58 \<in> set (lit ''urn:p'')" "58 \<in> set (lit ''urn:q'')" "lit ''type'' \<in> set skipped_keys"
  by (simp_all add: skipped_keys_def) (simp_all add: lit_def)

lemma smuggled_line:
  "iri_like v \<Longrightarrow> iri_like w \<Longrightarrow>
     ttl_line s k (ttl_object None (v @ smuggled s k' w)) = ttl_line s k (ttl_object None v) @ ttl_line s k' (ttl_object None w)"
  by (simp add: ttl_object_iri iri_like_append ttl_line_def smuggled_def lit_def)

text \<open>C25: the gate can be shown triples that the sealed body does not have. A text value that
  looks like an IRI is written between angle brackets without escaping, so a value that
  closes the bracket and goes on states further triples: the body with the single property
  \<^verbatim>\<open>urn:p\<close> is rendered exactly as the body that also has \<^verbatim>\<open>urn:q\<close>. The gate then judges the same
  candidate for both, while what is stored lacks the second property.\<close>

theorem gate_candidate_injection:
  assumes "iri_like v" "iri_like w" "shape_datatypes E (graph_iri E cg g) g = Inr []"
  shows "candidate_ttl E p ty (one_key ty (v @ smuggled p (lit ''urn:q'') w)) stamps cg g =
      candidate_ttl E p ty (two_keys ty v w) stamps cg g \<and>
    json_get (one_key ty (v @ smuggled p (lit ''urn:q'') w)) (lit ''urn:q'') = None"
proof -
  have ty: "body_text E (one_key ty x) (lit ''type'') = Some ty" "body_text E (two_keys ty x y) (lit ''type'') = Some ty" for x y
    by (simp_all add: one_key_def two_keys_def get_text_def json_get_obj text_of_def)
  have "body_to_ttl (jsonb_text E) [] (one_key ty (v @ smuggled p (lit ''urn:q'') w)) p = body_to_ttl (jsonb_text E) [] (two_keys ty v w) p"
    unfolding body_to_ttl_def each_one each_two ty
    using key_kept smuggled_line[OF assms(1,2), of p "lit ''urn:p''" "lit ''urn:q''"] by simp
  then have "candidate_ttl E p ty (one_key ty (v @ smuggled p (lit ''urn:q'') w)) stamps cg g =
      candidate_ttl E p ty (two_keys ty v w) stamps cg g"
    unfolding candidate_ttl_def assms(3) by simp
  then show ?thesis by (simp add: one_key_def json_get_obj)
qed

theorem gate_candidate_injection_witness:
  "candidate_ttl demo_ckp (lit ''n1'') (lit ''urn:x/Note'') (one_key (lit ''urn:x/Note'') (lit ''x:a'' @ smuggled (lit ''n1'') (lit ''urn:q'') (lit ''x:b'')))
      JNull 1 () =
    candidate_ttl demo_ckp (lit ''n1'') (lit ''urn:x/Note'') (two_keys (lit ''urn:x/Note'') (lit ''x:a'') (lit ''x:b'')) JNull 1 ()"
proof -
  have i: "iri_like (lit ''x:a'')" "iri_like (lit ''x:b'')" by (simp_all add: iri_like_def lit_def ascii_lower_digit_def)
  have "shape_datatypes demo_ckp (graph_iri demo_ckp 1 ()) () = Inr []" by (simp add: demo_ckp_def)
  from gate_candidate_injection[OF i this] show ?thesis by simp
qed

text \<open>The stamp \<^verbatim>\<open>onBehalfOf\<close> is stored but not judged. Two sets of stamps that agree on the other
  four keys have the same Turtle rendering, whatever they say under \<^verbatim>\<open>onBehalfOf\<close>, although the
  rendering and the stored body are meant to be two forms of one value.\<close>

theorem on_behalf_of_not_gated:
  assumes "\<forall>k \<in> set stamp_keys. k \<noteq> core ''onBehalfOf'' \<longrightarrow> json_get st k = json_get st' k"
  shows "candidate_ttl E p ty body st cg g = candidate_ttl E p ty body st' cg g"
proof -
  have "stamps_to_ttl print p st = stamps_to_ttl print p st'" for print
    using assms by (simp add: stamps_to_ttl_def stamp_iri_line_def get_text_def stamp_keys_def)
  then show ?thesis by (simp add: candidate_ttl_def)
qed

theorem on_behalf_of_not_gated_witness:
  "candidate_ttl demo_ckp (lit ''n1'') (lit ''urn:x/Note'') demo_body (json_obj [(core ''onBehalfOf'', JString (lit ''urn:b''))]) 1 () =
    candidate_ttl demo_ckp (lit ''n1'') (lit ''urn:x/Note'') demo_body (json_obj []) 1 ()"
  by (rule on_behalf_of_not_gated) (auto simp: json_get_obj)

text \<open>The summary of a refusal is never used: it is asked of a report whose results are under
  another name, so the refusal carries the raw list.\<close>

lemma gate_refusal_raw: "gate_refusal E viol = Seal_Shape_Gate (jsonb_text E (JArray viol))"
  by (simp add: gate_refusal_def report_summary_def json_get_obj array_elements_def map_filter_simps coalesce_text_def)

text \<open>The gate is strict on violations and lenient on guidance only. If the engine reports any
  result whose severity is neither \<^verbatim>\<open>sh:Warning\<close> nor \<^verbatim>\<open>sh:Info\<close>, the gate refuses; if it reports only
  such guidance the gate passes and leaves exactly the guidance in \<^verbatim>\<open>ckp.last_warnings\<close>. An
  undeclared type is refused before the engine is asked.\<close>

definition gate_verdict :: "'g ckp_env \<Rightarrow> json list \<Rightarrow> (str sql)" where
  "gate_verdict E rs =
     (if list_all (is_guidance E) rs then Inr (if rs = [] then [] else jsonb_text E (JArray rs))
      else Inl (Seal_Shape_Gate (jsonb_text E (JArray (filter (\<lambda>r. \<not> is_guidance E r) rs)))))"

lemma filter_guidance: "filter (\<lambda>r. \<not> P r) rs = [] \<longleftrightarrow> list_all P rs"
  by (simp add: filter_empty_conv list_all_iff)

theorem gate_severity:
  assumes "composed_shapes E proj (superseded_graph E db ty body) db = Inr (cg, g1)"
    "type_admitted E (Some ty) proj cg g1 = Inr admitted"
    "derived_stamps E s ty proj who cg (db\<lparr>rdf := g1\<rparr>) = Inr stamps"
    "candidate_ttl E p ty body stamps cg g1 = Inr cand"
    "shacl_report E cand (Some cg) g1 = Inr (report, g2)" "json_get report (lit ''results'') = Some (JArray rs)"
  shows "shape_gate E s p ty proj who body db =
    (if \<not> admitted then Inl (Seal_Type_Not_Admitted ty)
     else and_then (gate_verdict E rs) (\<lambda>w. Inr (stamps, w, g2)))"
proof -
  have "filter (is_guidance E) rs = rs" if "list_all (is_guidance E) rs"
    using that by (simp add: filter_id_conv list_all_iff)
  then show ?thesis
    using assms unfolding shape_gate_def
    by (cases "list_all (is_guidance E) rs")
      (simp_all add: validate_report_def json_get_obj array_elements_def Let_def filter_guidance gate_verdict_def gate_refusal_raw)
qed

definition demo_warning :: json where
  "demo_warning = json_obj [(lit ''resultSeverity'', JString (lit ''sh:Warning''))]"

definition demo_lenient :: "unit ckp_env" where
  "demo_lenient = demo_ckp\<lparr>shacl_report := (\<lambda>ttl sh g. Inr (json_obj [(lit ''results'', JArray [demo_warning])], ()))\<rparr>"

theorem gate_severity_witness:
  "\<exists>stamps. shape_gate demo_lenient demo_session (lit ''n1'') (lit ''urn:x/Note'') (Some (lit ''acme'')) (lit ''urn:w'') demo_body
       (empty_store demo_ckp_config ()) = Inr (stamps, jsonb_text demo_lenient (JArray [demo_warning]), ())"
proof -
  let ?db = "empty_store demo_ckp_config ()"
  have "btrim spc (lit ''acme'') \<noteq> []" "(58 :: nat) \<in> set (lit ''urn:x/Note'')" by (simp_all add: btrim_def lit_def)
  then obtain stamps where st: "derived_stamps demo_lenient demo_session (lit ''urn:x/Note'') (Some (lit ''acme'')) (lit ''urn:w'') 1 (?db\<lparr>rdf := ()\<rparr>) = Inr stamps"
    and ad: "type_admitted demo_lenient (Some (lit ''urn:x/Note'')) (Some (lit ''acme'')) 1 () = Inr True"
    by (simp add: derived_stamps_def demo_lenient_def demo_ckp_def type_admitted_def is_true_def)
  obtain cand where c: "candidate_ttl demo_lenient (lit ''n1'') (lit ''urn:x/Note'') demo_body stamps 1 () = Inr cand"
    by (simp add: candidate_ttl_def demo_lenient_def demo_ckp_def)
  have w: "is_guidance demo_lenient demo_warning"
    by (simp add: is_guidance_def demo_warning_def get_text_def json_get_obj text_of_def)
  have sh: "composed_shapes demo_lenient (Some (lit ''acme'')) (superseded_graph demo_lenient ?db (lit ''urn:x/Note'') demo_body) ?db = Inr (1, ())"
    "shacl_report demo_lenient cand (Some 1) () = Inr (json_obj [(lit ''results'', JArray [demo_warning])], ())"
    by (simp_all add: demo_lenient_def demo_ckp_def)
  have r: "json_get (json_obj [(lit ''results'', JArray [demo_warning])]) (lit ''results'') = Some (JArray [demo_warning])"
    by (simp add: json_get_obj)
  from gate_severity[OF sh(1) ad st c sh(2) r] w show ?thesis by (simp add: gate_verdict_def)
qed

end
