(* ===== verification/Ckp_Door.thy ===== *)
theory Ckp_Door
  imports Ckp_Seal
begin

text \<open>
  The one door of \<^verbatim>\<open>src/sql/pgck-baseline.sql\<close>: \<^verbatim>\<open>ckp.dispatch\<close> with its routing
  (\<^verbatim>\<open>_dispatch_route\<close>), the refusal envelope, and \<^verbatim>\<open>_dispatch_safe\<close>, which the worker calls.
  The handlers of the governance, typed, query and read verbs are functions of their own and
  enter as the argument \<open>H\<close> (theories \<open>Ckp_Apply\<close> and \<open>Ckp_Germinate\<close> give those of the governance,
  re-sealing and minting verbs); the verbs that seal a board fact (\<^verbatim>\<open>kernel.create\<close>,
  \<^verbatim>\<open>task.create\<close>, \<^verbatim>\<open>task.update\<close>) and the small ones are modelled in place.
  The session's settings are part of the state, because the route writes them with
  \<^verbatim>\<open>set_config(\<dots>, false)\<close>.
\<close>

section \<open>State\<close>

record affordance =
  a_kernel :: str
  a_verb :: str
  a_in_topic :: str
  a_out_topic :: "str option"
  a_plane :: str
  a_epoch :: int
  a_delegate :: bool

record refusal =
  r_code :: str
  r_sqlstate :: str
  r_teaches :: "str option"

text \<open>A row of \<^verbatim>\<open>ckp.plans\<close>; the key is the kernel, the verb and the epoch.\<close>

record plan_row =
  pl_kernel :: str
  pl_verb :: str
  pl_epoch :: int
  pl_plan :: json

text \<open>\<open>epoch_surface\<close> is the column \<^verbatim>\<open>surface_digest\<close> of \<^verbatim>\<open>ckp.kernel_epoch\<close>; the other tables are in
  \<open>ckp_db\<close>.\<close>

record 'g door_db =
  ckp :: "'g ckp_db"
  session :: "str \<Rightarrow> str option"
  registry :: "affordance list"
  refusals :: "refusal list"
  plans :: "plan_row list"
  epoch_surface :: "str \<Rightarrow> str option"

text \<open>A setting of the transaction hides the session's.\<close>

definition eff :: "'g door_db txn \<Rightarrow> str \<Rightarrow> str option" where
  "eff t k = (case settings t k of Some v \<Rightarrow> Some v | None \<Rightarrow> session (txn_db t) k)"

text \<open>\<^verbatim>\<open>set_config(k, v, false)\<close>: the session's value, in force at once; a null resets it.\<close>

definition set_session :: "string \<Rightarrow> str option \<Rightarrow> 'g door_db txn \<Rightarrow> 'g door_db txn" where
  "set_session k v t = t\<lparr>txn_db := (txn_db t)\<lparr>session := (session (txn_db t))(lit k := v)\<rparr>,
     settings := (settings t)(lit k := None)\<rparr>"

definition ckp_txn :: "'g door_db txn \<Rightarrow> 'g ckp_db txn" where
  "ckp_txn t = \<lparr>txn_db = ckp (txn_db t), settings = eff t\<rparr>"

text \<open>A function of the tables run inside the transaction; the settings it leaves are local.\<close>

definition rejoin :: "'g door_db txn \<Rightarrow> 'g ckp_db txn \<Rightarrow> 'g door_db txn" where
  "rejoin t c = t\<lparr>txn_db := (txn_db t)\<lparr>ckp := txn_db c\<rparr>,
     settings := (\<lambda>k. if settings c k = eff t k then settings t k else settings c k)\<rparr>"

record 'g door_env =
  cenv :: "'g ckp_env"
  err_text :: "sql_error \<Rightarrow> str"
  after_abort :: "'g ckp_db \<Rightarrow> 'g ckp_db"

section \<open>Verbs\<close>

definition verb_canon :: "str \<Rightarrow> str" where
  "verb_canon v =
     (if v = lit ''task.create'' then lit ''instance.create''
      else if v = lit ''kernel.create'' then lit ''instance.create''
      else if v = lit ''edge.create'' then lit ''instance.link''
      else if v = lit ''task.update'' then lit ''instance.update''
      else if v = lit ''instances.list'' then lit ''instance.query''
      else if v = lit ''instances.last'' then lit ''instance.query''
      else if v = lit ''instances.count'' then lit ''instance.query''
      else if v = lit ''snapshot.board'' then lit ''instance.snapshot''
      else if v = lit ''snapshot.bodies'' then lit ''instance.snapshot''
      else if v = lit ''provenance'' then lit ''instance.provenance''
      else v)"

definition verb_to_legacy :: "str \<Rightarrow> json \<Rightarrow> str" where
  "verb_to_legacy v p =
     (if v = lit ''instance.create'' then
        (if has_key p (lit ''task'') then lit ''task.create''
         else if has_key p (lit ''name'') then lit ''kernel.create'' else lit ''task.create'')
      else if v = lit ''instance.update'' then lit ''task.update''
      else if v = lit ''instance.link'' then lit ''edge.create''
      else if v = lit ''instance.snapshot'' then lit ''snapshot.board''
      else if v = lit ''instance.query'' then lit ''instances.list''
      else if v = lit ''instance.provenance'' then lit ''provenance''
      else v)"

definition registry_lookup :: "affordance list \<Rightarrow> str option \<Rightarrow> str \<Rightarrow> affordance option" where
  "registry_lookup rows p_kernel p_verb =
     (let cand = filter (\<lambda>r. a_verb r = p_verb \<and>
            (Some (a_kernel r) = p_kernel \<or> a_kernel r = lit ''pgck'' \<or> p_verb = lit ''kernel.germinate'')) rows
      in case filter (\<lambda>r. Some (a_kernel r) = p_kernel) cand of
           r # _ \<Rightarrow> Some r
         | [] \<Rightarrow> (case cand of [] \<Rightarrow> None | r # _ \<Rightarrow> Some r))"

text \<open>The function a request ends in.\<close>

datatype route =
    Unknown_Affordance
  | Delegated
  | Governance_Unavailable
  | To_Handler string
  | To_Legacy str

definition generic_create :: "json \<Rightarrow> bool" where
  "generic_create p \<longleftrightarrow>
     (has_key p (lit ''type'') \<or> has_key p (lit ''@type'') \<or>
      (case json_get p (lit ''body'') of None \<Rightarrow> False
       | Some b \<Rightarrow> has_key b (lit ''type'') \<or> has_key b (lit ''@type''))) \<and>
     \<not> has_key p (lit ''task'')"

definition governance_route :: "str \<Rightarrow> route" where
  "governance_route canon =
     (if canon = lit ''kernel.propose_change'' then To_Handler ''propose_change''
      else if canon = lit ''kernel.vote'' then To_Handler ''vote''
      else if canon = lit ''kernel.apply'' then To_Handler ''apply''
      else Governance_Unavailable)"

definition instance_route :: "str \<Rightarrow> json \<Rightarrow> route" where
  "instance_route v p =
     (if v = lit ''instance.query'' then To_Handler ''query''
      else if v = lit ''instance.reach'' then To_Handler ''reach''
      else if v = lit ''instance.transition'' then To_Handler ''transition''
      else if v = lit ''instance.snapshot'' then To_Handler ''snapshot''
      else if v = lit ''concept.match'' then To_Handler ''concept_match''
      else if v = lit ''instance.explain'' then To_Handler ''explain''
      else if v = lit ''instance.retire'' then To_Handler ''retire''
      else if v = lit ''instance.validate'' then To_Handler ''validate_instance''
      else if v = lit ''instance.create'' \<and> generic_create p then To_Handler ''create_typed''
      else if v = lit ''instance.update'' \<and> has_key p (lit ''patch'') then To_Handler ''update_typed''
      else To_Legacy (verb_to_legacy v p))"

definition route_of :: "affordance list \<Rightarrow> str option \<Rightarrow> str \<Rightarrow> json \<Rightarrow> route" where
  "route_of rows v_proj p_verb p_payload =
     (case registry_lookup rows v_proj (verb_canon p_verb) of
        None \<Rightarrow> Unknown_Affordance
      | Some a \<Rightarrow>
          if a_delegate a then Delegated
          else if a_plane a = lit ''governance'' then governance_route (verb_canon p_verb)
          else if a_plane a = lit ''query'' then To_Handler ''run_query_affordance''
          else if a_plane a = lit ''derived'' then To_Handler ''run_derived_affordance''
          else instance_route p_verb p_payload)"

section \<open>Replies\<close>

definition jtext :: "str option \<Rightarrow> json" where
  "jtext x = (case x of None \<Rightarrow> JNull | Some s \<Rightarrow> JString s)"

definition jlit :: "string \<Rightarrow> json" where
  "jlit x = JString (lit x)"

definition fault :: "str \<Rightarrow> json" where
  "fault e = json_obj [(lit ''ok'', JBool False), (lit ''error'', JString e)]"

definition req_of :: "json \<Rightarrow> json" where
  "req_of p = json_obj [(lit ''req'', case json_get p (lit ''req'') of None \<Rightarrow> JNull | Some v \<Rightarrow> v)]"

text \<open>An \<^verbatim>\<open>EXCEPTION WHEN OTHERS\<close> block: its subtransaction is rolled back. What an abort leaves of
  the tables is \<open>after_abort\<close>: engine caches and sequence numbers are not rolled back.\<close>

definition aborted :: "'g door_env \<Rightarrow> 'g door_db txn \<Rightarrow> 'g door_db txn" where
  "aborted D t = t\<lparr>txn_db := (txn_db t)\<lparr>ckp := after_abort D (ckp (txn_db t))\<rparr>\<rparr>"

definition catching ::
    "'g door_env \<Rightarrow> 'g door_db txn \<Rightarrow> (json option \<times> 'g door_db txn) sql \<Rightarrow> (json option \<times> 'g door_db txn) sql" where
  "catching D t r = (case r of Inr x \<Rightarrow> Inr x | Inl e \<Rightarrow> Inr (Some (fault (err_text D e)), aborted D t))"

section \<open>The verbs that seal board facts\<close>

definition board :: "string \<Rightarrow> str" where
  "board x = lit ''urn:ckp:board/'' @ lit x"

definition RDFS_LABEL :: str where
  "RDFS_LABEL = lit ''http://www.w3.org/2000/01/rdf-schema#label''"

definition seal_in :: "'g door_env \<Rightarrow> int \<Rightarrow> str \<Rightarrow> json \<Rightarrow> 'g door_db txn \<Rightarrow> 'g door_db txn sql" where
  "seal_in D now p_id body t = and_then (ckp_seal (cenv D) now p_id body (ckp_txn t)) (\<lambda>(sha, c). Inr (rejoin t c))"

definition verify_in :: "'g door_env \<Rightarrow> 'g door_db txn \<Rightarrow> str \<Rightarrow> bool" where
  "verify_in D t p_id = ckp_verify (cenv D) (eff t) (ckp (txn_db t)) p_id"

text \<open>\<^verbatim>\<open>SELECT digest FROM ckp.proof WHERE about = \<dots> ORDER BY id DESC LIMIT 1\<close>\<close>

definition proof_digest :: "'g ckp_db \<Rightarrow> str \<Rightarrow> str option" where
  "proof_digest db p_id = map_option pr_digest (latest_by pr_id (filter (\<lambda>q. pr_about q = p_id) (t_proof db)))"

definition stamped :: "'g ckp_env \<Rightarrow> 'g ckp_db \<Rightarrow> str \<Rightarrow> json" where
  "stamped E db p_id =
     (case find_instance db p_id of
        None \<Rightarrow> json_obj []
      | Some b \<Rightarrow> json_obj (filter (\<lambda>e. snd e \<noteq> JNull)
          [(lit ''createdBy'', jtext (body_text E b (core ''createdBy''))),
           (lit ''producedBy'', jtext (body_text E b (core ''producedBy''))),
           (lit ''sealedAtEpoch'', case json_get b (core ''sealedAtEpoch'') of None \<Rightarrow> JNull | Some v \<Rightarrow> v),
           (lit ''conformsToShape'', jtext (body_text E b (core ''conformsToShape'')))]))"

definition sealed_reply :: "'g door_env \<Rightarrow> str \<Rightarrow> (str \<times> json) list \<Rightarrow> 'g door_db txn \<Rightarrow> json" where
  "sealed_reply D p_id extra t =
     jsonb_concat (json_obj ([(lit ''ok'', JBool True), (lit ''id'', JString p_id)] @ extra @
         [(lit ''verified'', JBool (verify_in D t p_id)), (lit ''proof_digest'', jtext (proof_digest (ckp (txn_db t)) p_id))]))
       (stamped (cenv D) (ckp (txn_db t)) p_id)"

definition clock_id :: "string \<Rightarrow> int \<Rightarrow> str" where
  "clock_id prefix clk = lit prefix @ show_int clk"

definition kernel_create ::
    "'g door_env \<Rightarrow> int \<Rightarrow> json \<Rightarrow> 'g door_db txn \<Rightarrow> (json option \<times> 'g door_db txn) sql" where
  "kernel_create D now p t =
     (case body_text (cenv D) p (lit ''name'') of
        None \<Rightarrow> Inr (Some (fault (lit ''kernel name required'')), t)
      | Some nm \<Rightarrow>
          if btrim spc nm = [] then Inr (Some (fault (lit ''kernel name required'')), t)
          else let gid = lit ''backlog:'' @ nm
            in and_then (seal_in D now gid (json_obj
                 [(lit ''type'', JString (board ''Goal'')), (lit ''@id'', JString (lit ''ckp://Goal#'' @ gid)),
                  (board ''goal_id'', JString gid), (RDFS_LABEL, JString nm), (board ''title'', JString nm),
                  (board ''created_at'', JString (utc_text (cenv D) now))]) t) (\<lambda>t'.
               Inr (Some (json_obj [(lit ''ok'', JBool True), (lit ''kernel'', JString nm), (lit ''id'', JString gid)]), t')))"

fun max_ints :: "'g ckp_env \<Rightarrow> str list \<Rightarrow> int option sql" where
  "max_ints E [] = Inr None"
| "max_ints E (s # ss) =
     and_then (int4_in E s) (\<lambda>n. and_then (max_ints E ss) (\<lambda>m. Inr (Some (case m of None \<Rightarrow> n | Some k \<Rightarrow> max n k))))"

definition next_queue_seq :: "'g ckp_env \<Rightarrow> 'g ckp_db \<Rightarrow> str \<Rightarrow> int sql" where
  "next_queue_seq E db k =
     and_then (max_ints E (List.map_filter (\<lambda>i. body_text E (i_body i) (board ''queue_seq''))
         (filter (\<lambda>i. body_text E (i_body i) (board ''target_kernel'') = Some k \<and>
                      body_text E (i_body i) (lit ''type'') = Some (board ''Task'')) (t_instances db)))) (\<lambda>m.
       let n = (case m of None \<Rightarrow> 0 | Some n \<Rightarrow> n) + 1
       in if n < 2 ^ 31 then Inr n else Inl (Engine_Error (lit ''22003'') (lit ''integer out of range'')))"

text \<open>The creator's name on a board fact, from the setting as it stands.\<close>

definition created_by :: "'g door_env \<Rightarrow> (str \<Rightarrow> str option) \<Rightarrow> str \<Rightarrow> (str \<times> json) list" where
  "created_by D s k =
     (case s (lit ''ckp.requester'') of
        None \<Rightarrow> []
      | Some sub \<Rightarrow> [(k, JString (lit ''urn:ckp:participant:'' @ slug (lower_text (cenv D)) sub))])"

definition task_body ::
    "'g door_env \<Rightarrow> int \<Rightarrow> (str \<Rightarrow> str option) \<Rightarrow> str \<Rightarrow> str \<Rightarrow> str \<Rightarrow> json \<Rightarrow> int \<Rightarrow> json" where
  "task_body D now s tid k title task qseq = json_obj (
     [(lit ''type'', JString (board ''Task'')), (lit ''@id'', JString (lit ''ckp://Task#'' @ tid)),
      (board ''task_id'', JString tid), (board ''title'', JString title),
      (board ''part_of_goal'', JString (lit ''backlog:'' @ k)), (board ''target_kernel'', JString k),
      (board ''lifecycle_state'', JString (coalesce_text (body_text (cenv D) task (lit ''lifecycle_state'')) (lit ''planned''))),
      (board ''priority'', case json_get task (lit ''priority'') of None \<Rightarrow> JNumber (JInt 5) | Some v \<Rightarrow> v),
      (board ''queue_seq'', JNumber (JInt qseq)), (board ''created_at'', JString (utc_text (cenv D) now))] @
     created_by D s (board ''created_by'') @
     (case s (lit ''ckp.requester'') of None \<Rightarrow> []
      | Some sub \<Rightarrow> [(lit ''participant'', json_obj [(lit ''sub'', JString sub)])]))"

definition task_create ::
    "'g door_env \<Rightarrow> int \<Rightarrow> int \<Rightarrow> json \<Rightarrow> 'g door_db txn \<Rightarrow> (json option \<times> 'g door_db txn) sql" where
  "task_create D now clk p t =
     (let E = cenv D; task = (case json_get p (lit ''task'') of None \<Rightarrow> JNull | Some v \<Rightarrow> v); tid = clock_id ''task-'' clk
      in case (body_text E task (lit ''target_kernel''), body_text E task (lit ''title'')) of
           (Some k, Some title) \<Rightarrow> catching D t
             (and_then (next_queue_seq E (ckp (txn_db t)) k) (\<lambda>qseq.
              and_then (seal_in D now tid (task_body D now (eff t) tid k title task qseq) t) (\<lambda>t'.
                Inr (Some (sealed_reply D tid [] t'), t'))))
         | _ \<Rightarrow> Inr (Some (fault (lit ''kernel and title required'')), t))"

definition patch_fields :: "string list" where
  "patch_fields = [''title'', ''priority'', ''lifecycle_state'', ''part_of_goal'', ''target_kernel'']"

definition patch_task :: "json \<Rightarrow> json \<Rightarrow> json" where
  "patch_task p cur =
     fold (\<lambda>f c. if has_key p (lit f)
               then json_insert (board f) (case json_get p (lit f) of None \<Rightarrow> JNull | Some v \<Rightarrow> v) c else c)
       patch_fields (jsonb_minus cur (lit ''participant''))"

definition task_update ::
    "'g door_env \<Rightarrow> int \<Rightarrow> json \<Rightarrow> 'g door_db txn \<Rightarrow> (json option \<times> 'g door_db txn) sql" where
  "task_update D now p t =
     (case Option.bind (body_text (cenv D) p (lit ''id'')) (\<lambda>tid. map_option (Pair tid) (find_instance (ckp (txn_db t)) tid)) of
        None \<Rightarrow> Inr (Some (fault (lit ''instance not found'')), t)
      | Some (tid, cur) \<Rightarrow> catching D t
          (and_then (seal_in D now tid (patch_task p cur) t) (\<lambda>t'. Inr (Some (sealed_reply D tid [] t'), t'))))"

definition participant_join :: "'g door_env \<Rightarrow> json \<Rightarrow> json" where
  "participant_join D p =
     (let nm = body_text (cenv D) p (lit ''name'')
      in json_obj [(lit ''ok'', JBool True), (lit ''sub'', jtext nm),
           (lit ''urn'', JString (lit ''urn:ckp:participant:'' @
              (case nm of None \<Rightarrow> lit ''x'' | Some n \<Rightarrow> slug (lower_text (cenv D)) n)))])"

definition instance_verify :: "'g door_env \<Rightarrow> json \<Rightarrow> 'g door_db txn \<Rightarrow> json" where
  "instance_verify D p t =
     (let i = body_text (cenv D) p (lit ''id'')
      in json_obj [(lit ''ok'', JBool True), (lit ''id'', jtext i),
           (lit ''verified'', JBool (case i of None \<Rightarrow> False | Some x \<Rightarrow> verify_in D t x))])"

section \<open>dispatch\<close>

type_synonym 'g handlers = "string \<Rightarrow> json \<Rightarrow> 'g door_db txn \<Rightarrow> (json option \<times> 'g door_db txn) sql"

text \<open>The cases of the final \<^verbatim>\<open>CASE v_legacy\<close> that call a function of their own.\<close>

definition other_verbs :: "string list" where
  "other_verbs = [''instances.list'', ''instances.last'', ''instances.count'', ''instance.get'', ''orbit.next'',
     ''signal.boundary'', ''score.tick'', ''surface.check'', ''integrity.check'', ''authority.mine'', ''wave.signals'',
     ''wave.oracle'', ''adoption.check'', ''wave.project'', ''surface.typecheck'', ''surface.unshaped'',
     ''surface.refusals'', ''surface.declared'', ''surface.grounding'', ''surface.explain'', ''fleet.adoptions'',
     ''project.resolve'', ''affordances'', ''kernels.list'', ''provenance'', ''kernel.germinate'', ''snapshot.board'',
     ''snapshot.bodies'', ''edge.create'', ''notify'']"

definition legacy_verb ::
    "'g door_env \<Rightarrow> 'g handlers \<Rightarrow> int \<Rightarrow> int \<Rightarrow> str \<Rightarrow> str \<Rightarrow> json \<Rightarrow> 'g door_db txn \<Rightarrow> (json option \<times> 'g door_db txn) sql" where
  "legacy_verb D H now clk v p_verb p t =
     (if v = lit ''kernel.create'' then kernel_create D now p t
      else if v = lit ''task.create'' then task_create D now clk p t
      else if v = lit ''task.update'' then task_update D now p t
      else if v = lit ''instance.verify'' then Inr (Some (instance_verify D p t), t)
      else if v = lit ''participant.join'' then Inr (Some (participant_join D p), t)
      else case List.find (\<lambda>n. lit n = v) other_verbs of
        Some n \<Rightarrow> H n p t
      | None \<Rightarrow> Inr (Some (json_obj [(lit ''ok'', JBool False), (lit ''delegate'', JBool True), (lit ''sqlstate'', jlit ''0A000''),
          (lit ''error'', JString (lit ''verb not governed in-kernel: '' @ p_verb))]), t))"

definition run_route ::
    "'g door_env \<Rightarrow> 'g handlers \<Rightarrow> int \<Rightarrow> int \<Rightarrow> str \<Rightarrow> json \<Rightarrow> 'g door_db txn \<Rightarrow> route \<Rightarrow> (json option \<times> 'g door_db txn) sql" where
  "run_route D H now clk p_verb p t r =
     (case r of
        Unknown_Affordance \<Rightarrow> Inr (Some (json_obj [(lit ''ok'', JBool False), (lit ''error'', jlit ''unknown_affordance''),
          (lit ''sqlstate'', jlit ''42704''), (lit ''verb'', JString p_verb)]), t)
      | Delegated \<Rightarrow> Inr (Some (json_obj [(lit ''ok'', JBool False), (lit ''delegate'', JBool True), (lit ''verb'', JString p_verb),
          (lit ''sqlstate'', jlit ''0A000''), (lit ''error'', JString (lit ''verb delegated to tool tier: '' @ p_verb))]), t)
      | Governance_Unavailable \<Rightarrow> Inr (Some (json_obj [(lit ''ok'', JBool False), (lit ''error'', jlit ''governance_plane_unavailable''),
          (lit ''sqlstate'', jlit ''55000''), (lit ''plane'', jlit ''governance''), (lit ''verb'', JString p_verb),
          (lit ''canonical'', JString (verb_canon p_verb))]), t)
      | To_Handler n \<Rightarrow> H n p t
      | To_Legacy v \<Rightarrow> legacy_verb D H now clk v p_verb p t)"

definition dispatch_route ::
    "'g door_env \<Rightarrow> 'g handlers \<Rightarrow> int \<Rightarrow> int \<Rightarrow> str \<Rightarrow> json \<Rightarrow> 'g door_db txn \<Rightarrow> (json option \<times> 'g door_db txn) sql" where
  "dispatch_route D H now clk p_verb p_payload t =
     and_then (resolve_project (cenv D) (eff t) (ckp (txn_db t))) (\<lambda>v_proj.
       let v_idk = identity_key (eff t) (ckp (txn_db t));
           t1 = set_session ''ckp.identity_key'' v_idk (set_session ''ckp.project'' v_proj t)
       in and_then (run_route D H now clk p_verb p_payload t1 (route_of (registry (txn_db t)) v_proj p_verb p_payload)) (\<lambda>(res, t2).
            Inr (map_option (\<lambda>r. jsonb_concat r (req_of p_payload)) res, t2)))"

definition refusal_envelope :: "'g ckp_env \<Rightarrow> refusal list \<Rightarrow> json option \<Rightarrow> json option" where
  "refusal_envelope E regs p_res =
     (case p_res of
        None \<Rightarrow> None
      | Some r \<Rightarrow>
          if body_text E r (lit ''ok'') \<noteq> Some (lit ''false'') \<or> is_true (body_text E r (lit ''delegate'')) then Some r
          else case List.find (\<lambda>x. Some (r_code x) = body_text E r (lit ''error'')) regs of
            None \<Rightarrow> Some r
          | Some x \<Rightarrow>
              let r1 = jsonb_concat r (json_obj [(lit ''refused'', JBool True),
                         (lit ''sqlstate'', JString (coalesce_text (body_text E r (lit ''sqlstate'')) (r_sqlstate x)))])
              in Some (case r_teaches x of
                   Some h \<Rightarrow> if \<not> has_key r1 (lit ''hint'') then jsonb_concat r1 (json_obj [(lit ''hint'', JString h)]) else r1
                 | None \<Rightarrow> r1))"

definition dispatch ::
    "'g door_env \<Rightarrow> 'g handlers \<Rightarrow> int \<Rightarrow> int \<Rightarrow> str \<Rightarrow> json \<Rightarrow> 'g door_db txn \<Rightarrow> (json option \<times> 'g door_db txn) sql" where
  "dispatch D H now clk p_verb p_payload t =
     and_then (dispatch_route D H now clk p_verb p_payload t) (\<lambda>(res, t').
       Inr (refusal_envelope (cenv D) (refusals (txn_db t')) res, t'))"

definition refusal_reply :: "'g door_env \<Rightarrow> str \<Rightarrow> sql_error \<Rightarrow> json" where
  "refusal_reply D p_verb e =
     json_obj [(lit ''ok'', JBool False), (lit ''refused'', JBool True), (lit ''verb'', JString p_verb),
       (lit ''sqlstate'', JString (sqlstate e)), (lit ''error'', JString (err_text D e))]"

definition dispatch_safe ::
    "'g door_env \<Rightarrow> 'g handlers \<Rightarrow> int \<Rightarrow> int \<Rightarrow> str \<Rightarrow> json \<Rightarrow> 'g door_db txn \<Rightarrow> json option \<times> 'g door_db txn" where
  "dispatch_safe D H now clk p_verb p_payload t =
     (case dispatch D H now clk p_verb p_payload t of
        Inr r \<Rightarrow> r
      | Inl e \<Rightarrow> (Some (refusal_reply D p_verb e), aborted D t))"

end
