(* ===== verification/Ckp_Orbit.thy ===== *)
theory Ckp_Orbit
  imports Ckp_Door
begin

text \<open>
  The scheduled work of \<^verbatim>\<open>src/sql/pgck-baseline.sql\<close>: the orbit queue (\<^verbatim>\<open>orbit_enqueue\<close>,
  \<^verbatim>\<open>orbit_drain\<close>, \<^verbatim>\<open>orbit_tick\<close>), the score computation it runs (\<^verbatim>\<open>score_tick\<close>), the
  materialisation queue (\<^verbatim>\<open>enqueue_materialize\<close>, \<^verbatim>\<open>materialize_drain_once\<close>) and the roster
  \<^verbatim>\<open>_ledger_kernels\<close>. Times are microseconds. PostgreSQL's \<^verbatim>\<open>numeric\<close> arithmetic, its reading of
  time stamps, \<^verbatim>\<open>md5\<close> and the builder of a materialisation (a run of \<^verbatim>\<open>pgrdf\<close> calls) are
  arguments. The prose fields \<^verbatim>\<open>hint\<close> and \<^verbatim>\<open>note\<close> of the replies are left out.
\<close>

section \<open>State\<close>

datatype job_state = Queued | Done | Failed

record orbit_job =
  j_id :: int
  j_kernel :: str
  j_crossing :: int
  j_state :: job_state
  j_attempts :: int
  j_error :: "str option"

record mat_job =
  m_concept :: str
  m_scope :: json
  m_formula :: str
  m_epoch :: int
  m_watermark :: int
  m_enqueued :: int

record phenotype =
  ph_concept :: str
  ph_graph :: str
  ph_epoch :: int
  ph_watermark :: int
  ph_valid_until :: int

record 'g orbit_db =
  door :: "'g door_db"
  orbit_jobs :: "orbit_job list"
  s_orbit :: int
  mat_jobs :: "mat_job list"
  phenotypes :: "phenotype list"

record 'g orbit_env =
  denv :: "'g door_env"
  ts_in :: "str \<Rightarrow> int sql"
  law_in :: "json \<Rightarrow> (str option \<times> json) sql"
  score_of :: "json \<Rightarrow> json list \<Rightarrow> json_number sql"
  reaches :: "json_number \<Rightarrow> str \<Rightarrow> bool"
  md5_hex :: "str \<Rightarrow> str"
  clock :: "int \<Rightarrow> int option \<Rightarrow> nat \<Rightarrow> int"
  source_watermark :: "json \<Rightarrow> 'g ckp_db \<Rightarrow> int sql"
  epsilon_materialize :: "str \<Rightarrow> json \<Rightarrow> str \<Rightarrow> int \<Rightarrow> 'g ckp_db \<Rightarrow> (str \<times> 'g) sql"

text \<open>\<open>clock\<close> are the readings of \<^verbatim>\<open>clock_timestamp()\<close> in a transaction that began at a time: for each job it runs, or for
  a call outside of one, the sequence of readings made there.\<close>

definition door_txn :: "'g orbit_db txn \<Rightarrow> 'g door_db txn" where
  "door_txn t = \<lparr>txn_db = door (txn_db t), settings = settings t\<rparr>"

definition put_door :: "'g orbit_db txn \<Rightarrow> 'g door_db txn \<Rightarrow> 'g orbit_db txn" where
  "put_door t d = \<lparr>txn_db = (txn_db t)\<lparr>door := txn_db d\<rparr>, settings = settings d\<rparr>"

section \<open>Crossings\<close>

text \<open>\<^verbatim>\<open>substring(x from '^urn:ckp:([a-z0-9-]+)/kernel$')\<close>\<close>

definition kernel_segment :: "str \<Rightarrow> str option" where
  "kernel_segment x =
     (let m = between (lit ''urn:ckp:'') (lit ''/kernel'') x
      in if x = kernel_iri m \<and> m \<noteq> [] \<and> list_all urn_char m then Some m else None)"

record orbit_law =
  ol_kernel :: "str option"
  ol_period :: int
  ol_anchor :: int

fun orbit_laws :: "'g orbit_env \<Rightarrow> instance_row list \<Rightarrow> orbit_law list sql" where
  "orbit_laws X [] = Inr []"
| "orbit_laws X (i # rest) =
     (let E = cenv (denv X); b = i_body i
      in case (body_text E b (core ''orbitPeriodSeconds''), body_text E b (core ''orbitAnchor'')) of
           (Some per, Some anc) \<Rightarrow>
             if body_text E b (lit ''type'') = Some (core ''Kernel'') then
               and_then (int4_in E per) (\<lambda>p. and_then (ts_in X anc) (\<lambda>a. and_then (orbit_laws X rest) (\<lambda>ls.
                 Inr (\<lparr>ol_kernel = Option.bind (body_text E b (lit ''@id'')) kernel_segment, ol_period = p, ol_anchor = a\<rparr> # ls))))
             else orbit_laws X rest
         | _ \<Rightarrow> orbit_laws X rest)"

definition SECOND :: int where "SECOND = 1000000"

definition last_crossing :: "int \<Rightarrow> orbit_law \<Rightarrow> int" where
  "last_crossing now l = ol_anchor l + ((now - ol_anchor l) div (ol_period l * SECOND)) * ol_period l * SECOND"

definition crossing_due :: "int \<Rightarrow> orbit_law \<Rightarrow> (str \<times> int) option" where
  "crossing_due now l =
     (case ol_kernel l of
        None \<Rightarrow> None
      | Some k \<Rightarrow>
          if ol_period l \<le> 0 \<or> now < ol_anchor l then None
          else if last_crossing now l \<le> ol_anchor l then None
          else Some (k, last_crossing now l))"

text \<open>\<^verbatim>\<open>INSERT \<dots> ON CONFLICT (kernel, crossing_at) DO NOTHING\<close>; the sequence advances either way.\<close>

definition add_job :: "str \<times> int \<Rightarrow> int \<times> orbit_job list \<times> int \<Rightarrow> int \<times> orbit_job list \<times> int" where
  "add_job c st =
     (case st of (n, jobs, nxt) \<Rightarrow>
        if list_ex (\<lambda>j. (j_kernel j, j_crossing j) = c) jobs then (n, jobs, nxt + 1)
        else (n + 1, jobs @ [\<lparr>j_id = nxt, j_kernel = fst c, j_crossing = snd c, j_state = Queued, j_attempts = 0, j_error = None\<rparr>], nxt + 1))"

definition orbit_enqueue :: "'g orbit_env \<Rightarrow> int \<Rightarrow> 'g orbit_db txn \<Rightarrow> (int \<times> 'g orbit_db txn) sql" where
  "orbit_enqueue X now t =
     and_then (orbit_laws X (t_instances (ckp (door (txn_db t))))) (\<lambda>ls.
       let (n, jobs, nxt) = fold add_job (List.map_filter (crossing_due now) ls) (0, orbit_jobs (txn_db t), s_orbit (txn_db t))
       in Inr (n, t\<lparr>txn_db := (txn_db t)\<lparr>orbit_jobs := jobs, s_orbit := nxt\<rparr>\<rparr>))"

section \<open>The score tick\<close>

definition kernel_body :: "'g ckp_env \<Rightarrow> 'g ckp_db \<Rightarrow> str \<Rightarrow> json option" where
  "kernel_body E db k =
     map_option i_body (latest_by i_created
       (filter (\<lambda>i. body_text E (i_body i) (lit ''@id'') = Some (kernel_iri k) \<and>
                    body_text E (i_body i) (lit ''type'') = Some (core ''Kernel'')) (t_instances db)))"

definition signals_of :: "'g ckp_env \<Rightarrow> 'g ckp_db \<Rightarrow> str \<Rightarrow> (str \<times> json) list" where
  "signals_of E db k =
     List.map_filter (\<lambda>i. map_option (\<lambda>a. (a, i_body i)) (body_text E (i_body i) (core ''about'')))
       (filter (\<lambda>i. body_text E (i_body i) (lit ''type'') = Some (core ''Signal'') \<and>
                    body_text E (i_body i) (core ''producedBy'') = Some (kernel_graph_iri k)) (t_instances db))"

definition has_draft :: "'g ckp_env \<Rightarrow> 'g ckp_db \<Rightarrow> str \<Rightarrow> bool" where
  "has_draft E db about \<longleftrightarrow>
     list_ex (\<lambda>i. body_text E (i_body i) (lit ''type'') = Some (core ''Proposal'') \<and>
                  body_text E (i_body i) (core ''about'') = Some about \<and>
                  body_text E (i_body i) (core ''proposalState'') = Some (lit ''draft'')) (t_instances db)"

definition run_iri :: "str \<Rightarrow> str \<Rightarrow> str" where
  "run_iri k run = lit ''urn:ckp:'' @ k @ lit ''/run/'' @ run"

definition run_body :: "'g orbit_env \<Rightarrow> int \<Rightarrow> str \<Rightarrow> str \<Rightarrow> json" where
  "run_body X now k run =
     (let at = JString (utc_text (cenv (denv X)) now)
      in json_obj [(lit ''type'', JString (core ''Run'')), (lit ''@id'', JString (run_iri k run)),
           (core ''realizes'', jlit ''ckp://Affordance#pgck.score.tick''), (core ''runOf'', JString (kernel_graph_iri k)),
           (core ''startedAt'', at), (core ''endedAt'', at), (core ''runState'', jlit ''completed'')])"

definition score_key :: "'g orbit_env \<Rightarrow> str \<Rightarrow> str \<Rightarrow> int \<Rightarrow> str" where
  "score_key X k about ep = md5_hex X (k @ about) @ lit ''-'' @ show_int ep"

definition score_body :: "'g orbit_env \<Rightarrow> str \<Rightarrow> str \<Rightarrow> int \<Rightarrow> str \<Rightarrow> json_number \<Rightarrow> json" where
  "score_body X k about ep run sc =
     json_obj [(lit ''type'', JString (core ''Score'')), (lit ''@id'', JString (lit ''ckp://Score#'' @ score_key X k about ep)),
       (core ''about'', JString about), (core ''scoreValue'', JNumber sc), (core ''computedAtEpoch'', JNumber (JInt ep)),
       (core ''wasGeneratedBy'', JString (run_iri k run))]"

definition draft_body :: "'g orbit_env \<Rightarrow> str \<Rightarrow> str \<Rightarrow> int \<Rightarrow> json_number \<Rightarrow> str \<Rightarrow> json" where
  "draft_body X pid about ep sc promote =
     json_obj [(lit ''type'', JString (core ''Proposal'')), (lit ''@id'', JString (lit ''ckp://Proposal#'' @ pid)),
       (core ''about'', JString about), (core ''proposalState'', jlit ''draft''), (core ''proposalOp'', jlit ''add_class''),
       (core ''requiresQuorum'', jlit ''2''),
       (lit ''proposalDetail'', json_obj [(lit ''class'', JString about),
          (lit ''draftedBecause'', JString (lit ''score '' @ jsonb_text (cenv (denv X)) (JNumber sc) @ lit '' crossed thresholdPromote '' @
             promote @ lit '' at epoch '' @ show_int ep))])]"

text \<open>The loop over the concepts with signals: each gets a score, and a draft when the score
  reaches the threshold and none stands. \<open>clk\<close> gives the successive readings of \<^verbatim>\<open>clock_timestamp()\<close>
  in this call.\<close>

fun score_loop ::
    "'g orbit_env \<Rightarrow> int \<Rightarrow> (nat \<Rightarrow> int) \<Rightarrow> str \<Rightarrow> int \<Rightarrow> str \<Rightarrow> json \<Rightarrow> str option \<Rightarrow> (str \<times> json) list \<Rightarrow> nat \<Rightarrow> str list \<Rightarrow> 'g door_db txn
       \<Rightarrow> (json list \<times> json list \<times> 'g door_db txn) sql" where
  "score_loop X now clk k ep run kbody promote sigs n [] d = Inr ([], [], d)"
| "score_loop X now clk k ep run kbody promote sigs n (about # abouts) d =
     and_then (score_of X kbody (map snd (filter (\<lambda>s. fst s = about) sigs))) (\<lambda>sc.
     and_then (seal_in (denv X) now (lit ''score-'' @ score_key X k about ep) (score_body X k about ep run sc) d) (\<lambda>d1.
     and_then
       (case promote of
          None \<Rightarrow> Inr ([], d1)
        | Some pr \<Rightarrow>
            if reaches X sc pr \<and> \<not> has_draft (cenv (denv X)) (ckp (txn_db d1)) about then
              let pid = clock_id ''proposal-draft-'' (clk n)
              in and_then (seal_in (denv X) now pid (draft_body X pid about ep sc pr) d1) (\<lambda>d2.
                   Inr ([json_obj [(lit ''proposal'', JString pid), (lit ''about'', JString about), (lit ''score'', JNumber sc)]], d2))
            else Inr ([], d1)) (\<lambda>(dr, d2).
     and_then (score_loop X now clk k ep run kbody promote sigs (Suc n) abouts d2) (\<lambda>(scs, drs, d3).
       Inr (json_obj [(lit ''about'', JString about), (lit ''score'', JNumber sc)] # scs, dr @ drs, d3)))))"

definition score_tick :: "'g orbit_env \<Rightarrow> int \<Rightarrow> (nat \<Rightarrow> int) \<Rightarrow> str \<Rightarrow> 'g door_db txn \<Rightarrow> (json \<times> 'g door_db txn) sql" where
  "score_tick X now clk k d =
     (let E = cenv (denv X); db = ckp (txn_db d)
      in case kernel_body E db k of
           None \<Rightarrow> Inr (json_obj [(lit ''ok'', JBool False), (lit ''error'', jlit ''unknown_instance''), (lit ''sqlstate'', jlit ''42704'')], d)
         | Some kbody \<Rightarrow>
             and_then (law_in X kbody) (\<lambda>(promote, law).
             let ep = (case t_kernel_epoch db k of None \<Rightarrow> 0 | Some e \<Rightarrow> e); run = clock_id ''run-scoretick-'' (clk 0)
             in and_then (seal_in (denv X) now run (run_body X now k run) d) (\<lambda>d1.
                let sigs = signals_of E (ckp (txn_db d1)) k
                in and_then (score_loop X now clk k ep run kbody promote sigs 1 (sort (remdups (map fst sigs))) d1) (\<lambda>(scs, drs, d2).
                     Inr (json_obj [(lit ''ok'', JBool True), (lit ''kernel'', JString k), (lit ''epoch'', JNumber (JInt ep)),
                       (lit ''epochUnchanged'', JBool (t_kernel_epoch (ckp (txn_db d2)) k = t_kernel_epoch db k)),
                       (lit ''run'', JString (run_iri k run)), (lit ''scores'', JArray scs), (lit ''drafted'', JArray drs),
                       (lit ''law'', law)], d2)))))"

section \<open>Draining\<close>

fun distinct_on :: "('a \<Rightarrow> 'k) \<Rightarrow> 'k list \<Rightarrow> 'a list \<Rightarrow> 'a list" where
  "distinct_on f seen [] = []"
| "distinct_on f seen (x # xs) = (if f x \<in> set seen then distinct_on f seen xs else x # distinct_on f (f x # seen) xs)"

text \<open>\<^verbatim>\<open>SELECT DISTINCT ON (kernel) \<dots> WHERE state = 'queued' ORDER BY kernel, crossing_at LIMIT GREATEST(p_max, 1)\<close>\<close>

definition next_jobs :: "nat \<Rightarrow> orbit_job list \<Rightarrow> orbit_job list" where
  "next_jobs p_max jobs =
     take (max p_max 1) (distinct_on j_kernel [] (sort_key j_kernel (sort_key j_crossing (filter (\<lambda>j. j_state j = Queued) jobs))))"

definition update_job :: "int \<Rightarrow> (orbit_job \<Rightarrow> orbit_job) \<Rightarrow> orbit_job list \<Rightarrow> orbit_job list" where
  "update_job i f jobs = map (\<lambda>j. if j_id j = i then f j else j) jobs"

definition job_done :: "orbit_job \<Rightarrow> orbit_job" where
  "job_done j = j\<lparr>j_state := Done, j_attempts := j_attempts j + 1\<rparr>"

definition job_failed :: "str \<Rightarrow> orbit_job \<Rightarrow> orbit_job" where
  "job_failed e j = j\<lparr>j_attempts := j_attempts j + 1, j_error := Some e, j_state := (if j_attempts j + 1 \<ge> 5 then Failed else Queued)\<rparr>"

definition set_jobs :: "orbit_job list \<Rightarrow> 'g orbit_db txn \<Rightarrow> 'g orbit_db txn" where
  "set_jobs jobs t = t\<lparr>txn_db := (txn_db t)\<lparr>orbit_jobs := jobs\<rparr>\<rparr>"

text \<open>What one job's block ends in: the reply of a successful tick, or the text of the failure,
  after which the block's own effects are rolled back.\<close>

definition tick_outcome :: "'g orbit_env \<Rightarrow> int \<Rightarrow> (nat \<Rightarrow> int) \<Rightarrow> str \<Rightarrow> 'g door_db txn \<Rightarrow> str + json \<times> 'g door_db txn" where
  "tick_outcome X now clk k d =
     (let E = cenv (denv X)
      in case score_tick X now clk k d of
           Inl e \<Rightarrow> Inl (err_text (denv X) e)
         | Inr (v_res, d') \<Rightarrow>
             if is_true (body_text E v_res (lit ''ok'')) then Inr (v_res, d')
             else Inl (coalesce_text (body_text E v_res (lit ''error'')) (lit ''score_tick refused'')))"

definition run_job ::
    "'g orbit_env \<Rightarrow> int \<Rightarrow> orbit_job \<Rightarrow> int \<times> int \<times> json list \<times> 'g orbit_db txn \<Rightarrow> int \<times> int \<times> json list \<times> 'g orbit_db txn" where
  "run_job X now r st =
     (case st of (dn, fl, rep, t) \<Rightarrow>
        (case tick_outcome X now (clock X now (Some (j_id r))) (j_kernel r) (door_txn t) of
           Inr (v_res, d) \<Rightarrow>
             (dn + 1, fl, rep @ [json_obj [(lit ''kernel'', JString (j_kernel r)), (lit ''job'', JNumber (JInt (j_id r))), (lit ''state'', jlit ''done''),
                (lit ''drafted'', case json_get v_res (lit ''drafted'') of None \<Rightarrow> JNull | Some v \<Rightarrow> v)]],
              set_jobs (update_job (j_id r) job_done (orbit_jobs (txn_db t))) (put_door t d))
         | Inl e \<Rightarrow>
             (dn, fl + 1, rep @ [json_obj [(lit ''kernel'', JString (j_kernel r)), (lit ''job'', JNumber (JInt (j_id r))), (lit ''state'', jlit ''attempt_failed''),
                (lit ''error'', JString e)]],
              set_jobs (update_job (j_id r) (job_failed e) (orbit_jobs (txn_db t))) (put_door t (aborted (denv X) (door_txn t))))))"

definition orbit_drain :: "'g orbit_env \<Rightarrow> int \<Rightarrow> (int \<Rightarrow> bool) \<Rightarrow> nat \<Rightarrow> 'g orbit_db txn \<Rightarrow> json \<times> 'g orbit_db txn" where
  "orbit_drain X now locked p_max t =
     (let (dn, fl, rep, t') = fold (run_job X now) (filter (\<lambda>j. \<not> locked (j_id j)) (next_jobs p_max (orbit_jobs (txn_db t)))) (0, 0, [], t)
      in (json_obj [(lit ''ok'', JBool True), (lit ''done'', JNumber (JInt dn)), (lit ''failed'', JNumber (JInt fl)), (lit ''report'', JArray rep)], t'))"

definition set_local :: "string \<Rightarrow> str \<Rightarrow> 'db txn \<Rightarrow> 'db txn" where
  "set_local k v t = t\<lparr>settings := (settings t)(lit k \<mapsto> v)\<rparr>"

definition orbit_tick :: "'g orbit_env \<Rightarrow> int \<Rightarrow> (int \<Rightarrow> bool) \<Rightarrow> 'g orbit_db txn \<Rightarrow> (json \<times> 'g orbit_db txn) sql" where
  "orbit_tick X now locked t =
     (let v_prev = eff (door_txn t) (lit ''ckp.requester'');
          t1 = (if guc_trimmed (eff (door_txn t)) ''ckp.requester'' = None then set_local ''ckp.requester'' (lit ''svc:orbit-tick'') t else t)
      in and_then (orbit_enqueue X now t1) (\<lambda>(v_q, t2).
           let (v_d, t3) = orbit_drain X now locked 4 t2
           in Inr (jsonb_concat (json_obj [(lit ''enqueued'', JNumber (JInt v_q))]) v_d,
                   set_local ''ckp.requester'' (coalesce_text v_prev []) t3)))"

section \<open>Materialisation\<close>

definition enqueue_materialize ::
    "'g orbit_env \<Rightarrow> int \<Rightarrow> str \<Rightarrow> json \<Rightarrow> str \<Rightarrow> int \<Rightarrow> 'g orbit_db txn \<Rightarrow> (json \<times> 'g orbit_db txn) sql" where
  "enqueue_materialize X now p_concept p_scope p_formula p_epoch t =
     and_then (source_watermark X p_scope (ckp (door (txn_db t)))) (\<lambda>wm.
       let row = \<lparr>m_concept = p_concept, m_scope = p_scope, m_formula = p_formula, m_epoch = p_epoch, m_watermark = wm, m_enqueued = now\<rparr>;
           jobs = mat_jobs (txn_db t);
           jobs' = (if list_ex (\<lambda>j. m_concept j = p_concept) jobs then map (\<lambda>j. if m_concept j = p_concept then row else j) jobs
                    else jobs @ [row])
       in Inr (json_obj [(lit ''ok'', JBool True), (lit ''recompute_in_progress'', JBool True)],
               t\<lparr>txn_db := (txn_db t)\<lparr>mat_jobs := jobs'\<rparr>\<rparr>))"

definition HOUR :: int where "HOUR = 3600 * SECOND"

definition publish_phenotype :: "phenotype \<Rightarrow> phenotype list \<Rightarrow> phenotype list" where
  "publish_phenotype p ps =
     (if list_ex (\<lambda>q. ph_concept q = ph_concept p) ps then map (\<lambda>q. if ph_concept q = ph_concept p then p else q) ps else ps @ [p])"

definition oldest_mat :: "mat_job list \<Rightarrow> mat_job option" where
  "oldest_mat jobs = (case sort_key m_enqueued jobs of [] \<Rightarrow> None | j # _ \<Rightarrow> Some j)"

definition sql_materialize_drain :: "'g orbit_env \<Rightarrow> int \<Rightarrow> 'g orbit_db txn \<Rightarrow> (int \<times> 'g orbit_db txn) sql" where
  "sql_materialize_drain X now t =
     (case oldest_mat (mat_jobs (txn_db t)) of
        None \<Rightarrow> Inr (0, t)
      | Some j \<Rightarrow>
          let db = txn_db t; c = ckp (door db)
          in and_then (source_watermark X (m_scope j) c) (\<lambda>wm.
             and_then (epsilon_materialize X (m_concept j) (m_scope j) (m_formula j) (m_epoch j) c) (\<lambda>(giri, g).
               Inr (1, t\<lparr>txn_db := db\<lparr>door := (door db)\<lparr>ckp := c\<lparr>rdf := g\<rparr>\<rparr>,
                 phenotypes := publish_phenotype \<lparr>ph_concept = m_concept j, ph_graph = giri, ph_epoch = m_epoch j,
                    ph_watermark = wm, ph_valid_until = now + HOUR\<rparr> (phenotypes db),
                 mat_jobs := filter (\<lambda>k. m_concept k \<noteq> m_concept j) (mat_jobs db)\<rparr>\<rparr>))))"

section \<open>The roster\<close>

definition ledger_kernels :: "'g ckp_env \<Rightarrow> 'g ckp_db \<Rightarrow> str list" where
  "ledger_kernels E db =
     sort (remdups (List.map_filter (\<lambda>i. Option.bind (body_text E (i_body i) (lit ''@id'')) kernel_segment)
       (filter (\<lambda>i. body_text E (i_body i) (lit ''type'') = Some (core ''Kernel'') \<and> \<not> has_key (i_body i) (core ''retiredAtEpoch''))
         (t_instances db))))"

end
