(* ===== verification/Ckp_Door_Props.thy ===== *)
theory Ckp_Door_Props
  imports Ckp_Door Ckp_Ledger
begin

text \<open>
  Properties of the door: what an abort may leave behind, an unknown verb
  reaches no handler, old and new verb names agree, registered refusals are flagged, and
  what the route leaves behind in the session.
\<close>

section \<open>What an abort leaves\<close>

text \<open>PostgreSQL rolls the tables back; sequences and the engine's caches it does not.\<close>

definition same_tables :: "'g ckp_db \<Rightarrow> 'g ckp_db \<Rightarrow> bool" where
  "same_tables a b \<longleftrightarrow>
     t_config a = t_config b \<and> t_instances a = t_instances b \<and> t_ledger a = t_ledger b \<and> t_proof a = t_proof b \<and>
     t_outbox a = t_outbox b \<and> t_kernel_epoch a = t_kernel_epoch b \<and> t_obligations a = t_obligations b"

definition abort_law :: "'g door_env \<Rightarrow> bool" where
  "abort_law D \<longleftrightarrow> (\<forall>db. same_tables (after_abort D db) db \<and> s_ledger db \<le> s_ledger (after_abort D db) \<and>
     s_proof db \<le> s_proof (after_abort D db) \<and> s_outbox db \<le> s_outbox (after_abort D db))"

definition demo_door :: "unit door_env" where
  "demo_door = \<lparr>cenv = demo_ckp, err_text = (\<lambda>e. lit ''refused''), after_abort = (\<lambda>db. db\<lparr>s_ledger := s_ledger db + 1\<rparr>)\<rparr>"

lemma demo_abort_law: "abort_law demo_door"
  by (simp add: abort_law_def same_tables_def demo_door_def)

definition demo_registry :: "affordance list" where
  "demo_registry = [\<lparr>a_kernel = lit ''pgck'', a_verb = lit ''instance.create'', a_in_topic = lit ''input.kernel.pgck.action.instance.create'', a_out_topic = None,
     a_plane = lit ''instance'', a_epoch = 1, a_delegate = False\<rparr>]"

definition demo_door_txn :: "unit door_db txn" where
  "demo_door_txn = \<lparr>txn_db = \<lparr>ckp = empty_store demo_ckp_config (), session = (\<lambda>_. None), registry = demo_registry, refusals = [], plans = [], epoch_surface = (\<lambda>_. None)\<rparr>,
     settings = demo_session\<rparr>"

definition demo_handlers :: "unit handlers" where
  "demo_handlers = (\<lambda>n p t. Inl (Engine_Error (lit ''XX000'') (lit ''down'')))"

lemma demo_door_eff: "eff demo_door_txn = demo_session"
  by (auto simp: eff_def demo_door_txn_def fun_eq_iff split: option.splits)

lemma demo_door_project: "resolve_project demo_ckp (eff demo_door_txn) (ckp (txn_db demo_door_txn)) = Inr (Some (lit ''acme''))"
  unfolding demo_door_eff by (rule demo_project) (simp add: demo_door_txn_def sealed_kernel_ids_def empty_store_def map_filter_simps)

section \<open>Routing\<close>

lemma route_unknown:
  "v \<noteq> lit ''kernel.germinate'' \<Longrightarrow> list_all (\<lambda>a. a_verb a = verb_canon v \<longrightarrow> Some (a_kernel a) \<noteq> pr \<and> a_kernel a \<noteq> lit ''pgck'') rows \<Longrightarrow>
     route_of rows pr v p = Unknown_Affordance"
proof -
  assume v: "v \<noteq> lit ''kernel.germinate''" and rows: "list_all (\<lambda>a. a_verb a = verb_canon v \<longrightarrow> Some (a_kernel a) \<noteq> pr \<and> a_kernel a \<noteq> lit ''pgck'') rows"
  have "verb_canon v \<noteq> lit ''kernel.germinate''" using v by (simp add: verb_canon_def)
  with rows have "filter (\<lambda>r. a_verb r = verb_canon v \<and>
      (Some (a_kernel r) = pr \<or> a_kernel r = lit ''pgck'' \<or> verb_canon v = lit ''kernel.germinate'')) rows = []"
    by (auto simp: filter_empty_conv list_all_iff)
  then show ?thesis by (simp add: route_of_def registry_lookup_def Let_def)
qed

text \<open>A kernel is authorised for its own verbs and the seeded ones only. A request whose
  canonical verb has no registry row of the addressed kernel and none of \<^verbatim>\<open>pgck\<close> is answered
  \<^verbatim>\<open>unknown_affordance\<close>, whatever the payload and whatever the handlers would do, and no table is
  touched; \<^verbatim>\<open>kernel.germinate\<close> is the one exception.\<close>

theorem unregistered_verb_reaches_no_handler:
  assumes "resolve_project (cenv D) (eff t) (ckp (txn_db t)) = Inr pr" "v \<noteq> lit ''kernel.germinate''"
    "list_all (\<lambda>a. a_verb a = verb_canon v \<longrightarrow> Some (a_kernel a) \<noteq> pr \<and> a_kernel a \<noteq> lit ''pgck'') (registry (txn_db t))"
  shows "\<exists>j t'. dispatch_route D H now clk v p t = Inr (Some j, t') \<and> json_get j (lit ''error'') = Some (JString (lit ''unknown_affordance'')) \<and>
    json_get j (lit ''ok'') = Some (JBool False) \<and> ckp (txn_db t') = ckp (txn_db t)"
  using assms(1) route_unknown[OF assms(2,3)]
  by (simp add: dispatch_route_def run_route_def Let_def json_get_concat json_get_obj req_of_def jlit_def set_session_def)

theorem unregistered_verb_reaches_no_handler_witness:
  "\<exists>j t'. dispatch_route demo_door demo_handlers 7 8 (lit ''kernel.apply'') (json_obj []) demo_door_txn = Inr (Some j, t') \<and>
     json_get j (lit ''error'') = Some (JString (lit ''unknown_affordance''))"
proof -
  have r: "resolve_project (cenv demo_door) (eff demo_door_txn) (ckp (txn_db demo_door_txn)) = Inr (Some (lit ''acme''))"
    using demo_door_project by (simp add: demo_door_def)
  have "list_all (\<lambda>a. a_verb a = verb_canon (lit ''kernel.apply'') \<longrightarrow> Some (a_kernel a) \<noteq> Some (lit ''acme'') \<and> a_kernel a \<noteq> lit ''pgck'') (registry (txn_db demo_door_txn))"
    by (simp add: demo_door_txn_def demo_registry_def verb_canon_def)
  from unregistered_verb_reaches_no_handler[OF r _ this, of demo_handlers 7 8 "json_obj []"] show ?thesis by auto
qed

definition canonical_verbs :: "str list" where
  "canonical_verbs = map lit [''instance.create'', ''instance.link'', ''instance.update'', ''instance.query'',
     ''instance.snapshot'', ''instance.provenance'']"

lemma canonical_round_trip: "w \<in> set canonical_verbs \<Longrightarrow> verb_canon (verb_to_legacy w p) = w"
proof -
  assume "w \<in> set canonical_verbs"
  then consider "w = lit ''instance.create''" | "w = lit ''instance.link''" | "w = lit ''instance.update''" |
    "w = lit ''instance.query''" | "w = lit ''instance.snapshot''" | "w = lit ''instance.provenance''"
    unfolding canonical_verbs_def by auto
  then show ?thesis
  proof cases
    case 1
    then have "verb_to_legacy w p \<in> {lit ''task.create'', lit ''kernel.create''}" by (simp add: verb_to_legacy_def)
    with 1 show ?thesis by (elim insertE emptyE) (simp_all add: verb_canon_def)
  qed (simp_all add: verb_to_legacy_def verb_canon_def)
qed

text \<open>The legacy and the canonical verb names are one alphabet. Naming the handler of any
  canonical verb and canonicalising that name again gives the verb back, for every verb and
  every payload, so the registry row checked for a request is the one of its handler.\<close>

theorem verb_names_round_trip:
  "verb_canon (verb_to_legacy (verb_canon v) p) = verb_canon v"
proof (cases "verb_canon v \<in> set canonical_verbs")
  case True
  then show ?thesis by (rule canonical_round_trip)
next
  case False
  then have "verb_to_legacy (verb_canon v) p = verb_canon v"
    by (simp add: canonical_verbs_def verb_to_legacy_def)
  moreover from False have "verb_canon v = v" unfolding verb_canon_def canonical_verbs_def by (auto split: if_splits)
  ultimately show ?thesis by simp
qed

section \<open>The refusal envelope\<close>

definition registered :: "'g ckp_env \<Rightarrow> refusal list \<Rightarrow> json \<Rightarrow> refusal option" where
  "registered E regs r = List.find (\<lambda>x. Some (r_code x) = body_text E r (lit ''error'')) regs"

text \<open>Exactly the registered refusals are flagged. A reply that is not \<^verbatim>\<open>ok: false\<close>, a delegation,
  and a fault whose error is not in the registry pass unchanged; a registered refusal keeps
  every field but gets \<^verbatim>\<open>refused: true\<close>, its \<^verbatim>\<open>SQLSTATE\<close> unless it carries one, and the hint the
  registry teaches unless it has one.\<close>

theorem envelope_flags_registered_refusals:
  assumes "is_object r" "json_object_wf r"
  shows "\<exists>j. refusal_envelope E regs (Some r) = Some j \<and>
    (if body_text E r (lit ''ok'') = Some (lit ''false'') \<and> \<not> is_true (body_text E r (lit ''delegate''))
     then case registered E regs r of
       None \<Rightarrow> j = r
     | Some x \<Rightarrow> json_get j (lit ''refused'') = Some (JBool True) \<and>
         json_get j (lit ''sqlstate'') = Some (JString (coalesce_text (body_text E r (lit ''sqlstate'')) (r_sqlstate x))) \<and>
         (json_get j (lit ''hint'') = None \<longrightarrow> r_teaches x = None) \<and>
         (\<forall>k. k \<noteq> lit ''refused'' \<longrightarrow> k \<noteq> lit ''sqlstate'' \<longrightarrow> json_get r k \<noteq> None \<longrightarrow> json_get j k = json_get r k)
     else j = r)"
proof -
  let ?add = "\<lambda>x. json_obj [(lit ''refused'', JBool True),
     (lit ''sqlstate'', JString (coalesce_text (body_text E r (lit ''sqlstate'')) (r_sqlstate x)))]"
  have g: "json_get (jsonb_concat r (?add x)) k = (if k = lit ''sqlstate'' then Some (JString (coalesce_text (body_text E r (lit ''sqlstate'')) (r_sqlstate x)))
      else if k = lit ''refused'' then Some (JBool True) else json_get r k)" for x k
    using assms by (simp add: json_get_concat json_get_obj)
  have w: "is_object (jsonb_concat r (?add x))" "json_object_wf (jsonb_concat r (?add x))" for x
    using assms by (auto intro!: inv_intros)
  have h: "json_get (jsonb_concat (jsonb_concat r (?add x)) (json_obj [(lit ''hint'', JString y)])) k =
      (if k = lit ''hint'' then Some (JString y) else json_get (jsonb_concat r (?add x)) k)" for x y k
    using w[of x] by (simp add: json_get_concat json_get_obj)
  show ?thesis
    unfolding refusal_envelope_def registered_def
    by (auto simp: g h has_key_object[OF w(1)] Let_def split: option.splits)
qed

definition demo_refusal :: json where
  "demo_refusal = json_obj [(lit ''ok'', JBool False), (lit ''error'', JString (lit ''not_owner''))]"

theorem envelope_flags_registered_refusals_witness:
  "\<exists>j. refusal_envelope demo_ckp [\<lparr>r_code = lit ''not_owner'', r_sqlstate = lit ''42501'', r_teaches = None\<rparr>] (Some demo_refusal) = Some j \<and>
     json_get j (lit ''refused'') = Some (JBool True)"
proof -
  have "is_object demo_refusal" "json_object_wf demo_refusal" by (simp_all add: demo_refusal_def)
  from envelope_flags_registered_refusals[OF this, of demo_ckp "[\<lparr>r_code = lit ''not_owner'', r_sqlstate = lit ''42501'', r_teaches = None\<rparr>]"]
  show ?thesis
    by (auto simp: demo_refusal_def get_text_def json_get_obj text_of_def is_true_def registered_def)
qed

section \<open>What stays in the session\<close>

definition keeps_session :: "'g handlers \<Rightarrow> bool" where
  "keeps_session H \<longleftrightarrow> (\<forall>n p t r t'. H n p t = Inr (r, t') \<longrightarrow> session (txn_db t') = session (txn_db t))"

lemma seal_in_session: "seal_in D now i b t = Inr t' \<Longrightarrow> session (txn_db t') = session (txn_db t)"
  by (auto simp: seal_in_def rejoin_def ok_iff)

lemma catching_session:
  assumes "catching D t r = Inr (j, t')" "\<And>j t'. r = Inr (j, t') \<Longrightarrow> session (txn_db t') = session (txn_db t)"
  shows "session (txn_db t') = session (txn_db t)"
  using assms by (cases r) (auto simp: catching_def aborted_def)

lemma catching_ok:
  "catching D t r = Inr (Some j, t') \<Longrightarrow> r = Inr (Some j, t') \<or> (\<exists>e. j = fault (err_text D e))"
  by (cases r) (auto simp: catching_def)

lemma legacy_session:
  assumes "keeps_session H" "legacy_verb D H now clk v pv p t = Inr (r, t')"
  shows "session (txn_db t') = session (txn_db t)"
  using assms(2) unfolding legacy_verb_def
proof (simp split: if_splits option.splits)
  assume "kernel_create D now p t = Inr (r, t')"
  then show ?thesis by (auto simp: kernel_create_def Let_def ok_iff seal_in_session split: option.splits if_splits)
next
  assume "task_create D now clk p t = Inr (r, t')"
  then show ?thesis
    by (auto simp: task_create_def Let_def ok_iff seal_in_session split: option.splits elim!: catching_session)
next
  assume "task_update D now p t = Inr (r, t')"
  then show ?thesis
    by (auto simp: task_update_def ok_iff seal_in_session split: option.splits elim!: catching_session)
next
  fix n assume "H n p t = Inr (r, t')"
  then show ?thesis using assms(1) by (simp add: keeps_session_def)
qed

text \<open>A dispatch leaves its kernel and its identity key in the worker's session. The route sets
  \<^verbatim>\<open>ckp.project\<close> and \<^verbatim>\<open>ckp.identity_key\<close> for the session, not for the transaction: after any
  dispatch that returns, a later transaction of the same worker that sets neither (the orbit
  tick is one) runs under the kernel of that request, and signs and verifies with the key
  read then, even if \<^verbatim>\<open>ckp.config\<close> has been given another key since.\<close>

theorem dispatch_pins_session:
  assumes "keeps_session H" "dispatch D H now clk v p t = Inr (r, t')"
    "resolve_project (cenv D) (eff t) (ckp (txn_db t)) = Inr (Some pr)" "pr \<noteq> []"
    "identity_key (eff t) (ckp (txn_db t)) = Some key" "key \<noteq> []"
  shows "guc_nonempty (eff \<lparr>txn_db = txn_db t', settings = (\<lambda>_. None)\<rparr>) ''ckp.project'' = Some pr \<and>
    identity_key (eff \<lparr>txn_db = txn_db t', settings = (\<lambda>_. None)\<rparr>) (db'\<lparr>t_config := cfg\<rparr>) = Some key"
proof -
  let ?t1 = "set_session ''ckp.identity_key'' (Some key) (set_session ''ckp.project'' (Some pr) t)"
  obtain res where run: "run_route D H now clk v p ?t1 (route_of (registry (txn_db t)) (Some pr) v p) = Inr (res, t')"
    using assms(2,3,5) by (auto simp: dispatch_def dispatch_route_def Let_def ok_iff)
  have "session (txn_db t') = session (txn_db ?t1)"
  proof (cases "route_of (registry (txn_db t)) (Some pr) v p")
    case (To_Legacy x)
    with run legacy_session[OF assms(1)] show ?thesis by (simp add: run_route_def)
  next
    case (To_Handler n)
    with run assms(1) show ?thesis by (simp add: run_route_def keeps_session_def)
  qed (use run in \<open>auto simp: run_route_def\<close>)
  then show ?thesis
    using assms(4,6) by (simp add: eff_def set_session_def guc_nonempty_def nullif_empty_def identity_key_def)
qed

theorem dispatch_pins_session_witness:
  "\<exists>r t'. dispatch demo_door demo_handlers 7 8 (lit ''kernel.apply'') (json_obj []) demo_door_txn = Inr (r, t') \<and>
     guc_nonempty (eff \<lparr>txn_db = txn_db t', settings = (\<lambda>_. None)\<rparr>) ''ckp.project'' = Some (lit ''acme'')"
proof -
  have H: "keeps_session demo_handlers" by (simp add: keeps_session_def demo_handlers_def)
  have pr: "resolve_project (cenv demo_door) (eff demo_door_txn) (ckp (txn_db demo_door_txn)) = Inr (Some (lit ''acme''))"
    using demo_door_project by (simp add: demo_door_def)
  have key: "identity_key (eff demo_door_txn) (ckp (txn_db demo_door_txn)) = Some (lit ''secret'')"
    unfolding demo_door_eff by (simp add: demo_door_txn_def demo_key)
  have rt: "route_of (registry (txn_db demo_door_txn)) (Some (lit ''acme'')) (lit ''kernel.apply'') (json_obj []) = Unknown_Affordance"
    by (rule route_unknown) (simp_all add: demo_door_txn_def demo_registry_def verb_canon_def)
  obtain r t' where d: "dispatch demo_door demo_handlers 7 8 (lit ''kernel.apply'') (json_obj []) demo_door_txn = Inr (r, t')"
    using pr rt by (simp add: dispatch_def dispatch_route_def Let_def run_route_def)
  from dispatch_pins_session[OF H d pr _ key] d show ?thesis by auto
qed

section \<open>A created task\<close>

lemma board_eq_iff [simp]: "board x = board y \<longleftrightarrow> x = y"
  by (simp add: board_def)

lemma board_neq [simp]:
  "board x \<noteq> core y" "core y \<noteq> board x" "board x \<noteq> lit ''type''" "board x \<noteq> lit ''@id''" "board x \<noteq> lit ''participant''"
  "board x \<noteq> lit ''participant_email''" "board x \<noteq> lit ''participant_display_name''"
  "lit ''participant'' \<noteq> board x" "lit ''type'' \<noteq> board x" "lit ''@id'' \<noteq> board x"
  by (simp_all add: board_def core_def core_ns_def lit_def)

lemma final_body_board:
  assumes "shape_gate E s p ty proj who b db = Inr (stamps, warn, g)" "json_object_wf j" "is_object j"
  shows "json_get (final_body E who j stamps) (board k) = json_get j (board k)"
  by (rule final_body_other[OF assms]) (simp_all add: stamp_keys_def)

lemma seal_board:
  assumes "ckp_seal E now p body t = Inr (sha, t')" "json_object_wf body"
  shows "\<exists>b. find_instance (txn_db t') p = Some b \<and> json_get b (board k) = json_get body (board k)"
  using assms(1)
proof (rule seal_ok)
  fix ty key who proj stamps warn g obs ep dbx
  assume h: "body_text E body (lit ''type'') = Some ty"
    "shape_gate E (settings t) p ty proj who (strip_stamps (attribute_body E who body)) (txn_db t) = Inr (stamps, warn, g)"
    and s: "sealed E now key obs p (final_body E who body stamps) ep (txn_db t) (txn_db t')"
  have "find_instance (txn_db t') p = Some (final_body E who body stamps)"
    using s find_after_upsert[of "txn_db t'" now p "final_body E who body stamps" "txn_db t" p] by (simp add: sealed_def)
  with final_body_board[OF h(2) assms(2) get_text_is_object[OF h(1)]] show ?thesis by blast
qed

text \<open>A created task belongs to the requester, and names it twice. When \<^verbatim>\<open>task.create\<close> answers
  \<^verbatim>\<open>ok\<close>, the stored task's \<^verbatim>\<open>createdBy\<close> is the requester under \<^verbatim>\<open>urn_normalise\<close>, while its board
  property \<^verbatim>\<open>created_by\<close> is the requester under \<^verbatim>\<open>_slug\<close>; nothing of the payload enters either.\<close>

theorem task_created_for_requester:
  assumes "task_create D now clk p t = Inr (Some j, t')" "json_get j (lit ''ok'') = Some (JBool True)"
    "eff t (lit ''ckp.requester'') = Some r" "btrim spc r \<noteq> []"
  shows "\<exists>b. find_instance (ckp (txn_db t')) (clock_id ''task-'' clk) = Some b \<and>
    json_get b (core ''createdBy'') = Some (JString (lit ''urn:ckp:participant:'' @ urn (cenv D) (btrim spc r))) \<and>
    json_get b (board ''created_by'') = Some (JString (lit ''urn:ckp:participant:'' @ slug (lower_text (cenv D)) r))"
proof -
  let ?tid = "clock_id ''task-'' clk"
  have ok: "json_get (fault e) (lit ''ok'') = Some (JBool False)" for e by (simp add: fault_def json_get_obj)
  obtain k title task q t1 where s: "seal_in D now ?tid (task_body D now (eff t) ?tid k title task q) t = Inr t1" and t': "t' = t1"
    using assms(1,2) unfolding task_create_def Let_def
    by (auto simp: ok ok_iff split: option.splits dest!: catching_ok)
  define body where "body = task_body D now (eff t) ?tid k title task q"
  have body: "json_object_wf body"
    "json_get body (board ''created_by'') = Some (JString (lit ''urn:ckp:participant:'' @ slug (lower_text (cenv D)) r))"
    using assms(3) by (simp_all add: body_def task_body_def created_by_def json_get_obj)
  note s = s[folded body_def]
  obtain sha c where c: "ckp_seal (cenv D) now (clock_id ''task-'' clk) body (ckp_txn t) = Inr (sha, c)" and t1: "t1 = rejoin t c"
    using s by (auto simp: seal_in_def ok_iff)
  have "guc_trimmed (settings (ckp_txn t)) ''ckp.requester'' = Some (btrim spc r)"
    using assms(3,4) by (simp add: guc_trimmed_def ckp_txn_def coalesce_text_def nullif_empty_def)
  from sealed_by_requester[OF c body(1) this] seal_board[OF c body(1), of "''created_by''"] body(2)
  show ?thesis unfolding t' t1 by (auto simp: rejoin_def participant_urn_def)
qed

definition demo_task :: json where
  "demo_task = json_obj [(lit ''task'', json_obj [(lit ''target_kernel'', JString (lit ''acme'')), (lit ''title'', JString (lit ''ship it''))])]"

theorem task_created_for_requester_witness:
  "\<exists>j t' b. task_create demo_door 7 8 demo_task demo_door_txn = Inr (Some j, t') \<and>
     find_instance (ckp (txn_db t')) (clock_id ''task-'' 8) = Some b \<and>
     json_get b (board ''created_by'') = Some (JString (lit ''urn:ckp:participant:'' @ slug ascii_lower (lit ''Alice'')))"
proof -
  let ?tid = "clock_id ''task-'' 8"
  let ?task = "json_obj [(lit ''target_kernel'', JString (lit ''acme'')), (lit ''title'', JString (lit ''ship it''))]"
  let ?body = "task_body demo_door 7 demo_session ?tid (lit ''acme'') (lit ''ship it'') ?task 1"
  have b: "json_object_wf ?body" by (simp add: task_body_def)
  have ty: "body_text demo_ckp ?body (lit ''type'') = Some (board ''Task'')"
    by (simp add: task_body_def get_text_def json_get_obj text_of_def created_by_def demo_session_def)
  have t0: "ckp_txn demo_door_txn = \<lparr>txn_db = empty_store demo_ckp_config (), settings = demo_session\<rparr>"
    by (simp add: ckp_txn_def demo_door_eff) (simp add: demo_door_txn_def)
  have "\<exists>sha c. ckp_seal demo_ckp 7 ?tid ?body \<lparr>txn_db = empty_store demo_ckp_config (), settings = demo_session\<rparr> = Inr (sha, c)"
  proof (rule demo_seal_gen[OF b ty, where obs = "[]"])
    show "membership_gate demo_ckp (empty_store demo_ckp_config ()) (participant_urn demo_ckp (lit ''Alice''))
        (strip_stamps (attribute_body demo_ckp (participant_urn demo_ckp (lit ''Alice'')) ?body)) = Inr ()"
      using b ty by (intro demo_gate_ok) simp_all
  qed (simp_all add: empty_store_def sealed_kernel_ids_def map_filter_simps run_proof_obligations_def board_def lit_def)
  then obtain t1 where s: "seal_in demo_door 7 ?tid ?body demo_door_txn = Inr t1"
    unfolding seal_in_def t0 by (auto simp: demo_door_def)
  have q: "next_queue_seq demo_ckp (ckp (txn_db demo_door_txn)) k = Inr 1" for k
    by (simp add: next_queue_seq_def demo_door_txn_def empty_store_def map_filter_simps)
  have tk: "json_get demo_task (lit ''task'') = Some ?task" "body_text demo_ckp ?task (lit ''target_kernel'') = Some (lit ''acme'')"
    "body_text demo_ckp ?task (lit ''title'') = Some (lit ''ship it'')" "cenv demo_door = demo_ckp"
    by (simp_all add: demo_task_def json_get_obj get_text_def text_of_def demo_door_def)
  have r: "task_create demo_door 7 8 demo_task demo_door_txn = Inr (Some (sealed_reply demo_door ?tid [] t1), t1)"
    using s q tk by (simp add: task_create_def Let_def catching_def demo_door_eff)
  have ok: "json_get (sealed_reply demo_door ?tid [] t1) (lit ''ok'') = Some (JBool True)"
    by (auto simp: sealed_reply_def json_get_concat json_get_obj stamped_def split: option.splits)
  have rq: "eff demo_door_txn (lit ''ckp.requester'') = Some (lit ''Alice'')" "btrim spc (lit ''Alice'') \<noteq> []"
    unfolding demo_door_eff by (simp_all add: demo_session_def btrim_def lit_def)
  from task_created_for_requester[OF r ok rq] r show ?thesis by (auto simp: demo_door_def demo_ckp_def)
qed

lemma identity_spellings_differ:
  "urn_normalise ascii_lower (Some (lit ''al.'')) = lit ''al-''" "slug ascii_lower (lit ''al.'') = lit ''al''"
  by (simp_all add: urn_normalise_def slug_def ascii_lower_def lit_def coalesce_text_def btrim_def urn_char_def ascii_lower_digit_def Let_def)

end
