(* ===== verification/Ckp_Orbit_Props.thy ===== *)
theory Ckp_Orbit_Props
  imports Ckp_Orbit Ckp_Door_Props
begin

text \<open>
  Properties of the orbit queue and of the materialisation queue: what a drain may touch,
  how often a job is tried, who is served, and under which kernel the work is sealed.
\<close>

section \<open>Selection\<close>

lemma distinct_on_mem: "x \<in> set (distinct_on f seen xs) \<Longrightarrow> x \<in> set xs \<and> f x \<notin> set seen"
  by (induction xs arbitrary: seen) (fastforce split: if_splits)+

lemma distinct_on_keys: "f ` set (distinct_on f seen xs) = f ` set xs - set seen"
  by (induction xs arbitrary: seen) auto

lemma distinct_on_sorted:
  "sorted (map f xs) \<Longrightarrow> sorted_wrt (<) (map f (distinct_on f seen xs))"
proof (induction xs arbitrary: seen)
  case (Cons x xs)
  have "f x < f y" if "y \<in> set (distinct_on f (f x # seen) xs)" for y
    using distinct_on_mem[OF that] Cons.prems by (auto simp: order_le_less)
  with Cons show ?case by simp
qed simp

lemma distinct_on_first:
  fixes g :: "'a \<Rightarrow> 'b :: linorder"
  shows "sorted_wrt (\<lambda>a b. f a = f b \<longrightarrow> g a \<le> g b) xs \<Longrightarrow> x \<in> set (distinct_on f seen xs) \<Longrightarrow> y \<in> set xs \<Longrightarrow> f y = f x \<Longrightarrow> g x \<le> g y"
proof (induction xs arbitrary: seen)
  case (Cons z zs)
  show ?case
  proof (cases "f z \<in> set seen")
    case True
    with Cons.prems(2) have x: "x \<in> set (distinct_on f seen zs)" by simp
    with True distinct_on_mem[OF x] Cons.prems(4) have "y \<noteq> z" by auto
    with Cons x show ?thesis by simp
  next
    case False
    show ?thesis
    proof (cases "x = z")
      case True
      with Cons.prems show ?thesis by auto
    next
      assume "x \<noteq> z"
      with False Cons.prems(2) have x: "x \<in> set (distinct_on f (f z # seen) zs)" by simp
      with distinct_on_mem[OF x] Cons.prems(4) have "y \<noteq> z" by auto
      with Cons x show ?thesis by simp
    qed
  qed
qed simp

abbreviation queued :: "orbit_job list \<Rightarrow> orbit_job list" where
  "queued jobs \<equiv> filter (\<lambda>j. j_state j = Queued) jobs"

abbreviation ordered_jobs :: "orbit_job list \<Rightarrow> orbit_job list" where
  "ordered_jobs jobs \<equiv> sort_key j_kernel (sort_key j_crossing (queued jobs))"

lemma ordered_crossings: "sorted_wrt (\<lambda>a b. j_kernel a = j_kernel b \<longrightarrow> j_crossing a \<le> j_crossing b) (ordered_jobs jobs)"
proof -
  let ?s = "sort_key j_crossing (queued jobs)"
  have k: "sorted (map j_crossing (filter (\<lambda>j. j_kernel j = k) (ordered_jobs jobs)))" for k
  proof -
    show ?thesis unfolding sort_key_stable by (rule sorted_filter) (rule sorted_sort_key)
  qed
  show ?thesis
    unfolding sorted_wrt_iff_nth_less
  proof (intro allI impI)
    fix i j assume ij: "i < j" "j < length (ordered_jobs jobs)" and e: "j_kernel (ordered_jobs jobs ! i) = j_kernel (ordered_jobs jobs ! j)"
    let ?L = "ordered_jobs jobs" let ?k = "j_kernel (ordered_jobs jobs ! j)"
    have "?L = take j ?L @ ?L ! j # drop (Suc j) ?L" using ij by (simp add: id_take_nth_drop)
    then have "filter (\<lambda>x. j_kernel x = ?k) ?L = filter (\<lambda>x. j_kernel x = ?k) (take j ?L) @ ?L ! j # filter (\<lambda>x. j_kernel x = ?k) (drop (Suc j) ?L)"
      by (metis (mono_tags, lifting) filter.simps(2) filter_append)
    with k[of ?k] have "\<forall>x \<in> set (filter (\<lambda>x. j_kernel x = ?k) (take j ?L)). j_crossing x \<le> j_crossing (?L ! j)"
      by (simp add: sorted_append)
    moreover have "?L ! i \<in> set (take j ?L)" using ij by (auto simp: in_set_conv_nth intro!: exI[of _ i])
    ultimately show "j_crossing (?L ! i) \<le> j_crossing (?L ! j)" using e by auto
  qed
qed

lemma next_jobs_facts:
  "set (next_jobs n jobs) \<subseteq> set (queued jobs)" "length (next_jobs n jobs) \<le> max n 1" "distinct (map j_kernel (next_jobs n jobs))"
  "j \<in> set (next_jobs n jobs) \<Longrightarrow> i \<in> set (queued jobs) \<Longrightarrow> j_kernel i = j_kernel j \<Longrightarrow> j_crossing j \<le> j_crossing i"
proof -
  let ?D = "distinct_on j_kernel [] (ordered_jobs jobs)"
  show "set (next_jobs n jobs) \<subseteq> set (queued jobs)"
    unfolding next_jobs_def by (auto dest!: in_set_takeD distinct_on_mem)
  show "length (next_jobs n jobs) \<le> max n 1" by (simp add: next_jobs_def)
  have "sorted_wrt (<) (map j_kernel ?D)" by (rule distinct_on_sorted) simp
  then have "distinct (map j_kernel ?D)" by (simp add: strict_sorted_iff)
  then show "distinct (map j_kernel (next_jobs n jobs))" unfolding next_jobs_def take_map[symmetric] by (rule distinct_take)
  show "j_crossing j \<le> j_crossing i" if "j \<in> set (next_jobs n jobs)" "i \<in> set (queued jobs)" "j_kernel i = j_kernel j"
    using that ordered_crossings[of jobs] unfolding next_jobs_def
    by (intro distinct_on_first[of j_kernel j_crossing "ordered_jobs jobs" j "[]" i]) (auto dest: in_set_takeD)
qed

lemma strict_take_below:
  assumes "sorted_wrt (<) xs" "x \<in> set (take n xs)"
  shows "card {y \<in> set xs. y < (x :: 'a :: linorder)} < n"
proof -
  have "{y \<in> set xs. y < x} \<subseteq> set (take n xs) - {x}"
  proof
    fix y assume "y \<in> {y \<in> set xs. y < x}"
    then have y: "y \<in> set (take n xs) \<union> set (drop n xs)" "y < x" by (auto simp flip: set_append)
    have "sorted_wrt (<) (take n xs @ drop n xs)" using assms(1) by simp
    then have "\<forall>z \<in> set (drop n xs). x < z" using assms(2) unfolding sorted_wrt_append by blast
    with y show "y \<in> set (take n xs) - {x}" by auto
  qed
  then have "card {y \<in> set xs. y < x} \<le> card (set (take n xs) - {x})" by (intro card_mono) auto
  also have "\<dots> < card (set (take n xs))" using assms(2) by (intro psubset_card_mono) auto
  also have "\<dots> \<le> n" using card_length[of "take n xs"] by simp
  finally show ?thesis .
qed

section \<open>What a drain does to the jobs\<close>

text \<open>One attempt, by its outcome.\<close>

definition attempt :: "(int \<Rightarrow> str option) \<Rightarrow> orbit_job \<Rightarrow> orbit_job" where
  "attempt oc j = (case oc (j_id j) of None \<Rightarrow> job_done j | Some e \<Rightarrow> job_failed e j)"

definition drained :: "orbit_job list \<Rightarrow> (int \<Rightarrow> str option) \<Rightarrow> orbit_job list \<Rightarrow> orbit_job list" where
  "drained sel oc jobs = map (\<lambda>j. if j_id j \<in> j_id ` set sel then attempt oc j else j) jobs"

lemma attempt_id [simp]: "j_id (attempt oc j) = j_id j" "j_kernel (attempt oc j) = j_kernel j" "j_crossing (attempt oc j) = j_crossing j"
  "j_attempts (attempt oc j) = j_attempts j + 1"
  by (simp_all add: attempt_def job_done_def job_failed_def split: option.split)

lemma attempt_upd: "attempt (oc(i := x)) j = (if j_id j = i then attempt (\<lambda>_. x) j else attempt oc j)"
  by (simp add: attempt_def)

lemma run_job_jobs:
  assumes "run_job X now r (dn, fl, rep, t) = (dn', fl', rep', t')"
  shows "\<exists>oc. orbit_jobs (txn_db t') = drained [r] (\<lambda>_. oc) (orbit_jobs (txn_db t)) \<and>
    dn' = (if oc = None then dn + 1 else dn) \<and> fl' = (if oc = None then fl else fl + 1)"
  using assms unfolding run_job_def
  by (auto simp: set_jobs_def update_job_def drained_def attempt_def put_door_def split: sum.splits
      intro: exI[of _ None] exI[of _ "Some e" for e])

lemma fold_run_job:
  assumes "distinct (map j_id sel)" "fold (run_job X now) sel (dn, fl, rep, t) = (dn', fl', rep', t')"
  shows "\<exists>oc. orbit_jobs (txn_db t') = drained sel oc (orbit_jobs (txn_db t)) \<and>
    dn' = dn + int (length (filter (\<lambda>j. oc (j_id j) = None) sel)) \<and> fl' = fl + int (length (filter (\<lambda>j. oc (j_id j) \<noteq> None) sel))"
  using assms
proof (induction sel arbitrary: dn fl rep t)
  case Nil
  then show ?case by (simp add: drained_def)
next
  case (Cons r sel)
  obtain dn1 fl1 rep1 t1 where one: "run_job X now r (dn, fl, rep, t) = (dn1, fl1, rep1, t1)" by (metis prod_cases4)
  from run_job_jobs[OF one] obtain o1 where o1: "orbit_jobs (txn_db t1) = drained [r] (\<lambda>_. o1) (orbit_jobs (txn_db t))"
    "dn1 = (if o1 = None then dn + 1 else dn)" "fl1 = (if o1 = None then fl else fl + 1)" by blast
  from Cons.IH[of dn1 fl1 rep1 t1] Cons.prems one obtain oc where oc: "orbit_jobs (txn_db t') = drained sel oc (orbit_jobs (txn_db t1))"
    "dn' = dn1 + int (length (filter (\<lambda>j. oc (j_id j) = None) sel))" "fl' = fl1 + int (length (filter (\<lambda>j. oc (j_id j) \<noteq> None) sel))" by auto
  let ?oc = "oc(j_id r := o1)"
  have nin: "j_id r \<notin> j_id ` set sel" using Cons.prems(1) by simp
  then have same: "filter (\<lambda>j. P (?oc (j_id j))) sel = filter (\<lambda>j. P (oc (j_id j))) sel" for P
    by (intro filter_cong) (auto simp: image_iff)
  have "orbit_jobs (txn_db t') = drained (r # sel) ?oc (orbit_jobs (txn_db t))"
    unfolding oc(1) o1(1) using nin by (auto simp: drained_def attempt_upd)
  moreover have "dn' = dn + int (length (filter (\<lambda>j. ?oc (j_id j) = None) (r # sel)))"
    using oc(2) o1(2) same[of "\<lambda>x. x = None"] by simp
  moreover have "fl' = fl + int (length (filter (\<lambda>j. ?oc (j_id j) \<noteq> None) (r # sel)))"
    using oc(3) o1(3) same[of "\<lambda>x. x \<noteq> None"] by simp
  ultimately show ?case by blast
qed

abbreviation selected :: "(int \<Rightarrow> bool) \<Rightarrow> nat \<Rightarrow> orbit_job list \<Rightarrow> orbit_job list" where
  "selected locked n jobs \<equiv> filter (\<lambda>j. \<not> locked (j_id j)) (next_jobs n jobs)"

lemma orbit_drain_jobs:
  assumes "distinct (map j_id (orbit_jobs (txn_db t)))" "orbit_drain X now locked n t = (out, t')"
  obtains oc where "orbit_jobs (txn_db t') = drained (selected locked n (orbit_jobs (txn_db t))) oc (orbit_jobs (txn_db t))"
    "json_get out (lit ''done'') = Some (JNumber (JInt (int (length (filter (\<lambda>j. oc (j_id j) = None) (selected locked n (orbit_jobs (txn_db t))))))))"
    "json_get out (lit ''failed'') = Some (JNumber (JInt (int (length (filter (\<lambda>j. oc (j_id j) \<noteq> None) (selected locked n (orbit_jobs (txn_db t))))))))"
proof -
  let ?jobs = "orbit_jobs (txn_db t)"
  let ?sel = "selected locked n ?jobs"
  obtain dn fl rep t1 where f: "fold (run_job X now) ?sel (0, 0, [], t) = (dn, fl, rep, t1)" by (metis prod_cases4)
  have sub: "set ?sel \<subseteq> set ?jobs" using next_jobs_facts(1)[of n ?jobs] by auto
  have dk: "distinct (map j_kernel ?sel)" using next_jobs_facts(3)[of n ?jobs] by (simp add: distinct_map_filter)
  have "inj_on j_id (set ?sel)" using assms(1) sub unfolding distinct_map by (blast intro: inj_on_subset)
  then have "distinct (map j_id ?sel)" using dk unfolding distinct_map by blast
  from fold_run_job[OF this f] obtain oc where oc: "orbit_jobs (txn_db t1) = drained ?sel oc ?jobs"
    "dn = int (length (filter (\<lambda>j. oc (j_id j) = None) ?sel))" "fl = int (length (filter (\<lambda>j. oc (j_id j) \<noteq> None) ?sel))" by auto
  have out: "t' = t1" "json_get out (lit ''done'') = Some (JNumber (JInt dn))" "json_get out (lit ''failed'') = Some (JNumber (JInt fl))"
    using assms(2) f by (auto simp: orbit_drain_def json_get_obj)
  show ?thesis using that[of oc] oc out by blast
qed

text \<open>A drain is bounded and takes one job per kernel. \<^verbatim>\<open>orbit_drain(n)\<close> attempts at most
  \<open>max n 1\<close> jobs, all of them queued, no two of one kernel, each the earliest queued crossing of
  its kernel; every attempted job is then done, or has one more attempt and is parked as
  failed from the fifth on; all other jobs are left as they were, and the reply counts the
  two outcomes.\<close>

theorem orbit_drain_bounded:
  assumes "distinct (map j_id (orbit_jobs (txn_db t)))" "orbit_drain X now locked n t = (out, t')"
  shows "\<exists>sel oc. length sel \<le> max n 1 \<and> distinct (map j_kernel sel) \<and> set sel \<subseteq> set (queued (orbit_jobs (txn_db t))) \<and>
    list_all (\<lambda>j. list_all (\<lambda>i. j_kernel i = j_kernel j \<longrightarrow> j_crossing j \<le> j_crossing i) (queued (orbit_jobs (txn_db t)))) sel \<and>
    orbit_jobs (txn_db t') = drained sel oc (orbit_jobs (txn_db t)) \<and>
    json_get out (lit ''done'') = Some (JNumber (JInt (int (length (filter (\<lambda>j. oc (j_id j) = None) sel))))) \<and>
    json_get out (lit ''failed'') = Some (JNumber (JInt (int (length (filter (\<lambda>j. oc (j_id j) \<noteq> None) sel)))))"
proof -
  let ?jobs = "orbit_jobs (txn_db t)"
  let ?sel = "selected locked n ?jobs"
  have "length ?sel \<le> max n 1" using next_jobs_facts(2)[of n ?jobs] length_filter_le[of "\<lambda>j. \<not> locked (j_id j)" "next_jobs n ?jobs"] by linarith
  moreover have "list_all (\<lambda>j. list_all (\<lambda>i. j_kernel i = j_kernel j \<longrightarrow> j_crossing j \<le> j_crossing i) (queued ?jobs)) ?sel"
    using next_jobs_facts(4)[of _ n ?jobs] by (auto simp: list_all_iff)
  moreover have "set ?sel \<subseteq> set (queued ?jobs)" using next_jobs_facts(1)[of n ?jobs] by auto
  moreover have "distinct (map j_kernel ?sel)" using next_jobs_facts(3)[of n ?jobs] by (simp add: distinct_map_filter)
  moreover obtain oc where "orbit_jobs (txn_db t') = drained ?sel oc ?jobs"
    "json_get out (lit ''done'') = Some (JNumber (JInt (int (length (filter (\<lambda>j. oc (j_id j) = None) ?sel)))))"
    "json_get out (lit ''failed'') = Some (JNumber (JInt (int (length (filter (\<lambda>j. oc (j_id j) \<noteq> None) ?sel)))))"
    using orbit_drain_jobs[OF assms] .
  ultimately show ?thesis by blast
qed

section \<open>The queue as an invariant\<close>

text \<open>Identifiers come from the sequence, \<^verbatim>\<open>UNIQUE (kernel, crossing_at)\<close> holds, and a job is tried
  five times at most: a queued one has an attempt left.\<close>

definition jobs_wf :: "orbit_job list \<Rightarrow> int \<Rightarrow> bool" where
  "jobs_wf jobs nxt \<longleftrightarrow> distinct (map j_id jobs) \<and> distinct (map (\<lambda>j. (j_kernel j, j_crossing j)) jobs) \<and>
     list_all (\<lambda>j. j_id j < nxt \<and> 0 \<le> j_attempts j \<and> j_attempts j \<le> 5 \<and> (j_state j = Queued \<longrightarrow> j_attempts j < 5)) jobs"

lemma add_job_wf:
  assumes "jobs_wf jobs nxt" "add_job c (n, jobs, nxt) = (n', jobs', nxt')"
  shows "jobs_wf jobs' nxt' \<and> (\<exists>new. jobs' = jobs @ new) \<and> nxt \<le> nxt'"
  using assms by (cases c) (force simp: add_job_def jobs_wf_def list_all_iff list_ex_iff split: if_splits)

lemma fold_add_job_wf:
  "jobs_wf jobs nxt \<Longrightarrow> fold add_job cs (n, jobs, nxt) = (n', jobs', nxt') \<Longrightarrow> jobs_wf jobs' nxt' \<and> (\<exists>new. jobs' = jobs @ new) \<and> nxt \<le> nxt'"
proof (induction cs arbitrary: n jobs nxt)
  case (Cons c cs)
  obtain n1 j1 x1 where a: "add_job c (n, jobs, nxt) = (n1, j1, x1)" by (metis prod_cases3)
  from add_job_wf[OF Cons.prems(1) a] Cons.IH[of j1 x1 n1] Cons.prems(2) a show ?case by fastforce
qed auto

lemma drained_wf:
  assumes "jobs_wf jobs nxt" "set sel \<subseteq> set (queued jobs)"
  shows "jobs_wf (drained sel oc jobs) nxt"
proof -
  have ids: "map j_id (drained sel oc jobs) = map j_id jobs"
    "map (\<lambda>j. (j_kernel j, j_crossing j)) (drained sel oc jobs) = map (\<lambda>j. (j_kernel j, j_crossing j)) jobs"
    by (simp_all add: drained_def)
  have q: "j_state j = Queued" if "j \<in> set jobs" "j_id j \<in> j_id ` set sel" for j
    using that assms by (auto simp: jobs_wf_def distinct_map inj_on_def)
  have "list_all (\<lambda>j. j_id j < nxt \<and> 0 \<le> j_attempts j \<and> j_attempts j \<le> 5 \<and> (j_state j = Queued \<longrightarrow> j_attempts j < 5)) (drained sel oc jobs)"
    using assms(1) q by (auto simp: list_all_iff drained_def attempt_def job_done_def job_failed_def jobs_wf_def split: option.splits if_splits)
  with assms(1) ids show ?thesis by (simp add: jobs_wf_def)
qed

lemma jobs_wf_ids: "jobs_wf jobs nxt \<Longrightarrow> distinct (map j_id jobs)"
  by (simp add: jobs_wf_def)

lemma run_job_sequence: "run_job X now r (dn, fl, rep, t) = (dn', fl', rep', t') \<Longrightarrow> s_orbit (txn_db t') = s_orbit (txn_db t)"
  by (auto simp: run_job_def set_jobs_def put_door_def split: sum.splits)

lemma orbit_drain_sequence: "orbit_drain X now locked n t = (out, t') \<Longrightarrow> s_orbit (txn_db t') = s_orbit (txn_db t)"
proof -
  have "fold (run_job X now) sel (dn, fl, rep, t) = (dn', fl', rep', t') \<Longrightarrow> s_orbit (txn_db t') = s_orbit (txn_db t)"
    for sel dn fl rep t dn' fl' rep' and t' :: "'a orbit_db txn"
  proof (induction sel arbitrary: dn fl rep t)
    case (Cons r sel)
    obtain dn1 fl1 rep1 t1 where one: "run_job X now r (dn, fl, rep, t) = (dn1, fl1, rep1, t1)" by (metis prod_cases4)
    with Cons run_job_sequence[OF one] show ?case by simp
  qed simp
  then show "orbit_drain X now locked n t = (out, t') \<Longrightarrow> s_orbit (txn_db t') = s_orbit (txn_db t)"
    by (fastforce simp: orbit_drain_def split: prod.splits)
qed

lemma orbit_drain_wf:
  assumes "jobs_wf (orbit_jobs (txn_db t)) (s_orbit (txn_db t))" "orbit_drain X now locked n t = (out, t')"
  shows "jobs_wf (orbit_jobs (txn_db t')) (s_orbit (txn_db t'))"
proof -
  let ?jobs = "orbit_jobs (txn_db t)"
  obtain oc where "orbit_jobs (txn_db t') = drained (selected locked n ?jobs) oc ?jobs"
    using orbit_drain_jobs[OF jobs_wf_ids[OF assms(1)] assms(2)] .
  moreover have "set (selected locked n ?jobs) \<subseteq> set (queued ?jobs)" using next_jobs_facts(1)[of n ?jobs] by auto
  ultimately show ?thesis using drained_wf[OF assms(1)] orbit_drain_sequence[OF assms(2)] by simp
qed

lemma orbit_enqueue_ok:
  assumes "orbit_enqueue X now t = Inr (n, t')"
  obtains ls jobs nxt where "orbit_laws X (t_instances (ckp (door (txn_db t)))) = Inr ls"
    "fold add_job (List.map_filter (crossing_due now) ls) (0, orbit_jobs (txn_db t), s_orbit (txn_db t)) = (n, jobs, nxt)"
    "t' = t\<lparr>txn_db := (txn_db t)\<lparr>orbit_jobs := jobs, s_orbit := nxt\<rparr>\<rparr>"
proof -
  obtain ls where ls: "orbit_laws X (t_instances (ckp (door (txn_db t)))) = Inr ls" using assms by (auto simp: orbit_enqueue_def ok_iff)
  obtain m jobs nxt where f: "fold add_job (List.map_filter (crossing_due now) ls) (0, orbit_jobs (txn_db t), s_orbit (txn_db t)) = (m, jobs, nxt)"
    by (metis prod_cases3)
  show ?thesis using assms ls f by (intro that[OF ls, of jobs nxt]) (simp_all add: orbit_enqueue_def)
qed

lemma orbit_enqueue_wf:
  assumes "jobs_wf (orbit_jobs (txn_db t)) (s_orbit (txn_db t))" "orbit_enqueue X now t = Inr (n, t')"
  shows "jobs_wf (orbit_jobs (txn_db t')) (s_orbit (txn_db t'))"
  using assms(2)
proof (rule orbit_enqueue_ok)
  fix ls jobs nxt
  assume "fold add_job (List.map_filter (crossing_due now) ls) (0, orbit_jobs (txn_db t), s_orbit (txn_db t)) = (n, jobs, nxt)"
    "t' = t\<lparr>txn_db := (txn_db t)\<lparr>orbit_jobs := jobs, s_orbit := nxt\<rparr>\<rparr>"
  with fold_add_job_wf[OF assms(1)] show ?thesis by simp
qed

lemma orbit_enqueue_door: "orbit_enqueue X now t = Inr (n, t') \<Longrightarrow> door_txn t' = door_txn t"
  by (erule orbit_enqueue_ok) (simp add: door_txn_def)

lemma orbit_enqueue_total:
  "orbit_laws X (t_instances (ckp (door (txn_db t)))) = Inr ls \<Longrightarrow> \<exists>n t'. orbit_enqueue X now t = Inr (n, t')"
  by (auto simp: orbit_enqueue_def split: prod.split)

text \<open>A tick returns whenever the sealed laws can be read, whatever its jobs do.\<close>

lemma orbit_tick_total:
  assumes "orbit_laws X (t_instances (ckp (door (txn_db t)))) = Inr ls"
  shows "\<exists>out t'. orbit_tick X now locked t = Inr (out, t')"
proof -
  let ?t1 = "if guc_trimmed (eff (door_txn t)) ''ckp.requester'' = None then set_local ''ckp.requester'' (lit ''svc:orbit-tick'') t else t"
  have "txn_db ?t1 = txn_db t" by (simp add: set_local_def)
  with assms have "orbit_laws X (t_instances (ckp (door (txn_db ?t1)))) = Inr ls" by simp
  from orbit_enqueue_total[OF this] obtain q t2 where "orbit_enqueue X now ?t1 = Inr (q, t2)" by blast
  then show ?thesis by (simp add: orbit_tick_def Let_def split: prod.split)
qed

section \<open>A concrete queue\<close>

definition demo_orbit :: "unit orbit_env" where
  "demo_orbit = \<lparr>denv = demo_door, ts_in = (\<lambda>_. Inr 0), law_in = (\<lambda>_. Inr (None, JNull)), score_of = (\<lambda>_ _. Inr (JInt 1)),
     reaches = (\<lambda>_ _. False), md5_hex = (\<lambda>x. x), clock = (\<lambda>now job n. now + int n), source_watermark = (\<lambda>_ _. Inr 0),
     epsilon_materialize = (\<lambda>c sc f e db. Inr (c, ()))\<rparr>"

definition demo_job :: "int \<Rightarrow> string \<Rightarrow> orbit_job" where
  "demo_job i k = \<lparr>j_id = i, j_kernel = lit k, j_crossing = 0, j_state = Queued, j_attempts = 0, j_error = None\<rparr>"

text \<open>The sealed law of a kernel that crosses every second from the origin.\<close>

definition demo_law :: instance_row where
  "demo_law = \<lparr>i_id = lit ''k1'', i_body = json_obj [(lit ''type'', JString (core ''Kernel'')), (lit ''@id'', JString (lit ''urn:ckp:acme/kernel'')),
     (core ''orbitPeriodSeconds'', JString (lit ''1'')), (core ''orbitAnchor'', JString (lit ''0''))], i_created = 0, i_updated = 0\<rparr>"

definition demo_orbit_txn :: "orbit_job list \<Rightarrow> unit orbit_db txn" where
  "demo_orbit_txn jobs = \<lparr>txn_db = \<lparr>door = (txn_db demo_door_txn)\<lparr>ckp := (ckp (txn_db demo_door_txn))\<lparr>t_instances := [demo_law]\<rparr>\<rparr>,
     orbit_jobs = jobs, s_orbit = 10, mat_jobs = [], phenotypes = []\<rparr>, settings = demo_session\<rparr>"

lemma demo_orbit_txn_simps [simp]:
  "orbit_jobs (txn_db (demo_orbit_txn jobs)) = jobs" "s_orbit (txn_db (demo_orbit_txn jobs)) = 10"
  "t_instances (ckp (door (txn_db (demo_orbit_txn jobs)))) = [demo_law]" "settings (demo_orbit_txn jobs) = demo_session"
  by (simp_all add: demo_orbit_txn_def)

lemma demo_laws: "orbit_laws demo_orbit [demo_law] = Inr [\<lparr>ol_kernel = Some (lit ''acme''), ol_period = 1, ol_anchor = 0\<rparr>]"
proof -
  have "between (lit ''urn:ckp:'') (lit ''/kernel'') (lit ''urn:ckp:acme/kernel'') = lit ''acme''"
    using between_match[of "lit ''urn:ckp:''" "lit ''/kernel''" "lit ''acme''"] by (simp add: lit_def)
  then have "kernel_segment (lit ''urn:ckp:acme/kernel'') = Some (lit ''acme'')"
    by (simp add: kernel_segment_def kernel_iri_def lit_def urn_char_def ascii_lower_digit_def)
  then show ?thesis
    by (simp add: demo_law_def demo_orbit_def demo_door_def demo_ckp_def get_text_def text_of_def json_get_obj Let_def)
qed

lemma demo_enqueue:
  "\<exists>t'. orbit_enqueue demo_orbit 2500000 (demo_orbit_txn []) = Inr (1, t') \<and>
     orbit_jobs (txn_db t') = [\<lparr>j_id = 10, j_kernel = lit ''acme'', j_crossing = 2000000, j_state = Queued, j_attempts = 0, j_error = None\<rparr>]"
  by (simp add: orbit_enqueue_def demo_laws map_filter_simps crossing_due_def last_crossing_def SECOND_def add_job_def del: orbit_laws.simps)

definition demo_queue :: "orbit_job list" where
  "demo_queue = [demo_job 2 ''b'', demo_job 1 ''a'']"

lemma demo_queue_wf: "jobs_wf demo_queue 10" "distinct (map j_id demo_queue)"
  by (simp_all add: demo_queue_def demo_job_def jobs_wf_def lit_def)

theorem orbit_drain_bounded_witness:
  "\<exists>out t' sel oc. orbit_drain demo_orbit 7 (\<lambda>_. False) 1 (demo_orbit_txn demo_queue) = (out, t') \<and> length sel \<le> 1 \<and>
     set sel \<subseteq> set (queued demo_queue) \<and> orbit_jobs (txn_db t') = drained sel oc demo_queue"
proof -
  obtain out t' where d: "orbit_drain demo_orbit 7 (\<lambda>_. False) 1 (demo_orbit_txn demo_queue) = (out, t')" by (metis surj_pair)
  from orbit_drain_bounded[OF _ d] demo_queue_wf(2) d show ?thesis by fastforce
qed

section \<open>The invariant\<close>

text \<open>What the database does between two calls of the worker, as far as the queue is concerned:
  a tick, or other transactions that leave \<^verbatim>\<open>ckp.orbit_job\<close> alone.\<close>

inductive orbit_step :: "'g orbit_env \<Rightarrow> 'g orbit_db txn \<Rightarrow> 'g orbit_db txn \<Rightarrow> bool" for X where
  tick: "orbit_tick X now locked t = Inr (out, t') \<Longrightarrow> orbit_step X t t'"
| other: "orbit_jobs (txn_db t') = orbit_jobs (txn_db t) \<Longrightarrow> s_orbit (txn_db t) \<le> s_orbit (txn_db t') \<Longrightarrow> orbit_step X t t'"

lemma jobs_wf_mono: "jobs_wf jobs n \<Longrightarrow> n \<le> m \<Longrightarrow> jobs_wf jobs m"
  by (fastforce simp: jobs_wf_def list_all_iff)

lemma orbit_tick_parts:
  assumes "orbit_tick X now locked t = Inr (out, t')"
  obtains q t1 t2 d t3 where "txn_db t1 = txn_db t" "\<And>k. k \<noteq> lit ''ckp.requester'' \<Longrightarrow> settings t1 k = settings t k"
    "orbit_enqueue X now t1 = Inr (q, t2)" "orbit_drain X now locked 4 t2 = (d, t3)" "txn_db t' = txn_db t3"
    "out = jsonb_concat (json_obj [(lit ''enqueued'', JNumber (JInt q))]) d"
proof -
  let ?t1 = "if guc_trimmed (eff (door_txn t)) ''ckp.requester'' = None then set_local ''ckp.requester'' (lit ''svc:orbit-tick'') t else t"
  obtain q t2 where e: "orbit_enqueue X now ?t1 = Inr (q, t2)"
    using assms unfolding orbit_tick_def by (auto simp: ok_iff Let_def)
  obtain d t3 where d: "orbit_drain X now locked 4 t2 = (d, t3)" by (metis surj_pair)
  have r: "out = jsonb_concat (json_obj [(lit ''enqueued'', JNumber (JInt q))]) d" "txn_db t' = txn_db t3"
    using assms e d by (auto simp: orbit_tick_def Let_def set_local_def)
  show ?thesis by (rule that[OF _ _ e d r(2) r(1)]) (simp_all add: set_local_def)
qed

lemma orbit_step_wf:
  "orbit_step X t t' \<Longrightarrow> jobs_wf (orbit_jobs (txn_db t)) (s_orbit (txn_db t)) \<Longrightarrow> jobs_wf (orbit_jobs (txn_db t')) (s_orbit (txn_db t'))"
proof (induction rule: orbit_step.induct)
  case (tick now locked t out t')
  from tick(1) show ?case
  proof (rule orbit_tick_parts)
    fix q t1 t2 d t3
    assume "txn_db t1 = txn_db t"
      "orbit_enqueue X now t1 = Inr (q, t2)" "orbit_drain X now locked 4 t2 = (d, t3)" "txn_db t' = txn_db t3"
    with tick(2) orbit_enqueue_wf[of t1 X now q t2] orbit_drain_wf[of t2 X now locked 4 d t3] show ?thesis by simp
  qed
next
  case (other t' t)
  then show ?case using jobs_wf_mono by metis
qed

text \<open>The queue is well formed at every moment. From an empty queue, through any sequence of
  ticks and other transactions, no two jobs share an identifier or a crossing of a kernel, no
  job is attempted more than five times, and none that has used its five attempts is still
  queued.\<close>

theorem orbit_queue_wf:
  assumes "(orbit_step X)\<^sup>*\<^sup>* t0 t" "orbit_jobs (txn_db t0) = []"
  shows "jobs_wf (orbit_jobs (txn_db t)) (s_orbit (txn_db t))"
  using assms
proof (induction rule: rtranclp_induct)
  case base
  then show ?case by (simp add: jobs_wf_def)
qed (blast intro: orbit_step_wf)

theorem orbit_queue_wf_witness:
  "\<exists>out t. orbit_tick demo_orbit 2500000 (\<lambda>_. False) (demo_orbit_txn []) = Inr (out, t) \<and> jobs_wf (orbit_jobs (txn_db t)) (s_orbit (txn_db t)) \<and>
     orbit_jobs (txn_db t) \<noteq> []"
proof -
  obtain q t2 where e: "orbit_enqueue demo_orbit 2500000 (demo_orbit_txn []) = Inr (q, t2)" "orbit_jobs (txn_db t2) \<noteq> []" "distinct (map j_id (orbit_jobs (txn_db t2)))"
    using demo_enqueue by auto
  have r: "guc_trimmed (eff (door_txn (demo_orbit_txn []))) ''ckp.requester'' \<noteq> None"
    by (simp add: guc_trimmed_def eff_def door_txn_def demo_session_def coalesce_text_def nullif_empty_def btrim_def lit_def)
  obtain d t3 where d: "orbit_drain demo_orbit 2500000 (\<lambda>_. False) 4 t2 = (d, t3)" by (metis surj_pair)
  obtain oc where "orbit_jobs (txn_db t3) = drained (selected (\<lambda>_. False) 4 (orbit_jobs (txn_db t2))) oc (orbit_jobs (txn_db t2))"
    using orbit_drain_jobs[OF e(3) d] .
  then have ne: "orbit_jobs (txn_db t3) \<noteq> []" using e(2) by (simp add: drained_def)
  obtain out t where o: "orbit_tick demo_orbit 2500000 (\<lambda>_. False) (demo_orbit_txn []) = Inr (out, t)" "txn_db t = txn_db t3"
    using e(1) d r by (simp add: orbit_tick_def Let_def set_local_def)
  have "(orbit_step demo_orbit)\<^sup>*\<^sup>* (demo_orbit_txn []) t" using orbit_step.tick[OF o(1)] by blast
  from orbit_queue_wf[OF this] o ne show ?thesis by simp
qed

section \<open>The queue empties\<close>

definition attempts_left :: "orbit_job \<Rightarrow> nat" where
  "attempts_left j = (if j_state j = Queued then nat (5 - j_attempts j) else 0)"

definition pending :: "orbit_job list \<Rightarrow> nat" where
  "pending jobs = sum_list (map attempts_left jobs)"

lemma pending_le: "jobs_wf jobs nxt \<Longrightarrow> pending jobs \<le> 5 * length jobs"
proof -
  assume "jobs_wf jobs nxt"
  then have "\<forall>j \<in> set jobs. attempts_left j \<le> 5" by (auto simp: jobs_wf_def list_all_iff attempts_left_def)
  then show ?thesis unfolding pending_def by (induction jobs) (auto simp: add_mono)
qed

lemma pending_drained:
  assumes "jobs_wf jobs nxt" "set sel \<subseteq> set (queued jobs)" "sel \<noteq> []"
  shows "pending (drained sel oc jobs) < pending jobs"
proof -
  let ?w = attempts_left
  let ?f = "\<lambda>j. if j_id j \<in> j_id ` set sel then attempt oc j else j"
  have at: "?w (attempt oc j) < ?w j" if "j \<in> set jobs" "j_id j \<in> j_id ` set sel" for j
  proof -
    have "j_state j = Queued" using that assms by (auto simp: jobs_wf_def distinct_map inj_on_def)
    moreover have "j_attempts j < 5" using calculation that(1) assms(1) by (auto simp: jobs_wf_def list_all_iff)
    ultimately show ?thesis by (auto simp: attempts_left_def attempt_def job_done_def job_failed_def split: option.split)
  qed
  then have le: "\<forall>j \<in> set jobs. ?w (?f j) \<le> ?w j" by (auto intro: less_imp_le)
  obtain j where j: "j \<in> set jobs" "j_id j \<in> j_id ` set sel" using assms(2,3) by (cases sel) auto
  obtain as bs where jobs: "jobs = as @ j # bs" using split_list[OF j(1)] by blast
  have part: "sum_list (map (?w \<circ> ?f) xs) \<le> sum_list (map ?w xs)" if "set xs \<subseteq> set jobs" for xs
    unfolding comp_def using that le by (intro sum_list_mono) blast
  have "?w (attempt oc j) < ?w j" using at[OF j] .
  moreover have "sum_list (map (?w \<circ> ?f) as) \<le> sum_list (map ?w as)" "sum_list (map (?w \<circ> ?f) bs) \<le> sum_list (map ?w bs)"
    using part jobs by auto
  ultimately show ?thesis using j(2) unfolding pending_def drained_def jobs by simp
qed

text \<open>Drains in a row, each with its time, the rows that other sessions hold locked, and its size; \<open>unlocked\<close>
  says that a drain meets no locked job.\<close>

fun drains :: "'g orbit_env \<Rightarrow> (int \<times> (int \<Rightarrow> bool) \<times> nat) list \<Rightarrow> 'g orbit_db txn \<Rightarrow> 'g orbit_db txn" where
  "drains X [] t = t"
| "drains X ((now, locked, n) # rest) t = drains X rest (snd (orbit_drain X now locked n t))"

definition unlocked :: "int list \<Rightarrow> int \<times> (int \<Rightarrow> bool) \<times> nat \<Rightarrow> bool" where
  "unlocked ids ev = (case ev of (now, locked, n) \<Rightarrow> list_all (\<lambda>i. \<not> locked i) ids)"

lemma selected_nonempty: "queued jobs \<noteq> [] \<Longrightarrow> next_jobs n jobs \<noteq> []"
proof -
  assume "queued jobs \<noteq> []"
  then have "ordered_jobs jobs \<noteq> []" by (metis length_0_conv length_sort)
  then have "distinct_on j_kernel [] (ordered_jobs jobs) \<noteq> []" by (cases "ordered_jobs jobs") auto
  then show ?thesis by (simp add: next_jobs_def)
qed

lemma pending_zero: "jobs_wf jobs nxt \<Longrightarrow> pending jobs = 0 \<Longrightarrow> queued jobs = []"
proof -
  assume wf: "jobs_wf jobs nxt" and "pending jobs = 0"
  then have z: "\<forall>j \<in> set jobs. attempts_left j = 0" by (simp add: pending_def)
  have "j_state j \<noteq> Queued" if "j \<in> set jobs" for j
    using bspec[OF z that] wf that by (auto simp: attempts_left_def jobs_wf_def list_all_iff)
  then show ?thesis by (simp add: filter_empty_conv)
qed

lemma drain_step:
  assumes "jobs_wf (orbit_jobs (txn_db t)) (s_orbit (txn_db t))" "orbit_drain X now locked n t = (out, t')"
  shows "jobs_wf (orbit_jobs (txn_db t')) (s_orbit (txn_db t'))" "pending (orbit_jobs (txn_db t')) \<le> pending (orbit_jobs (txn_db t))"
    "unlocked (map j_id (orbit_jobs (txn_db t))) (now, locked, n) \<Longrightarrow> pending (orbit_jobs (txn_db t')) \<le> pending (orbit_jobs (txn_db t)) - 1"
    "map j_id (orbit_jobs (txn_db t')) = map j_id (orbit_jobs (txn_db t))"
proof -
  let ?jobs = "orbit_jobs (txn_db t)" let ?sel = "selected locked n (orbit_jobs (txn_db t))"
  show wf: "jobs_wf (orbit_jobs (txn_db t')) (s_orbit (txn_db t'))" using orbit_drain_wf[OF assms] .
  obtain oc where oc: "orbit_jobs (txn_db t') = drained ?sel oc ?jobs"
    using orbit_drain_jobs[OF jobs_wf_ids[OF assms(1)] assms(2)] by auto
  show "map j_id (orbit_jobs (txn_db t')) = map j_id ?jobs" unfolding oc by (simp add: drained_def)
  have nj: "set (next_jobs n ?jobs) \<subseteq> set (queued ?jobs)" by (rule next_jobs_facts)
  then have sub: "set ?sel \<subseteq> set (queued ?jobs)" by auto
  have less: "pending (orbit_jobs (txn_db t')) < pending ?jobs" if "?sel \<noteq> []"
    using pending_drained[OF assms(1) sub that, of oc] unfolding oc .
  show "pending (orbit_jobs (txn_db t')) \<le> pending ?jobs"
    using less unfolding oc by (cases "?sel = []") (auto simp: drained_def)
  show "pending (orbit_jobs (txn_db t')) \<le> pending ?jobs - 1" if "unlocked (map j_id ?jobs) (now, locked, n)"
  proof (cases "?sel = []")
    case True
    have "?sel = next_jobs n ?jobs" using that nj by (auto simp: unlocked_def list_all_iff filter_id_conv)
    with True have "queued ?jobs = []" using selected_nonempty by metis
    then have "\<forall>j \<in> set ?jobs. attempts_left j = 0" by (auto simp: filter_empty_conv attempts_left_def)
    then have "pending ?jobs = 0" by (simp add: pending_def)
    with True show ?thesis unfolding oc by (simp add: drained_def)
  next
    case False
    from less[OF this] show ?thesis by simp
  qed
qed

lemma drains_pending:
  "jobs_wf (orbit_jobs (txn_db t)) (s_orbit (txn_db t)) \<Longrightarrow>
     jobs_wf (orbit_jobs (txn_db (drains X evs t))) (s_orbit (txn_db (drains X evs t))) \<and>
     pending (orbit_jobs (txn_db (drains X evs t))) \<le> pending (orbit_jobs (txn_db t)) - length (filter (unlocked (map j_id (orbit_jobs (txn_db t)))) evs) \<and>
     map j_id (orbit_jobs (txn_db (drains X evs t))) = map j_id (orbit_jobs (txn_db t))"
proof (induction X evs t rule: drains.induct)
  case (2 X now locked n rest t)
  obtain out t1 where d: "orbit_drain X now locked n t = (out, t1)" by (metis surj_pair)
  note s = drain_step[OF 2(2) d]
  from 2(1) s(1,4) d show ?case
    using s(2,3) by (cases "unlocked (map j_id (orbit_jobs (txn_db t))) (now, locked, n)") fastforce+
qed simp

text \<open>C31: the queue empties. Nothing is re-selected for ever: on a queue of \<open>m\<close> jobs, drains of any size of
  which \<open>5 * m\<close> meet no locked job leave no job queued, whatever the score ticks do and whatever drains with locked
  rows come between, and every job is still there, done or parked as failed.\<close>

theorem orbit_queue_settles:
  assumes "jobs_wf (orbit_jobs (txn_db t)) (s_orbit (txn_db t))"
    "5 * length (orbit_jobs (txn_db t)) \<le> length (filter (unlocked (map j_id (orbit_jobs (txn_db t)))) evs)"
  shows "map j_id (orbit_jobs (txn_db (drains X evs t))) = map j_id (orbit_jobs (txn_db t)) \<and>
    list_all (\<lambda>j. j_state j \<in> {Done, Failed}) (orbit_jobs (txn_db (drains X evs t)))"
proof -
  let ?j = "orbit_jobs (txn_db (drains X evs t))"
  note d = drains_pending[OF assms(1), of X evs]
  then have "pending ?j = 0" using pending_le[OF assms(1)] assms(2) by simp
  with d pending_zero have "queued ?j = []" by blast
  then have "list_all (\<lambda>j. j_state j \<in> {Done, Failed}) ?j"
    using job_state.exhaust by (auto simp: filter_empty_conv list_all_iff)
  with d show ?thesis by blast
qed

theorem orbit_queue_settles_witness:
  "list_all (\<lambda>j. j_state j \<in> {Done, Failed}) (orbit_jobs (txn_db (drains demo_orbit ((7, (\<lambda>_. True), 1) # replicate 10 (7, (\<lambda>_. False), 1)) (demo_orbit_txn demo_queue))))"
  using orbit_queue_settles[of "demo_orbit_txn demo_queue" "(7, (\<lambda>_. True), 1) # replicate 10 (7, (\<lambda>_. False), 1)" demo_orbit] demo_queue_wf
  by (simp add: demo_queue_def unlocked_def filter_replicate)

section \<open>Who is served\<close>

lemma filter_map_fixed:
  "(\<And>x. x \<in> set xs \<Longrightarrow> P (f x) = P x) \<Longrightarrow> (\<And>x. x \<in> set xs \<Longrightarrow> P x \<Longrightarrow> f x = x) \<Longrightarrow> filter P (map f xs) = filter P xs"
  by (induction xs) simp_all

text \<open>The order of service is the order of the names. A kernel with as many busy kernels
  before it in the order of their names as a drain has places is not served by that drain: all its
  jobs are left as they were. Its wait is not bounded by the number of busy kernels, since the
  ones before it are selected first in every drain they have a queued job for.\<close>

theorem orbit_serves_by_name:
  assumes "distinct (map j_id (orbit_jobs (txn_db t)))" "orbit_drain X now locked n t = (out, t')"
    "max n 1 \<le> card {k \<in> j_kernel ` set (queued (orbit_jobs (txn_db t))). k < kn}"
  shows "filter (\<lambda>j. j_kernel j = kn) (orbit_jobs (txn_db t')) = filter (\<lambda>j. j_kernel j = kn) (orbit_jobs (txn_db t))"
proof -
  let ?jobs = "orbit_jobs (txn_db t)" let ?D = "distinct_on j_kernel [] (ordered_jobs (orbit_jobs (txn_db t)))"
  obtain oc where oc: "orbit_jobs (txn_db t') = drained (selected locked n ?jobs) oc ?jobs"
    using orbit_drain_jobs[OF assms(1,2)] .
  have keys: "set (map j_kernel ?D) = j_kernel ` set (queued ?jobs)" using distinct_on_keys[of j_kernel "[]" "ordered_jobs ?jobs"] by simp
  have "sorted_wrt (<) (map j_kernel ?D)" by (rule distinct_on_sorted) simp
  from strict_take_below[OF this, of kn "max n 1"] assms(3) have "kn \<notin> set (take (max n 1) (map j_kernel ?D))"
    unfolding keys by linarith
  then have no: "kn \<notin> j_kernel ` set (next_jobs n ?jobs)" by (auto simp: next_jobs_def take_map)
  have "j_id j \<notin> j_id ` set (selected locked n ?jobs)" if "j \<in> set ?jobs" "j_kernel j = kn" for j
  proof
    assume "j_id j \<in> j_id ` set (selected locked n ?jobs)"
    then obtain i where i: "j_id j = j_id i" "i \<in> set (next_jobs n ?jobs)" by auto
    then have "i \<in> set ?jobs" using next_jobs_facts(1)[of n ?jobs] by auto
    then have "i = j" using i(1) that(1) assms(1) unfolding distinct_map inj_on_def by metis
    with i(2) that(2) no show False by blast
  qed
  then have "filter (\<lambda>j. j_kernel j = kn) (drained (selected locked n ?jobs) oc ?jobs) = filter (\<lambda>j. j_kernel j = kn) ?jobs"
    unfolding drained_def by (intro filter_map_fixed) simp_all
  then show ?thesis unfolding oc .
qed

theorem orbit_serves_by_name_witness:
  "\<exists>out t'. orbit_drain demo_orbit 7 (\<lambda>_. False) 1 (demo_orbit_txn demo_queue) = (out, t') \<and>
     filter (\<lambda>j. j_kernel j = lit ''b'') (orbit_jobs (txn_db t')) = [demo_job 2 ''b'']"
proof -
  obtain out t' where d: "orbit_drain demo_orbit 7 (\<lambda>_. False) 1 (demo_orbit_txn demo_queue) = (out, t')" by (metis surj_pair)
  have "{k \<in> j_kernel ` set (queued demo_queue). k < lit ''b''} = {lit ''a''}" by (auto simp: demo_queue_def demo_job_def lit_def)
  with orbit_serves_by_name[OF _ d, of "lit ''b''"] demo_queue_wf(2) d show ?thesis
    by (simp add: demo_queue_def demo_job_def lit_def)
qed

section \<open>Crossings\<close>

lemma last_crossing_bounds:
  assumes "0 < ol_period l" "ol_anchor l \<le> now"
  shows "last_crossing now l \<le> now" "now < last_crossing now l + ol_period l * SECOND" "ol_anchor l \<le> last_crossing now l"
    "(ol_period l * SECOND) dvd (last_crossing now l - ol_anchor l)"
proof -
  let ?p = "ol_period l * SECOND" let ?d = "now - ol_anchor l"
  have p: "0 < ?p" using assms(1) by (simp add: SECOND_def)
  have eq: "last_crossing now l = ol_anchor l + (?d div ?p) * ?p" by (simp add: last_crossing_def ac_simps)
  have dm: "?d = (?d div ?p) * ?p + ?d mod ?p" by (rule div_mult_mod_eq[symmetric])
  show "last_crossing now l \<le> now" unfolding eq using dm pos_mod_sign[OF p, of ?d] by linarith
  show "now < last_crossing now l + ?p" unfolding eq using dm pos_mod_bound[OF p, of ?d] by linarith
  show "ol_anchor l \<le> last_crossing now l" unfolding eq using assms p by (simp add: pos_imp_zdiv_nonneg_iff)
  show "?p dvd (last_crossing now l - ol_anchor l)" unfolding eq by simp
qed

lemma add_job_cases:
  "list_ex (\<lambda>j. (j_kernel j, j_crossing j) = c) jobs \<Longrightarrow> add_job c (n, jobs, nxt) = (n, jobs, nxt + 1)"
  "\<not> list_ex (\<lambda>j. (j_kernel j, j_crossing j) = c) jobs \<Longrightarrow> add_job c (n, jobs, nxt) =
     (n + 1, jobs @ [\<lparr>j_id = nxt, j_kernel = fst c, j_crossing = snd c, j_state = Queued, j_attempts = 0, j_error = None\<rparr>], nxt + 1)"
  by (simp_all add: add_job_def)

lemma fold_add_job_covers:
  "fold add_job cs (n, jobs, nxt) = (n', jobs', nxt') \<Longrightarrow>
     set (map (\<lambda>j. (j_kernel j, j_crossing j)) jobs') = set (map (\<lambda>j. (j_kernel j, j_crossing j)) jobs) \<union> set cs \<and>
     (\<exists>new. jobs' = jobs @ new \<and> n' = n + int (length new) \<and> list_all (\<lambda>j. j_state j = Queued \<and> j_attempts j = 0) new)"
proof (induction cs arbitrary: n jobs nxt)
  case (Cons c cs)
  show ?case
  proof (cases "list_ex (\<lambda>j. (j_kernel j, j_crossing j) = c) jobs")
    case True
    then have "c \<in> set (map (\<lambda>j. (j_kernel j, j_crossing j)) jobs)" by (auto simp: list_ex_iff)
    with True Cons show ?thesis by (auto simp: add_job_cases)
  next
    case False
    let ?j = "\<lparr>j_id = nxt, j_kernel = fst c, j_crossing = snd c, j_state = Queued, j_attempts = 0, j_error = None\<rparr>"
    from False Cons.prems have f: "fold add_job cs (n + 1, jobs @ [?j], nxt + 1) = (n', jobs', nxt')" by (simp add: add_job_cases)
    from Cons.IH[OF f] obtain new where new: "jobs' = (jobs @ [?j]) @ new" "n' = n + 1 + int (length new)"
      "list_all (\<lambda>j. j_state j = Queued \<and> j_attempts j = 0) new" by blast
    then have "\<exists>new. jobs' = jobs @ new \<and> n' = n + int (length new) \<and> list_all (\<lambda>j. j_state j = Queued \<and> j_attempts j = 0) new"
      by (intro exI[of _ "?j # new"]) simp
    with Cons.IH[OF f] show ?thesis by auto
  qed
qed simp

lemma fold_add_job_known:
  "set cs \<subseteq> set (map (\<lambda>j. (j_kernel j, j_crossing j)) jobs) \<Longrightarrow> fold add_job cs (n, jobs, nxt) = (n, jobs, nxt + int (length cs))"
proof (induction cs arbitrary: nxt)
  case (Cons c cs)
  then have "list_ex (\<lambda>j. (j_kernel j, j_crossing j) = c) jobs" by (auto simp: list_ex_iff)
  with Cons show ?case by (simp add: add_job_cases)
qed simp

lemma crossing_due_bounds:
  "crossing_due now l = Some (k, at) \<Longrightarrow> ol_kernel l = Some k \<and> ol_anchor l < at \<and> at \<le> now \<and> now < at + ol_period l * SECOND \<and>
     (ol_period l * SECOND) dvd (at - ol_anchor l)"
  using last_crossing_bounds[of l now] by (auto simp: crossing_due_def split: option.splits if_splits)

text \<open>Each crossing is enqueued exactly once. A call of \<^verbatim>\<open>orbit_enqueue\<close> only appends queued,
  unattempted jobs, as many as it reports; each is the latest crossing of some sealed
  orbit law, after the anchor, a whole number of periods from it, and not yet a period old; and
  detecting again at the same moment adds nothing.\<close>

theorem orbit_enqueue_once:
  assumes "orbit_enqueue X now t = Inr (n, t')" "orbit_laws X (t_instances (ckp (door (txn_db t)))) = Inr laws"
  shows "(\<exists>new. orbit_jobs (txn_db t') = orbit_jobs (txn_db t) @ new \<and> n = int (length new) \<and>
      list_all (\<lambda>j. j_state j = Queued \<and> j_attempts j = 0) new) \<and>
    set (map (\<lambda>j. (j_kernel j, j_crossing j)) (orbit_jobs (txn_db t'))) =
      set (map (\<lambda>j. (j_kernel j, j_crossing j)) (orbit_jobs (txn_db t))) \<union> set (List.map_filter (crossing_due now) laws) \<and>
    list_all (\<lambda>l. case crossing_due now l of None \<Rightarrow> True | Some (k, at) \<Rightarrow> ol_kernel l = Some k \<and> ol_anchor l < at \<and> at \<le> now \<and>
      now < at + ol_period l * SECOND \<and> (ol_period l * SECOND) dvd (at - ol_anchor l)) laws \<and>
    (\<exists>t2. orbit_enqueue X now t' = Inr (0, t2) \<and> orbit_jobs (txn_db t2) = orbit_jobs (txn_db t'))"
proof -
  let ?cs = "List.map_filter (crossing_due now) laws"
  obtain m jobs nxt where f: "fold add_job ?cs (0, orbit_jobs (txn_db t), s_orbit (txn_db t)) = (m, jobs, nxt)" by (metis prod_cases3)
  have t': "n = m" "t' = t\<lparr>txn_db := (txn_db t)\<lparr>orbit_jobs := jobs, s_orbit := nxt\<rparr>\<rparr>" using assms f by (simp_all add: orbit_enqueue_def)
  note c = fold_add_job_covers[OF f]
  from c have sub: "set ?cs \<subseteq> set (map (\<lambda>j. (j_kernel j, j_crossing j)) jobs)" by blast
  have "\<exists>t2. orbit_enqueue X now t' = Inr (0, t2) \<and> orbit_jobs (txn_db t2) = orbit_jobs (txn_db t')"
    using assms(2) fold_add_job_known[OF sub, of 0 nxt] unfolding t'(2) by (simp add: orbit_enqueue_def)
  moreover have "list_all (\<lambda>l. case crossing_due now l of None \<Rightarrow> True | Some (k, at) \<Rightarrow> ol_kernel l = Some k \<and> ol_anchor l < at \<and> at \<le> now \<and>
      now < at + ol_period l * SECOND \<and> (ol_period l * SECOND) dvd (at - ol_anchor l)) laws"
    using crossing_due_bounds[of now] by (auto simp: list_all_iff split: option.splits)
  ultimately show ?thesis using c t' by simp
qed

theorem orbit_enqueue_once_witness:
  "\<exists>t'. orbit_enqueue demo_orbit 2500000 (demo_orbit_txn []) = Inr (1, t') \<and> map j_crossing (orbit_jobs (txn_db t')) = [2000000] \<and>
     (\<exists>t2. orbit_enqueue demo_orbit 2500000 t' = Inr (0, t2) \<and> orbit_jobs (txn_db t2) = orbit_jobs (txn_db t'))"
proof -
  obtain t' where e: "orbit_enqueue demo_orbit 2500000 (demo_orbit_txn []) = Inr (1, t')" "map j_crossing (orbit_jobs (txn_db t')) = [2000000]"
    using demo_enqueue by auto
  from orbit_enqueue_once[OF e(1)] demo_laws e show ?thesis by (simp del: orbit_laws.simps)
qed

end
