(* ===== verification/Ckp_Score_Props.thy ===== *)
theory Ckp_Score_Props
  imports Ckp_Orbit_Props
begin

text \<open>
  What a tick may write, under which kernel it writes, and the materialisation queue.
\<close>

section \<open>A tick drafts only\<close>

definition draft_fact :: "json \<Rightarrow> bool" where
  "draft_fact b \<longleftrightarrow>
     json_get b (lit ''type'') \<in> {Some (JString (core ''Run'')), Some (JString (core ''Score''))} \<or>
     json_get b (lit ''type'') = Some (JString (core ''Proposal'')) \<and> json_get b (core ''proposalState'') = Some (JString (lit ''draft''))"

definition only_drafts :: "'g door_db txn \<Rightarrow> 'g door_db txn \<Rightarrow> bool" where
  "only_drafts d d' \<longleftrightarrow> t_kernel_epoch (ckp (txn_db d')) = t_kernel_epoch (ckp (txn_db d)) \<and>
     t_obligations (ckp (txn_db d')) = t_obligations (ckp (txn_db d)) \<and> t_config (ckp (txn_db d')) = t_config (ckp (txn_db d)) \<and>
     session (txn_db d') = session (txn_db d) \<and>
     (\<forall>i \<in> set (t_instances (ckp (txn_db d'))). i \<in> set (t_instances (ckp (txn_db d))) \<or> draft_fact (i_body i))"

lemma only_drafts_refl [simp]: "only_drafts d d"
  by (simp add: only_drafts_def)

lemma only_drafts_trans [trans]: "only_drafts d d1 \<Longrightarrow> only_drafts d1 d2 \<Longrightarrow> only_drafts d d2"
  unfolding only_drafts_def by metis

lemma upsert_mem: "i \<in> set (upsert_instance now p b rows) \<Longrightarrow> i \<in> set rows \<or> i_body i = b"
  by (auto simp: upsert_instance_def split: if_splits)

lemma draft_fact_kept:
  assumes "shape_gate E s p ty proj who b db = Inr (stamps, warn, g)" "json_object_wf j" "is_object j" "draft_fact j"
  shows "draft_fact (final_body E who j stamps)"
  using assms(4) final_body_other[OF assms(1-3), of "lit ''type''"] final_body_other[OF assms(1-3), of "core ''proposalState''"]
  by (simp add: draft_fact_def stamp_keys_def)

lemma seal_drafts:
  assumes "seal_in D now p body d = Inr d'" "json_object_wf body" "draft_fact body"
  shows "only_drafts d d'"
proof -
  obtain sha c where c: "ckp_seal (cenv D) now p body (ckp_txn d) = Inr (sha, c)" and d': "d' = rejoin d c"
    using assms(1) by (auto simp: seal_in_def ok_iff)
  from c show ?thesis
  proof (rule seal_ok)
    fix ty key who proj stamps warn g obs ep dbx
    assume h: "body_text (cenv D) body (lit ''type'') = Some ty"
      "shape_gate (cenv D) (settings (ckp_txn d)) p ty proj who (strip_stamps (attribute_body (cenv D) who body)) (txn_db (ckp_txn d)) = Inr (stamps, warn, g)"
      and s: "sealed (cenv D) now key obs p (final_body (cenv D) who body stamps) ep (txn_db (ckp_txn d)) (txn_db c)"
    have "draft_fact (final_body (cenv D) who body stamps)"
      using draft_fact_kept[OF h(2) assms(2) get_text_is_object[OF h(1)] assms(3)] .
    with s show "only_drafts d d'" unfolding d' sealed_def
      by (auto simp: only_drafts_def rejoin_def ckp_txn_def dest: upsert_mem)
  qed
qed

lemma tick_bodies:
  "json_object_wf (run_body X now k run)" "draft_fact (run_body X now k run)"
  "json_object_wf (score_body X k about ep run sc)" "draft_fact (score_body X k about ep run sc)"
  "json_object_wf (draft_body X pid about ep sc pr)" "draft_fact (draft_body X pid about ep sc pr)"
  by (simp_all add: run_body_def score_body_def draft_body_def draft_fact_def json_get_obj Let_def jlit_def core_def core_ns_def lit_def)

text \<open>What the seals of a tick do, the tick does: any reflexive and transitive relation that holds of
  the seal of the run, of each score and of each draft holds of the whole.\<close>

lemma score_loop_rel:
  assumes "\<And>d. R d d" "\<And>a b c. R a b \<Longrightarrow> R b c \<Longrightarrow> R a c"
    "\<And>about sc d d'. seal_in (denv X) now (lit ''score-'' @ score_key X k about ep) (score_body X k about ep run sc) d = Inr d' \<Longrightarrow> R d d'"
    "\<And>m about sc p d d'. seal_in (denv X) now (clock_id ''proposal-draft-'' m) (draft_body X (clock_id ''proposal-draft-'' m) about ep sc p) d = Inr d' \<Longrightarrow> R d d'"
  shows "score_loop X now clk k ep run kbody pr sigs n abouts d = Inr (scs, drs, d') \<Longrightarrow> R d d'"
proof (induction abouts arbitrary: n d scs drs)
  case (Cons about abouts)
  from Cons.prems obtain sc d1 dr d2 scs' drs' where
    s1: "seal_in (denv X) now (lit ''score-'' @ score_key X k about ep) (score_body X k about ep run sc) d = Inr d1"
    and s2: "(case pr of None \<Rightarrow> Inr ([], d1) | Some p \<Rightarrow>
            if reaches X sc p \<and> \<not> has_draft (cenv (denv X)) (ckp (txn_db d1)) about then
              let pid = clock_id ''proposal-draft-'' (clk n)
              in and_then (seal_in (denv X) now pid (draft_body X pid about ep sc p) d1) (\<lambda>d2.
                   Inr ([json_obj [(lit ''proposal'', JString pid), (lit ''about'', JString about), (lit ''score'', JNumber sc)]], d2))
            else Inr ([], d1)) = Inr (dr, d2)"
    and s3: "score_loop X now clk k ep run kbody pr sigs (Suc n) abouts d2 = Inr (scs', drs', d')"
    by (auto simp: ok_iff)
  have "R d1 d2" using s2 assms(1,4) by (auto simp: ok_iff Let_def split: option.splits if_splits)
  with assms(2,3) s1 Cons.IH[OF s3] show ?case by blast
qed (simp add: assms(1))

lemma score_tick_ok:
  assumes "score_tick X now clk k d = Inr (out, d')"
  obtains (refused) "d' = d" "\<not> is_true (body_text (cenv (denv X)) out (lit ''ok''))"
  | (scored) kbody pr d1 sigs abouts scs drs where
      "seal_in (denv X) now (clock_id ''run-scoretick-'' (clk 0)) (run_body X now k (clock_id ''run-scoretick-'' (clk 0))) d = Inr d1"
      "score_loop X now clk k (case t_kernel_epoch (ckp (txn_db d)) k of None \<Rightarrow> 0 | Some e \<Rightarrow> e) (clock_id ''run-scoretick-'' (clk 0))
         kbody pr sigs 1 abouts d1 = Inr (scs, drs, d')"
proof (cases "kernel_body (cenv (denv X)) (ckp (txn_db d)) k")
  case None
  with assms show ?thesis
    by (intro refused) (auto simp: score_tick_def get_text_def json_get_obj text_of_def is_true_def lit_def)
next
  case (Some kbody)
  with assms scored show ?thesis by (auto simp: score_tick_def Let_def ok_iff)
qed

lemma score_tick_drafts:
  assumes "score_tick X now clk k d = Inr (out, d')"
  shows "only_drafts d d'"
  using assms
proof (cases rule: score_tick_ok)
  case (scored kbody pr d1 sigs abouts scs drs)
  have "only_drafts d d1" using seal_drafts[OF scored(1)] tick_bodies by blast
  also have "only_drafts d1 d'"
    by (rule score_loop_rel[OF _ _ _ _ scored(2), where R = only_drafts])
      (auto intro: only_drafts_trans seal_drafts tick_bodies)
  finally show ?thesis .
qed simp

lemma tick_outcome_drafts: "tick_outcome X now clk k d = Inr (v, d') \<Longrightarrow> only_drafts d d'"
  by (auto simp: tick_outcome_def Let_def split: sum.splits if_splits dest: score_tick_drafts)

lemma put_door_txn [simp]: "door_txn (put_door t d) = d" "door_txn (set_jobs jobs t) = door_txn t"
  by (simp_all add: door_txn_def put_door_def set_jobs_def)

lemma aborted_drafts: "abort_law D \<Longrightarrow> only_drafts d (aborted D d)"
  by (simp add: abort_law_def same_tables_def only_drafts_def aborted_def)

lemma fold_run_job_drafts:
  "abort_law (denv X) \<Longrightarrow> fold (run_job X now) sel (dn, fl, rep, t) = (dn', fl', rep', t') \<Longrightarrow> only_drafts (door_txn t) (door_txn t')"
proof (induction sel arbitrary: dn fl rep t)
  case (Cons r sel)
  obtain dn1 fl1 rep1 t1 where one: "run_job X now r (dn, fl, rep, t) = (dn1, fl1, rep1, t1)" by (metis prod_cases4)
  then have "only_drafts (door_txn t) (door_txn t1)"
    using aborted_drafts[OF Cons.prems(1)] by (auto simp: run_job_def split: sum.splits dest: tick_outcome_drafts)
  also have "only_drafts (door_txn t1) (door_txn t')" using Cons one by simp
  finally show ?case .
qed simp

lemma orbit_drain_drafts: "abort_law (denv X) \<Longrightarrow> orbit_drain X now locked n t = (out, t') \<Longrightarrow> only_drafts (door_txn t) (door_txn t')"
  using fold_run_job_drafts by (fastforce simp: orbit_drain_def split: prod.splits)

text \<open>C18: the tick may draft only. Whatever is queued and whatever the signals say, one tick of the
  worker leaves every kernel's epoch, the proof obligations, the configuration and the session as they were,
  and every row it leaves in \<^verbatim>\<open>ckp.instances\<close> was there before or is a run, a score or a proposal in
  state \<^verbatim>\<open>draft\<close>: no vote is sealed, nothing is applied.\<close>

theorem tick_only_drafts:
  assumes "abort_law (denv X)" "orbit_tick X now locked t = Inr (out, t')"
  shows "only_drafts (door_txn t) (door_txn t')"
  using assms(2)
proof (rule orbit_tick_parts)
  fix q t1 t2 d t3
  assume h: "txn_db t1 = txn_db t" "orbit_enqueue X now t1 = Inr (q, t2)" "orbit_drain X now locked 4 t2 = (d, t3)" "txn_db t' = txn_db t3"
  have "only_drafts (door_txn t1) (door_txn t3)" using orbit_drain_drafts[OF assms(1) h(3)] orbit_enqueue_door[OF h(2)] by simp
  with h(1,4) show ?thesis by (simp add: only_drafts_def door_txn_def)
qed

theorem tick_only_drafts_witness:
  "\<exists>out t'. orbit_tick demo_orbit 2500000 (\<lambda>_. False) (demo_orbit_txn demo_queue) = Inr (out, t') \<and>
     only_drafts (door_txn (demo_orbit_txn demo_queue)) (door_txn t')"
proof -
  let ?t = "demo_orbit_txn demo_queue"
  obtain out t' where "orbit_tick demo_orbit 2500000 (\<lambda>_. False) ?t = Inr (out, t')"
    using orbit_tick_total[of demo_orbit ?t, OF demo_laws[folded demo_orbit_txn_simps(3)[of demo_queue]]] by blast
  moreover have "abort_law (denv demo_orbit)" using demo_abort_law by (simp add: demo_orbit_def)
  ultimately show ?thesis using tick_only_drafts by blast
qed

section \<open>The kernel a tick seals under\<close>

lemma eff_door_txn: "eff (door_txn t) k = (case settings t k of None \<Rightarrow> session (door (txn_db t)) k | Some v \<Rightarrow> Some v)"
  by (simp add: eff_def door_txn_def cong: option.case_cong)

lemma tick_unplaced:
  assumes "guc_nonempty (eff d) ''ckp.project'' = None"
  shows "\<exists>e. tick_outcome X now clk k d = Inl e"
proof -
  have "\<exists>e. seal_in (denv X) now p b d = Inl e" for p b
    using seal_needs_author_and_kernel[of "ckp_txn d" "cenv (denv X)" b now p] assms by (auto simp: seal_in_def ckp_txn_def)
  then have no: "seal_in (denv X) now p b d \<noteq> Inr d1" for p b d1 by (metis Inl_Inr_False)
  have "\<not> is_true (body_text (cenv (denv X)) v (lit ''ok''))" if "score_tick X now clk k d = Inr (v, d')" for v d'
    using that by (cases rule: score_tick_ok) (use no in auto)
  then show ?thesis unfolding tick_outcome_def Let_def by (cases "score_tick X now clk k d") auto
qed

lemma fold_run_job_unplaced:
  "guc_nonempty (eff (door_txn t)) ''ckp.project'' = None \<Longrightarrow> fold (run_job X now) sel (dn, fl, rep, t) = (dn', fl', rep', t') \<Longrightarrow>
     dn' = dn \<and> fl' = fl + int (length sel)"
proof (induction sel arbitrary: dn fl rep t)
  case (Cons r sel)
  obtain e where "tick_outcome X now (clock X now (Some (j_id r))) (j_kernel r) (door_txn t) = Inl e" using tick_unplaced[OF Cons.prems(1)] by blast
  moreover have "eff (aborted (denv X) (door_txn t)) = eff (door_txn t)" by (auto simp: eff_def aborted_def fun_eq_iff split: option.split)
  ultimately obtain rep1 t1 where "run_job X now r (dn, fl, rep, t) = (dn, fl + 1, rep1, t1)" "eff (door_txn t1) = eff (door_txn t)"
    by (simp add: run_job_def)
  with Cons.IH[of t1 dn "fl + 1" rep1] Cons.prems show ?case by simp
qed simp

text \<open>A tick outside a kernel does nothing but fail. The tick names a service identity but no
  kernel: when the worker's session carries no \<^verbatim>\<open>ckp.project\<close>, no attempt succeeds, whichever kernel the
  job is of and whatever that kernel has sealed; the reply reports no job done.\<close>

theorem tick_needs_session_kernel:
  assumes "orbit_tick X now locked t = Inr (out, t')" "guc_nonempty (eff (door_txn t)) ''ckp.project'' = None"
  shows "json_get out (lit ''done'') = Some (JNumber (JInt 0))"
  using assms(1)
proof (rule orbit_tick_parts)
  fix q t1 t2 d t3
  assume h: "txn_db t1 = txn_db t" "\<And>k. k \<noteq> lit ''ckp.requester'' \<Longrightarrow> settings t1 k = settings t k"
    "orbit_enqueue X now t1 = Inr (q, t2)" "orbit_drain X now locked 4 t2 = (d, t3)"
    "out = jsonb_concat (json_obj [(lit ''enqueued'', JNumber (JInt q))]) d"
  have "lit ''ckp.project'' \<noteq> lit ''ckp.requester''" by (simp add: lit_def)
  then have "guc_nonempty (eff (door_txn t2)) ''ckp.project'' = None"
    using assms(2) h(1) h(2)[of "lit ''ckp.project''"] unfolding orbit_enqueue_door[OF h(3)] guc_nonempty_def
    by (simp add: eff_door_txn cong: option.case_cong)
  with h(4) have "json_get d (lit ''done'') = Some (JNumber (JInt 0))" "\<exists>m. d = json_obj m"
    by (auto simp: orbit_drain_def json_get_obj split: prod.splits dest: fold_run_job_unplaced)
  then show ?thesis unfolding h(5) by (auto simp: json_get_concat)
qed

theorem tick_needs_session_kernel_witness:
  "\<exists>out t'. orbit_tick demo_orbit 2500000 (\<lambda>_. False) ((demo_orbit_txn demo_queue)\<lparr>settings := \<lambda>_. None\<rparr>) = Inr (out, t') \<and>
     json_get out (lit ''done'') = Some (JNumber (JInt 0))"
proof -
  let ?t = "(demo_orbit_txn demo_queue)\<lparr>settings := \<lambda>_. None\<rparr>"
  have "orbit_laws demo_orbit (t_instances (ckp (door (txn_db ?t)))) = Inr [\<lparr>ol_kernel = Some (lit ''acme''), ol_period = 1, ol_anchor = 0\<rparr>]"
    using demo_laws by (simp del: orbit_laws.simps)
  from orbit_tick_total[OF this] obtain out t' where o: "orbit_tick demo_orbit 2500000 (\<lambda>_. False) ?t = Inr (out, t')" by blast
  have "guc_nonempty (eff (door_txn ?t)) ''ckp.project'' = None"
    by (simp add: guc_nonempty_def eff_door_txn demo_orbit_txn_def demo_door_txn_def nullif_empty_def)
  from tick_needs_session_kernel[OF o this] o show ?thesis by blast
qed

text \<open>A seal leaves the other rows of \<^verbatim>\<open>ckp.instances\<close> alone.\<close>

lemma seal_in_find:
  assumes "seal_in D now p body d = Inr d'" "q \<noteq> p"
  shows "find_instance (ckp (txn_db d')) q = find_instance (ckp (txn_db d)) q"
proof -
  obtain sha c where c: "ckp_seal (cenv D) now p body (ckp_txn d) = Inr (sha, c)" and d': "d' = rejoin d c"
    using assms(1) by (auto simp: seal_in_def ok_iff)
  from c show ?thesis
    by (rule seal_ok) (use assms(2) in \<open>auto simp: d' sealed_def rejoin_def ckp_txn_def find_after_upsert\<close>)
qed

lemma score_loop_find:
  assumes "score_loop X now clk k ep run kbody pr sigs n abouts d = Inr (scs, drs, d')" "q = lit ''run-'' @ x"
  shows "find_instance (ckp (txn_db d')) q = find_instance (ckp (txn_db d)) q"
proof -
  have q: "q \<noteq> lit ''score-'' @ y" "q \<noteq> clock_id ''proposal-draft-'' m" for y m
    using assms(2) by (simp_all add: clock_id_def lit_def)
  show ?thesis
    by (rule score_loop_rel[OF _ _ _ _ assms(1), where R = "\<lambda>a b. find_instance (ckp (txn_db b)) q = find_instance (ckp (txn_db a)) q"])
      (rule refl, rule trans, assumption+, erule seal_in_find, rule q(1), erule seal_in_find, rule q(2))
qed

lemma run_sealed:
  assumes "seal_in D now run body d = Inr d1" "json_object_wf body"
  shows "\<exists>pr b. resolve_project (cenv D) (eff d) (ckp (txn_db d)) = Inr (Some pr) \<and> find_instance (ckp (txn_db d1)) run = Some b \<and>
    json_get b (core ''producedBy'') = Some (JString (kernel_graph_iri pr)) \<and> json_get b (core ''runOf'') = json_get body (core ''runOf'')"
proof -
  obtain sha c where c: "ckp_seal (cenv D) now run body (ckp_txn d) = Inr (sha, c)" and d': "d1 = rejoin d c"
    using assms(1) by (auto simp: seal_in_def ok_iff)
  from c show ?thesis
  proof (rule seal_ok)
    fix ty key who proj stamps warn g obs ep dbx
    assume h: "body_text (cenv D) body (lit ''type'') = Some ty"
      "resolve_project (cenv D) (settings (ckp_txn d)) (txn_db (ckp_txn d)) = Inr proj"
      "shape_gate (cenv D) (settings (ckp_txn d)) run ty proj who (strip_stamps (attribute_body (cenv D) who body)) (txn_db (ckp_txn d)) = Inr (stamps, warn, g)"
      and s: "sealed (cenv D) now key obs run (final_body (cenv D) who body stamps) ep (txn_db (ckp_txn d)) (txn_db c)"
    have "find_instance (txn_db c) run = Some (final_body (cenv D) who body stamps)"
      using s by (auto simp: sealed_def find_after_upsert)
    with final_body_stamps[OF h(3) assms(2) get_text_is_object[OF h(1)]]
      final_body_other[OF h(3) assms(2) get_text_is_object[OF h(1)], of "core ''runOf''"] h(2) d'
    show ?thesis by (auto simp: rejoin_def ckp_txn_def stamp_keys_def)
  qed
qed

text \<open>The work of a job is stamped with the session's kernel, not the job's. When a tick for
  kernel \<open>k\<close> succeeds, the run it sealed says \<^verbatim>\<open>runOf\<close> \<open>k\<close>, while its \<^verbatim>\<open>producedBy\<close> stamp is the kernel the
  worker's session resolves to, whatever \<open>k\<close> is.\<close>

theorem run_stamped_with_session_kernel:
  assumes "tick_outcome X now clk k d = Inr (out, d')"
  shows "\<exists>pr b. resolve_project (cenv (denv X)) (eff d) (ckp (txn_db d)) = Inr (Some pr) \<and>
    find_instance (ckp (txn_db d')) (clock_id ''run-scoretick-'' (clk 0)) = Some b \<and>
    json_get b (core ''runOf'') = Some (JString (kernel_graph_iri k)) \<and> json_get b (core ''producedBy'') = Some (JString (kernel_graph_iri pr))"
proof -
  have st: "score_tick X now clk k d = Inr (out, d')" and ok: "is_true (body_text (cenv (denv X)) out (lit ''ok''))"
    using assms by (auto simp: tick_outcome_def Let_def split: sum.splits if_splits)
  from st show ?thesis
  proof (cases rule: score_tick_ok)
    case refused
    with ok show ?thesis by simp
  next
    case (scored kbody pr d1 sigs abouts scs drs)
    have "clock_id ''run-scoretick-'' (clk 0) = lit ''run-'' @ (lit ''scoretick-'' @ show_int (clk 0))"
      by (simp add: clock_id_def lit_def)
    from score_loop_find[OF scored(2) this] run_sealed[OF scored(1) tick_bodies(1)] show ?thesis
      by (auto simp: run_body_def Let_def json_get_obj)
  qed
qed

definition other_kernel :: instance_row where
  "other_kernel = \<lparr>i_id = lit ''k2'', i_body = json_obj [(lit ''type'', JString (core ''Kernel'')), (lit ''@id'', JString (lit ''urn:ckp:other/kernel''))],
     i_created = 0, i_updated = 0\<rparr>"

definition other_door :: "unit door_db txn" where
  "other_door = demo_door_txn\<lparr>txn_db := (txn_db demo_door_txn)\<lparr>ckp := (empty_store demo_ckp_config ())\<lparr>t_instances := [other_kernel]\<rparr>\<rparr>\<rparr>"

lemma other_door_simps:
  "ckp (txn_db other_door) = (empty_store demo_ckp_config ())\<lparr>t_instances := [other_kernel]\<rparr>" "eff other_door = demo_session"
  by (auto simp: other_door_def eff_def demo_door_txn_def fun_eq_iff split: option.split)

lemma other_project: "resolve_project demo_ckp demo_session ((empty_store demo_ckp_config ())\<lparr>t_instances := [other_kernel]\<rparr>) = Inr (Some (lit ''acme''))"
  by (simp add: resolve_project_def guc_nonempty_def nullif_empty_def demo_session_def sealed_kernel_ids_def other_kernel_def map_filter_simps
      get_text_def json_get_obj text_of_def kernel_iri_def one_project_def demo_ckp_def canonical_def split_on_def lit_def ascii_lower_digit_def
      ascii_lower_def core_def core_ns_def)

lemma other_run:
  "\<exists>d1. seal_in demo_door 7 p (run_body demo_orbit 7 (lit ''other'') p) other_door = Inr d1"
proof -
  let ?b = "run_body demo_orbit 7 (lit ''other'') p" let ?db = "(empty_store demo_ckp_config ())\<lparr>t_instances := [other_kernel]\<rparr>"
  have ty: "body_text demo_ckp ?b (lit ''type'') = Some (core ''Run'')" by (simp add: run_body_def Let_def get_text_def json_get_obj text_of_def)
  have "\<exists>sha t'. ckp_seal demo_ckp 7 p ?b \<lparr>txn_db = ?db, settings = demo_session\<rparr> = Inr (sha, t')"
  proof (rule demo_seal_at[OF tick_bodies(1) ty _ _ other_project, where obs = "[]"])
    show "membership_gate demo_ckp ?db (participant_urn demo_ckp (lit ''Alice''))
        (strip_stamps (attribute_body demo_ckp (participant_urn demo_ckp (lit ''Alice'')) ?b)) = Inr ()"
      by (rule demo_gate_ok[OF _ tick_bodies(1) ty]) simp
  qed (simp_all add: empty_store_def run_proof_obligations_def core_def core_ns_def lit_def)
  then show ?thesis by (auto simp: seal_in_def ckp_txn_def other_door_simps demo_door_def)
qed

lemma other_signals:
  assumes "only_drafts other_door d1"
  shows "signals_of demo_ckp (ckp (txn_db d1)) k = []"
proof -
  have "body_text demo_ckp (i_body i) (lit ''type'') \<noteq> Some (core ''Signal'')" if "i \<in> set (t_instances (ckp (txn_db d1)))" for i
    using assms that unfolding only_drafts_def other_door_simps
    by (auto simp: draft_fact_def other_kernel_def get_text_def json_get_obj text_of_def)
  then have "filter (\<lambda>i. body_text demo_ckp (i_body i) (lit ''type'') = Some (core ''Signal'') \<and>
      body_text demo_ckp (i_body i) (core ''producedBy'') = Some (kernel_graph_iri k)) (t_instances (ckp (txn_db d1))) = []"
    by (auto simp: filter_empty_conv)
  then show ?thesis by (simp add: signals_of_def map_filter_simps)
qed

theorem run_stamped_with_session_kernel_witness:
  "\<exists>out d' b. tick_outcome demo_orbit 7 (clock demo_orbit 7 None) (lit ''other'') other_door = Inr (out, d') \<and>
     find_instance (ckp (txn_db d')) (clock_id ''run-scoretick-'' 7) = Some b \<and>
     json_get b (core ''runOf'') = Some (JString (kernel_graph_iri (lit ''other''))) \<and>
     json_get b (core ''producedBy'') = Some (JString (kernel_graph_iri (lit ''acme'')))"
proof -
  let ?run = "clock_id ''run-scoretick-'' 7"
  have env: "denv demo_orbit = demo_door" "cenv demo_door = demo_ckp" "clock demo_orbit 7 None 0 = 7" "law_in demo_orbit x = Inr (None, JNull)" for x
    by (simp_all add: demo_orbit_def demo_door_def)
  obtain d1 where d1: "seal_in demo_door 7 ?run (run_body demo_orbit 7 (lit ''other'') ?run) other_door = Inr d1" using other_run by blast
  have kb: "kernel_body demo_ckp (ckp (txn_db other_door)) (lit ''other'') = Some (i_body other_kernel)"
    by (simp add: kernel_body_def other_door_simps other_kernel_def get_text_def json_get_obj text_of_def kernel_iri_def latest_by_def lit_def)
  have "only_drafts other_door d1" using seal_drafts[OF d1] tick_bodies by blast
  note sg = other_signals[OF this]
  obtain out where "score_tick demo_orbit 7 (clock demo_orbit 7 None) (lit ''other'') other_door = Inr (out, d1)" "json_get out (lit ''ok'') = Some (JBool True)" "is_object out"
    by (simp add: score_tick_def env kb d1 sg Let_def json_get_obj)
  then have o: "tick_outcome demo_orbit 7 (clock demo_orbit 7 None) (lit ''other'') other_door = Inr (out, d1)"
    by (simp add: tick_outcome_def env get_text_def text_of_def is_true_def Let_def lit_def demo_ckp_def)
  from run_stamped_with_session_kernel[OF o] o other_project show ?thesis by (auto simp: env other_door_simps)
qed

section \<open>Materialisation\<close>

text \<open>One row per concept, as the table's primary key has it.\<close>

abbreviation concepts :: "mat_job list \<Rightarrow> str list" where
  "concepts jobs \<equiv> map m_concept jobs"

definition has_phenotype :: "mat_job \<Rightarrow> phenotype list \<Rightarrow> bool" where
  "has_phenotype j ps \<longleftrightarrow> list_ex (\<lambda>p. ph_concept p = m_concept j \<and> ph_epoch p = m_epoch j) ps"

fun mat_drains :: "'g orbit_env \<Rightarrow> int list \<Rightarrow> 'g orbit_db txn \<Rightarrow> (int list \<times> 'g orbit_db txn) sql" where
  "mat_drains X [] t = Inr ([], t)"
| "mat_drains X (now # rest) t =
     and_then (sql_materialize_drain X now t) (\<lambda>(n, t1). and_then (mat_drains X rest t1) (\<lambda>(ns, t2). Inr (n # ns, t2)))"

lemma enqueue_concepts:
  assumes "enqueue_materialize X now c sc f e t = Inr (out, t')" "distinct (concepts (mat_jobs (txn_db t)))"
  shows "distinct (concepts (mat_jobs (txn_db t')))"
proof -
  obtain wm where wm: "source_watermark X sc (ckp (door (txn_db t))) = Inr wm" using assms(1) by (auto simp: enqueue_materialize_def ok_iff)
  let ?r = "\<lparr>m_concept = c, m_scope = sc, m_formula = f, m_epoch = e, m_watermark = wm, m_enqueued = now\<rparr>" let ?jobs = "mat_jobs (txn_db t)"
  have same: "concepts (map (\<lambda>j. if m_concept j = c then ?r else j) ?jobs) = concepts ?jobs" by simp
  have "mat_jobs (txn_db t') = (if list_ex (\<lambda>j. m_concept j = c) ?jobs then map (\<lambda>j. if m_concept j = c then ?r else j) ?jobs else ?jobs @ [?r])"
    using assms(1) wm by (auto simp: enqueue_materialize_def Let_def)
  with same assms(2) show ?thesis by (auto simp: list_ex_iff simp del: map_map)
qed

lemma oldest_mat_mem: "oldest_mat jobs = Some j \<Longrightarrow> j \<in> set jobs \<and> (\<forall>i \<in> set jobs. m_enqueued j \<le> m_enqueued i)"
proof -
  assume "oldest_mat jobs = Some j"
  then obtain r where r: "sort_key m_enqueued jobs = j # r" by (auto simp: oldest_mat_def split: list.splits)
  then have "set jobs = insert j (set r)" by (metis list.simps(15) set_sort)
  moreover have "sorted (map m_enqueued (j # r))" unfolding r[symmetric] by simp
  ultimately show ?thesis by auto
qed

lemma oldest_mat_none: "oldest_mat jobs = None \<longleftrightarrow> jobs = []"
proof -
  have "sort_key m_enqueued jobs = [] \<longleftrightarrow> jobs = []" by (metis length_0_conv length_sort)
  then show ?thesis by (cases "sort_key m_enqueued jobs") (auto simp: oldest_mat_def)
qed

lemma publish_mem:
  "q \<in> set (publish_phenotype p ps) \<longleftrightarrow> q = p \<or> q \<in> set ps \<and> ph_concept q \<noteq> ph_concept p"
  by (auto simp: publish_phenotype_def list_ex_iff)

lemma publish_has: "ph_concept p = m_concept j \<Longrightarrow> ph_epoch p = m_epoch j \<Longrightarrow> has_phenotype j (publish_phenotype p ps)"
  unfolding has_phenotype_def list_ex_iff by (rule bexI[of _ p]) (simp_all add: publish_mem)

lemma mat_drain_step:
  assumes "sql_materialize_drain X now t = Inr (n, t1)" "distinct (concepts (mat_jobs (txn_db t)))" "mat_jobs (txn_db t) \<noteq> []"
  obtains j where "j \<in> set (mat_jobs (txn_db t))" "\<forall>i \<in> set (mat_jobs (txn_db t)). m_enqueued j \<le> m_enqueued i" "n = 1"
    "mat_jobs (txn_db t1) = remove1 j (mat_jobs (txn_db t))" "has_phenotype j (phenotypes (txn_db t1))"
    "\<forall>p \<in> set (phenotypes (txn_db t)). ph_concept p \<noteq> m_concept j \<longrightarrow> p \<in> set (phenotypes (txn_db t1))"
proof -
  obtain j where j: "oldest_mat (mat_jobs (txn_db t)) = Some j" using assms(3) oldest_mat_none by (metis option.exhaust)
  have inj: "\<And>k. k \<in> set (mat_jobs (txn_db t)) \<Longrightarrow> m_concept k = m_concept j \<Longrightarrow> k = j"
    using assms(2) oldest_mat_mem[OF j] by (auto simp: distinct_map inj_on_def)
  have "distinct (mat_jobs (txn_db t))" using assms(2) by (simp add: distinct_map)
  then have "filter (\<lambda>k. m_concept k \<noteq> m_concept j) (mat_jobs (txn_db t)) = remove1 j (mat_jobs (txn_db t))"
    unfolding distinct_remove1_removeAll[OF \<open>distinct (mat_jobs (txn_db t))\<close>] removeAll_filter_not_eq
    using inj by (intro filter_cong) auto
  with assms(1) j show ?thesis
    by (intro that[of j]) (auto simp: sql_materialize_drain_def Let_def ok_iff publish_mem publish_has dest: oldest_mat_mem)
qed

lemma mat_drains_kept:
  "mat_drains X nows t = Inr (ns, t') \<Longrightarrow> distinct (concepts (mat_jobs (txn_db t))) \<Longrightarrow> has_phenotype j (phenotypes (txn_db t)) \<Longrightarrow>
     m_concept j \<notin> set (concepts (mat_jobs (txn_db t))) \<Longrightarrow> has_phenotype j (phenotypes (txn_db t'))"
proof (induction X nows t arbitrary: ns rule: mat_drains.induct)
  case (2 X now rest t)
  obtain n t1 ns' where s: "sql_materialize_drain X now t = Inr (n, t1)" "mat_drains X rest t1 = Inr (ns', t')"
    using "2.prems"(1) by (auto simp: ok_iff)
  show ?case
  proof (cases "mat_jobs (txn_db t) = []")
    case True
    with s(1) have "t1 = t" using oldest_mat_none[of "[]"] by (simp add: sql_materialize_drain_def)
    with 2 s show ?thesis by blast
  next
    case False
    from mat_drain_step[OF s(1) "2.prems"(2) False] obtain i where
      i: "i \<in> set (mat_jobs (txn_db t))" "mat_jobs (txn_db t1) = remove1 i (mat_jobs (txn_db t))"
        "\<forall>p \<in> set (phenotypes (txn_db t)). ph_concept p \<noteq> m_concept i \<longrightarrow> p \<in> set (phenotypes (txn_db t1))" by metis
    have "has_phenotype j (phenotypes (txn_db t1))"
      using i(1,3) "2.prems"(3,4) unfolding has_phenotype_def list_ex_iff by (metis image_eqI list.set_map)
    moreover have "set (mat_jobs (txn_db t1)) \<subseteq> set (mat_jobs (txn_db t))" "distinct (concepts (mat_jobs (txn_db t1)))"
      using "2.prems"(2) unfolding i(2) by (auto simp: set_remove1_subset distinct_map distinct_remove1 intro: inj_on_subset)
    ultimately show ?thesis using "2.IH"[OF s(2)] "2.prems"(4) by auto
  qed
qed simp

text \<open>The materialisation queue empties in its length, oldest first. When as many drains as there
  are queued concepts return, each of them reports one job, none is left, and every queued concept
  has a phenotype of the epoch it was queued with.\<close>

theorem materialize_queue_empties:
  assumes "mat_drains X nows t = Inr (ns, t')" "distinct (concepts (mat_jobs (txn_db t)))" "length nows = length (mat_jobs (txn_db t))"
  shows "mat_jobs (txn_db t') = [] \<and> ns = replicate (length nows) 1 \<and>
    list_all (\<lambda>j. has_phenotype j (phenotypes (txn_db t'))) (mat_jobs (txn_db t))"
  using assms
proof (induction X nows t arbitrary: ns rule: mat_drains.induct)
  case (2 X now rest t)
  obtain n t1 ns' where s: "sql_materialize_drain X now t = Inr (n, t1)" "mat_drains X rest t1 = Inr (ns', t')" "ns = n # ns'"
    using "2.prems"(1) by (auto simp: ok_iff)
  have "mat_jobs (txn_db t) \<noteq> []" using "2.prems"(3) by auto
  from mat_drain_step[OF s(1) "2.prems"(2) this] obtain j where
    j: "j \<in> set (mat_jobs (txn_db t))" "n = 1" "mat_jobs (txn_db t1) = remove1 j (mat_jobs (txn_db t))" "has_phenotype j (phenotypes (txn_db t1))" by metis
  have d: "distinct (concepts (mat_jobs (txn_db t1)))"
    using "2.prems"(2) unfolding j(3) by (auto simp: set_remove1_subset distinct_map distinct_remove1 intro: inj_on_subset)
  have ih: "mat_jobs (txn_db t') = [] \<and> ns' = replicate (length rest) 1 \<and> list_all (\<lambda>j. has_phenotype j (phenotypes (txn_db t'))) (mat_jobs (txn_db t1))"
    using "2.IH"[OF s(2) d] "2.prems"(3) j(1,3) by (simp add: length_remove1)
  have "m_concept j \<notin> set (concepts (mat_jobs (txn_db t1)))"
    using "2.prems"(2) j(1) unfolding j(3) by (auto simp: distinct_map inj_on_def)
  from mat_drains_kept[OF s(2) d j(4) this] ih have "has_phenotype i (phenotypes (txn_db t'))" if "i \<in> set (mat_jobs (txn_db t))" for i
    using that j(1) unfolding j(3) by (cases "i = j") (auto simp: list_all_iff)
  with ih s(3) j(2) show ?case by (simp add: list_all_iff)
qed simp

theorem materialize_queue_empties_witness:
  "\<exists>ns t'. mat_drains demo_orbit [7, 8] ((demo_orbit_txn [])\<lparr>txn_db := (txn_db (demo_orbit_txn []))\<lparr>mat_jobs := [
       \<lparr>m_concept = lit ''b'', m_scope = JNull, m_formula = [], m_epoch = 3, m_watermark = 0, m_enqueued = 2\<rparr>,
       \<lparr>m_concept = lit ''a'', m_scope = JNull, m_formula = [], m_epoch = 4, m_watermark = 0, m_enqueued = 1\<rparr>]\<rparr>\<rparr>) = Inr (ns, t') \<and>
     ns = [1, 1] \<and> mat_jobs (txn_db t') = []"
proof -
  let ?jb = "\<lparr>m_concept = lit ''b'', m_scope = JNull, m_formula = [], m_epoch = 3, m_watermark = 0, m_enqueued = 2\<rparr>"
  let ?ja = "\<lparr>m_concept = lit ''a'', m_scope = JNull, m_formula = [], m_epoch = 4, m_watermark = 0, m_enqueued = 1\<rparr>"
  let ?t = "(demo_orbit_txn [])\<lparr>txn_db := (txn_db (demo_orbit_txn []))\<lparr>mat_jobs := [?jb, ?ja]\<rparr>\<rparr>"
  have "\<exists>n t1. sql_materialize_drain demo_orbit now t = Inr (n, t1)" for now t
    by (simp add: sql_materialize_drain_def demo_orbit_def Let_def split: option.split)
  then have "\<exists>ns t'. mat_drains demo_orbit nows t = Inr (ns, t')" for nows t
    by (induction nows arbitrary: t) (simp, metis (no_types, lifting) and_then_simps(2) case_prod_conv mat_drains.simps(2))
  then obtain ns t' where r: "mat_drains demo_orbit [7, 8] ?t = Inr (ns, t')" by blast
  have "distinct (concepts (mat_jobs (txn_db ?t)))" "length [7 :: int, 8] = length (mat_jobs (txn_db ?t))" by (simp_all add: lit_def)
  from materialize_queue_empties[OF r this] r show ?thesis by (simp add: numeral_2_eq_2 del: mat_drains.simps)
qed

end
