(* ===== verification/Ckp_Typed.thy ===== *)
theory Ckp_Typed
  imports Ckp_Door
begin

text \<open>
  The verbs of \<^verbatim>\<open>src/sql/pgck-baseline.sql\<close> that re-seal an existing instance: \<^verbatim>\<open>update_typed\<close>,
  \<^verbatim>\<open>transition\<close> and \<^verbatim>\<open>retire\<close>, with \<^verbatim>\<open>_resolve_id\<close>. The record \<open>gov_env\<close> holds what these and the
  governance verbs call outside the repository: the queries of \<^verbatim>\<open>pgrdf\<close> behind \<^verbatim>\<open>_propmap\<close>, the
  transition maps, the digests and \<^verbatim>\<open>apply_shape_ttl\<close>, and PostgreSQL's \<^verbatim>\<open>md5\<close> and boolean input.
  The teaching fields of the refusals (\<^verbatim>\<open>hint\<close>, \<^verbatim>\<open>declared\<close>, \<^verbatim>\<open>form\<close>, \<^verbatim>\<open>allowed\<close>, \<^verbatim>\<open>got\<close>) and the prose
  \<^verbatim>\<open>quorumNote\<close> of \<^verbatim>\<open>apply\<close> are left out.
\<close>

record 'g gov_env =
  gdoor :: "'g door_env"
  propmap :: "str option \<Rightarrow> str option \<Rightarrow> 'g \<Rightarrow> (str \<times> str) list sql"
  has_transitions :: "str \<Rightarrow> 'g \<Rightarrow> bool sql"
  transition_declared :: "str \<Rightarrow> str \<Rightarrow> str \<Rightarrow> 'g \<Rightarrow> bool sql"
  md5_text :: "str \<Rightarrow> str"
  bool_in :: "str \<Rightarrow> bool sql"
  add_graph :: "str \<Rightarrow> 'g \<Rightarrow> (int \<times> 'g) sql"
  surface_digest :: "int \<Rightarrow> 'g \<Rightarrow> str sql"
  structural_digest_of :: "int \<Rightarrow> 'g \<Rightarrow> str sql"
  apply_shape_ttl :: "str \<Rightarrow> str option \<Rightarrow> 'g \<Rightarrow> (json \<times> 'g) sql"
  plan_cache_clear :: "'g \<Rightarrow> 'g"

abbreviation genv :: "'g gov_env \<Rightarrow> 'g ckp_env" where
  "genv G \<equiv> cenv (gdoor G)"

text \<open>A refusal that is returned: \<^verbatim>\<open>jsonb_build_object('ok', false, 'error', e, 'sqlstate', s, \<dots>)\<close>.\<close>

definition refuse :: "string \<Rightarrow> string \<Rightarrow> (str \<times> json) list \<Rightarrow> json" where
  "refuse e s extra = json_obj ([(lit ''ok'', JBool False), (lit ''error'', jlit e), (lit ''sqlstate'', jlit s)] @ extra)"

definition not_owner :: "(str \<times> json) list \<Rightarrow> str \<Rightarrow> json" where
  "not_owner extra owner = refuse ''not_owner'' ''42501'' ([(lit ''refused'', JBool True), (lit ''owner'', JString owner)] @ extra)"

text \<open>The participant a session acts as when it is compared with an owner: \<^verbatim>\<open>_slug\<close> of the requester.\<close>

definition owner_self :: "'g ckp_env \<Rightarrow> (str \<Rightarrow> str option) \<Rightarrow> str option" where
  "owner_self E s = map_option (\<lambda>me. lit ''urn:ckp:participant:'' @ slug (lower_text E) me) (guc_trimmed s ''ckp.requester'')"

text \<open>A refusal ends the verb with its reply.\<close>

definition or_reply :: "json + 'a \<Rightarrow> 's \<Rightarrow> ('a \<Rightarrow> (json option \<times> 's) sql) \<Rightarrow> (json option \<times> 's) sql" where
  "or_reply r t k = (case r of Inl j \<Rightarrow> Inr (Some j, t) | Inr a \<Rightarrow> k a)"

section \<open>Identifiers\<close>

definition resolve_id :: "'g ckp_env \<Rightarrow> 'g ckp_db \<Rightarrow> str \<Rightarrow> str" where
  "resolve_id E db p_ref =
     (if find_instance db p_ref \<noteq> None then p_ref
      else case List.find (\<lambda>i. body_text E (i_body i) (lit ''@id'') = Some p_ref) (t_instances db) of
        Some i \<Rightarrow> i_id i
      | None \<Rightarrow> (case strip_prefix (lit ''urn:ckp:instance:'') p_ref of
          Some v_id \<Rightarrow> if find_instance db v_id \<noteq> None then v_id else p_ref
        | None \<Rightarrow> p_ref))"

text \<open>\<^verbatim>\<open>regexp_replace(v_type, '[^/#]*$', '')\<close>: up to the last separator.\<close>

definition type_ns :: "str option \<Rightarrow> str" where
  "type_ns ty = rev (dropWhile (\<lambda>c. c \<noteq> 47 \<and> c \<noteq> 35) (rev (coalesce_text ty [])))"

section \<open>update_typed\<close>

text \<open>The property a patch key names, or the refusal.\<close>

definition patch_key :: "(str \<times> str) list \<Rightarrow> str option \<Rightarrow> str \<Rightarrow> json + str" where
  "patch_key v_propmap v_type v_key =
     (let undeclared = refuse ''undeclared_patch_key'' ''42704'' [(lit ''key'', JString v_key), (lit ''type'', jtext v_type)]
      in if 58 \<in> set v_key
         then if v_propmap \<noteq> [] \<and> v_key \<notin> snd ` set v_propmap then Inl undeclared else Inr v_key
         else if v_propmap \<noteq> []
         then (case map_of v_propmap v_key of Some iri \<Rightarrow> Inr iri | None \<Rightarrow> Inl undeclared)
         else Inr (type_ns v_type @ v_key))"

definition patch_guard :: "'g ckp_env \<Rightarrow> (str \<Rightarrow> str option) \<Rightarrow> str \<Rightarrow> str \<Rightarrow> json \<Rightarrow> json + unit" where
  "patch_guard E s v_id v_keyiri v_cur =
     (if v_keyiri = core ''ownedBy''
      then Inl (refuse ''ownership_not_patchable'' ''42501''
                  [(lit ''refused'', JBool True), (lit ''key'', JString v_keyiri), (lit ''id'', JString v_id)])
      else if v_keyiri = core ''projectKind''
      then (case body_text E v_cur (core ''ownedBy'') of
              None \<Rightarrow> Inr ()
            | Some v_owner \<Rightarrow> guard_or (owner_self E s = Some v_owner) (not_owner [(lit ''key'', JString v_keyiri)] v_owner))
      else Inr ())"

fun patch_loop ::
    "'g ckp_env \<Rightarrow> (str \<Rightarrow> str option) \<Rightarrow> str \<Rightarrow> (str \<times> str) list \<Rightarrow> str option \<Rightarrow> (str \<times> json) list \<Rightarrow> json \<Rightarrow> json + json" where
  "patch_loop E s v_id pm ty [] v_cur = Inr v_cur"
| "patch_loop E s v_id pm ty ((v_key, v_val) # kvs) v_cur =
     (if v_key \<in> {lit ''id'', lit ''type'', lit ''@id''} then patch_loop E s v_id pm ty kvs v_cur
      else and_then (patch_key pm ty v_key) (\<lambda>v_keyiri.
           and_then (patch_guard E s v_id v_keyiri v_cur) (\<lambda>_.
             patch_loop E s v_id pm ty kvs (jsonb_concat v_cur (json_obj [(v_keyiri, v_val)])))))"

definition warnings_of :: "'g ckp_env \<Rightarrow> (str \<Rightarrow> str option) \<Rightarrow> (str \<times> json) list sql" where
  "warnings_of E s =
     (case guc_nonempty s ''ckp.last_warnings'' of
        None \<Rightarrow> Inr []
      | Some w \<Rightarrow> and_then (jsonb_in E w) (\<lambda>j. Inr [(lit ''warnings'', j)]))"

text \<open>The body of \<^verbatim>\<open>update_typed\<close>, inside its exception block.\<close>

definition update_body ::
    "'g gov_env \<Rightarrow> int \<Rightarrow> str option \<Rightarrow> json \<Rightarrow> 'g door_db txn \<Rightarrow> (json option \<times> 'g door_db txn) sql" where
  "update_body G now v_proj p t =
     (let D = gdoor G; E = cenv D; db = ckp (txn_db t)
      in case body_text E p (lit ''id'') of
           None \<Rightarrow> Inr (Some (refuse ''id_required'' ''22004'' []), t)
         | Some raw \<Rightarrow>
             if btrim spc raw = [] then Inr (Some (refuse ''id_required'' ''22004'' []), t)
             else case json_get p (lit ''patch'') of
               Some (JObject kvs) \<Rightarrow>
                 (let v_id = resolve_id E db raw
                  in case find_instance db v_id of
                       None \<Rightarrow> Inr (Some (refuse ''unknown_instance'' ''42704'' [(lit ''id'', JString v_id)]), t)
                     | Some v_cur \<Rightarrow>
                         let v_type = body_text E v_cur (lit ''type'')
                         in and_then (propmap G v_type v_proj (rdf db)) (\<lambda>pm.
                            or_reply (patch_loop E (eff t) v_id pm v_type (jsonb_each (JObject kvs)) (jsonb_minus v_cur (lit ''participant''))) t (\<lambda>v_new.
                                and_then (seal_in D now v_id v_new t) (\<lambda>t'.
                                and_then (warnings_of E (eff t')) (\<lambda>ws.
                                  Inr (Some (jsonb_concat (sealed_reply D v_id [] t') (json_obj ws)), t'))))))
             | _ \<Rightarrow> Inr (Some (refuse ''invalid_patch'' ''22023'' []), t))"

definition update_typed ::
    "'g gov_env \<Rightarrow> int \<Rightarrow> json \<Rightarrow> 'g door_db txn \<Rightarrow> (json option \<times> 'g door_db txn) sql" where
  "update_typed G now p t =
     and_then (resolve_project (genv G) (eff t) (ckp (txn_db t))) (\<lambda>v_proj.
       case update_body G now v_proj p t of
         Inr r \<Rightarrow> Inr r
       | Inl e \<Rightarrow> Inr (Some (json_obj [(lit ''ok'', JBool False), (lit ''error'', JString (err_text (gdoor G) e)),
                    (lit ''sqlstate'', JString (sqlstate e))]), aborted (gdoor G) t))"

section \<open>transition\<close>

text \<open>\<^verbatim>\<open>^[A-Za-z][A-Za-z0-9_-]*$\<close>\<close>

definition state_name :: "str \<Rightarrow> bool" where
  "state_name s \<longleftrightarrow> (case s of [] \<Rightarrow> False
     | c # cs \<Rightarrow> is_ascii_alphanumeric c \<and> \<not> is_ascii_digit c \<and>
         list_all (\<lambda>c. is_ascii_alphanumeric c \<or> c = 95 \<or> c = dash) cs)"

definition starts_alpha :: "str \<Rightarrow> bool" where
  "starts_alpha s \<longleftrightarrow> (case s of [] \<Rightarrow> False | c # _ \<Rightarrow> is_ascii_alphanumeric c \<and> \<not> is_ascii_digit c)"

definition lifecycle_state :: "'g ckp_env \<Rightarrow> json \<Rightarrow> str" where
  "lifecycle_state E b =
     (case body_text E b (board ''lifecycle_state'') of Some s \<Rightarrow> s
      | None \<Rightarrow> (case body_text E b (lit ''state'') of Some s \<Rightarrow> s
        | None \<Rightarrow> coalesce_text (body_text E b (core ''lifecycle_state'')) (lit ''planned'')))"

text \<open>Which map governs, and whether it allows the step: the maps of the type in any kernel graph, else
  the configured one.\<close>

definition transition_source :: "'g gov_env \<Rightarrow> str option \<Rightarrow> 'g \<Rightarrow> bool sql" where
  "transition_source G v_type g =
     (case v_type of None \<Rightarrow> Inr False
      | Some ty \<Rightarrow> if starts_alpha ty then has_transitions G ty g else Inr False)"

definition config_allows :: "'g ckp_env \<Rightarrow> 'g ckp_db \<Rightarrow> str \<Rightarrow> str \<Rightarrow> bool sql" where
  "config_allows E db v_from v_to =
     (case t_config db (lit ''transition_map'') of
        None \<Rightarrow> Inr False
      | Some v \<Rightarrow> and_then (jsonb_in E v) (\<lambda>m.
          case json_get m v_from of
            None \<Rightarrow> Inr False
          | Some a \<Rightarrow> and_then (array_elements (Some a)) (\<lambda>es. Inr (\<exists>e \<in> set es. text_of (jsonb_text E) e = Some v_to))))"

definition transition_allowed ::
    "'g gov_env \<Rightarrow> 'g ckp_db \<Rightarrow> str option \<Rightarrow> bool \<Rightarrow> str \<Rightarrow> str \<Rightarrow> bool sql" where
  "transition_allowed G db v_type v_has_map v_from v_to =
     (if v_has_map
      then if state_name v_from then transition_declared G (coalesce_text v_type []) v_from v_to (rdf db) else Inr False
      else config_allows (genv G) db v_from v_to)"

text \<open>The re-seal is judged by the kernel that produced the fact.\<close>

definition producer_project :: "'g ckp_env \<Rightarrow> json \<Rightarrow> 'g door_db txn \<Rightarrow> 'g door_db txn" where
  "producer_project E b t =
     (case body_text E b (core ''producedBy'') of
        None \<Rightarrow> t
      | Some pb \<Rightarrow>
          let v_proj = between (lit ''urn:ckp:'') (lit ''/kernel/ck'') pb
          in if v_proj \<noteq> [] \<and> v_proj \<noteq> pb then set_setting ''ckp.project'' v_proj t else t)"

definition transition ::
    "'g gov_env \<Rightarrow> int \<Rightarrow> json \<Rightarrow> 'g door_db txn \<Rightarrow> (json option \<times> 'g door_db txn) sql" where
  "transition G now p t =
     (let D = gdoor G; E = cenv D; db = ckp (txn_db t); v_id = body_text E p (lit ''id'')
      in case body_text E p (lit ''to_state'') of
           None \<Rightarrow> Inr (Some (refuse ''invalid_to_state'' ''22023'' [(lit ''to_state'', JNull)]), t)
         | Some v_to \<Rightarrow>
             if \<not> state_name v_to then Inr (Some (refuse ''invalid_to_state'' ''22023'' [(lit ''to_state'', JString v_to)]), t)
             else case Option.bind v_id (\<lambda>i. map_option (Pair i) (find_instance db i)) of
               None \<Rightarrow> Inr (Some (refuse ''unknown_instance'' ''42704'' [(lit ''id'', jtext v_id)]), t)
             | Some (i, v_body) \<Rightarrow>
                 let v_type = body_text E v_body (lit ''type''); v_from = lifecycle_state E v_body
                 in and_then (transition_source G v_type (rdf db)) (\<lambda>v_has_map.
                    and_then (transition_allowed G db v_type v_has_map v_from v_to) (\<lambda>ok.
                      let steps = [(lit ''from'', JString v_from), (lit ''to'', JString v_to),
                                   (lit ''source'', if v_has_map then jlit ''kernel'' else jlit ''config'')]
                      in if \<not> ok then Inr (Some (refuse ''invalid_transition'' ''55000'' steps), t)
                         else let v_body' = jsonb_concat v_body (json_obj
                                  [(board ''lifecycle_state'', JString v_to), (lit ''state'', JString v_to)])
                              in and_then (seal_in D now i v_body' (producer_project E v_body' t)) (\<lambda>t'.
                                 Inr (Some (jsonb_concat (json_obj ([(lit ''ok'', JBool True), (lit ''id'', JString i)] @ steps @
                                          [(lit ''verified'', JBool (verify_in D t' i))]))
                                        (stamped E (ckp (txn_db t')) i)), t')))))"

section \<open>retire\<close>

definition retired_body :: "'g ckp_env \<Rightarrow> int \<Rightarrow> str \<Rightarrow> json \<Rightarrow> json" where
  "retired_body E v_epoch v_reason b =
     (let b1 = jsonb_concat b (json_obj [(core ''retiredAtEpoch'', JNumber (JInt v_epoch)), (core ''reason'', JString (btrim spc v_reason))])
      in if body_text E b (lit ''type'') = Some (core ''Proposal'')
         then jsonb_concat b1 (json_obj [(core ''proposalState'', jlit ''rejected'')]) else b1)"

definition epoch_of :: "'g ckp_db \<Rightarrow> str option \<Rightarrow> int" where
  "epoch_of db k = (case Option.bind k (t_kernel_epoch db) of None \<Rightarrow> 0 | Some e \<Rightarrow> e)"

definition retire ::
    "'g gov_env \<Rightarrow> int \<Rightarrow> json \<Rightarrow> 'g door_db txn \<Rightarrow> (json option \<times> 'g door_db txn) sql" where
  "retire G now p t =
     (let D = gdoor G; E = cenv D; db = ckp (txn_db t); v_id = body_text E p (lit ''id''); v_reason = body_text E p (lit ''reason'')
      in and_then (resolve_project E (eff t) db) (\<lambda>v_proj.
         if btrim spc (coalesce_text v_reason []) = []
         then Inr (Some (refuse ''reason_required'' ''22004'' [(lit ''id'', jtext v_id)]), t)
         else case Option.bind v_id (\<lambda>i. map_option (Pair i) (find_instance db i)) of
           None \<Rightarrow> Inr (Some (refuse ''unknown_instance'' ''42704'' [(lit ''id'', jtext v_id)]), t)
         | Some (i, v_body) \<Rightarrow>
             if has_key v_body (core ''retiredAtEpoch'')
             then Inr (Some (refuse ''already_retired'' ''55000'' [(lit ''id'', JString i),
                    (lit ''reason'', jtext (case body_text E v_body (core ''reason'') of Some r \<Rightarrow> Some r
                                           | None \<Rightarrow> body_text E v_body (lit ''retired_reason'')))]), t)
             else let v_epoch = epoch_of db v_proj
               in and_then (seal_in D now i (retired_body E v_epoch (coalesce_text v_reason []) v_body) t) (\<lambda>t'.
                  Inr (Some (jsonb_concat (json_obj [(lit ''ok'', JBool True), (lit ''id'', JString i),
                           (lit ''retiredAtEpoch'', JNumber (JInt v_epoch)),
                           (lit ''declaredStateMoved'', JBool (body_text E v_body (lit ''type'') = Some (core ''Proposal''))),
                           (lit ''reason'', JString (btrim spc (coalesce_text v_reason []))),
                           (lit ''verified'', JBool (verify_in D t' i))])
                         (stamped E (ckp (txn_db t')) i)), t'))))"

end
