(* ===== verification/Ckp_Govern.thy ===== *)
theory Ckp_Govern
  imports Ckp_Typed
begin

text \<open>
  The governance verbs of \<^verbatim>\<open>src/sql/pgck-baseline.sql\<close>: \<^verbatim>\<open>propose_change\<close>, \<^verbatim>\<open>vote\<close> and \<^verbatim>\<open>apply\<close>,
  with the quorum floor, the roles, the translation of an operation into Turtle (\<^verbatim>\<open>_op_to_ttl\<close>),
  the epoch (\<^verbatim>\<open>bump_epoch\<close>, \<^verbatim>\<open>compile_plans\<close>) and the registrations of affordances and proof
  obligations; and the handlers of the door that they and the re-sealing verbs make.
\<close>

section \<open>Quorum floor and roles\<close>

definition project_iri :: "str \<Rightarrow> str" where
  "project_iri p = lit ''urn:ckp:project:'' @ p"

definition quorum_floor :: "'g ckp_env \<Rightarrow> 'g ckp_db \<Rightarrow> str option \<Rightarrow> int" where
  "quorum_floor E db p_project =
     (case Option.bind p_project (\<lambda>p. Option.bind
         (latest_by i_created
           (filter (\<lambda>i. body_text E (i_body i) (lit ''@id'') = Some (project_iri p) \<and>
                        body_text E (i_body i) (lit ''type'') = Some (core ''Project'')) (t_instances db)))
         (\<lambda>i. body_text E (i_body i) (core ''projectKind''))) of
        Some k \<Rightarrow> if k = lit ''shared'' then 2 else 1
      | None \<Rightarrow> 1)"

text \<open>\<^verbatim>\<open>substring(x from '^urn:ckp:([a-z0-9-]+)/')\<close>\<close>

definition target_project :: "str \<Rightarrow> str option" where
  "target_project x =
     (case strip_prefix (lit ''urn:ckp:'') x of
        None \<Rightarrow> None
      | Some r \<Rightarrow>
          let seg = takeWhile urn_char r
          in if seg \<noteq> [] \<and> starts_with (lit ''/'') (drop (length seg) r) then Some seg else None)"

definition of_type :: "'g ckp_env \<Rightarrow> string \<Rightarrow> instance_row \<Rightarrow> bool" where
  "of_type E ty i \<longleftrightarrow> body_text E (i_body i) (lit ''type'') = Some (core ty)"

definition role_grants :: "'g ckp_env \<Rightarrow> json \<Rightarrow> str list" where
  "role_grants E b =
     (case json_get b (core ''grant'') of
        None \<Rightarrow> []
      | Some (JArray a) \<Rightarrow> List.map_filter (text_of (jsonb_text E)) a
      | Some v \<Rightarrow> List.map_filter (text_of (jsonb_text E)) [v])"

definition role_permits :: "'g ckp_env \<Rightarrow> 'g ckp_db \<Rightarrow> str \<Rightarrow> str \<Rightarrow> string \<Rightarrow> bool" where
  "role_permits E db p_project p_participant p_action =
     (let v_piri = project_iri p_project; rows = set (t_instances db);
          members = filter (\<lambda>m. of_type E ''Membership'' m \<and> body_text E (i_body m) (core ''memberOf'') = Some v_piri) (t_instances db)
      in if members = [] then True
         else if project_owner E db v_piri = Some p_participant then True
         else \<exists>m \<in> set members. body_text E (i_body m) (core ''memberIs'') = Some p_participant \<and>
              (\<exists>r \<in> rows. of_type E ''Role'' r \<and> body_text E (i_body r) (lit ''@id'') \<noteq> None \<and>
                 body_text E (i_body r) (lit ''@id'') = body_text E (i_body m) (core ''holdsRole'') \<and>
                 (\<exists>g \<in> rows. of_type E ''Grant'' g \<and>
                    body_text E (i_body g) (lit ''@id'') \<in> Some ` set (role_grants E (i_body r)) \<and>
                    body_text E (i_body g) (core ''permAction'') = Some (lit p_action))))"

text \<open>The gate the three verbs share: a target project that sealed Memberships narrows the act.\<close>

definition role_gate :: "'g ckp_env \<Rightarrow> (str \<Rightarrow> str option) \<Rightarrow> 'g ckp_db \<Rightarrow> str option \<Rightarrow> string \<Rightarrow> json + unit" where
  "role_gate E s db v_tgt p_action =
     (case v_tgt of
        None \<Rightarrow> Inr ()
      | Some tgt \<Rightarrow> guard_or
          (role_permits E db tgt (participant_urn E (coalesce_text (guc_trimmed s ''ckp.requester'') [])) p_action)
          (refuse ''role_required'' ''42501'' [(lit ''refused'', JBool True), (lit ''action'', jlit p_action), (lit ''project'', JString tgt)]))"

section \<open>propose_change\<close>

definition governed_ops :: "string list" where
  "governed_ops = [''add_class'', ''add_property'', ''set_transition_map'', ''add_affordance'', ''add_proof_obligation'', ''set_kernel_policy'']"

definition proposal_detail :: "json \<Rightarrow> json" where
  "proposal_detail p =
     (case json_get p (lit ''detail'') of Some d \<Rightarrow> d
      | None \<Rightarrow> (case json_get p (lit ''proposalDetail'') of Some d \<Rightarrow> d | None \<Rightarrow> json_obj []))"

text \<open>The operation must be able to project something.\<close>

definition op_gate :: "'g ckp_env \<Rightarrow> json \<Rightarrow> json + str" where
  "op_gate E p =
     (let v_op = body_text E p (lit ''op''); v_detail = proposal_detail p;
          empty = refuse ''detail_projects_nothing'' ''22023'' [(lit ''op'', jtext v_op)]
      in if v_op = Some (lit ''add_affordance'') \<and> (\<not> has_key v_detail (lit ''verb'') \<or> \<not> has_key v_detail (lit ''query''))
         then Inl empty
         else if v_op = Some (lit ''add_proof_obligation'') \<and>
           (\<not> has_key v_detail (lit ''obligation'') \<or>
            coalesce_text (body_text E v_detail (lit ''active'')) (lit ''true'') \<noteq> lit ''false'' \<and>
            (\<not> has_key v_detail (lit ''targetType'') \<or> \<not> has_key v_detail (lit ''check'')))
         then Inl empty
         else case v_op of
           None \<Rightarrow> Inl (refuse ''op_has_no_projector'' ''22023'' [(lit ''op'', JNull)])
         | Some op \<Rightarrow> if op \<in> lit ` set governed_ops then Inr op
             else Inl (refuse ''op_has_no_projector'' ''22023'' [(lit ''op'', JString op)]))"

definition proposal_about :: "'g ckp_env \<Rightarrow> str option \<Rightarrow> json \<Rightarrow> str option" where
  "proposal_about E p_kernel p =
     (case body_text E p (lit ''about'') of Some a \<Rightarrow> Some a
      | None \<Rightarrow> map_option (\<lambda>k. if 58 \<in> set k then k else kernel_graph_iri k) p_kernel)"

definition about_gate :: "str option \<Rightarrow> json + str" where
  "about_gate v_about =
     (case v_about of
        Some a \<Rightarrow> if iri_chars a then Inr a else Inl (refuse ''invalid_about'' ''22023'' [(lit ''about'', JString a)])
      | None \<Rightarrow> Inl (refuse ''invalid_about'' ''22023'' [(lit ''about'', JNull)]))"

definition quorum_gate :: "'g ckp_env \<Rightarrow> 'g ckp_db \<Rightarrow> str option \<Rightarrow> json \<Rightarrow> json + int" where
  "quorum_gate E db p_kernel p =
     (let bad = (\<lambda>v. refuse ''invalid_requires_quorum'' ''22023'' [(lit ''value'', v)]); raw = body_text E p (lit ''requires_quorum'')
      in case (case raw of None \<Rightarrow> Inr 1 | Some s \<Rightarrow> int4_in E s) of
           Inl e \<Rightarrow> Inl (bad (jtext raw))
         | Inr v_quorum \<Rightarrow>
             if v_quorum < quorum_floor E db p_kernel
             then Inl (refuse ''invalid_requires_quorum'' ''55000'' [(lit ''refused'', JBool True), (lit ''value'', JNumber (JInt v_quorum)),
                    (lit ''floor'', JNumber (JInt (quorum_floor E db p_kernel)))])
             else if v_quorum < 1 then Inl (bad (JNumber (JInt v_quorum))) else Inr v_quorum)"

definition core_prefix :: str where
  "core_prefix = lit ''@prefix ckp: <'' @ core_ns @ lit ''> .'' @ [lf]"

definition proposal_ttl :: "str \<Rightarrow> str \<Rightarrow> int \<Rightarrow> str \<Rightarrow> str" where
  "proposal_ttl v_pid v_about v_quorum v_op =
     core_prefix @ lit ''@prefix xsd: <http://www.w3.org/2001/XMLSchema#> .'' @ [lf] @
     lit ''<ckp://Proposal#'' @ v_pid @ lit ''> a ckp:Proposal ; ckp:about <'' @ v_about @ lit ''> ; '' @
     lit ''ckp:proposalState '' @ quoted (lit ''pending'') @ lit '' ; ckp:requiresQuorum '' @ quoted (show_int v_quorum) @
     lit ''^^xsd:integer ; ckp:proposalOp '' @ quoted v_op @ lit '' .''"

definition proposal_body :: "str \<Rightarrow> str \<Rightarrow> int \<Rightarrow> str \<Rightarrow> json \<Rightarrow> json" where
  "proposal_body v_pid v_about v_quorum v_op detail = json_obj
     [(lit ''type'', JString (core ''Proposal'')), (lit ''@id'', JString (lit ''ckp://Proposal#'' @ v_pid)),
      (core ''about'', JString v_about), (core ''proposalState'', jlit ''pending''), (core ''proposalOp'', JString v_op),
      (core ''requiresQuorum'', JString (show_int v_quorum)), (lit ''proposalDetail'', detail)]"

text \<open>The shape check of a governance candidate: the engine may leave its store changed.\<close>

definition put_rdf :: "'g \<Rightarrow> 'g door_db txn \<Rightarrow> 'g door_db txn" where
  "put_rdf g t = t\<lparr>txn_db := (txn_db t)\<lparr>ckp := (ckp (txn_db t))\<lparr>rdf := g\<rparr>\<rparr>\<rparr>"

definition shape_checked ::
    "'g door_env \<Rightarrow> int option \<Rightarrow> str \<Rightarrow> 'g door_db txn \<Rightarrow> ('g door_db txn \<Rightarrow> (json option \<times> 'g door_db txn) sql) \<Rightarrow> (json option \<times> 'g door_db txn) sql" where
  "shape_checked D v_core v_ttl t k =
     and_then (validate_report (cenv D) (Some v_ttl) v_core (rdf (ckp (txn_db t)))) (\<lambda>(v_report, g).
       let t1 = put_rdf g t
       in if is_true (body_text (cenv D) v_report (lit ''conforms'')) then k t1
          else Inr (Some (refuse ''shape_violation'' ''23514''
                 [(lit ''violations'', case json_get v_report (lit ''violations'') of None \<Rightarrow> JNull | Some v \<Rightarrow> v)]), t1))"

definition propose_change ::
    "'g gov_env \<Rightarrow> int \<Rightarrow> int \<Rightarrow> str option \<Rightarrow> json \<Rightarrow> 'g door_db txn \<Rightarrow> (json option \<times> 'g door_db txn) sql" where
  "propose_change G now clk p_kernel p t =
     (let D = gdoor G; E = cenv D; db = ckp (txn_db t); v_pid = clock_id ''proposal-'' clk
      in and_then (config_int E db ''core_graph_id'') (\<lambda>v_core.
         or_reply (op_gate E p) t (\<lambda>v_op.
         or_reply (about_gate (proposal_about E p_kernel p)) t (\<lambda>v_about.
         or_reply (quorum_gate E db p_kernel p) t (\<lambda>v_quorum.
         or_reply (role_gate E (eff t) db (target_project v_about) ''propose'') t (\<lambda>_.
         shape_checked D v_core (proposal_ttl v_pid v_about v_quorum v_op) t (\<lambda>t1.
         and_then (seal_in D now v_pid (proposal_body v_pid v_about v_quorum v_op (proposal_detail p)) t1) (\<lambda>t2.
           Inr (Some (json_obj [(lit ''ok'', JBool True), (lit ''proposal'', JString v_pid),
             (lit ''proposal_iri'', JString (lit ''ckp://Proposal#'' @ v_pid)), (lit ''state'', jlit ''pending''),
             (lit ''op'', JString v_op), (lit ''verified'', JBool (verify_in D t2 v_pid))]), t2)))))))))"

section \<open>vote\<close>

text \<open>\<^verbatim>\<open>SELECT \<dots> INTO\<close> of the Proposal: the first row that matches, in the order of the table.\<close>

definition find_proposal :: "'g ckp_env \<Rightarrow> 'g ckp_db \<Rightarrow> str \<Rightarrow> instance_row option" where
  "find_proposal E db v_about =
     List.find (\<lambda>i. body_text E (i_body i) (lit ''@id'') = Some v_about \<and> of_type E ''Proposal'' i) (t_instances db)"

text \<open>\<^verbatim>\<open>state <> 'pending'\<close> is null, and so not true, without a state.\<close>

definition pending_gate :: "'g ckp_env \<Rightarrow> 'g ckp_db \<Rightarrow> str \<Rightarrow> json + str \<times> json" where
  "pending_gate E db v_about =
     (case find_proposal E db v_about of
        None \<Rightarrow> Inl (refuse ''unknown_proposal'' ''42704'' [(lit ''about'', JString v_about)])
      | Some i \<Rightarrow> (case body_text E (i_body i) (core ''proposalState'') of
          None \<Rightarrow> Inr (i_id i, i_body i)
        | Some st \<Rightarrow> if st = lit ''pending'' then Inr (i_id i, i_body i)
            else Inl (refuse ''proposal_not_pending'' ''55000'' [(lit ''state'', JString st)])))"

definition vote_value :: "'g ckp_env \<Rightarrow> json \<Rightarrow> json + str" where
  "vote_value E p =
     (let v = (case body_text E p (lit ''value'') of Some v \<Rightarrow> Some v | None \<Rightarrow> body_text E p (lit ''voteValue''))
      in case v of
           Some x \<Rightarrow> if x \<in> {lit ''approve'', lit ''reject''} then Inr x
             else Inl (refuse ''invalid_vote_value'' ''22023'' [(lit ''value'', JString x)])
         | None \<Rightarrow> Inl (refuse ''invalid_vote_value'' ''22023'' [(lit ''value'', JNull)]))"

definition vote_ttl :: "str \<Rightarrow> str \<Rightarrow> str \<Rightarrow> str" where
  "vote_ttl v_vid v_about v_value =
     core_prefix @ lit ''<ckp://Vote#'' @ v_vid @ lit ''> a ckp:Vote ; ckp:about <'' @ v_about @ lit ''> ; '' @
     lit ''ckp:voteValue '' @ quoted v_value @ lit '' .''"

definition vote_body :: "str \<Rightarrow> str \<Rightarrow> str \<Rightarrow> json" where
  "vote_body v_vid v_about v_value = json_obj
     [(lit ''type'', JString (core ''Vote'')), (lit ''@id'', JString (lit ''ckp://Vote#'' @ v_vid)),
      (core ''about'', JString v_about), (core ''voteValue'', JString v_value)]"

text \<open>\<^verbatim>\<open>count(DISTINCT createdBy)\<close> over the approvals, without the anonymous ones.\<close>

definition approves :: "'g ckp_env \<Rightarrow> str \<Rightarrow> instance_row \<Rightarrow> bool" where
  "approves E v_about i \<longleftrightarrow>
     of_type E ''Vote'' i \<and> body_text E (i_body i) (core ''about'') = Some v_about \<and>
     body_text E (i_body i) (core ''voteValue'') = Some (lit ''approve'') \<and>
     \<not> starts_with (lit ''urn:ckp:participant:anon:'') (coalesce_text (body_text E (i_body i) (core ''createdBy'')) [])"

definition approvers :: "'g ckp_env \<Rightarrow> 'g ckp_db \<Rightarrow> str \<Rightarrow> str list" where
  "approvers E db v_about =
     remdups (List.map_filter (\<lambda>i. body_text E (i_body i) (core ''createdBy'')) (filter (approves E v_about) (t_instances db)))"

definition required_quorum :: "'g ckp_env \<Rightarrow> json \<Rightarrow> int sql" where
  "required_quorum E v_prop =
     (case body_text E v_prop (core ''requiresQuorum'') of None \<Rightarrow> Inr 1 | Some s \<Rightarrow> int4_in E s)"

definition sealed_target :: "'g ckp_env \<Rightarrow> json \<Rightarrow> str option" where
  "sealed_target E v_prop = Option.bind (body_text E v_prop (core ''about'')) target_project"

definition vote :: "'g gov_env \<Rightarrow> int \<Rightarrow> int \<Rightarrow> json \<Rightarrow> 'g door_db txn \<Rightarrow> (json option \<times> 'g door_db txn) sql" where
  "vote G now clk p t =
     (let D = gdoor G; E = cenv D; db = ckp (txn_db t); v_vid = clock_id ''vote-'' clk
      in and_then (config_int E db ''core_graph_id'') (\<lambda>v_core.
         or_reply (vote_value E p) t (\<lambda>v_value.
         or_reply (about_gate (body_text E p (lit ''about''))) t (\<lambda>v_about.
         or_reply (pending_gate E db v_about) t (\<lambda>(pid, v_prop).
         or_reply (role_gate E (eff t) db (sealed_target E v_prop) ''vote'') t (\<lambda>_.
         and_then (required_quorum E v_prop) (\<lambda>v_quorum.
         shape_checked D v_core (vote_ttl v_vid v_about v_value) t (\<lambda>t1.
         and_then (seal_in D now v_vid (vote_body v_vid v_about v_value) t1) (\<lambda>t2.
           let v_approvals = int (length (approvers E (ckp (txn_db t2)) v_about))
           in Inr (Some (json_obj [(lit ''ok'', JBool True), (lit ''vote'', JString v_vid), (lit ''proposal'', JString v_about),
                (lit ''value'', JString v_value), (lit ''approvals'', JNumber (JInt v_approvals)),
                (lit ''quorum'', JNumber (JInt v_quorum)), (lit ''quorum_met'', JBool (v_quorum \<le> v_approvals)),
                (lit ''verified'', JBool (verify_in D t2 v_vid))]), t2))))))))))"

section \<open>The operations of a proposal\<close>

definition op_refused :: "string \<Rightarrow> 'a sql" where
  "op_refused m = Inl (Governed_Op_Refused m)"

definition iri_or :: "string \<Rightarrow> str option \<Rightarrow> str sql" where
  "iri_or m x = (case x of Some s \<Rightarrow> if iri_chars s then Inr s else op_refused m | None \<Rightarrow> op_refused m)"

definition min_count :: "'g ckp_env \<Rightarrow> string \<Rightarrow> json \<Rightarrow> int sql" where
  "min_count E m d =
     (case body_text E d (lit ''minCount'') of
        None \<Rightarrow> Inr 1
      | Some s \<Rightarrow> (case int4_in E s of Inl e \<Rightarrow> op_refused m | Inr n \<Rightarrow> Inr n))"

definition datatype_part :: "'g ckp_env \<Rightarrow> string \<Rightarrow> json \<Rightarrow> str sql" where
  "datatype_part E m d =
     (case body_text E d (lit ''datatype'') of
        None \<Rightarrow> Inr []
      | Some s \<Rightarrow> if iri_chars s then Inr (lit '' ; sh:datatype <'' @ s @ lit ''>'') else op_refused m)"

text \<open>\<^verbatim>\<open>(regexp_match(producedBy, '^urn:ckp:([^/]+)/kernel'))[1]\<close>\<close>

definition producer_segment :: "'g ckp_env \<Rightarrow> json \<Rightarrow> str option" where
  "producer_segment E v_prop =
     (case strip_prefix (lit ''urn:ckp:'') (coalesce_text (body_text E v_prop (core ''producedBy'')) []) of
        None \<Rightarrow> None
      | Some r \<Rightarrow>
          let seg = takeWhile (\<lambda>c. c \<noteq> 47) r
          in if seg \<noteq> [] \<and> starts_with (lit ''/kernel'') (drop (length seg) r) then Some seg else None)"

definition local_slug :: "'g ckp_env \<Rightarrow> str \<Rightarrow> str" where
  "local_slug E iri = slug (lower_text E) (after_last (\<lambda>c. c = 47 \<or> c = 35 \<or> c = 58) iri)"

definition prop_line :: "str \<Rightarrow> str \<Rightarrow> int \<Rightarrow> str \<Rightarrow> str" where
  "prop_line node path mn dt = lit ''<'' @ node @ lit ''> sh:path <'' @ path @ lit ''> ; sh:minCount '' @ show_int mn @ dt @ lit '' .''"

definition sh_prefix :: str where
  "sh_prefix = lit ''@prefix sh: <http://www.w3.org/ns/shacl#> .'' @ [lf]"

definition owl_prefix :: str where
  "owl_prefix = lit ''@prefix owl: <http://www.w3.org/2002/07/owl#> .'' @ [lf]"

definition add_property_ttl :: "'g gov_env \<Rightarrow> str option \<Rightarrow> json \<Rightarrow> str sql" where
  "add_property_ttl G v_seg v_detail =
     (let E = genv G
      in and_then (iri_or ''targetClass'' (body_text E v_detail (lit ''targetClass''))) (\<lambda>v_class.
         and_then (iri_or ''path'' (body_text E v_detail (lit ''path''))) (\<lambda>v_path.
         and_then (min_count E ''minCount'' v_detail) (\<lambda>v_min.
         and_then (datatype_part E ''datatype'' v_detail) (\<lambda>v_dt_line.
         case v_seg of
           None \<Rightarrow> op_refused ''producedBy''
         | Some seg \<Rightarrow>
             let v_shape = lit ''urn:ckp:'' @ seg @ lit ''/shape/'' @ local_slug E v_class @ lit ''--'' @ local_slug E v_path @
                   lit ''--'' @ take 8 (md5_text G (v_class @ lit ''|'' @ v_path))
             in Inr (sh_prefix @ lit ''<'' @ v_shape @ lit ''> a sh:NodeShape ; sh:targetClass <'' @ v_class @ lit ''> ; '' @
                  lit ''sh:property <'' @ v_shape @ lit ''/p> .'' @ [lf] @ prop_line (v_shape @ lit ''/p'') v_path v_min v_dt_line))))))"

text \<open>The property shapes of \<^verbatim>\<open>add_class\<close>: the references and the lines that define them.\<close>

fun class_properties :: "'g gov_env \<Rightarrow> str \<Rightarrow> json list \<Rightarrow> (str \<times> str) sql" where
  "class_properties G v_shape [] = Inr ([], [])"
| "class_properties G v_shape (m # ms) =
     and_then (iri_or ''property path'' (body_text (genv G) m (lit ''path''))) (\<lambda>v_path.
     and_then (min_count (genv G) ''property minCount'' m) (\<lambda>v_min.
     and_then (datatype_part (genv G) ''property datatype'' m) (\<lambda>v_dt_line.
     and_then (class_properties G v_shape ms) (\<lambda>(refs, ls).
       let node = v_shape @ lit ''/p'' @ take 8 (md5_text G v_path)
       in Inr (lit '' ; sh:property <'' @ node @ lit ''>'' @ refs, prop_line node v_path v_min v_dt_line @ [lf] @ ls)))))"

definition ignored_default :: "str list" where
  "ignored_default = [lit ''http://www.w3.org/1999/02/22-rdf-syntax-ns#type'', core ''createdBy'', core ''producedBy'',
     core ''sealedAtEpoch'', core ''conformsToShape'', core ''participant'', lit ''urn:ckp:board/created_at'', lit ''urn:ckp:board/created_by'']"

text \<open>The extension of the list: a JSON null passes the test and makes the text null.\<close>

fun ignored_extra :: "'g ckp_env \<Rightarrow> json list \<Rightarrow> str option sql" where
  "ignored_extra E [] = Inr (Some [])"
| "ignored_extra E (x # xs) =
     (case text_of (jsonb_text E) x of
        None \<Rightarrow> and_then (ignored_extra E xs) (\<lambda>_. Inr None)
      | Some s \<Rightarrow> if iri_chars s
          then and_then (ignored_extra E xs) (\<lambda>r. Inr (map_option (\<lambda>l. lit '' <'' @ s @ lit ''>'' @ l) r))
          else op_refused ''ignoredProperties'')"

definition array_or_empty :: "json option \<Rightarrow> json list" where
  "array_or_empty j = (case j of Some (JArray a) \<Rightarrow> a | _ \<Rightarrow> [])"

definition closed_part :: "'g ckp_env \<Rightarrow> json \<Rightarrow> str option sql" where
  "closed_part E v_detail =
     (if coalesce_text (body_text E v_detail (lit ''closed'')) (lit ''false'') = lit ''true''
      then and_then (ignored_extra E (array_or_empty (json_get v_detail (lit ''ignoredProperties'')))) (\<lambda>ext.
             Inr (map_option (\<lambda>l. lit '' ; sh:closed true ; sh:ignoredProperties ('' @
               concat (map (\<lambda>i. lit '' <'' @ i @ lit ''>'') ignored_default) @ l @ lit '' )'') ext))
      else Inr (Some []))"

definition add_class_ttl :: "'g gov_env \<Rightarrow> str option \<Rightarrow> str option \<Rightarrow> json \<Rightarrow> str option sql" where
  "add_class_ttl G v_seg v_about v_detail =
     (let E = genv G;
          cls = (case body_text E v_detail (lit ''class'') of Some c \<Rightarrow> Some c
                 | None \<Rightarrow> (case body_text E v_detail (lit ''targetClass'') of Some c \<Rightarrow> Some c | None \<Rightarrow> v_about))
      in and_then (iri_or ''class'' cls) (\<lambda>v_class.
         case v_seg of
           None \<Rightarrow> op_refused ''producedBy''
         | Some seg \<Rightarrow>
             let v_shape = lit ''urn:ckp:'' @ seg @ lit ''/shape/'' @ local_slug E v_class @ lit ''--'' @ take 8 (md5_text G v_class);
                 class_line = lit ''<'' @ v_class @ lit ''> a owl:Class .''
             in and_then (class_properties G v_shape (array_or_empty (json_get v_detail (lit ''properties'')))) (\<lambda>(refs, ls).
                if refs = [] then Inr (Some (owl_prefix @ class_line))
                else and_then (closed_part E v_detail) (\<lambda>cl.
                  Inr (map_option (\<lambda>c. owl_prefix @ sh_prefix @ class_line @ [lf] @
                    lit ''<'' @ v_shape @ lit ''> a sh:NodeShape ; sh:targetClass <'' @ v_class @ lit ''>'' @ refs @ c @ lit '' .'' @ [lf] @ ls) cl)))))"

text \<open>\<^verbatim>\<open>set_transition_map\<close>: a to-state that is null makes the text null.\<close>

definition transition_line :: "str \<Rightarrow> str \<Rightarrow> str \<Rightarrow> str" where
  "transition_line v_class v_fs v_ts =
     lit ''<'' @ v_class @ lit ''> ckp:allowsTransition '' @ lit ''[ ckp:fromState '' @ quoted v_fs @ lit '' ; ckp:toState '' @
     quoted v_ts @ lit '' ] .'' @ [lf]"

fun to_states :: "'g ckp_env \<Rightarrow> str \<Rightarrow> str \<Rightarrow> json list \<Rightarrow> str option \<Rightarrow> str option sql" where
  "to_states E v_class v_fs [] acc = Inr acc"
| "to_states E v_class v_fs (x # xs) acc =
     (case text_of (jsonb_text E) x of
        None \<Rightarrow> to_states E v_class v_fs xs None
      | Some v_ts \<Rightarrow> if state_name v_ts then to_states E v_class v_fs xs (map_option (\<lambda>a. a @ transition_line v_class v_fs v_ts) acc)
          else op_refused ''bad to-state'')"

fun from_states :: "'g ckp_env \<Rightarrow> str \<Rightarrow> (str \<times> json) list \<Rightarrow> str option \<Rightarrow> str option sql" where
  "from_states E v_class [] acc = Inr acc"
| "from_states E v_class ((v_fs, v) # kvs) acc =
     (if \<not> state_name v_fs then op_refused ''bad from-state''
      else case v of
        JArray a \<Rightarrow> and_then (to_states E v_class v_fs a acc) (from_states E v_class kvs)
      | _ \<Rightarrow> op_refused ''map[] must be an array of to-states'')"

definition transition_map_ttl :: "'g ckp_env \<Rightarrow> json \<Rightarrow> str option sql" where
  "transition_map_ttl E v_detail =
     and_then (iri_or ''targetClass'' (body_text E v_detail (lit ''targetClass''))) (\<lambda>v_class.
       case json_get v_detail (lit ''map'') of
         Some (JObject m) \<Rightarrow> from_states E v_class (jsonb_each (JObject m)) (Some core_prefix)
       | _ \<Rightarrow> op_refused ''map must be an object'')"

definition op_to_ttl :: "'g gov_env \<Rightarrow> json \<Rightarrow> str option sql" where
  "op_to_ttl G p_prop =
     (let E = genv G; v_op = body_text E p_prop (core ''proposalOp'');
          v_detail = (case json_get p_prop (lit ''proposalDetail'') of Some d \<Rightarrow> d | None \<Rightarrow> json_obj []);
          v_seg = producer_segment E p_prop
      in if v_op = Some (lit ''add_property'') then and_then (add_property_ttl G v_seg v_detail) (\<lambda>s. Inr (Some s))
         else if v_op = Some (lit ''add_class'') then add_class_ttl G v_seg (body_text E p_prop (core ''about'')) v_detail
         else if v_op = Some (lit ''set_transition_map'') then transition_map_ttl E v_detail
         else Inr None)"

end
