(* ===== verification/Ckp_Apply.thy ===== *)
theory Ckp_Apply
  imports Ckp_Govern
begin

text \<open>
  \<^verbatim>\<open>ckp.apply\<close> of \<^verbatim>\<open>src/sql/pgck-baseline.sql\<close>: the gates (ownership, pending, roles, quorum), the graph
  change, the kernel policy, the epoch with its sealed Epoch and Materialization, the registration of
  affordances and proof obligations, and the re-seal of the proposal as applied; then the handlers
  that the governance and the re-sealing verbs give the door.
\<close>

section \<open>Epoch and plans\<close>

definition put_plan :: "plan_row \<Rightarrow> plan_row list \<Rightarrow> plan_row list" where
  "put_plan r rows =
     filter (\<lambda>x. \<not> (pl_kernel x = pl_kernel r \<and> pl_verb x = pl_verb r \<and> pl_epoch x = pl_epoch r)) rows @ [r]"

definition sql_plan :: "string \<Rightarrow> string list \<Rightarrow> json" where
  "sql_plan stmt params = json_obj [(lit ''kind'', jlit ''sql''), (lit ''statement'', jlit stmt), (lit ''params'', JArray (map jlit params))]"

definition compile_plans :: "str \<Rightarrow> int \<Rightarrow> plan_row list \<Rightarrow> plan_row list" where
  "compile_plans k ep rows =
     put_plan \<lparr>pl_kernel = k, pl_verb = lit ''instance.count'', pl_epoch = ep, pl_plan = sql_plan ''SELECT count(*) AS n FROM ckp.instances'' []\<rparr>
       (put_plan \<lparr>pl_kernel = k, pl_verb = lit ''instance.get'', pl_epoch = ep,
          pl_plan = sql_plan ''SELECT body FROM ckp.instances WHERE id = $1'' [''id'']\<rparr> rows)"

text \<open>\<^verbatim>\<open>kernel_epoch.kernel\<close> is not null, and \<^verbatim>\<open>epoch\<close> is an \<^verbatim>\<open>integer\<close>.\<close>

definition bump_epoch :: "'g gov_env \<Rightarrow> str option \<Rightarrow> 'g door_db txn \<Rightarrow> (int \<times> 'g door_db txn) sql" where
  "bump_epoch G p_kernel t =
     (case p_kernel of
        None \<Rightarrow> Inl (Engine_Error (lit ''23502'') (lit ''null value in column kernel''))
      | Some k \<Rightarrow>
          let d = txn_db t; ep = epoch_of (ckp d) (Some k) + 1
          in if 2 ^ 31 \<le> ep then Inl (Engine_Error (lit ''22003'') (lit ''integer out of range''))
             else Inr (ep, t\<lparr>txn_db := d\<lparr>
                    ckp := (ckp d)\<lparr>t_kernel_epoch := (t_kernel_epoch (ckp d))(k \<mapsto> ep), rdf := plan_cache_clear G (rdf (ckp d))\<rparr>,
                    plans := compile_plans k ep (plans d)\<rparr>\<rparr>))"

section \<open>Registrations\<close>

text \<open>\<^verbatim>\<open>^[a-z][a-z0-9_.]*$\<close> and \<^verbatim>\<open>^[a-z][a-z0-9-]*$\<close>\<close>

definition lower_name :: "(rchar \<Rightarrow> bool) \<Rightarrow> str \<Rightarrow> bool" where
  "lower_name extra s \<longleftrightarrow> (case s of [] \<Rightarrow> False
     | c # cs \<Rightarrow> 97 \<le> c \<and> c \<le> 122 \<and> list_all (\<lambda>c. ascii_lower_digit c \<or> extra c) cs)"

definition put_affordance :: "affordance \<Rightarrow> affordance list \<Rightarrow> affordance list" where
  "put_affordance r rows =
     (if list_ex (\<lambda>x. a_kernel x = a_kernel r \<and> a_verb x = a_verb r) rows
      then map (\<lambda>x. if a_kernel x = a_kernel r \<and> a_verb x = a_verb r
                    then x\<lparr>a_plane := lit ''query'', a_epoch := a_epoch r, a_out_topic := a_out_topic r\<rparr> else x) rows
      else rows @ [r])"

definition detail_of :: "json \<Rightarrow> json" where
  "detail_of p_prop = (case json_get p_prop (lit ''proposalDetail'') of Some d \<Rightarrow> d | None \<Rightarrow> json_obj [])"

definition affordance_of :: "str \<Rightarrow> str \<Rightarrow> int \<Rightarrow> affordance" where
  "affordance_of p_project v_verb p_epoch =
     \<lparr>a_kernel = p_project, a_verb = v_verb, a_in_topic = lit ''input.kernel.'' @ p_project @ lit ''.action.'' @ v_verb,
      a_out_topic = Some (lit ''result.kernel.'' @ p_project @ lit ''.'' @ v_verb), a_plane = lit ''query'', a_epoch = p_epoch, a_delegate = False\<rparr>"

definition materialization_iri :: "str \<Rightarrow> int \<Rightarrow> str" where
  "materialization_iri proj ep = lit ''urn:ckp:'' @ proj @ lit ''/materialization/'' @ show_int ep"

definition affordance_body :: "str \<Rightarrow> str \<Rightarrow> int \<Rightarrow> json" where
  "affordance_body p_project v_verb p_epoch = json_obj
     [(lit ''type'', JString (core ''Affordance'')), (lit ''@id'', JString (lit ''ckp://Affordance#'' @ p_project @ lit ''.'' @ v_verb)),
      (core ''inTopic'', JString (lit ''input.kernel.'' @ p_project @ lit ''.action.'' @ v_verb)),
      (core ''outTopic'', JString (lit ''result.kernel.'' @ p_project @ lit ''.'' @ v_verb)),
      (core ''plane'', jlit ''derived''), (core ''derivedBy'', JString (materialization_iri p_project p_epoch))]"

definition register_query_affordance ::
    "'g gov_env \<Rightarrow> int \<Rightarrow> json \<Rightarrow> str \<Rightarrow> int \<Rightarrow> 'g door_db txn \<Rightarrow> 'g door_db txn sql" where
  "register_query_affordance G now p_prop p_project p_epoch t =
     (let E = genv G; v_detail = detail_of p_prop; v_query = coalesce_text (body_text E v_detail (lit ''query'')) [];
          v_params = (case json_get v_detail (lit ''params'') of Some x \<Rightarrow> x | None \<Rightarrow> JArray []);
          nm = lower_name (\<lambda>c. c = 95 \<or> c = dot)
      in case body_text E v_detail (lit ''verb'') of
           None \<Rightarrow> op_refused ''verb must be a safe dotted name''
         | Some v_verb \<Rightarrow>
             if \<not> nm v_verb then op_refused ''verb must be a safe dotted name''
             else if btrim spc v_query = [] then op_refused ''query text required''
             else case v_params of
               JArray ps \<Rightarrow>
                 if \<not> list_all (\<lambda>x. case text_of (jsonb_text E) x of None \<Rightarrow> True | Some s \<Rightarrow> nm s) ps then op_refused ''unsafe param name''
                 else let d = txn_db t;
                          plan = json_obj [(lit ''kind'', jlit ''sparql''), (lit ''statement'', JString v_query), (lit ''params'', v_params)];
                          t1 = t\<lparr>txn_db := d\<lparr>plans := put_plan \<lparr>pl_kernel = p_project, pl_verb = v_verb, pl_epoch = p_epoch, pl_plan = plan\<rparr> (plans d),
                                 registry := put_affordance (affordance_of p_project v_verb p_epoch) (registry d)\<rparr>\<rparr>
                      in seal_in (gdoor G) now (lit ''aff-'' @ p_project @ lit ''-'' @ map (\<lambda>c. if c = dot then dash else c) v_verb)
                           (affordance_body p_project v_verb p_epoch) t1
             | _ \<Rightarrow> op_refused ''params must be a JSON array of names'')"

definition check_registry :: "string list" where
  "check_registry = [''digest-match'', ''adopts-resolves'', ''structural-pin'', ''no-warnings'']"

definition put_obligation :: "obligation_row \<Rightarrow> obligation_row list \<Rightarrow> obligation_row list" where
  "put_obligation r rows =
     (if list_ex (\<lambda>x. o_project x = o_project r \<and> o_obligation x = o_obligation r) rows
      then map (\<lambda>x. if o_project x = o_project r \<and> o_obligation x = o_obligation r then r else x) rows
      else rows @ [r])"

definition drop_obligation :: "str \<Rightarrow> str \<Rightarrow> obligation_row list \<Rightarrow> obligation_row list sql" where
  "drop_obligation p_project v_ob rows =
     (if list_ex (\<lambda>x. o_project x = p_project \<and> o_obligation x = v_ob) rows
      then Inr (map (\<lambda>x. if o_project x = p_project \<and> o_obligation x = v_ob then x\<lparr>o_active := False\<rparr> else x) rows)
      else op_refused ''no such obligation to deactivate'')"

definition obligation_change :: "'g gov_env \<Rightarrow> json \<Rightarrow> str \<Rightarrow> int \<Rightarrow> obligation_row list \<Rightarrow> obligation_row list sql" where
  "obligation_change G p_prop p_project p_epoch rows =
     (let E = genv G; v_detail = detail_of p_prop
      in case body_text E v_detail (lit ''obligation'') of
           None \<Rightarrow> op_refused ''obligation must be a lowercase dashed name''
         | Some v_ob \<Rightarrow>
             if \<not> lower_name (\<lambda>c. c = dash) v_ob then op_refused ''obligation must be a lowercase dashed name''
             else and_then (case body_text E v_detail (lit ''active'') of None \<Rightarrow> Inr True
                    | Some s \<Rightarrow> (case bool_in G s of Inl e \<Rightarrow> op_refused ''active must be a boolean'' | Inr b \<Rightarrow> Inr b)) (\<lambda>v_active.
               if \<not> v_active then drop_obligation p_project v_ob rows
               else and_then (iri_or ''targetType must be a type IRI'' (body_text E v_detail (lit ''targetType''))) (\<lambda>v_type.
                 case body_text E v_detail (lit ''check'') of
                   None \<Rightarrow> op_refused ''check is not in the fixed registry''
                 | Some v_chk \<Rightarrow>
                     if v_chk \<notin> lit ` set check_registry then op_refused ''check is not in the fixed registry''
                     else Inr (put_obligation \<lparr>o_project = p_project, o_obligation = v_ob, o_target_type = v_type, o_check_name = v_chk,
                            o_added_epoch = p_epoch, o_active = True\<rparr> rows))))"

definition register_proof_obligation :: "'g gov_env \<Rightarrow> json \<Rightarrow> str \<Rightarrow> int \<Rightarrow> 'g door_db txn \<Rightarrow> 'g door_db txn sql" where
  "register_proof_obligation G p_prop p_project p_epoch t =
     and_then (obligation_change G p_prop p_project p_epoch (t_obligations (ckp (txn_db t)))) (\<lambda>rows.
       Inr (t\<lparr>txn_db := (txn_db t)\<lparr>ckp := (ckp (txn_db t))\<lparr>t_obligations := rows\<rparr>\<rparr>\<rparr>))"

section \<open>The gates of apply\<close>

text \<open>A declared owner of the target project binds; an undeclared one imposes nothing.\<close>

definition ownership_gate :: "'g ckp_env \<Rightarrow> (str \<Rightarrow> str option) \<Rightarrow> 'g ckp_db \<Rightarrow> str \<Rightarrow> json + unit" where
  "ownership_gate E s db v_about =
     (case Option.bind (target_project v_about) (\<lambda>p. project_owner E db (project_iri p)) of
        None \<Rightarrow> Inr ()
      | Some v_owner \<Rightarrow> guard_or (owner_self E s = Some v_owner) (not_owner [(lit ''about'', JString v_about)] v_owner))"

definition apply_gates :: "'g ckp_env \<Rightarrow> (str \<Rightarrow> str option) \<Rightarrow> 'g ckp_db \<Rightarrow> str \<Rightarrow> json + str \<times> json" where
  "apply_gates E s db v_about =
     and_then (ownership_gate E s db v_about) (\<lambda>_.
     and_then (pending_gate E db v_about) (\<lambda>(v_pid, v_prop).
     and_then (ownership_gate E s db (coalesce_text (body_text E v_prop (core ''about'')) [])) (\<lambda>_.
     and_then (role_gate E s db (sealed_target E v_prop) ''apply'') (\<lambda>_. Inr (v_pid, v_prop)))))"

text \<open>The quorum: what the proposal asks for, and at least the floor of the session's project.\<close>

definition apply_quorum :: "'g ckp_env \<Rightarrow> 'g ckp_db \<Rightarrow> str option \<Rightarrow> json \<Rightarrow> int sql" where
  "apply_quorum E db v_proj v_prop = and_then (required_quorum E v_prop) (\<lambda>q. Inr (max q (quorum_floor E db v_proj)))"

definition quorum_met :: "int \<Rightarrow> int \<Rightarrow> json + unit" where
  "quorum_met v_approvals v_quorum =
     guard_or (v_quorum \<le> v_approvals) (refuse ''quorum_not_met'' ''55000''
       [(lit ''approvals'', JNumber (JInt v_approvals)), (lit ''quorum'', JNumber (JInt v_quorum))])"

section \<open>The effects of apply\<close>

type_synonym 'g stage = "((json + json) \<times> 'g door_db txn) sql"

text \<open>Each stage ends with a refusal that is returned, or with its part of the report.\<close>

definition stage_then :: "'g stage \<Rightarrow> (json \<Rightarrow> 'g door_db txn \<Rightarrow> (json option \<times> 'g door_db txn) sql) \<Rightarrow> (json option \<times> 'g door_db txn) sql" where
  "stage_then m k = and_then m (\<lambda>(r, t). case r of Inl j \<Rightarrow> Inr (Some j, t) | Inr a \<Rightarrow> k a t)"

text \<open>4a: the graph change of the shape operations.\<close>

definition graph_stage :: "'g gov_env \<Rightarrow> str option \<Rightarrow> json \<Rightarrow> 'g door_db txn \<Rightarrow> 'g stage" where
  "graph_stage G v_proj v_prop t =
     (case op_to_ttl G v_prop of
        Inl e \<Rightarrow> Inr (Inl (refuse ''op_translate_failed'' ''22023'' [(lit ''detail'', JString (err_text (gdoor G) e))]), aborted (gdoor G) t)
      | Inr None \<Rightarrow> Inr (Inr (json_obj [(lit ''graph_changed'', JBool False)]), t)
      | Inr (Some v_ttl) \<Rightarrow>
          and_then (apply_shape_ttl G v_ttl v_proj (rdf (ckp (txn_db t)))) (\<lambda>(v_ga, g).
            if is_true (body_text (genv G) v_ga (lit ''ok''))
            then Inr (Inr (json_obj [(lit ''graph_changed'', JBool True),
                   (lit ''applied_quads'', case json_get v_ga (lit ''applied_quads'') of None \<Rightarrow> JNull | Some v \<Rightarrow> v)]), put_rdf g t)
            else Inr (Inl (refuse ''graph_apply_failed'' ''55000'' [(lit ''detail'', v_ga)]), put_rdf g t)))"

text \<open>4a-bis: a policy field is patched on the sealed Kernel, through \<^verbatim>\<open>update_typed\<close>.\<close>

definition policy_stage :: "'g gov_env \<Rightarrow> int \<Rightarrow> str option \<Rightarrow> str option \<Rightarrow> json \<Rightarrow> json \<Rightarrow> 'g door_db txn \<Rightarrow> 'g stage" where
  "policy_stage G now v_proj v_op v_prop v_applied t =
     (if v_op \<noteq> Some (lit ''set_kernel_policy'') then Inr (Inr v_applied, t)
      else case (Option.bind (json_get v_prop (lit ''proposalDetail'')) (\<lambda>d. body_text (genv G) d (lit ''field'')),
                 Option.bind (json_get v_prop (lit ''proposalDetail'')) (\<lambda>d. json_get d (lit ''value''))) of
        (Some v_field, Some v_val) \<Rightarrow>
          and_then (update_typed G now (json_obj [(lit ''id'', jtext (map_option kernel_iri v_proj)),
              (lit ''patch'', json_obj [(core_ns @ v_field, v_val)])]) t) (\<lambda>(v_upd, t').
            if is_true (Option.bind v_upd (\<lambda>u. body_text (genv G) u (lit ''ok'')))
            then Inr (Inr (jsonb_concat v_applied (json_obj [(lit ''policy'',
                   json_obj [(lit ''field'', JString v_field), (lit ''value'', v_val)])])), t')
            else Inr (Inl (refuse ''policy_apply_refused'' ''55000'' [(lit ''field'', JString v_field),
                   (lit ''detail'', case v_upd of None \<Rightarrow> JNull | Some u \<Rightarrow> u)]), t'))
      | _ \<Rightarrow> Inr (Inl (refuse ''invalid_patch'' ''22023'' []), t))"

text \<open>4b: the epoch, its sealed Epoch and the sealed Materialization that produced it.\<close>

definition epoch_iri :: "str \<Rightarrow> int \<Rightarrow> str" where
  "epoch_iri proj ep = lit ''urn:ckp:'' @ proj @ lit ''/epoch/'' @ show_int ep"

definition epoch_body :: "str \<Rightarrow> int \<Rightarrow> str \<Rightarrow> str \<Rightarrow> json" where
  "epoch_body proj ep surf struc = json_obj
     [(lit ''type'', JString (core ''Epoch'')), (lit ''@id'', JString (epoch_iri proj ep)), (core ''epoch'', JNumber (JInt ep)),
      (core ''surfaceDigest'', JString surf), (core ''structuralDigest'', JString struc)]"

definition materialization_body :: "str \<Rightarrow> int \<Rightarrow> int \<Rightarrow> str \<Rightarrow> str \<Rightarrow> json" where
  "materialization_body proj v_from ep srcd surf = json_obj
     [(lit ''type'', JString (core ''Materialization'')), (lit ''@id'', JString (materialization_iri proj ep)),
      (core ''materializes'', JString (kernel_graph_iri proj)), (core ''fromEpoch'', JNumber (JInt v_from)),
      (core ''toEpoch'', JNumber (JInt ep)), (core ''sourceDigest'', JString srcd), (core ''surfaceDigest'', JString surf),
      (core ''producesEpoch'', JString (epoch_iri proj ep))]"

definition epoch_id :: "string \<Rightarrow> str \<Rightarrow> int \<Rightarrow> str" where
  "epoch_id prefix proj ep = lit prefix @ proj @ lit ''-'' @ show_int ep"

definition cascade :: "'g gov_env \<Rightarrow> int \<Rightarrow> str option \<Rightarrow> 'g door_db txn \<Rightarrow> (int \<times> 'g door_db txn) sql" where
  "cascade G now v_proj t =
     (let D = gdoor G; E = cenv D; v_from = epoch_of (ckp (txn_db t)) v_proj; proj = coalesce_text v_proj []
      in and_then (bump_epoch G v_proj t) (\<lambda>(v_epoch, t1).
         and_then (composed_shapes E v_proj None (ckp (txn_db t1))) (\<lambda>(v_comp_e, g2).
         and_then (add_graph G (kernel_graph_iri proj) g2) (\<lambda>(src, g3).
         and_then (surface_digest G src g3) (\<lambda>v_srcd.
         and_then (surface_digest G v_comp_e g3) (\<lambda>v_surfd.
         and_then (structural_digest_of G v_comp_e g3) (\<lambda>v_struct.
         and_then (seal_in D now (epoch_id ''epoch-'' proj v_epoch) (epoch_body proj v_epoch v_surfd v_struct) (put_rdf g3 t1)) (\<lambda>t4.
         let t5 = t4\<lparr>txn_db := (txn_db t4)\<lparr>epoch_surface := (epoch_surface (txn_db t4))(proj \<mapsto> v_surfd)\<rparr>\<rparr>
         in and_then (seal_in D now (epoch_id ''mat-'' proj v_epoch) (materialization_body proj v_from v_epoch v_srcd v_surfd) t5) (\<lambda>t6.
            Inr (v_epoch, t6))))))))))"

text \<open>4c and 4d: a registration that raises is rolled back alone and answered with a refusal.\<close>

definition register_stage ::
    "'g gov_env \<Rightarrow> int \<Rightarrow> str option \<Rightarrow> str option \<Rightarrow> int \<Rightarrow> json \<Rightarrow> json \<Rightarrow> 'g door_db txn \<Rightarrow> 'g stage" where
  "register_stage G now v_proj v_op v_epoch v_prop v_applied t =
     (let E = genv G; proj = coalesce_text v_proj []; d = detail_of v_prop;
          failed = (\<lambda>c e. Inr (Inl (refuse c ''55000'' [(lit ''detail'', JString (err_text (gdoor G) e))]), aborted (gdoor G) t))
      in if v_op = Some (lit ''add_affordance'') \<and> has_key d (lit ''query'')
         then (case register_query_affordance G now v_prop proj v_epoch t of
                 Inl e \<Rightarrow> failed ''affordance_register_failed'' e
               | Inr t' \<Rightarrow> Inr (Inr (jsonb_concat v_applied (json_obj [(lit ''query_affordance'', jtext (body_text E d (lit ''verb'')))])), t'))
         else if v_op = Some (lit ''add_proof_obligation'')
         then (case register_proof_obligation G v_prop proj v_epoch t of
                 Inl e \<Rightarrow> failed ''obligation_register_failed'' e
               | Inr t' \<Rightarrow> Inr (Inr (jsonb_concat v_applied (json_obj [(lit ''proof_obligation'', jtext (body_text E d (lit ''obligation''))),
                     (lit ''obligation_active'', JString (coalesce_text (body_text E d (lit ''active'')) (lit ''true'')))])), t'))
         else Inr (Inr v_applied, t))"

definition applied_body :: "int \<Rightarrow> json \<Rightarrow> json" where
  "applied_body v_epoch v_prop =
     jsonb_concat v_prop (json_obj [(core ''proposalState'', jlit ''applied''), (core ''appliedEpoch'', JString (show_int v_epoch))])"

definition applied_reply :: "'g gov_env \<Rightarrow> str \<Rightarrow> str \<Rightarrow> str option \<Rightarrow> int \<Rightarrow> int \<Rightarrow> int \<Rightarrow> json \<Rightarrow> 'g door_db txn \<Rightarrow> json" where
  "applied_reply G v_about v_pid v_op v_epoch v_approvals v_quorum v_applied t = json_obj
     [(lit ''ok'', JBool True), (lit ''proposal'', JString v_about), (lit ''state'', jlit ''applied''), (lit ''epoch'', JNumber (JInt v_epoch)),
      (lit ''op'', jtext v_op), (lit ''approvals'', JNumber (JInt v_approvals)), (lit ''quorum'', JNumber (JInt v_quorum)),
      (lit ''rehearsal'', JBool (v_quorum = 1)), (lit ''applied'', v_applied), (lit ''verified'', JBool (verify_in (gdoor G) t v_pid))]"

text \<open>What follows once the gates and the quorum are passed.\<close>

definition enact ::
    "'g gov_env \<Rightarrow> int \<Rightarrow> str option \<Rightarrow> str \<Rightarrow> str \<Rightarrow> json \<Rightarrow> int \<Rightarrow> int \<Rightarrow> 'g door_db txn \<Rightarrow> (json option \<times> 'g door_db txn) sql" where
  "enact G now v_proj v_about v_pid v_prop v_approvals v_quorum t =
     (let v_op = body_text (genv G) v_prop (core ''proposalOp'')
      in stage_then (graph_stage G v_proj v_prop t) (\<lambda>a1 t1.
         stage_then (policy_stage G now v_proj v_op v_prop a1 t1) (\<lambda>a2 t2.
         and_then (cascade G now v_proj t2) (\<lambda>(v_epoch, t3).
         stage_then (register_stage G now v_proj v_op v_epoch v_prop a2 t3) (\<lambda>a4 t4.
         and_then (seal_in (gdoor G) now v_pid (applied_body v_epoch v_prop) t4) (\<lambda>t5.
           Inr (Some (applied_reply G v_about v_pid v_op v_epoch v_approvals v_quorum a4 t5), t5)))))))"

definition apply_change :: "'g gov_env \<Rightarrow> int \<Rightarrow> json \<Rightarrow> 'g door_db txn \<Rightarrow> (json option \<times> 'g door_db txn) sql" where
  "apply_change G now p t =
     (let E = genv G; db = ckp (txn_db t)
      in and_then (resolve_project E (eff t) db) (\<lambda>v_proj.
         or_reply (about_gate (body_text E p (lit ''about''))) t (\<lambda>v_about.
         or_reply (apply_gates E (eff t) db v_about) t (\<lambda>(v_pid, v_prop).
         and_then (apply_quorum E db v_proj v_prop) (\<lambda>v_quorum.
         let v_approvals = int (length (approvers E db v_about))
         in or_reply (quorum_met v_approvals v_quorum) t (\<lambda>_.
            enact G now v_proj v_about v_pid v_prop v_approvals v_quorum t))))))"

section \<open>The handlers of the door\<close>

text \<open>\<^verbatim>\<open>propose_change\<close> gets the project that the route has just pinned in the session.\<close>

definition gov_handlers :: "'g gov_env \<Rightarrow> int \<Rightarrow> int \<Rightarrow> 'g handlers \<Rightarrow> 'g handlers" where
  "gov_handlers G now clk H n p t =
     (if n = ''propose_change'' then propose_change G now clk (session (txn_db t) (lit ''ckp.project'')) p t
      else if n = ''vote'' then vote G now clk p t
      else if n = ''apply'' then apply_change G now p t
      else if n = ''update_typed'' then update_typed G now p t
      else if n = ''transition'' then transition G now p t
      else if n = ''retire'' then retire G now p t
      else H n p t)"

end
