(* ===== verification/Ckp_Create.thy ===== *)
theory Ckp_Create
  imports Ckp_Apply
begin

text \<open>
  The verbs of \<^verbatim>\<open>src/sql/pgck-baseline.sql\<close> that mint a new fact: the generic \<^verbatim>\<open>create_typed\<close>, the link and
  the message (\<^verbatim>\<open>edge.create\<close>, \<^verbatim>\<open>notify\<close>), \<^verbatim>\<open>signal_boundary\<close> and \<^verbatim>\<open>germinate_kernel\<close>. The record
  \<open>create_env\<close> holds what they call outside the repository: functions of \<^verbatim>\<open>pgrdf\<close> and the queries
  of it behind \<^verbatim>\<open>declared_predicates\<close>, \<^verbatim>\<open>_adoption_reference\<close> and \<^verbatim>\<open>_law_forces_kernel_epoch\<close>, and
  PostgreSQL's \<^verbatim>\<open>bigint\<close> input and \<^verbatim>\<open>quote_literal\<close>. The teaching fields \<^verbatim>\<open>hint\<close>, \<^verbatim>\<open>declared\<close> and \<^verbatim>\<open>note\<close>
  are left out, as are the \<^verbatim>\<open>GRANT\<close> statements of germination.
\<close>

record 'g create_env =
  int8_in :: "str \<Rightarrow> int sql"
  quote_literal :: "str \<Rightarrow> str"
  declared_predicates :: "str option \<Rightarrow> 'g \<Rightarrow> str list sql"
  adoption_reference :: "json \<Rightarrow> 'g \<Rightarrow> json option sql"
  law_forces_kernel_epoch :: "'g \<Rightarrow> bool"
  clear_graph :: "int \<Rightarrow> 'g \<Rightarrow> 'g sql"
  parse_turtle :: "str \<Rightarrow> int \<Rightarrow> str \<Rightarrow> 'g \<Rightarrow> 'g sql"
  rdf_materialize :: "int \<Rightarrow> 'g \<Rightarrow> 'g sql"

section \<open>create_typed\<close>

text \<open>The payload is flat, or nested under \<^verbatim>\<open>body\<close>.\<close>

definition create_input :: "json \<Rightarrow> json" where
  "create_input p =
     (case json_get p (lit ''body'') of
        Some b \<Rightarrow> if is_object b \<and> has_key b (lit ''type'') then b else p
      | None \<Rightarrow> p)"

definition type_gate :: "'g ckp_env \<Rightarrow> json \<Rightarrow> json + str" where
  "type_gate E p =
     (let v_type = coalesce_text (body_text E (create_input p) (lit ''type'')) [];
          elsewhere = has_key p (lit ''@type'') \<or>
            (case json_get p (lit ''body'') of Some b \<Rightarrow> is_object b \<and> has_key b (lit ''@type'') | None \<Rightarrow> False)
      in if btrim spc v_type = []
         then Inl (if elsewhere then refuse ''type_not_readable_here'' ''42704'' [] else refuse ''type_required'' ''22004'' [])
         else if 58 \<notin> set v_type then Inl (refuse ''type_must_be_iri'' ''22023'' [])
         else Inr v_type)"

text \<open>The property a payload key names: an IRI as it is, a declared name, a core name, or a name under
  the namespace of the type.\<close>

definition create_key :: "(str \<times> str) list \<Rightarrow> str \<Rightarrow> str \<Rightarrow> str" where
  "create_key v_propmap v_ns v_key =
     (if 58 \<in> set v_key then v_key
      else case map_of v_propmap v_key of
        Some iri \<Rightarrow> iri
      | None \<Rightarrow> if v_key = lit ''lifecycle_state'' then board ''lifecycle_state'' else v_ns @ v_key)"

definition control_keys :: "str list" where
  "control_keys = [lit ''type'', lit ''sub'', lit ''@id'', lit ''participant'']"

fun create_loop :: "(str \<times> str) list \<Rightarrow> str \<Rightarrow> (str \<times> json) list \<Rightarrow> json \<Rightarrow> json" where
  "create_loop pm v_ns [] v_body = v_body"
| "create_loop pm v_ns ((v_key, v_val) # kvs) v_body =
     (if v_key \<in> set control_keys then create_loop pm v_ns kvs v_body
      else create_loop pm v_ns kvs (jsonb_concat v_body (json_obj [(create_key pm v_ns v_key, v_val)])))"

text \<open>The creation time and, from the verified requester, the creator.\<close>

definition stamp_creator :: "'g door_env \<Rightarrow> int \<Rightarrow> (str \<Rightarrow> str option) \<Rightarrow> json \<Rightarrow> json" where
  "stamp_creator D now s b =
     (let b1 = jsonb_concat b (json_obj [(board ''created_at'', JString (utc_text (cenv D) now))])
      in case s (lit ''ckp.requester'') of
           None \<Rightarrow> b1
         | Some v_sub \<Rightarrow> jsonb_concat b1 (json_obj (created_by D s (board ''created_by'') @
             [(lit ''participant'', json_obj [(lit ''sub'', JString v_sub)])])))"

definition typed_body ::
    "'g door_env \<Rightarrow> int \<Rightarrow> (str \<Rightarrow> str option) \<Rightarrow> (str \<times> str) list \<Rightarrow> str \<Rightarrow> str \<Rightarrow> json \<Rightarrow> json" where
  "typed_body D now s pm v_type v_iid v_in =
     stamp_creator D now s (create_loop pm (type_ns (Some v_type)) (jsonb_each v_in)
       (json_obj [(lit ''type'', JString v_type),
         (lit ''@id'', JString (lit ''ckp://'' @ after_last (\<lambda>c. c = 47 \<or> c = 35) v_type @ lit ''#'' @ v_iid))]))"

definition typed_id :: "'g ckp_env \<Rightarrow> int \<Rightarrow> str \<Rightarrow> str" where
  "typed_id E clk v_type = lower_text E (after_last (\<lambda>c. c = 47 \<or> c = 35) v_type) @ lit ''-'' @ show_int clk"

text \<open>An operand of \<^verbatim>\<open>||\<close> next to an array.\<close>

definition elements_of :: "json \<Rightarrow> json list" where
  "elements_of j = (case j of JArray a \<Rightarrow> a | _ \<Rightarrow> [j])"

definition warn_out :: "'g ckp_env \<Rightarrow> (str \<Rightarrow> str option) \<Rightarrow> json option \<Rightarrow> json list sql" where
  "warn_out E s v_ref =
     and_then (warnings_of E s) (\<lambda>ws.
       Inr (concat (map (elements_of \<circ> snd) ws) @
            (case Option.bind v_ref (\<lambda>r. json_get r (lit ''warnings'')) of None \<Rightarrow> [] | Some w \<Rightarrow> elements_of w)))"

definition typed_reply :: "'g door_env \<Rightarrow> str \<Rightarrow> str \<Rightarrow> json list \<Rightarrow> json option \<Rightarrow> 'g door_db txn \<Rightarrow> json" where
  "typed_reply D v_iid v_type v_warnout v_ref t =
     jsonb_concat (jsonb_concat (sealed_reply D v_iid [(lit ''type'', JString v_type)] t)
         (json_obj (if v_warnout = [] then [] else [(lit ''warnings'', JArray v_warnout)])))
       (json_obj (case v_ref of None \<Rightarrow> [] | Some r \<Rightarrow> [(lit ''reference'', jsonb_minus r (lit ''warnings''))]))"

text \<open>The body of \<^verbatim>\<open>create_typed\<close>, inside its exception block.\<close>

definition create_inner ::
    "'g gov_env \<Rightarrow> 'g create_env \<Rightarrow> int \<Rightarrow> int \<Rightarrow> str option \<Rightarrow> json \<Rightarrow> 'g door_db txn \<Rightarrow> (json option \<times> 'g door_db txn) sql" where
  "create_inner G K now clk v_proj p t =
     (let D = gdoor G; E = cenv D
      in or_reply (type_gate E p) t (\<lambda>v_type.
         and_then (propmap G (Some v_type) v_proj (rdf (ckp (txn_db t)))) (\<lambda>pm.
         let v_iid = typed_id E clk v_type; v_body = typed_body D now (eff t) pm v_type v_iid (create_input p)
         in and_then (seal_in D now v_iid v_body t) (\<lambda>t'.
            and_then (if v_type = core ''Adoption'' then adoption_reference K v_body (rdf (ckp (txn_db t'))) else Inr None) (\<lambda>v_ref.
            and_then (warn_out E (eff t') v_ref) (\<lambda>v_warnout.
              Inr (Some (typed_reply D v_iid v_type v_warnout v_ref t'), t')))))))"

definition create_typed ::
    "'g gov_env \<Rightarrow> 'g create_env \<Rightarrow> int \<Rightarrow> int \<Rightarrow> json \<Rightarrow> 'g door_db txn \<Rightarrow> (json option \<times> 'g door_db txn) sql" where
  "create_typed G K now clk p t =
     and_then (resolve_project (genv G) (eff t) (ckp (txn_db t))) (\<lambda>v_proj.
       case create_inner G K now clk v_proj p t of
         Inr r \<Rightarrow> Inr r
       | Inl e \<Rightarrow> Inr (Some (json_obj [(lit ''ok'', JBool False), (lit ''error'', JString (err_text (gdoor G) e)),
                    (lit ''sqlstate'', JString (sqlstate e))]), aborted (gdoor G) t))"

section \<open>Links and messages\<close>

definition resolve_ref :: "'g ckp_env \<Rightarrow> 'g ckp_db \<Rightarrow> str \<Rightarrow> str option" where
  "resolve_ref E db p_ref =
     (if btrim spc p_ref = [] then None
      else if 58 \<in> set p_ref then Some p_ref
      else case find_instance db p_ref of
        None \<Rightarrow> None
      | Some b \<Rightarrow> (case body_text E b (lit ''@id'') of
          Some v_iri \<Rightarrow> if 58 \<in> set v_iri then Some v_iri else Some (lit ''urn:ckp:instance:'' @ p_ref)
        | None \<Rightarrow> Some (lit ''urn:ckp:instance:'' @ p_ref)))"

definition edges_iri :: "str option \<Rightarrow> str" where
  "edges_iri p_project = lit ''urn:ckp:'' @ coalesce_text p_project [] @ lit ''/edges''"

definition materialize_edge ::
    "'g gov_env \<Rightarrow> 'g create_env \<Rightarrow> str \<Rightarrow> str \<Rightarrow> str \<Rightarrow> str option \<Rightarrow> 'g door_db txn \<Rightarrow> (bool \<times> 'g door_db txn) sql" where
  "materialize_edge G K p_src p_pred p_tgt p_project t =
     (let db = ckp (txn_db t); v_pred = (if 58 \<in> set p_pred then p_pred else lit ''urn:ckp:board/'' @ p_pred)
      in case (resolve_ref (genv G) db p_src, resolve_ref (genv G) db p_tgt) of
           (Some v_src, Some v_tgt) \<Rightarrow>
             if 58 \<in> set v_src \<and> 58 \<in> set v_tgt \<and> iri_chars v_src \<and> iri_chars v_pred \<and> iri_chars v_tgt
             then and_then (add_graph G (edges_iri p_project) (rdf db)) (\<lambda>(v_g, g1).
                  and_then (parse_turtle K (lit ''<'' @ v_src @ lit ''> <'' @ v_pred @ lit ''> <'' @ v_tgt @ lit ''> .'') v_g
                              (edges_iri p_project @ lit ''#'') g1) (\<lambda>g2. Inr (True, put_rdf g2 t)))
             else Inr (False, t)
         | _ \<Rightarrow> Inr (False, t))"

text \<open>A class the caller names: \<^verbatim>\<open>NULLIF(btrim(COALESCE(type, '')), '')\<close>, and an IRI.\<close>

definition named_class :: "'g ckp_env \<Rightarrow> string \<Rightarrow> json \<Rightarrow> json + str" where
  "named_class E missing p =
     (let ty = btrim spc (coalesce_text (body_text E p (lit ''type'')) []);
          refused = (\<lambda>e. json_obj [(lit ''ok'', JBool False), (lit ''refused'', JBool True), (lit ''error'', jlit e)])
      in if ty = [] then Inl (refused missing) else if 58 \<notin> set ty then Inl (refused ''type_must_be_iri'') else Inr ty)"

definition edge_gate :: "str list \<Rightarrow> str \<Rightarrow> str \<Rightarrow> str \<Rightarrow> json + unit" where
  "edge_gate v_dpred src pred tgt =
     (if src = tgt then Inl (fault (lit ''no self-loops (v3.7 Edge rule)''))
      else if v_dpred \<noteq> [] \<and> pred \<notin> set v_dpred
      then Inl (json_obj [(lit ''ok'', JBool False), (lit ''error'', jlit ''undeclared_predicate''), (lit ''predicate'', JString pred)])
      else Inr ())"

definition edge_id :: "str \<Rightarrow> str \<Rightarrow> str \<Rightarrow> str" where
  "edge_id src pred tgt = lit ''edge:'' @ src @ lit ''.'' @ pred @ lit ''.'' @ tgt"

definition link_topic :: "str option \<Rightarrow> str \<Rightarrow> str \<Rightarrow> str option" where
  "link_topic pred src tgt = map_option (\<lambda>q. lit ''link.'' @ q @ lit ''.'' @ src @ lit ''.'' @ tgt) pred"

definition edge_body :: "'g ckp_env \<Rightarrow> int \<Rightarrow> str \<Rightarrow> str \<Rightarrow> str \<Rightarrow> str \<Rightarrow> json" where
  "edge_body E now ty src pred tgt =
     (let v_ens = type_ns (Some ty)
      in json_obj [(lit ''type'', JString ty), (lit ''@id'', JString (lit ''ckp://Edge#'' @ edge_id src pred tgt)),
           (v_ens @ lit ''source'', JString src), (v_ens @ lit ''predicate'', JString pred), (v_ens @ lit ''target'', JString tgt),
           (v_ens @ lit ''topic'', jtext (link_topic (Some pred) src tgt)), (v_ens @ lit ''created_at'', JString (utc_text E now))])"

text \<open>The two verbs inside their exception blocks.\<close>

definition edge_inner ::
    "'g gov_env \<Rightarrow> 'g create_env \<Rightarrow> int \<Rightarrow> str option \<Rightarrow> str list \<Rightarrow> json \<Rightarrow> 'g door_db txn \<Rightarrow> (json option \<times> 'g door_db txn) sql" where
  "edge_inner G K now v_proj v_dpred p t =
     (let D = gdoor G; E = cenv D
      in case (body_text E p (lit ''source''), body_text E p (lit ''predicate''), body_text E p (lit ''target'')) of
           (Some src, Some pred, Some tgt) \<Rightarrow>
             or_reply (named_class E ''edge_type_required'' p) t (\<lambda>ty.
             or_reply (edge_gate v_dpred src pred tgt) t (\<lambda>_.
             let eid = edge_id src pred tgt
             in and_then (seal_in D now eid (edge_body E now ty src pred tgt) t) (\<lambda>t1.
                and_then (materialize_edge G K src pred tgt v_proj t1) (\<lambda>(reachable, t2).
                  Inr (Some (jsonb_concat (json_obj [(lit ''ok'', JBool True), (lit ''id'', JString eid), (lit ''type'', JString ty),
                         (lit ''topic'', jtext (link_topic (Some pred) src tgt)), (lit ''verified'', JBool (verify_in D t1 eid)),
                         (lit ''reachable'', JBool reachable)]) (stamped E (ckp (txn_db t2)) eid)), t2)))))
         | _ \<Rightarrow> Inr (Some (fault (lit ''source, predicate, target required'')), t))"

definition edge_create ::
    "'g gov_env \<Rightarrow> 'g create_env \<Rightarrow> int \<Rightarrow> str option \<Rightarrow> json \<Rightarrow> 'g door_db txn \<Rightarrow> (json option \<times> 'g door_db txn) sql" where
  "edge_create G K now v_proj p t =
     and_then (declared_predicates K v_proj (rdf (ckp (txn_db t)))) (\<lambda>v_dpred.
       catching (gdoor G) t (edge_inner G K now v_proj v_dpred p t))"

definition message_body :: "'g door_env \<Rightarrow> int \<Rightarrow> (str \<Rightarrow> str option) \<Rightarrow> str \<Rightarrow> str \<Rightarrow> str option \<Rightarrow> str \<Rightarrow> str \<Rightarrow> str \<Rightarrow> json" where
  "message_body D now s ty mid pred frm tgt bdy =
     (let v_mns = type_ns (Some ty)
      in jsonb_concat (json_obj [(lit ''type'', JString ty), (lit ''@id'', JString (lit ''ckp://Message#'' @ mid)),
             (v_mns @ lit ''from'', JString frm), (v_mns @ lit ''to'', JString tgt), (v_mns @ lit ''predicate'', jtext pred),
             (v_mns @ lit ''body'', JString bdy), (v_mns @ lit ''topic'', jtext (link_topic pred frm tgt)),
             (v_mns @ lit ''created_at'', JString (utc_text (cenv D) now))])
           (json_obj (created_by D s (v_mns @ lit ''created_by''))))"

definition notify_inner ::
    "'g gov_env \<Rightarrow> int \<Rightarrow> int \<Rightarrow> json \<Rightarrow> 'g door_db txn \<Rightarrow> (json option \<times> 'g door_db txn) sql" where
  "notify_inner G now clk p t =
     (let D = gdoor G; E = cenv D; pred = body_text E p (lit ''predicate''); mid = clock_id ''msg-'' clk
      in case (body_text E p (lit ''from''), body_text E p (lit ''to''), body_text E p (lit ''body'')) of
           (Some frm, Some tgt, Some bdy) \<Rightarrow>
             or_reply (named_class E ''message_type_required'' p) t (\<lambda>ty.
             and_then (seal_in D now mid (message_body D now (eff t) ty mid pred frm tgt bdy) t) (\<lambda>t'.
               Inr (Some (sealed_reply D mid [(lit ''type'', JString ty), (lit ''topic'', jtext (link_topic pred frm tgt))] t'), t')))
         | _ \<Rightarrow> Inr (Some (fault (lit ''from, to, body required'')), t))"

definition notify ::
    "'g gov_env \<Rightarrow> int \<Rightarrow> int \<Rightarrow> json \<Rightarrow> 'g door_db txn \<Rightarrow> (json option \<times> 'g door_db txn) sql" where
  "notify G now clk p t = catching (gdoor G) t (notify_inner G now clk p t)"

end
