(* ===== verification/Ckp_Germinate.thy ===== *)
theory Ckp_Germinate
  imports Ckp_Create
begin

text \<open>
  \<^verbatim>\<open>germinate_kernel\<close> and \<^verbatim>\<open>signal_boundary\<close> of \<^verbatim>\<open>src/sql/pgck-baseline.sql\<close>: a kernel with its three
  organs in the graph, its Project owned by the verified requester and its Kernel as sealed facts; and the
  one implicit signal of a boundary. Then the handlers that the minting verbs give the door.
\<close>

section \<open>signal_boundary\<close>

definition signal_body :: "str \<Rightarrow> str \<Rightarrow> int \<Rightarrow> json" where
  "signal_body v_id v_about v_dwell = json_obj
     [(lit ''type'', JString (core ''Signal'')), (lit ''@id'', JString (lit ''ckp://Signal#'' @ v_id)), (core ''about'', JString v_about),
      (core ''signalPolarity'', jlit ''implicit''), (core ''dwellMillis'', JNumber (JInt v_dwell))]"

definition signal_boundary ::
    "'g gov_env \<Rightarrow> 'g create_env \<Rightarrow> int \<Rightarrow> int \<Rightarrow> json \<Rightarrow> 'g door_db txn \<Rightarrow> (json option \<times> 'g door_db txn) sql" where
  "signal_boundary G K now clk p t =
     (let D = gdoor G; E = cenv D; v_id = clock_id ''sigb-'' clk; v_about = coalesce_text (body_text E p (lit ''about'')) []
      in and_then (case body_text E p (lit ''dwellMillis'') of None \<Rightarrow> Inr None | Some s \<Rightarrow> and_then (int8_in K s) (\<lambda>n. Inr (Some n))) (\<lambda>v_dwell.
         and_then (case body_text E p (lit ''events'') of Some s \<Rightarrow> int4_in E s
                   | None \<Rightarrow> Inr (if has_key p (lit ''dwellMillis'') then 1 else 0)) (\<lambda>v_events.
         if btrim spc v_about = [] then Inr (Some (refuse ''missing_param'' ''22004'' []), t)
         else case v_dwell of
           Some dwell \<Rightarrow>
             if v_events = 0 then Inr (Some (json_obj [(lit ''ok'', JBool True), (lit ''sealed'', JBool False), (lit ''reason'', jlit ''never_saw'')]), t)
             else and_then (seal_in D now v_id (signal_body v_id v_about dwell) t) (\<lambda>t'.
               Inr (Some (json_obj [(lit ''ok'', JBool True), (lit ''sealed'', JBool True), (lit ''id'', JString v_id),
                 (lit ''verified'', JBool (verify_in D t' v_id)), (lit ''events'', JNumber (JInt v_events))]), t'))
         | None \<Rightarrow> Inr (Some (json_obj [(lit ''ok'', JBool True), (lit ''sealed'', JBool False), (lit ''reason'', jlit ''never_saw'')]), t))))"

section \<open>germinate_kernel\<close>

definition germ_refusal :: "string \<Rightarrow> str \<Rightarrow> json" where
  "germ_refusal s e = json_obj [(lit ''ok'', JBool False), (lit ''refused'', JBool True), (lit ''sqlstate'', jlit s), (lit ''error'', JString e)]"

definition nats_metachar :: "rchar \<Rightarrow> bool" where
  "nats_metachar c \<longleftrightarrow> c \<in> {46, 42, 62, 32, 9, 13, 10}"

text \<open>A project name is one transport segment.\<close>

definition segment_gate :: "'g ckp_env \<Rightarrow> 'g create_env \<Rightarrow> str option \<Rightarrow> json + str" where
  "segment_gate E K p_project =
     (let p = coalesce_text p_project []; sl = slug (lower_text E)
      in if btrim spc p = [] then Inl (json_obj [(lit ''ok'', JBool False), (lit ''error'', jlit ''project required''), (lit ''sqlstate'', jlit ''22004'')])
         else if list_ex nats_metachar p
         then Inl (germ_refusal ''22023'' (lit ''kernel id '' @ quote_literal K p @
                lit '' carries a NATS subject metacharacter, so it can never be granted. Use '' @ quote_literal K (sl p) @ lit ''.''))
         else if \<not> canonical p
         then Inl (germ_refusal ''22023'' (lit ''kernel id '' @ quote_literal K p @
                lit '' is not canonical. A project name is lowercase, dashes optional, one transport segment -- use '' @
                quote_literal K (sl (after_last (\<lambda>c. c = 58 \<or> c = 47) p)) @ lit ''.''))
         else Inr p)"

definition kernel_sealed :: "'g ckp_env \<Rightarrow> 'g ckp_db \<Rightarrow> str \<Rightarrow> bool" where
  "kernel_sealed E db k \<longleftrightarrow>
     (\<exists>i \<in> set (t_instances db). body_text E (i_body i) (lit ''@id'') = Some (kernel_iri k) \<and> of_type E ''Kernel'' i)"

text \<open>The owner is the verified requester, and a sealed kernel is germinated again by its owner only.\<close>

definition owner_gate :: "'g ckp_env \<Rightarrow> 'g create_env \<Rightarrow> (str \<Rightarrow> str option) \<Rightarrow> 'g ckp_db \<Rightarrow> str \<Rightarrow> json + str" where
  "owner_gate E K s db p =
     (case guc_nonempty s ''ckp.requester'' of
        None \<Rightarrow> Inl (germ_refusal ''42501'' (lit ''germination requires a verified identity: ckp.ownedBy is stamped from the connection, never supplied. Anonymous callers cannot own a project.''))
      | Some v_sub \<Rightarrow>
          let v_owner = lit ''urn:ckp:participant:'' @ slug (lower_text E) v_sub; v_prior = project_owner E db (project_iri p)
          in if kernel_sealed E db p \<and> coalesce_text v_prior [] \<noteq> v_owner
             then Inl (germ_refusal ''42501'' (lit ''kernel '' @ quote_literal K p @ lit '' is already germinated and owned by '' @
                    coalesce_text v_prior (lit ''an owner this ledger cannot name'') @
                    lit ''. Germination CLEARS the kernel graph, so re-germinating a kernel you do not own is refused -- ask its owner, or germinate a name you own.''))
             else Inr v_owner)"

definition epoch_key :: "bool \<Rightarrow> string" where
  "epoch_key v_law_epoch = (if v_law_epoch then ''epoch'' else ''germinatedAtEpoch'')"

definition organ_line :: "str \<Rightarrow> string \<Rightarrow> string \<Rightarrow> string \<Rightarrow> str" where
  "organ_line v_base kind cls auth =
     lit ''<'' @ v_base @ lit ''/organ/'' @ lit kind @ lit ''>'' @ lit (if kind = ''ck'' then ''  '' else '''') @ lit '' a ckp:Organ , ckp:'' @ lit cls @
     lit (if kind = ''ck'' then ''  '' else '''') @ lit '' ; ckp:organKind '' @ quoted (lit kind) @ lit (if kind = ''ck'' then ''  '' else '''') @
     lit '' ; ckp:writeAuthority '' @ quoted (lit auth)"

definition kernel_ttl :: "'g create_env \<Rightarrow> bool \<Rightarrow> str \<Rightarrow> str \<Rightarrow> str" where
  "kernel_ttl K v_law_epoch p v_label =
     (let v_base = lit ''urn:ckp:'' @ p; org = (\<lambda>k. lit ''<'' @ v_base @ lit ''/organ/'' @ lit k @ lit ''>'')
      in concat (map (\<lambda>l. [lf] @ l)
        [lit ''@prefix ckp:  <'' @ core_ns @ lit ''> .'',
         lit ''@prefix rdfs: <http://www.w3.org/2000/01/rdf-schema#> .'',
         lit ''<'' @ v_base @ lit ''/kernel> a ckp:Kernel ; rdfs:label '' @ quote_literal K v_label @ lit '' ; ckp:'' @ lit (epoch_key v_law_epoch) @ lit '' 0 ;'',
         lit ''  ckp:inProject <'' @ project_iri p @ lit ''> ;'',
         lit ''  ckp:hasOrgan '' @ org ''ck'' @ lit '' , '' @ org ''tool'' @ lit '' , '' @ org ''data'' @ lit '' .'',
         organ_line v_base ''ck'' ''CK'' ''governed-only'' @ lit '' .'',
         organ_line v_base ''tool'' ''TOOL'' ''readonly-on-ontology'' @ lit '' ;'',
         lit ''  ckp:dependsOn '' @ org ''ck'' @ lit '' .'',
         organ_line v_base ''data'' ''DATA'' ''readwrite'' @ lit '' ;'',
         lit ''  ckp:dependsOn '' @ org ''ck'' @ lit '' , '' @ org ''tool'' @ lit '' .'']) @ [lf])"

definition germ_project_body :: "str \<Rightarrow> str \<Rightarrow> str option \<Rightarrow> str \<Rightarrow> json" where
  "germ_project_body p v_label p_kind v_owner = json_obj
     [(lit ''type'', JString (core ''Project'')), (lit ''@id'', JString (project_iri p)), (RDFS_LABEL, JString v_label),
      (core ''projectKind'', jtext p_kind), (core ''ownedBy'', JString v_owner)]"

definition germ_kernel_body :: "bool \<Rightarrow> str \<Rightarrow> str \<Rightarrow> json" where
  "germ_kernel_body v_law_epoch p v_label = json_obj
     [(lit ''type'', JString (core ''Kernel'')), (lit ''@id'', JString (kernel_iri p)), (RDFS_LABEL, JString v_label),
      (core (epoch_key v_law_epoch), JNumber (JInt 0)), (core ''inProject'', JString (project_iri p)), (core ''transportSegment'', JString p),
      (core ''hasOrgan'', JArray (map (\<lambda>k. JString (lit ''urn:ckp:'' @ p @ lit ''/organ/'' @ lit k)) [''ck'', ''tool'', ''data'']))]"

text \<open>The graph is found or made, cleared, loaded and materialised.\<close>

definition germ_graph :: "'g gov_env \<Rightarrow> 'g create_env \<Rightarrow> bool \<Rightarrow> str \<Rightarrow> str \<Rightarrow> 'g \<Rightarrow> 'g sql" where
  "germ_graph G K v_law_epoch p v_label g =
     and_then (add_graph G (kernel_graph_iri p) g) (\<lambda>(v_g, g1).
     and_then (clear_graph K v_g g1) (\<lambda>g2.
     and_then (parse_turtle K (kernel_ttl K v_law_epoch p v_label) v_g (kernel_graph_iri p @ lit ''#'') g2) (\<lambda>g3. rdf_materialize K v_g g3)))"

definition seed_epoch :: "str \<Rightarrow> 'g door_db txn \<Rightarrow> 'g door_db txn" where
  "seed_epoch k t =
     (let db = ckp (txn_db t)
      in if t_kernel_epoch db k = None then t\<lparr>txn_db := (txn_db t)\<lparr>ckp := db\<lparr>t_kernel_epoch := (t_kernel_epoch db)(k \<mapsto> 0)\<rparr>\<rparr>\<rparr> else t)"

definition germinate_kernel ::
    "'g gov_env \<Rightarrow> 'g create_env \<Rightarrow> int \<Rightarrow> str option \<Rightarrow> str option \<Rightarrow> str option \<Rightarrow> 'g door_db txn \<Rightarrow> (json option \<times> 'g door_db txn) sql" where
  "germinate_kernel G K now p_project p_label p_kind t =
     (let D = gdoor G; E = cenv D; db = ckp (txn_db t)
      in or_reply (segment_gate E K p_project) t (\<lambda>p.
         or_reply (owner_gate E K (eff t) db p) t (\<lambda>v_owner.
         let v_label = coalesce_text p_label p; v_law_epoch = law_forces_kernel_epoch K (rdf db)
         in and_then (germ_graph G K v_law_epoch p v_label (rdf db)) (\<lambda>g.
            and_then (seal_in D now (project_iri p) (germ_project_body p v_label p_kind v_owner) (seed_epoch p (put_rdf g t))) (\<lambda>t1.
            and_then (seal_in D now (kernel_iri p) (germ_kernel_body v_law_epoch p v_label) t1) (\<lambda>t2.
              Inr (Some (json_obj [(lit ''ok'', JBool True), (lit ''kernel'', JString (kernel_iri p)), (lit ''graph'', JString (kernel_graph_iri p)),
                (lit ''project'', JString (project_iri p)), (lit ''ownedBy'', JString v_owner), (lit ''organs'', JNumber (JInt 3))]), t2)))))))"

section \<open>The handlers of the door\<close>

text \<open>The route's project is the one it has just pinned in the session.\<close>

definition mint_handlers :: "'g gov_env \<Rightarrow> 'g create_env \<Rightarrow> int \<Rightarrow> int \<Rightarrow> 'g handlers \<Rightarrow> 'g handlers" where
  "mint_handlers G K now clk H n p t =
     (let v = (\<lambda>k. body_text (genv G) p (lit k))
      in if n = ''create_typed'' then create_typed G K now clk p t
         else if n = ''edge.create'' then edge_create G K now (session (txn_db t) (lit ''ckp.project'')) p t
         else if n = ''notify'' then notify G now clk p t
         else if n = ''signal.boundary'' then signal_boundary G K now clk p t
         else if n = ''kernel.germinate''
         then germinate_kernel G K now (case v ''project'' of Some x \<Rightarrow> Some x | None \<Rightarrow> v ''name'') (v ''label'') (v ''projectKind'') t
         else H n p t)"

end
