(* ===== verification/Ckp_Read.thy ===== *)
theory Ckp_Read
  imports Ckp_Typed Ckp_Door_Props "HOL-Library.Multiset"
begin

text \<open>
  The reads of the instance table of \<^verbatim>\<open>src/sql/pgck-baseline.sql\<close>: \<^verbatim>\<open>_query\<close> (\<^verbatim>\<open>instance.get\<close>,
  \<^verbatim>\<open>instances.count\<close>, \<^verbatim>\<open>instances.list\<close>, \<^verbatim>\<open>instances.last\<close>) with \<^verbatim>\<open>_envelope\<close> and \<^verbatim>\<open>_read_verdict\<close>. The record
  \<open>read_env\<close> holds what PostgreSQL gives: \<^verbatim>\<open>LIKE\<close>, the JSON form of a time stamp and \<^verbatim>\<open>quote_literal\<close>.
  Rows of one time stamp, whose order SQL leaves open, come in the order of the table.
\<close>

record read_env =
  like_text :: "str \<Rightarrow> str \<Rightarrow> bool sql"
  time_json :: "int \<Rightarrow> json"
  quoted_literal :: "str \<Rightarrow> str"

definition envelope :: "'g door_env \<Rightarrow> read_env \<Rightarrow> 'g door_db txn \<Rightarrow> instance_row \<Rightarrow> json" where
  "envelope D R t i = json_obj
     [(lit ''id'', JString (i_id i)), (lit ''type'', jtext (body_text (cenv D) (i_body i) (lit ''type''))), (lit ''body'', i_body i),
      (lit ''verified'', JBool (verify_in D t (i_id i))), (lit ''proof_digest'', jtext (proof_digest (ckp (txn_db t)) (i_id i))),
      (lit ''ts'', time_json R (i_created i))]"

definition find_row :: "'g ckp_db \<Rightarrow> str \<Rightarrow> instance_row option" where
  "find_row db p_id = List.find (\<lambda>i. i_id i = p_id) (t_instances db)"

definition read_verdict :: "int \<Rightarrow> int option \<Rightarrow> int option \<Rightarrow> json" where
  "read_verdict p_returned p_limit p_total =
     (let num = (\<lambda>k x. case x of None \<Rightarrow> [] | Some n \<Rightarrow> [(lit k, JNumber (JInt n))]);
          verdict = (case p_total of
              Some tot \<Rightarrow> if tot \<le> p_returned then ''complete'' else ''truncated''
            | None \<Rightarrow> (case p_limit of
                None \<Rightarrow> ''complete''
              | Some l \<Rightarrow> if p_returned < l then ''complete'' else ''possibly_truncated''))
      in json_obj [(lit ''completeness'', json_obj ([(lit ''returned'', JNumber (JInt p_returned))] @ num ''limit'' p_limit @ num ''total'' p_total @
           [(lit ''verdict'', jlit verdict)]))])"

text \<open>\<^verbatim>\<open>WHERE (type IS NULL OR \<dots> = type OR \<dots> LIKE '%'||type) AND (kernel IS NULL OR \<dots>)\<close>\<close>

definition row_selected :: "'g ckp_env \<Rightarrow> read_env \<Rightarrow> str option \<Rightarrow> str option \<Rightarrow> instance_row \<Rightarrow> bool sql" where
  "row_selected E R p_type p_kern i =
     and_then (case p_type of
         None \<Rightarrow> Inr True
       | Some ty \<Rightarrow> (case body_text E (i_body i) (lit ''type'') of
           None \<Rightarrow> Inr False
         | Some b \<Rightarrow> if b = ty then Inr True else like_text R b (lit ''%'' @ ty))) (\<lambda>a.
       Inr (a \<and> (case p_kern of None \<Rightarrow> True | Some k \<Rightarrow> body_text E (i_body i) (board ''target_kernel'') = Some k)))"

fun filter_sql :: "('a \<Rightarrow> bool sql) \<Rightarrow> 'a list \<Rightarrow> 'a list sql" where
  "filter_sql P [] = Inr []"
| "filter_sql P (x # xs) = and_then (P x) (\<lambda>b. and_then (filter_sql P xs) (\<lambda>ys. Inr (if b then x # ys else ys)))"

text \<open>\<^verbatim>\<open>COALESCE((n)::int, (limit)::int, 10 or 50)\<close>\<close>

definition row_limit :: "'g ckp_env \<Rightarrow> str \<Rightarrow> json \<Rightarrow> int sql" where
  "row_limit E p_verb p =
     (case body_text E p (lit ''n'') of
        Some s \<Rightarrow> int4_in E s
      | None \<Rightarrow> (case body_text E p (lit ''limit'') of
          Some s \<Rightarrow> int4_in E s
        | None \<Rightarrow> Inr (if p_verb = lit ''instances.last'' then 10 else 50)))"

definition newest :: "int \<Rightarrow> instance_row list \<Rightarrow> instance_row list sql" where
  "newest p_n rows =
     (if p_n < 0 then Inl (Engine_Error (lit ''2201W'') (lit ''LIMIT must not be negative''))
      else Inr (take (nat p_n) (sort_key (\<lambda>i. - i_created i) rows)))"

definition unresolved_text :: "read_env \<Rightarrow> str \<Rightarrow> str" where
  "unresolved_text R raw =
     lit ''instance.get: no instance resolves '' @ quoted_literal R raw @ lit ''. Accepted forms are the bare id (vote-123'' @ [8230] @
     lit ''), the stamped @id (ckp://Type#vote-123'' @ [8230] @ lit ''), and urn:ckp:instance:<id>. A confident null here would be worse than this refusal '' @
     [8212] @ lit '' if you minted this id from a reply, that reply is the form to send back.''"

definition get_instance :: "'g door_env \<Rightarrow> read_env \<Rightarrow> json \<Rightarrow> 'g door_db txn \<Rightarrow> json" where
  "get_instance D R p t =
     (let refused = (\<lambda>s e. json_obj [(lit ''ok'', JBool False), (lit ''refused'', JBool True), (lit ''sqlstate'', jlit s), (lit ''error'', JString e)]);
          raw = coalesce_text (body_text (cenv D) p (lit ''id'')) []; db = ckp (txn_db t)
      in if btrim spc raw = [] then refused ''22023'' (lit ''instance.get: id required'')
         else case find_row db (resolve_id (cenv D) db raw) of
           None \<Rightarrow> refused ''42704'' (unresolved_text R raw)
         | Some i \<Rightarrow> json_obj [(lit ''ok'', JBool True), (lit ''instance'', envelope D R t i)])"

text \<open>\<^verbatim>\<open>_query\<close>; the limit is read before the verb is looked at.\<close>

definition ckp_query :: "'g door_env \<Rightarrow> read_env \<Rightarrow> str \<Rightarrow> json \<Rightarrow> 'g door_db txn \<Rightarrow> json sql" where
  "ckp_query D R p_verb p t =
     (let E = cenv D; sel = row_selected E R (body_text E p (lit ''type'')) (body_text E p (lit ''kernel'')); rows = t_instances (ckp (txn_db t))
      in and_then (row_limit E p_verb p) (\<lambda>p_n.
         if p_verb = lit ''instance.get'' then Inr (get_instance D R p t)
         else and_then (filter_sql sel rows) (\<lambda>ms.
           let n_all = int (length ms)
           in if p_verb = lit ''instances.count''
              then Inr (jsonb_concat (json_obj [(lit ''ok'', JBool True), (lit ''count'', JNumber (JInt n_all))]) (read_verdict n_all None (Some n_all)))
              else and_then (newest p_n ms) (\<lambda>sel_rows.
                Inr (jsonb_concat (json_obj [(lit ''ok'', JBool True), (lit ''count'', JNumber (JInt n_all)),
                       (lit ''instances'', JArray (map (envelope D R t) sel_rows))]) (read_verdict (int (length sel_rows)) (Some p_n) (Some n_all)))))))"

definition read_verbs :: "string list" where
  "read_verbs = [''instances.list'', ''instances.last'', ''instances.count'', ''instance.get'']"

definition read_handlers :: "'g door_env \<Rightarrow> read_env \<Rightarrow> 'g handlers \<Rightarrow> 'g handlers" where
  "read_handlers D R H n p t =
     (if n \<in> set read_verbs then and_then (ckp_query D R (lit n) p t) (\<lambda>j. Inr (Some j, t)) else H n p t)"

section \<open>What a listing shows\<close>

lemma take_newest:
  assumes "newest n ms = Inr sel_rows"
  shows "0 \<le> n" "length sel_rows = min (nat n) (length ms)" "mset sel_rows \<subseteq># mset ms" "sorted_wrt (\<lambda>a b. i_created b \<le> i_created a) sel_rows"
    "\<forall>x \<in># mset ms - mset sel_rows. \<forall>y \<in> set sel_rows. i_created x \<le> i_created y"
proof -
  let ?s = "sort_key (\<lambda>i. - i_created i) ms"
  have n: "0 \<le> n" and sel_rows: "sel_rows = take (nat n) ?s" using assms by (auto simp: newest_def split: if_splits)
  have s: "sorted_wrt (\<lambda>a b. i_created b \<le> i_created a) ?s"
    using sorted_sort_key[of "\<lambda>i. - i_created i" ms] by (simp add: sorted_wrt_map)
  have m: "mset ms = mset sel_rows + mset (drop (nat n) ?s)"
    unfolding sel_rows by (metis append_take_drop_id mset_append mset_sort)
  show "0 \<le> n" by (rule n)
  show "length sel_rows = min (nat n) (length ms)" by (simp add: sel_rows)
  show "mset sel_rows \<subseteq># mset ms" by (simp add: m)
  show "sorted_wrt (\<lambda>a b. i_created b \<le> i_created a) sel_rows" unfolding sel_rows by (rule sorted_wrt_take[OF s])
  show "\<forall>x \<in># mset ms - mset sel_rows. \<forall>y \<in> set sel_rows. i_created x \<le> i_created y"
    using s append_take_drop_id[of "nat n" ?s] sorted_wrt_append[of "\<lambda>a b. i_created b \<le> i_created a" "take (nat n) ?s" "drop (nat n) ?s"]
    by (auto simp: m sel_rows)
qed

lemma filter_sql_ok: "filter_sql P xs = Inr ys \<Longrightarrow> ys = filter (\<lambda>x. P x = Inr True) xs"
  by (induction xs arbitrary: ys) (auto simp: ok_iff split: if_splits)

lemma verdict_of:
  "Option.bind (json_get (read_verdict a l (Some b)) (lit ''completeness'')) (\<lambda>c. json_get c (lit ''verdict'')) =
     Some (jlit (if b \<le> a then ''complete'' else ''truncated''))"
  by (simp add: read_verdict_def json_get_obj Let_def split: option.splits)

lemma read_verdict_object:
  "is_object (read_verdict a l b)" "json_object_wf (read_verdict a l b)"
  "k \<noteq> lit ''completeness'' \<Longrightarrow> json_get (read_verdict a l b) k = None"
  by (simp_all add: read_verdict_def Let_def json_get_obj)

text \<open>C33: a listing is the newest rows, and says how many there are. \<^verbatim>\<open>instances.list\<close> and \<^verbatim>\<open>instances.last\<close> return at most
  as many rows as the limit, none that the filter does not select and none older than one they leave out, newest
  first; the count is that of all selected rows, and the verdict says complete exactly when none is left out.\<close>

theorem listing_shows_newest:
  fixes D :: "'g door_env" and t :: "'g door_db txn"
  assumes "ckp_query D R v p t = Inr r" "v \<in> {lit ''instances.list'', lit ''instances.last''}"
  defines "ms \<equiv> filter (\<lambda>i. row_selected (cenv D) R (body_text (cenv D) p (lit ''type'')) (body_text (cenv D) p (lit ''kernel'')) i = Inr True)
    (t_instances (ckp (txn_db t)))"
  shows "\<exists>n rows. row_limit (cenv D) v p = Inr n \<and> 0 \<le> n \<and>
    json_get r (lit ''instances'') = Some (JArray (map (envelope D R t) rows)) \<and> length rows = min (nat n) (length ms) \<and>
    mset rows \<subseteq># mset ms \<and> sorted_wrt (\<lambda>a b. i_created b \<le> i_created a) rows \<and>
    (\<forall>x \<in># mset ms - mset rows. \<forall>y \<in> set rows. i_created x \<le> i_created y) \<and>
    json_get r (lit ''count'') = Some (JNumber (JInt (int (length ms)))) \<and>
    Option.bind (json_get r (lit ''completeness'')) (\<lambda>c. json_get c (lit ''verdict'')) =
      Some (jlit (if length rows = length ms then ''complete'' else ''truncated''))"
proof -
  have v: "v \<noteq> lit ''instance.get''" "v \<noteq> lit ''instances.count''" using assms(2) by (auto simp: lit_def)
  obtain n ms' rows where n: "row_limit (cenv D) v p = Inr n"
    and m: "filter_sql (row_selected (cenv D) R (body_text (cenv D) p (lit ''type'')) (body_text (cenv D) p (lit ''kernel''))) (t_instances (ckp (txn_db t))) = Inr ms'"
    and rows: "newest n ms' = Inr rows"
    and r: "r = jsonb_concat (json_obj [(lit ''ok'', JBool True), (lit ''count'', JNumber (JInt (int (length ms')))),
        (lit ''instances'', JArray (map (envelope D R t) rows))]) (read_verdict (int (length rows)) (Some n) (Some (int (length ms'))))"
    using assms(1) v unfolding ckp_query_def Let_def by (auto simp: ok_iff)
  have ms: "ms' = ms" using filter_sql_ok[OF m] by (simp add: ms_def)
  note k = take_newest[OF rows[unfolded ms]]
  have "length rows \<le> length ms" using k(2) by simp
  moreover have "json_get r (lit ''instances'') = Some (JArray (map (envelope D R t) rows))"
    "json_get r (lit ''count'') = Some (JNumber (JInt (int (length ms))))"
    "json_get r (lit ''completeness'') = json_get (read_verdict (int (length rows)) (Some n) (Some (int (length ms)))) (lit ''completeness'')"
    unfolding r ms by (simp_all add: json_get_concat read_verdict_object json_get_obj split: option.splits)
  moreover have "int (length ms) \<le> int (length rows) \<longleftrightarrow> length rows = length ms" using k(2) by auto
  ultimately show ?thesis using n k verdict_of[of "int (length rows)" "Some n" "int (length ms)"]
    by (intro exI[of _ n] exI[of _ rows] conjI) simp_all
qed

definition demo_read :: read_env where
  "demo_read = \<lparr>like_text = (\<lambda>a b. Inr False), time_json = (\<lambda>n. JNumber (JInt n)), quoted_literal = (\<lambda>s. s)\<rparr>"

definition demo_two_rows :: "unit door_db txn" where
  "demo_two_rows = demo_door_txn\<lparr>txn_db := (txn_db demo_door_txn)\<lparr>ckp := (ckp (txn_db demo_door_txn))\<lparr>t_instances :=
     [\<lparr>i_id = lit ''a'', i_body = json_obj [], i_created = 1, i_updated = 1\<rparr>, \<lparr>i_id = lit ''b'', i_body = json_obj [], i_created = 2, i_updated = 2\<rparr>]\<rparr>\<rparr>\<rparr>"

theorem listing_shows_newest_witness:
  "\<exists>r. ckp_query demo_door demo_read (lit ''instances.list'') (json_obj [(lit ''n'', jlit ''1'')]) demo_two_rows = Inr r \<and>
     json_get r (lit ''count'') = Some (JNumber (JInt 2)) \<and>
     Option.bind (json_get r (lit ''completeness'')) (\<lambda>c. json_get c (lit ''verdict'')) = Some (jlit ''truncated'')"
proof -
  let ?p = "json_obj [(lit ''n'', jlit ''1'')]"
  have p: "body_text demo_ckp ?p (lit ''n'') = Some (lit ''1'')" "body_text demo_ckp ?p (lit ''type'') = None" "body_text demo_ckp ?p (lit ''kernel'') = None"
    by (simp_all add: get_text_def json_get_obj text_of_def jlit_def lit_def)
  have n: "row_limit demo_ckp v ?p = Inr 1" for v using p(1) by (simp add: row_limit_def demo_ckp_def)
  have sel: "row_selected demo_ckp demo_read None None i = Inr True" for i by (simp add: row_selected_def)
  have D: "cenv demo_door = demo_ckp" by (simp add: demo_door_def)
  have rows: "t_instances (ckp (txn_db demo_two_rows)) = [\<lparr>i_id = lit ''a'', i_body = json_obj [], i_created = 1, i_updated = 1\<rparr>, \<lparr>i_id = lit ''b'', i_body = json_obj [], i_created = 2, i_updated = 2\<rparr>]"
    by (simp add: demo_two_rows_def)
  have "lit ''instances.list'' \<noteq> lit ''instance.get''" "lit ''instances.list'' \<noteq> lit ''instances.count''" by (simp_all add: lit_def)
  then obtain r where r: "ckp_query demo_door demo_read (lit ''instances.list'') ?p demo_two_rows = Inr r"
    by (simp add: ckp_query_def D n p(2,3) sel rows newest_def Let_def)
  from listing_shows_newest[OF r] have "json_get r (lit ''count'') = Some (JNumber (JInt 2))"
    "Option.bind (json_get r (lit ''completeness'')) (\<lambda>c. json_get c (lit ''verdict'')) = Some (jlit ''truncated'')"
    by (auto simp: D n p(2,3) sel rows)
  with r show ?thesis by blast
qed

text \<open>The three spellings of an id that the substrate hands out name one instance.\<close>

lemma id_forms_agree:
  assumes "find_instance db i \<noteq> None" "\<forall>x \<in> set (t_instances db). body_text E (i_body x) (lit ''@id'') = Some iri \<longrightarrow> i_id x = i"
    "\<exists>x \<in> set (t_instances db). body_text E (i_body x) (lit ''@id'') = Some iri" "find_instance db iri = None"
    "find_instance db (lit ''urn:ckp:instance:'' @ i) = None"
    "\<forall>x \<in> set (t_instances db). body_text E (i_body x) (lit ''@id'') \<noteq> Some (lit ''urn:ckp:instance:'' @ i)"
  shows "resolve_id E db i = i" "resolve_id E db iri = i" "resolve_id E db (lit ''urn:ckp:instance:'' @ i) = i"
proof -
  show "resolve_id E db i = i" using assms(1) by (simp add: resolve_id_def)
  obtain x where x: "List.find (\<lambda>x. body_text E (i_body x) (lit ''@id'') = Some iri) (t_instances db) = Some x" "i_id x = i"
    using assms(2,3) by (cases "List.find (\<lambda>x. body_text E (i_body x) (lit ''@id'') = Some iri) (t_instances db)") (auto simp: find_None_iff find_Some_iff)
  then show "resolve_id E db iri = i" using assms(4) by (simp add: resolve_id_def)
  have "List.find (\<lambda>x. body_text E (i_body x) (lit ''@id'') = Some (lit ''urn:ckp:instance:'' @ i)) (t_instances db) = None"
    using assms(6) by (auto simp: find_None_iff)
  then show "resolve_id E db (lit ''urn:ckp:instance:'' @ i) = i" using assms(1,5) by (simp add: resolve_id_def)
qed

end
