(* ===== verification/Ckp_Board.thy ===== *)
theory Ckp_Board
  imports Ckp_Read Ckp_Orbit_Props
begin

text \<open>
  The verbs of \<^verbatim>\<open>src/sql/pgck-baseline.sql\<close> that only read tables, beside those of \<open>Ckp_Read\<close>:
  \<^verbatim>\<open>kernels.list\<close>, \<^verbatim>\<open>provenance\<close>, \<^verbatim>\<open>snapshot.board\<close>, \<^verbatim>\<open>snapshot.bodies\<close>, \<^verbatim>\<open>authority.mine\<close>
  (\<^verbatim>\<open>authority_of\<close>) and \<^verbatim>\<open>orbit.next\<close> (\<^verbatim>\<open>next_crossing\<close>). Text is ordered by code points, nulls last;
  an aggregate without an order is in table order. The time stamps of proof and ledger
  rows, which the tables of the model leave out, are the functions of \<open>board_env\<close> on the rows' numbers.
\<close>

record board_env =
  proof_time :: "int \<Rightarrow> json"
  ledger_time :: "int \<Rightarrow> json"

section \<open>Listing the board\<close>

definition typed_as :: "'g ckp_env \<Rightarrow> str \<Rightarrow> instance_row \<Rightarrow> bool" where
  "typed_as E ty i \<longleftrightarrow> body_text E (i_body i) (lit ''type'') = Some ty"

text \<open>\<^verbatim>\<open>ORDER BY k\<close> with nulls last.\<close>

definition order_by :: "('a \<Rightarrow> ('b::linorder) option) \<Rightarrow> 'a list \<Rightarrow> 'a list" where
  "order_by k xs = sort_key (\<lambda>x. the (k x)) (filter (\<lambda>x. k x \<noteq> None) xs) @ filter (\<lambda>x. k x = None) xs"

definition goal_name :: "'g ckp_env \<Rightarrow> instance_row \<Rightarrow> str" where
  "goal_name E i = coalesce_text (body_text E (i_body i) RDFS_LABEL)
     (case strip_prefix (lit ''backlog:'') (i_id i) of Some r \<Rightarrow> r | None \<Rightarrow> i_id i)"

definition kernels_list :: "'g door_env \<Rightarrow> 'g door_db txn \<Rightarrow> json" where
  "kernels_list D t =
     (let E = cenv D;
          goals = sort_key i_id (filter (\<lambda>i. typed_as E (board ''Goal'') i \<and> starts_with (lit ''backlog:'') (i_id i)) (t_instances (ckp (txn_db t))));
          ks = map (\<lambda>i. json_obj [(lit ''name'', JString (goal_name E i)), (lit ''id'', JString (i_id i)),
                 (lit ''urn'', JString (lit ''ckp://Kernel#'' @ slug (lower_text E) (goal_name E i)))]) goals
      in jsonb_concat (json_obj [(lit ''ok'', JBool True), (lit ''kernels'', JArray ks)]) (read_verdict (int (length ks)) None None))"

definition snapshot_bodies :: "'g door_env \<Rightarrow> json \<Rightarrow> 'g door_db txn \<Rightarrow> json" where
  "snapshot_bodies D p t =
     (let E = cenv D;
          rows = filter (\<lambda>i. case body_text E p (lit ''kernel'') of None \<Rightarrow> True
                   | Some k \<Rightarrow> body_text E (i_body i) (board ''target_kernel'') = Some k) (t_instances (ckp (txn_db t)))
      in json_obj [(lit ''ok'', JBool True), (lit ''bodies'', JArray (map i_body (sort_key i_id rows)))])"

text \<open>A task of the board, with the number it is ordered by: \<^verbatim>\<open>NULLIF(queue_seq, '')::int\<close>.\<close>

definition task_entry :: "'g door_env \<Rightarrow> 'g door_db txn \<Rightarrow> instance_row \<Rightarrow> json" where
  "task_entry D t i =
     (let E = cenv D; txt = (\<lambda>k. jtext (body_text E (i_body i) (board k)));
          val = (\<lambda>k. case json_get (i_body i) (board k) of None \<Rightarrow> JNull | Some v \<Rightarrow> v)
      in json_obj [(lit ''id'', JString (i_id i)), (lit ''title'', txt ''title''), (lit ''target_kernel'', txt ''target_kernel''),
           (lit ''part_of_goal'', txt ''part_of_goal''), (lit ''lifecycle_state'', txt ''lifecycle_state''),
           (lit ''priority'', val ''priority''), (lit ''queue_seq'', val ''queue_seq''), (lit ''created_by'', txt ''created_by''),
           (lit ''proof_digest'', jtext (proof_digest (ckp (txn_db t)) (i_id i))),
           (lit ''verified'', JBool (verify_in D t (i_id i)))])"

definition task_seq :: "'g ckp_env \<Rightarrow> instance_row \<Rightarrow> int option sql" where
  "task_seq E i = (case nullif_empty (body_text E (i_body i) (board ''queue_seq'')) of
     None \<Rightarrow> Inr None | Some s \<Rightarrow> and_then (int4_in E s) (\<lambda>n. Inr (Some n)))"

fun with_seqs :: "'g ckp_env \<Rightarrow> instance_row list \<Rightarrow> (int option \<times> instance_row) list sql" where
  "with_seqs E [] = Inr []"
| "with_seqs E (i # is) = and_then (task_seq E i) (\<lambda>s. and_then (with_seqs E is) (\<lambda>xs. Inr ((s, i) # xs)))"

definition snapshot_board :: "'g door_env \<Rightarrow> 'g door_db txn \<Rightarrow> json sql" where
  "snapshot_board D t =
     (let E = cenv D; rows = t_instances (ckp (txn_db t));
          title = (\<lambda>i. body_text E (i_body i) (board ''title''));
          kernels = map (\<lambda>i. json_obj [(lit ''name'', jtext (title i)), (lit ''id'', JString (i_id i))])
            (order_by title (filter (typed_as E (board ''Goal'')) rows))
      in and_then (with_seqs E (filter (typed_as E (board ''Task'')) rows)) (\<lambda>xs.
           let tasks = order_by (\<lambda>(s, i). body_text E (i_body i) (board ''target_kernel'')) (order_by fst xs)
           in Inr (json_obj [(lit ''ok'', JBool True), (lit ''kernels'', JArray kernels),
                (lit ''tasks'', JArray (map (\<lambda>(s, i). task_entry D t i) tasks))])))"

section \<open>Provenance\<close>

definition provenance :: "'g door_env \<Rightarrow> board_env \<Rightarrow> json \<Rightarrow> 'g door_db txn \<Rightarrow> json" where
  "provenance D B p t =
     (let E = cenv D; db = ckp (txn_db t); raw = coalesce_text (body_text E p (lit ''id'')) [];
          tid = (if btrim spc raw = [] then None else Some (resolve_id E db raw));
          proofs = filter (\<lambda>q. Some (pr_about q) = tid) (t_proof db);
          entry = (\<lambda>q. json_obj [(lit ''digest'', JString (pr_digest q)), (lit ''method'', JString (pr_method q)),
                    (lit ''verified_at'', proof_time B (pr_id q))]);
          line = (\<lambda>l. json_obj [(lit ''seq'', JNumber (JInt (l_seq l))),
                    (lit ''prev_seq'', case l_prev_seq l of None \<Rightarrow> JNull | Some s \<Rightarrow> JNumber (JInt s)),
                    (lit ''body_sha256'', JString (l_body_sha256 l)), (lit ''ts'', ledger_time B (l_seq l))])
      in json_obj [(lit ''ok'', JBool True), (lit ''id'', jtext tid),
           (lit ''verified'', JBool (case tid of None \<Rightarrow> False | Some i \<Rightarrow> verify_in D t i)),
           (lit ''body'', case Option.bind tid (find_instance db) of None \<Rightarrow> JNull | Some b \<Rightarrow> b),
           (lit ''proof'', case latest_by pr_id (filter (\<lambda>q. pr_method q = HMAC_METHOD) proofs) of None \<Rightarrow> JNull | Some q \<Rightarrow> entry q),
           (lit ''proofs'', JArray (map entry (sort_key pr_id proofs))),
           (lit ''ledger'', JArray (map line (sort_key l_seq (filter (\<lambda>l. Some (l_instance_id l) = tid) (t_ledger db)))))])"

section \<open>The authority of an identity\<close>

definition PARTICIPANT :: str where
  "PARTICIPANT = lit ''urn:ckp:participant:''"

text \<open>Both spellings of one identity, the canonical one first.\<close>

definition identity_forms :: "str \<Rightarrow> str \<times> str" where
  "identity_forms v_in = (case strip_prefix PARTICIPANT v_in of
     Some bare \<Rightarrow> (v_in, bare) | None \<Rightarrow> (PARTICIPANT @ v_in, v_in))"

definition memberships_of :: "'g ckp_env \<Rightarrow> 'g ckp_db \<Rightarrow> str \<Rightarrow> json list" where
  "memberships_of E db v_in =
     map i_body (filter (\<lambda>i. typed_as E (core ''Membership'') i \<and>
       (\<exists>f \<in> {fst (identity_forms v_in), snd (identity_forms v_in)}. body_text E (i_body i) (core ''memberIs'') = Some f)) (t_instances db))"

definition held_roles :: "'g ckp_env \<Rightarrow> 'g ckp_db \<Rightarrow> str \<Rightarrow> (str \<times> json) list" where
  "held_roles E db v_in =
     List.map_filter (\<lambda>i. case body_text E (i_body i) (lit ''@id'') of
         None \<Rightarrow> None
       | Some r \<Rightarrow> if typed_as E (core ''Role'') i \<and>
             list_ex (\<lambda>m. body_text E m (core ''holdsRole'') = Some r) (memberships_of E db v_in)
           then Some (r, i_body i) else None) (t_instances db)"

text \<open>\<^verbatim>\<open>jsonb_array_elements_text\<close> of an array, or of a single string\<close>

definition grant_iris :: "'g ckp_env \<Rightarrow> json \<Rightarrow> str option list" where
  "grant_iris E r = (case json_get r (core ''grant'') of
     Some (JArray vs) \<Rightarrow> map (text_of (jsonb_text E)) vs
   | Some (JString s) \<Rightarrow> [Some s]
   | _ \<Rightarrow> [])"

definition grant_rows :: "'g ckp_env \<Rightarrow> 'g ckp_db \<Rightarrow> json list" where
  "grant_rows E db = map i_body (filter (typed_as E (core ''Grant'')) (t_instances db))"

definition reached_grants :: "'g ckp_env \<Rightarrow> 'g ckp_db \<Rightarrow> str \<Rightarrow> (json \<times> str) list" where
  "reached_grants E db v_in =
     concat (map (\<lambda>(r, b). concat (map (\<lambda>iri. map (\<lambda>g. (g, r))
         (filter (\<lambda>g. iri \<noteq> None \<and> body_text E g (lit ''@id'') = iri) (grant_rows E db))) (grant_iris E b))) (held_roles E db v_in)) @
     concat (map (\<lambda>(r, b). map (\<lambda>g. (g, r)) (filter (\<lambda>g. body_text E g (core ''grantedVia'') = Some r) (grant_rows E db))) (held_roles E db v_in))"

definition merged_grants :: "'g ckp_env \<Rightarrow> 'g ckp_db \<Rightarrow> str \<Rightarrow> (json \<times> str) list" where
  "merged_grants E db v_in =
     distinct_on (\<lambda>(g, r). body_text E g (lit ''@id'')) []
       (order_by (\<lambda>(g, r). body_text E g (lit ''@id'')) (sort_key snd (reached_grants E db v_in)))"

definition EMPTY_CHAIN :: str where
  "EMPTY_CHAIN = lit ''no sealed Membership for this identity '' @ [8212] @ lit '' the authority chain is EMPTY, which is '' @
     lit ''not the same as unchecked. Both the bare and urn:ckp:participant: spellings were '' @
     lit ''tried. Dispatch is currently governed by the transport tier and the role floor, not by this chain.''"

definition NO_GRANT :: str where
  "NO_GRANT = lit ''this identity holds a Membership and a Role, and that Role reaches NO Grant. '' @
     lit ''The chain resolves and TERMINATES '' @ [8212] @ lit '' reported as a result, not as silence.''"

definition ANONYMOUS_TIER :: str where
  "ANONYMOUS_TIER = lit ''anonymous tier: no verified identity, so no authority chain exists to resolve. '' @
     lit ''Transport grants (events-only, no publish) are minted at admission and are not '' @
     lit ''readable here '' @ [8212] @ lit '' see SPEC.PGCK.IDENTITY-PATH.''"

definition authority_of :: "'g ckp_env \<Rightarrow> (str \<Rightarrow> str option) \<Rightarrow> 'g ckp_db \<Rightarrow> str option \<Rightarrow> json" where
  "authority_of E s db p_participant =
     (case (case p_participant of Some x \<Rightarrow> Some x | None \<Rightarrow> guc_nonempty s ''ckp.requester'') of
        None \<Rightarrow> json_obj [(lit ''ok'', JBool True), (lit ''identity'', JNull), (lit ''identityCanonical'', JNull),
          (lit ''tier'', jlit ''anonymous''), (lit ''memberships'', JArray []), (lit ''grants'', JArray []), (lit ''note'', JString ANONYMOUS_TIER)]
      | Some v_in \<Rightarrow>
          let txt = (\<lambda>b k. jtext (body_text E b k)); ms = memberships_of E db v_in; gs = merged_grants E db v_in
          in json_obj [(lit ''ok'', JBool True), (lit ''identity'', JString v_in), (lit ''identityCanonical'', JString (fst (identity_forms v_in))),
               (lit ''tier'', jlit ''verified''),
               (lit ''memberships'', JArray (map (\<lambda>m. json_obj [(lit ''membership'', txt m (lit ''@id'')),
                  (lit ''memberOf'', txt m (core ''memberOf'')), (lit ''holdsRole'', txt m (core ''holdsRole''))]) ms)),
               (lit ''grants'', JArray (map (\<lambda>(g, r). json_obj [(lit ''grant'', txt g (lit ''@id'')),
                  (lit ''permTarget'', txt g (core ''permTarget'')), (lit ''permAction'', txt g (core ''permAction'')),
                  (lit ''permDomain'', txt g (core ''permDomain'')), (lit ''permission'', txt g (core ''permission'')),
                  (lit ''viaRole'', JString r)]) gs)),
               (lit ''note'', if ms = [] then JString EMPTY_CHAIN else if gs = [] then JString NO_GRANT else JNull)])"

section \<open>The next crossing\<close>

text \<open>\<^verbatim>\<open>GREATEST(ceil(EXTRACT(epoch FROM (now() - anchor)) / period), 1)\<close>, on times in
  microseconds and with the exact quotient\<close>

definition crossing_number :: "int \<Rightarrow> int \<Rightarrow> int \<Rightarrow> int" where
  "crossing_number now v_period v_anchor = max (- ((v_anchor - now) div (v_period * SECOND))) 1"

definition crossing_time :: "int \<Rightarrow> int \<Rightarrow> int \<Rightarrow> int" where
  "crossing_time now v_period v_anchor = v_anchor + crossing_number now v_period v_anchor * v_period * SECOND"

definition crossing_reply :: "'g ckp_env \<Rightarrow> int \<Rightarrow> str \<Rightarrow> int \<Rightarrow> int \<Rightarrow> int \<Rightarrow> json" where
  "crossing_reply E now k v_period v_lead v_anchor =
     (let v_next = crossing_time now v_period v_anchor; num = (\<lambda>n. JNumber (JInt n))
      in json_obj [(lit ''ok'', JBool True), (lit ''kernel'', JString k), (lit ''periodSeconds'', num v_period), (lit ''leadSeconds'', num v_lead),
           (lit ''anchor'', JString (utc_text E v_anchor)), (lit ''rotation'', num (crossing_number now v_period v_anchor)),
           (lit ''nextCrossing'', JString (utc_text E v_next)),
           (lit ''prepareOpensAt'', JString (utc_text E (v_next - v_lead * SECOND))),
           (lit ''method'', JString (lit ''anchor + ceil((now-anchor)/period)*period '' @ [8212] @ lit '' re-derivable from the sealed law alone''))])"

definition no_kernel_reply :: "str option \<Rightarrow> json" where
  "no_kernel_reply p_kernel = json_obj [(lit ''ok'', JBool False), (lit ''error'', jlit ''unknown_instance''), (lit ''sqlstate'', jlit ''42704''),
     (lit ''hint'', JString (lit ''no sealed ckp:Kernel at urn:ckp:'' @ coalesce_text p_kernel [] @ lit ''/kernel '' @ [8212] @ lit '' germinate it first''))]"

definition no_orbit_reply :: "str \<Rightarrow> json" where
  "no_orbit_reply k = json_obj [(lit ''ok'', JBool False), (lit ''refused'', JBool True), (lit ''sqlstate'', jlit ''42704''),
     (lit ''error'', jlit ''no_orbit_declared''), (lit ''kernel'', JString k),
     (lit ''hint'', JString (lit ''this kernel declares no orbitPeriodSeconds/orbitAnchor '' @ [8212] @
        lit '' no orbit is a real answer, not a zero. Declare the law through propose'' @ [8594] @ lit ''vote'' @ [8594] @
        lit ''apply (set_kernel_policy).''))]"

text \<open>A value cast from text, null where the text is: \<^verbatim>\<open>(body->>k)::int\<close>, \<^verbatim>\<open>::timestamptz\<close>.\<close>

definition cast_opt :: "(str \<Rightarrow> 'a sql) \<Rightarrow> str option \<Rightarrow> 'a option sql" where
  "cast_opt f x = (case x of None \<Rightarrow> Inr None | Some s \<Rightarrow> and_then (f s) (\<lambda>v. Inr (Some v)))"

definition next_crossing :: "'g orbit_env \<Rightarrow> int \<Rightarrow> str option \<Rightarrow> 'g ckp_db \<Rightarrow> json sql" where
  "next_crossing X now p_kernel db =
     (let E = cenv (denv X)
      in case Option.bind p_kernel (\<lambda>k. map_option (Pair k) (kernel_body E db k)) of
           None \<Rightarrow> Inr (no_kernel_reply p_kernel)
         | Some (k, b) \<Rightarrow>
             and_then (cast_opt (int4_in E) (body_text E b (core ''orbitPeriodSeconds''))) (\<lambda>v_period.
             and_then (cast_opt (int4_in E) (body_text E b (core ''orbitLeadSeconds''))) (\<lambda>v_lead.
             and_then (cast_opt (ts_in X) (body_text E b (core ''orbitAnchor''))) (\<lambda>v_anchor.
               case (v_period, v_anchor) of
                 (Some per, Some anc) \<Rightarrow>
                   if per = 0 then Inl (Engine_Error (lit ''22012'') (lit ''division by zero''))
                   else Inr (crossing_reply E now k per (case v_lead of None \<Rightarrow> 0 | Some l \<Rightarrow> l) anc)
               | _ \<Rightarrow> Inr (no_orbit_reply k)))))"

section \<open>The verbs\<close>

definition board_handlers :: "'g orbit_env \<Rightarrow> board_env \<Rightarrow> int \<Rightarrow> 'g handlers \<Rightarrow> 'g handlers" where
  "board_handlers X B now H n p t =
     (let D = denv X; E = cenv D; db = ckp (txn_db t)
      in if n = ''orbit.next''
         then and_then (next_crossing X now (case body_text E p (lit ''kernel'') of Some k \<Rightarrow> Some k
                          | None \<Rightarrow> session (txn_db t) (lit ''ckp.project'')) db) (\<lambda>j. Inr (Some j, t))
         else if n = ''authority.mine'' then Inr (Some (authority_of E (eff t) db None), t)
         else if n = ''kernels.list'' then Inr (Some (kernels_list D t), t)
         else if n = ''provenance'' then Inr (Some (provenance D B p t), t)
         else if n = ''snapshot.board'' then and_then (snapshot_board D t) (\<lambda>j. Inr (Some j, t))
         else if n = ''snapshot.bodies'' then Inr (Some (snapshot_bodies D p t), t)
         else H n p t)"

section \<open>What the authority answer may contain\<close>

lemma order_by_set: "set (order_by f xs) = set xs"
  by (auto simp: order_by_def)

lemma distinct_on_distinct: "distinct (map f (distinct_on f seen xs))"
proof (induction xs arbitrary: seen)
  case (Cons x xs)
  have "f x \<notin> f ` set (distinct_on f (f x # seen) xs)" by (simp add: distinct_on_keys)
  with Cons show ?case by simp
qed simp

lemma distinct_map_inj: "inj h \<Longrightarrow> distinct (map h xs) = distinct xs"
  by (auto simp: distinct_map intro: inj_on_subset)

text \<open>The chain as a relation on the sealed rows: a Membership of the identity holds the role, a Role of that
  name exists, and a Grant is listed by the Role or names the Role itself.\<close>

definition authority_chain :: "'g ckp_env \<Rightarrow> 'g ckp_db \<Rightarrow> str \<Rightarrow> json \<Rightarrow> str \<Rightarrow> bool" where
  "authority_chain E db v g r \<longleftrightarrow>
     (\<exists>m \<in> set (t_instances db). \<exists>role \<in> set (t_instances db). \<exists>gr \<in> set (t_instances db).
        typed_as E (core ''Membership'') m \<and> body_text E (i_body m) (core ''memberIs'') \<in> {Some v, Some (PARTICIPANT @ v)} \<and>
        body_text E (i_body m) (core ''holdsRole'') = Some r \<and>
        typed_as E (core ''Role'') role \<and> body_text E (i_body role) (lit ''@id'') = Some r \<and>
        typed_as E (core ''Grant'') gr \<and> i_body gr = g \<and>
        (body_text E g (lit ''@id'') \<noteq> None \<and> body_text E g (lit ''@id'') \<in> set (grant_iris E (i_body role)) \<or>
         body_text E g (core ''grantedVia'') = Some r))"

lemma memberships_of_iff:
  assumes "strip_prefix PARTICIPANT v = None"
  shows "b \<in> set (memberships_of E db v) \<longleftrightarrow> (\<exists>m \<in> set (t_instances db). i_body m = b \<and> typed_as E (core ''Membership'') m \<and>
     body_text E (i_body m) (core ''memberIs'') \<in> {Some v, Some (PARTICIPANT @ v)})"
  using assms by (auto simp: memberships_of_def identity_forms_def)

lemma set_map_filter: "y \<in> set (List.map_filter f xs) \<longleftrightarrow> (\<exists>x \<in> set xs. f x = Some y)"
  by (induction xs) (auto split: option.splits)

lemma held_roles_iff:
  "(r, b) \<in> set (held_roles E db v) \<longleftrightarrow> (\<exists>role \<in> set (t_instances db). i_body role = b \<and> typed_as E (core ''Role'') role \<and>
     body_text E b (lit ''@id'') = Some r \<and> (\<exists>m \<in> set (memberships_of E db v). body_text E m (core ''holdsRole'') = Some r))"
proof -
  have "(r, b) \<in> set (held_roles E db v) \<longleftrightarrow> (\<exists>role \<in> set (t_instances db). typed_as E (core ''Role'') role \<and> i_body role = b \<and>
      body_text E (i_body role) (lit ''@id'') = Some r \<and> list_ex (\<lambda>m. body_text E m (core ''holdsRole'') = Some r) (memberships_of E db v))"
    unfolding held_roles_def set_map_filter by (auto split: option.splits if_splits)
  then show ?thesis by (auto simp: list_ex_iff)
qed

lemma reached_grants_joined:
  "(g, r) \<in> set (reached_grants E db v) \<longleftrightarrow> g \<in> set (grant_rows E db) \<and> (\<exists>b. (r, b) \<in> set (held_roles E db v) \<and>
     (body_text E g (lit ''@id'') \<noteq> None \<and> body_text E g (lit ''@id'') \<in> set (grant_iris E b) \<or> body_text E g (core ''grantedVia'') = Some r))"
  unfolding reached_grants_def by (auto; blast)

lemma reached_grants_iff:
  assumes "strip_prefix PARTICIPANT v = None"
  shows "(g, r) \<in> set (reached_grants E db v) \<longleftrightarrow> authority_chain E db v g r"
proof -
  have gr: "g \<in> set (grant_rows E db) \<longleftrightarrow> (\<exists>i \<in> set (t_instances db). typed_as E (core ''Grant'') i \<and> i_body i = g)"
    by (auto simp: grant_rows_def)
  have ms: "(\<exists>m \<in> set (memberships_of E db v). body_text E m (core ''holdsRole'') = Some r) \<longleftrightarrow>
      (\<exists>m \<in> set (t_instances db). typed_as E (core ''Membership'') m \<and> body_text E (i_body m) (core ''memberIs'') \<in> {Some v, Some (PARTICIPANT @ v)} \<and>
         body_text E (i_body m) (core ''holdsRole'') = Some r)"
    unfolding Bex_def memberships_of_iff[OF assms] by blast
  show ?thesis unfolding reached_grants_joined held_roles_iff gr ms authority_chain_def by blast
qed

text \<open>Of the grants that are reached, one entry per identifier is kept.\<close>

lemma merged_grants_facts:
  assumes "strip_prefix PARTICIPANT v = None"
  shows "(g, r) \<in> set (merged_grants E db v) \<Longrightarrow> authority_chain E db v g r"
    "authority_chain E db v g r \<Longrightarrow> \<exists>(g', r') \<in> set (merged_grants E db v). body_text E g' (lit ''@id'') = body_text E g (lit ''@id'')"
    "distinct (map (\<lambda>(g, r). body_text E g (lit ''@id'')) (merged_grants E db v))"
proof -
  let ?f = "\<lambda>(g, r). body_text E g (lit ''@id'')" and ?xs = "order_by (\<lambda>(g, r). body_text E g (lit ''@id'')) (sort_key snd (reached_grants E db v))"
  have xs: "set ?xs = set (reached_grants E db v)" by (simp add: order_by_set)
  show "authority_chain E db v g r" if "(g, r) \<in> set (merged_grants E db v)"
    using that distinct_on_mem[of "(g, r)" ?f "[]" ?xs] xs reached_grants_iff[OF assms, of g r E db] by (simp add: merged_grants_def)
  show "\<exists>(g', r') \<in> set (merged_grants E db v). body_text E g' (lit ''@id'') = body_text E g (lit ''@id'')" if "authority_chain E db v g r"
  proof -
    have "?f (g, r) \<in> ?f ` set ?xs" using that reached_grants_iff[OF assms, of g r E db] by (intro imageI) (simp add: xs)
    then have "?f (g, r) \<in> ?f ` set (merged_grants E db v)" unfolding merged_grants_def distinct_on_keys by simp
    then obtain x where "x \<in> set (merged_grants E db v)" "?f (g, r) = ?f x" by (rule imageE)
    then show ?thesis by (intro bexI[of _ x]) (auto split: prod.splits)
  qed
  show "distinct (map ?f (merged_grants E db v))" unfolding merged_grants_def by (rule distinct_on_distinct)
qed

text \<open>Both spellings of an identity have the same two forms.\<close>

lemma identity_forms_urn:
  assumes "strip_prefix PARTICIPANT v = None"
  shows "identity_forms (PARTICIPANT @ v) = identity_forms v"
  using assms by (simp add: identity_forms_def)

lemma chain_urn:
  assumes "strip_prefix PARTICIPANT v = None"
  shows "memberships_of E db (PARTICIPANT @ v) = memberships_of E db v" "merged_grants E db (PARTICIPANT @ v) = merged_grants E db v"
proof -
  show ms: "memberships_of E db (PARTICIPANT @ v) = memberships_of E db v" by (simp add: memberships_of_def identity_forms_urn[OF assms])
  show "merged_grants E db (PARTICIPANT @ v) = merged_grants E db v" unfolding merged_grants_def reached_grants_def held_roles_def ms ..
qed

definition grant_entry :: "'g ckp_env \<Rightarrow> json \<Rightarrow> str \<Rightarrow> json" where
  "grant_entry E g r = json_obj [(lit ''grant'', jtext (body_text E g (lit ''@id''))),
     (lit ''permTarget'', jtext (body_text E g (core ''permTarget''))), (lit ''permAction'', jtext (body_text E g (core ''permAction''))),
     (lit ''permDomain'', jtext (body_text E g (core ''permDomain''))), (lit ''permission'', jtext (body_text E g (core ''permission''))),
     (lit ''viaRole'', JString r)]"

text \<open>C23: the authority that is reported is the authority there is. For a verified identity every grant entry of
  \<^verbatim>\<open>authority.mine\<close> is a sealed Grant that a chain reaches: a sealed Membership of the identity holds the role the
  entry names, a sealed Role has that name, and the Role lists the Grant or the Grant names the Role. Conversely
  every Grant that such a chain reaches is reported, once per identifier. And the answer does not depend on which of the
  two spellings of the identity, bare or \<^verbatim>\<open>urn:ckp:participant:\<close>, the door supplies.\<close>

theorem authority_reached_by_membership:
  assumes "strip_prefix PARTICIPANT v = None"
  shows "(\<exists>gs. json_get (authority_of E s db (Some v)) (lit ''grants'') = Some (JArray gs) \<and>
      (\<forall>e \<in> set gs. \<exists>g r. authority_chain E db v g r \<and> e = grant_entry E g r) \<and>
      (\<forall>g r. authority_chain E db v g r \<longrightarrow> (\<exists>e \<in> set gs. json_get e (lit ''grant'') = Some (jtext (body_text E g (lit ''@id''))))) \<and>
      distinct (map (\<lambda>e. json_get e (lit ''grant'')) gs)) \<and>
    list_all (\<lambda>k. json_get (authority_of E s db (Some (PARTICIPANT @ v))) (lit k) = json_get (authority_of E s db (Some v)) (lit k))
      [''identityCanonical'', ''tier'', ''memberships'', ''grants'', ''note'']"
proof (intro conjI exI)
  let ?ms = "merged_grants E db v"
  let ?gs = "map (\<lambda>(g, r). grant_entry E g r) ?ms"
  note m = merged_grants_facts[OF assms, where E = E and db = db]
  have id: "json_get (grant_entry E g r) (lit ''grant'') = Some (jtext (body_text E g (lit ''@id'')))" for g r
    by (simp add: grant_entry_def json_get_obj)
  show "json_get (authority_of E s db (Some v)) (lit ''grants'') = Some (JArray ?gs)"
    by (simp add: authority_of_def grant_entry_def[abs_def] json_get_obj Let_def)
  show "\<forall>e \<in> set ?gs. \<exists>g r. authority_chain E db v g r \<and> e = grant_entry E g r" using m(1) by auto
  show "\<forall>g r. authority_chain E db v g r \<longrightarrow> (\<exists>e \<in> set ?gs. json_get e (lit ''grant'') = Some (jtext (body_text E g (lit ''@id''))))"
  proof (intro allI impI)
    fix g r assume "authority_chain E db v g r"
    from m(2)[OF this] obtain g' r' where "(g', r') \<in> set ?ms" "body_text E g' (lit ''@id'') = body_text E g (lit ''@id'')" by blast
    then show "\<exists>e \<in> set ?gs. json_get e (lit ''grant'') = Some (jtext (body_text E g (lit ''@id'')))"
      by (intro bexI[of _ "grant_entry E g' r'"]) (auto simp: id)
  qed
  have "map (\<lambda>e. json_get e (lit ''grant'')) ?gs = map (\<lambda>x. Some (jtext x)) (map (\<lambda>(g, r). body_text E g (lit ''@id'')) ?ms)"
    by (simp add: id split_beta)
  moreover have "inj (\<lambda>x. Some (jtext x))" by (auto simp: inj_def jtext_def split: option.splits)
  ultimately show "distinct (map (\<lambda>e. json_get e (lit ''grant'')) ?gs)" using m(3) by (simp only: distinct_map_inj)
  show "list_all (\<lambda>k. json_get (authority_of E s db (Some (PARTICIPANT @ v))) (lit k) = json_get (authority_of E s db (Some v)) (lit k))
      [''identityCanonical'', ''tier'', ''memberships'', ''grants'', ''note'']"
    by (simp add: authority_of_def chain_urn[OF assms] identity_forms_urn[OF assms] Let_def json_get_obj)
qed

definition demo_chain :: "unit ckp_db" where
  "demo_chain = (ckp (txn_db demo_door_txn))\<lparr>t_instances :=
     [\<lparr>i_id = lit ''m'', i_body = json_obj [(lit ''type'', JString (core ''Membership'')), (core ''memberIs'', JString (PARTICIPANT @ lit ''ann'')), (core ''holdsRole'', jlit ''r'')],
        i_created = 0, i_updated = 0\<rparr>,
      \<lparr>i_id = lit ''r'', i_body = json_obj [(lit ''type'', JString (core ''Role'')), (lit ''@id'', jlit ''r''), (core ''grant'', jlit ''g'')], i_created = 0, i_updated = 0\<rparr>,
      \<lparr>i_id = lit ''g'', i_body = json_obj [(lit ''type'', JString (core ''Grant'')), (lit ''@id'', jlit ''g'')], i_created = 0, i_updated = 0\<rparr>]\<rparr>"

theorem authority_reached_by_membership_witness:
  "\<exists>e. json_get (authority_of demo_ckp (\<lambda>_. None) demo_chain (Some (lit ''ann''))) (lit ''grants'') = Some (JArray [e]) \<and>
     (\<exists>g r. authority_chain demo_ckp demo_chain (lit ''ann'') g r \<and> e = grant_entry demo_ckp g r)"
proof -
  note ev = demo_chain_def jlit_def demo_ckp_def typed_as_def get_text_def text_of_def json_get_obj core_def core_ns_def lit_def
  have v: "strip_prefix PARTICIPANT (lit ''ann'') = None" by (simp add: PARTICIPANT_def lit_def)
  have hr: "held_roles demo_ckp demo_chain (lit ''ann'') = [(lit ''r'', json_obj [(lit ''type'', JString (core ''Role'')), (lit ''@id'', jlit ''r''), (core ''grant'', jlit ''g'')])]"
    by (simp add: held_roles_def memberships_of_def identity_forms_def v ev PARTICIPANT_def map_filter_simps)
  have gr: "grant_rows demo_ckp demo_chain = [json_obj [(lit ''type'', JString (core ''Grant'')), (lit ''@id'', jlit ''g'')]]"
    by (simp add: grant_rows_def ev)
  have "length (merged_grants demo_ckp demo_chain (lit ''ann'')) = 1"
    unfolding merged_grants_def reached_grants_def hr gr by (simp add: grant_iris_def order_by_def ev)
  then obtain e where e: "json_get (authority_of demo_ckp (\<lambda>_. None) demo_chain (Some (lit ''ann''))) (lit ''grants'') = Some (JArray [e])"
    by (auto simp: authority_of_def json_get_obj Let_def length_Suc_conv)
  then show ?thesis
    using authority_reached_by_membership[OF v, of demo_ckp "\<lambda>_. None" demo_chain] by auto
qed

section \<open>The announced crossing\<close>

lemma ceil_div:
  fixes m q :: int
  assumes "0 < q"
  shows "m \<le> (- ((- m) div q)) * q" "(- ((- m) div q)) * q < m + q"
proof -
  have "- m = (- m) div q * q + (- m) mod q" by simp
  moreover have "0 \<le> (- m) mod q" "(- m) mod q < q" using assms by simp_all
  ultimately show "m \<le> (- ((- m) div q)) * q" "(- ((- m) div q)) * q < m + q" by linarith+
qed

text \<open>With a positive period the answer is the first crossing that is not over: it is a
  crossing, not before now, and unless it is the very first one, the crossing before it
  is already past.\<close>

lemma crossing_time_bounds:
  assumes "0 < per"
  shows "now \<le> crossing_time now per anc" "anc + per * SECOND \<le> crossing_time now per anc"
    "crossing_time now per anc = anc + per * SECOND \<or> crossing_time now per anc < now + per * SECOND"
    "(crossing_time now per anc - anc) mod (per * SECOND) = 0"
proof -
  define q n where "q = per * SECOND" and "n = crossing_number now per anc"
  have q: "0 < q" using assms by (simp add: q_def SECOND_def)
  have n: "n = max (- ((- (now - anc)) div q)) 1" by (simp add: n_def crossing_number_def q_def)
  have c: "crossing_time now per anc = anc + n * q" by (simp add: crossing_time_def n_def q_def)
  note k = ceil_div[OF q, of "now - anc"]
  have "(- ((- (now - anc)) div q)) * q \<le> n * q" using q by (intro mult_right_mono) (simp_all add: n)
  with k(1) show "now \<le> crossing_time now per anc" by (simp add: c)
  have "1 * q \<le> n * q" using q by (intro mult_right_mono) (simp_all add: n)
  then show "anc + per * SECOND \<le> crossing_time now per anc" by (simp add: c q_def)
  show "crossing_time now per anc = anc + per * SECOND \<or> crossing_time now per anc < now + per * SECOND"
    using k(2) unfolding c q_def[symmetric] by (cases "n = 1") (auto simp: n max_def split: if_splits)
  show "(crossing_time now per anc - anc) mod (per * SECOND) = 0" by (simp add: c q_def)
qed

text \<open>From the moment a crossing is reached until the next, it is the one that is due.\<close>

lemma crossing_due_at:
  assumes "0 < per" "c = anc + n * (per * SECOND)" "1 \<le> n" "c \<le> now" "now < c + per * SECOND"
  shows "crossing_due now \<lparr>ol_kernel = Some k, ol_period = per, ol_anchor = anc\<rparr> = Some (k, c)"
proof -
  let ?q = "per * SECOND"
  have q: "0 < ?q" using assms(1) by (simp add: SECOND_def)
  have "(now - anc) div ?q = n"
  proof (rule int_div_pos_eq[of _ _ _ "now - c"])
    show "now - anc = ?q * n + (now - c)" using assms(2) by (simp add: algebra_simps)
  qed (use assms(4,5) in auto)
  then have lc: "last_crossing now \<lparr>ol_kernel = Some k, ol_period = per, ol_anchor = anc\<rparr> = c"
    using assms(2) by (simp add: last_crossing_def algebra_simps)
  have "1 * ?q \<le> n * ?q" using q assms(3) by (intro mult_right_mono) simp_all
  then have "anc < c" using q assms(2) by simp
  then show ?thesis using assms(1,4) lc by (simp add: crossing_due_def)
qed

lemma kernel_segment_iri: "m \<noteq> [] \<Longrightarrow> list_all urn_char m \<Longrightarrow> kernel_segment (kernel_iri m) = Some m"
  using between_match[of "lit ''urn:ckp:''" "lit ''/kernel''" m] by (simp add: kernel_segment_def kernel_iri_def Let_def)

text \<open>The sealed law of every kernel row is among those the detection reads.\<close>

lemma orbit_laws_mem:
  assumes "orbit_laws X rows = Inr ls" "i \<in> set rows" "body_text (cenv (denv X)) (i_body i) (lit ''type'') = Some (core ''Kernel'')"
    "cast_opt (int4_in (cenv (denv X))) (body_text (cenv (denv X)) (i_body i) (core ''orbitPeriodSeconds'')) = Inr (Some per)"
    "cast_opt (ts_in X) (body_text (cenv (denv X)) (i_body i) (core ''orbitAnchor'')) = Inr (Some anc)"
  shows "\<lparr>ol_kernel = Option.bind (body_text (cenv (denv X)) (i_body i) (lit ''@id'')) kernel_segment, ol_period = per, ol_anchor = anc\<rparr> \<in> set ls"
  using assms
proof (induction X rows arbitrary: ls rule: orbit_laws.induct)
  case (2 X j rest)
  then show ?case
    by (cases "j = i") (auto simp: Let_def cast_opt_def ok_iff split: option.splits if_splits)
qed simp

lemma crossing_at:
  assumes "0 < per" "crossing_time now per anc \<le> now'" "now' < crossing_time now per anc + per * SECOND"
  shows "crossing_due now' \<lparr>ol_kernel = Some k, ol_period = per, ol_anchor = anc\<rparr> = Some (k, crossing_time now per anc)"
  by (rule crossing_due_at[where n = "crossing_number now per anc"]) (use assms in \<open>simp_all add: crossing_time_def crossing_number_def\<close>)

lemma kernel_body_row:
  assumes "kernel_body E db k = Some b"
  obtains i where "i \<in> set (t_instances db)" "i_body i = b" "body_text E b (lit ''@id'') = Some (kernel_iri k)"
    "body_text E b (lit ''type'') = Some (core ''Kernel'')"
  using assms that by (auto simp: kernel_body_def dest!: latest_by_in)

text \<open>C30: the crossing that is announced is the one that is enqueued. For a kernel whose sealed law reads
  as a positive period and an anchor, \<^verbatim>\<open>orbit.next\<close> answers with the moment \<open>crossing_time\<close>, which
  is not before now and a whole number of periods after the anchor, and has no crossing between now and
  it unless it is the very first; and while the sealed rows stay as they are, every detection that succeeds from that moment until a
  period later leaves a job for exactly this kernel and crossing in the queue.\<close>

theorem announced_crossing_is_enqueued:
  assumes "kernel_body (cenv (denv X)) db k = Some b" "k \<noteq> []" "list_all urn_char k" "0 < per"
    "cast_opt (int4_in (cenv (denv X))) (body_text (cenv (denv X)) b (core ''orbitPeriodSeconds'')) = Inr (Some per)"
    "cast_opt (int4_in (cenv (denv X))) (body_text (cenv (denv X)) b (core ''orbitLeadSeconds'')) = Inr lead"
    "cast_opt (ts_in X) (body_text (cenv (denv X)) b (core ''orbitAnchor'')) = Inr (Some anc)"
  shows "(\<exists>j. next_crossing X now (Some k) db = Inr j \<and> json_get j (lit ''ok'') = Some (JBool True) \<and>
      json_get j (lit ''nextCrossing'') = Some (JString (utc_text (cenv (denv X)) (crossing_time now per anc)))) \<and>
    now \<le> crossing_time now per anc \<and> anc < crossing_time now per anc \<and> (per * SECOND) dvd (crossing_time now per anc - anc) \<and>
    (crossing_time now per anc = anc + per * SECOND \<or> crossing_time now per anc < now + per * SECOND) \<and>
    (\<forall>now' t n t'. t_instances (ckp (door (txn_db t))) = t_instances db \<longrightarrow> crossing_time now per anc \<le> now' \<longrightarrow>
       now' < crossing_time now per anc + per * SECOND \<longrightarrow> orbit_enqueue X now' t = Inr (n, t') \<longrightarrow>
       (k, crossing_time now per anc) \<in> (\<lambda>q. (j_kernel q, j_crossing q)) ` set (orbit_jobs (txn_db t')))"
proof -
  let ?E = "cenv (denv X)" let ?nxt = "crossing_time now per anc"
  obtain i where i: "i \<in> set (t_instances db)" "i_body i = b" "body_text ?E b (lit ''@id'') = Some (kernel_iri k)"
    "body_text ?E b (lit ''type'') = Some (core ''Kernel'')"
    using kernel_body_row[OF assms(1)] .
  note bounds = crossing_time_bounds[OF assms(4), where now = now and anc = anc]
  have "(k, ?nxt) \<in> (\<lambda>q. (j_kernel q, j_crossing q)) ` set (orbit_jobs (txn_db t'))"
    if t: "t_instances (ckp (door (txn_db t))) = t_instances db" "?nxt \<le> now'" "now' < ?nxt + per * SECOND" and e: "orbit_enqueue X now' t = Inr (n, t')" for now' t n t'
  proof -
    obtain ls jobs nx where ls: "orbit_laws X (t_instances db) = Inr ls"
      and f: "fold add_job (List.map_filter (crossing_due now') ls) (0, orbit_jobs (txn_db t), s_orbit (txn_db t)) = (n, jobs, nx)"
      and t': "t' = t\<lparr>txn_db := (txn_db t)\<lparr>orbit_jobs := jobs, s_orbit := nx\<rparr>\<rparr>"
      using orbit_enqueue_ok[OF e] t(1) by metis
    have "\<lparr>ol_kernel = Some k, ol_period = per, ol_anchor = anc\<rparr> \<in> set ls"
      using orbit_laws_mem[OF ls i(1), of per anc] kernel_segment_iri[OF assms(2,3)] assms(5,7) by (simp add: i(2,3,4))
    then have "(k, ?nxt) \<in> set (List.map_filter (crossing_due now') ls)"
      using crossing_at[OF assms(4) t(2,3)] by (force simp: List.map_filter_def)
    with fold_add_job_covers[OF f] show ?thesis unfolding t' by auto
  qed
  moreover have "anc < ?nxt" using bounds(2) assms(4) by (simp add: SECOND_def)
  moreover have "\<exists>j. next_crossing X now (Some k) db = Inr j \<and> json_get j (lit ''ok'') = Some (JBool True) \<and>
      json_get j (lit ''nextCrossing'') = Some (JString (utc_text ?E ?nxt))"
    using assms by (simp add: next_crossing_def crossing_reply_def json_get_obj Let_def)
  moreover have "(per * SECOND) dvd (?nxt - anc)" using bounds(4) by (simp add: mod_eq_0_iff_dvd)
  ultimately show ?thesis using bounds(1,3) by blast
qed

theorem announced_crossing_is_enqueued_witness:
  "\<exists>j t'. next_crossing demo_orbit 1500000 (Some (lit ''acme'')) (ckp (door (txn_db (demo_orbit_txn [])))) = Inr j \<and>
     json_get j (lit ''nextCrossing'') = Some (JString (utc_text demo_ckp 2000000)) \<and>
     orbit_enqueue demo_orbit 2500000 (demo_orbit_txn []) = Inr (1, t') \<and>
     (lit ''acme'', 2000000) \<in> (\<lambda>q. (j_kernel q, j_crossing q)) ` set (orbit_jobs (txn_db t'))"
proof -
  let ?db = "ckp (door (txn_db (demo_orbit_txn [])))" let ?b = "i_body demo_law"
  have e: "cenv (denv demo_orbit) = demo_ckp" by (simp add: demo_orbit_def demo_door_def)
  have k: "kernel_iri (lit ''acme'') = lit ''urn:ckp:acme/kernel''" by (simp add: kernel_iri_def lit_def)
  note law = demo_law_def demo_ckp_def get_text_def text_of_def json_get_obj cast_opt_def
  have b: "kernel_body demo_ckp ?db (lit ''acme'') = Some ?b" by (simp add: kernel_body_def latest_by_def law k)
  have u: "lit ''acme'' \<noteq> []" "list_all urn_char (lit ''acme'')" by (simp_all add: lit_def urn_char_def ascii_lower_digit_def)
  have per: "cast_opt (int4_in demo_ckp) (body_text demo_ckp ?b (core ''orbitPeriodSeconds'')) = Inr (Some 1)" by (simp add: law)
  have lead: "cast_opt (int4_in demo_ckp) (body_text demo_ckp ?b (core ''orbitLeadSeconds'')) = Inr None"
    by (simp add: law core_def core_ns_def lit_def)
  have anc: "cast_opt (ts_in demo_orbit) (body_text demo_ckp ?b (core ''orbitAnchor'')) = Inr (Some 0)"
    by (simp add: law demo_orbit_def core_def core_ns_def lit_def)
  have c: "crossing_time 1500000 1 0 = 2000000" by (simp add: crossing_time_def crossing_number_def SECOND_def)
  obtain t' where t': "orbit_enqueue demo_orbit 2500000 (demo_orbit_txn []) = Inr (1, t')" using demo_enqueue by blast
  note r = announced_crossing_is_enqueued[of demo_orbit ?db "lit ''acme''" ?b 1 None 0 1500000, unfolded e, OF b u zero_less_one per lead anc, unfolded c]
  from r have "\<forall>now' t n t'. t_instances (ckp (door (txn_db t))) = t_instances ?db \<longrightarrow> 2000000 \<le> now' \<longrightarrow> now' < 2000000 + 1 * SECOND \<longrightarrow>
      orbit_enqueue demo_orbit now' t = Inr (n, t') \<longrightarrow> (lit ''acme'', 2000000) \<in> (\<lambda>q. (j_kernel q, j_crossing q)) ` set (orbit_jobs (txn_db t'))"
    by (elim conjE)
  from this[rule_format, OF refl _ _ t'] have "(lit ''acme'', 2000000) \<in> (\<lambda>q. (j_kernel q, j_crossing q)) ` set (orbit_jobs (txn_db t'))"
    by (simp add: SECOND_def)
  with r t' show ?thesis by auto
qed

end
