(* ===== verification/Ckp_Pg.thy ===== *)
theory Ckp_Pg
  imports Ckp_Score_Props Ckp_Germinate Ckp_Board Inbound_Dispatch
begin

text \<open>
  The database behind the worker: each statement the Rust sources send, executed by the model
  of the SQL functions it calls. With it the laws that the Rust theories assume of the
  database are discharged for the governed path. The interface is the locale
  \<open>governed_database\<close>; \<open>ckp_pg\<close> is its instance.
\<close>

section \<open>The interface\<close>

locale governed_database =
  fixes P :: "'db pg"
    and outbox :: "'db \<Rightarrow> outbox_row list"
    and set_outbox :: "outbox_row list \<Rightarrow> 'db \<Rightarrow> 'db"
    and order :: "outbox_row list \<Rightarrow> outbox_row list"
    and to_jsonb :: "str \<Rightarrow> json option"
    and govern :: "'db \<Rightarrow> (str \<Rightarrow> str option) \<Rightarrow> str \<Rightarrow> json \<Rightarrow> str option \<times> 'db"
  assumes config: "set_config_law P"
    and cast: "cast_law P to_jsonb"
    and door: "dispatch_law P to_jsonb govern"
    and drain: "drain_law P outbox set_outbox order"
begin

text \<open>A batch of the inbound queue is a run of the governed function, and what it leaves in the
  outbox is published by the drains that follow.\<close>

lemma batch_governed:
  assumes "\<forall>a \<in> set actions. to_jsonb (from_utf8_lossy (act_payload a)) \<noteq> None"
  shows "drain_and_dispatch P (Healthy actions) db =
    (fst (governed_run to_jsonb govern actions db), Healthy [], snd (governed_run to_jsonb govern actions db), None)"
  using dispatch_run[OF config door assms] by (simp add: drain_and_dispatch_def take_all_def)

lemma batch_announced:
  assumes "\<forall>a \<in> set actions. to_jsonb (from_utf8_lossy (act_payload a)) \<noteq> None"
    "drain_and_dispatch P (Healthy actions) db = (replies, l, db1, p)"
    "distinct (map ob_seq (outbox db1))" "length (outbox db1) \<le> 100 * n" "drain_times P g n db1 = (calls, db2)"
  shows "length replies = length actions \<and> p = None \<and> outbox db2 = [] \<and> mset calls = rows_published (nats_js_stream g \<noteq> None) (mset (outbox db1))"
proof -
  have len: "length (fst (governed_run to_jsonb govern as d)) = length as" for as d
    by (induction as arbitrary: d) (simp_all add: split_beta)
  show ?thesis
    using outbox_drained[OF drain assms(3,4,5)] assms(2) len[of actions db] unfolding batch_governed[OF assms(1)] by auto
qed

end

section \<open>The instance\<close>

text \<open>The site a worker is attached to: the parameters of the scheduled work, of the
  governance, minting and reading verbs, the SQL functions of the verbs that
  are not modelled, PostgreSQL's cast to \<^verbatim>\<open>jsonb\<close> (with the text of its error), the transaction's time and clock, the rows other
  sessions have locked, and the order in which \<^verbatim>\<open>DELETE \<dots> RETURNING\<close> returns rows.\<close>

record 'g site =
  orbit :: "'g orbit_env"
  gov :: "'g gov_env"
  mint :: "'g create_env"
  reads :: read_env
  boards :: board_env
  verbs :: "'g handlers"
  jsonb_cast :: "str \<Rightarrow> json option"
  cast_error :: "str \<Rightarrow> str"
  time_of :: "'g orbit_db txn \<Rightarrow> int"
  clock_of :: "'g orbit_db txn \<Rightarrow> int"
  row_locked :: "int \<Rightarrow> bool"
  row_rank :: "outbox_row \<Rightarrow> int"

abbreviation site_ckp :: "'g orbit_db \<Rightarrow> 'g ckp_db" where
  "site_ckp db \<equiv> ckp (door db)"

definition set_site_outbox :: "outbox_row list \<Rightarrow> 'g orbit_db \<Rightarrow> 'g orbit_db" where
  "set_site_outbox rows db = db\<lparr>door := (door db)\<lparr>ckp := (site_ckp db)\<lparr>t_outbox := rows\<rparr>\<rparr>\<rparr>"

text \<open>The functions behind the verbs: the governance and re-sealing verbs, the minting verbs, the reads of the instance table, the board and the authority, \<^verbatim>\<open>score.tick\<close> with
  the kernel it names or the session's, and the rest.\<close>

definition site_verbs :: "'g site \<Rightarrow> int \<Rightarrow> int \<Rightarrow> 'g handlers" where
  "site_verbs S now clk =
     (let G = (gov S)\<lparr>gdoor := denv (orbit S)\<rparr>
      in gov_handlers G now clk (mint_handlers G (mint S) now clk (read_handlers (gdoor G) (reads S) (board_handlers (orbit S) (boards S) now (\<lambda>n p t.
           case (if n = ''score.tick'' then (case body_text (genv G) p (lit ''kernel'') of Some k \<Rightarrow> Some k
                   | None \<Rightarrow> session (txn_db t) (lit ''ckp.project'')) else None) of
             Some k \<Rightarrow> and_then (score_tick (orbit S) now (clock (orbit S) now None) k t) (\<lambda>(j, t'). Inr (Some j, t'))
           | None \<Rightarrow> verbs S n p t)))))"

text \<open>\<^verbatim>\<open>SELECT ckp._dispatch_safe($1, $2::jsonb)::text\<close> on a payload that is JSON\<close>

definition site_govern :: "'g site \<Rightarrow> 'g orbit_db txn \<Rightarrow> str \<Rightarrow> json \<Rightarrow> str option \<times> 'g orbit_db txn" where
  "site_govern S t verb j =
     (let D = denv (orbit S); (out, d) = dispatch_safe D (site_verbs S (time_of S t) (clock_of S t)) (time_of S t) (clock_of S t) verb j (door_txn t)
      in (map_option (jsonb_text (cenv D)) out, put_door t d))"

definition raised :: "'g site \<Rightarrow> (spi_row list \<times> 'g orbit_db txn) sql \<Rightarrow> 'g orbit_db txn \<Rightarrow> spi_row list spi_result \<times> 'g orbit_db txn" where
  "raised S r t = (case r of Inl e \<Rightarrow> (Spi_Raise (err_text (denv (orbit S)) e), t) | Inr (rows, t') \<Rightarrow> (Spi_Ok rows, t'))"

text \<open>\<^verbatim>\<open>COALESCE((x->>'done')::bigint, 0)\<close>, on the replies of \<^verbatim>\<open>orbit_tick\<close>, whose field is an integer.\<close>

definition done_count :: "json \<Rightarrow> int" where
  "done_count j = (case json_get j (lit ''done'') of Some (JNumber (JInt n)) \<Rightarrow> n | _ \<Rightarrow> 0)"

definition ckp_exec :: "'g site \<Rightarrow> spi_stmt \<Rightarrow> 'g orbit_db txn \<Rightarrow> spi_row list spi_result \<times> 'g orbit_db txn" where
  "ckp_exec S stmt t =
     (case stmt of
        Set_Config_Local k v \<Rightarrow> (Spi_Ok [[Cell_Text v]], t\<lparr>settings := (settings t)(k \<mapsto> v)\<rparr>)
      | Dispatch_Safe verb payload \<Rightarrow>
          (case jsonb_cast S payload of
             None \<Rightarrow> (Spi_Raise (cast_error S payload), t)
           | Some j \<Rightarrow>
               let (out, t') = site_govern S t verb j
               in (Spi_Ok [[case out of None \<Rightarrow> Cell_Null | Some s \<Rightarrow> Cell_Text s]], t'))
      | Drain_Outbox \<Rightarrow>
          let rows = t_outbox (site_ckp (txn_db t))
          in (Spi_Ok (map (row_cells \<circ> ob_data) (sort_key (row_rank S) (oldest rows))),
              t\<lparr>txn_db := set_site_outbox (remaining rows) (txn_db t)\<rparr>)
      | Outbox_Exists \<Rightarrow> (Spi_Ok [[Cell_Bool True]], t)
      | Ledger_Kernels \<Rightarrow>
          (Spi_Ok [[Cell_Text (join_on comma (ledger_kernels (cenv (denv (orbit S))) (site_ckp (txn_db t))))]], t)
      | Materialize_Drain \<Rightarrow>
          raised S (and_then (sql_materialize_drain (orbit S) (time_of S t) t) (\<lambda>(n, t'). Inr ([[Cell_Int4 (word_of_int n)]], t'))) t
      | Orbit_Tick \<Rightarrow>
          raised S (and_then (orbit_tick (orbit S) (time_of S t) (row_locked S) t)
            (\<lambda>(j, t'). Inr ([[Cell_Int8 (word_of_int (done_count j))]], t'))) t)"

definition ckp_pg :: "'g site \<Rightarrow> 'g orbit_db pg" where
  "ckp_pg S = \<lparr>pg_exec = ckp_exec S\<rparr>"

definition ckp_govern :: "'g site \<Rightarrow> 'g orbit_db \<Rightarrow> (str \<Rightarrow> str option) \<Rightarrow> str \<Rightarrow> json \<Rightarrow> str option \<times> 'g orbit_db" where
  "ckp_govern S db s verb j = (let (out, t') = site_govern S \<lparr>txn_db = db, settings = s\<rparr> verb j in (out, txn_db t'))"

lemma ckp_pg_exec [simp]: "pg_exec (ckp_pg S) = ckp_exec S"
  by (simp add: ckp_pg_def)

interpretation ckp_site: governed_database "ckp_pg S" "\<lambda>db. t_outbox (site_ckp db)" set_site_outbox "sort_key (row_rank S)" "jsonb_cast S" "ckp_govern S"
  for S :: "'g site"
proof
  show "set_config_law (ckp_pg S)" by (simp add: set_config_law_def ckp_exec_def)
  show "cast_law (ckp_pg S) (jsonb_cast S)" by (simp add: cast_law_def ckp_exec_def)
  show "dispatch_law (ckp_pg S) (jsonb_cast S) (ckp_govern S)"
    unfolding dispatch_law_def
  proof (intro allI impI)
    fix verb payload j and t :: "'g orbit_db txn" assume j: "jsonb_cast S payload = Some j"
    obtain out t' where g: "site_govern S t verb j = (out, t')" by fastforce
    show "let (out, db') = ckp_govern S (txn_db t) (settings t) verb j
      in \<exists>s'. pg_exec (ckp_pg S) (Dispatch_Safe verb payload) t =
           (Spi_Ok [[case out of None \<Rightarrow> Cell_Null | Some s \<Rightarrow> Cell_Text s]], \<lparr>txn_db = db', settings = s'\<rparr>)"
      by (simp add: ckp_exec_def ckp_govern_def j g exI[of _ "settings t'"])
  qed
  show "drain_law (ckp_pg S) (\<lambda>db. t_outbox (site_ckp db)) set_site_outbox (sort_key (row_rank S))"
    by (simp add: drain_law_def ckp_exec_def set_site_outbox_def Let_def comp_def)
qed

end
