(* ===== verification/Ckp_Govern_Props.thy ===== *)
theory Ckp_Govern_Props
  imports Ckp_Apply Ckp_Score_Props
begin

text \<open>
  What the governance verbs do when they return: the row a seal writes, that refusals are no
  successes, the stages of \<^verbatim>\<open>apply\<close> and the tables it leaves.
\<close>

section \<open>What a seal inside a verb writes\<close>

lemma seal_in_row:
  assumes "seal_in D now p b t = Inr t'" "json_object_wf b"
  obtains who fb where
    "resolve_participant (cenv D) (eff t) b = Inr who"
    "t_instances (ckp (txn_db t')) = upsert_instance now p fb (t_instances (ckp (txn_db t)))"
    "json_get fb (core ''createdBy'') = Some (JString who)"
    "\<And>k. k \<notin> set stamp_keys \<Longrightarrow> k \<notin> {core ''participant'', lit ''participant'', lit ''participant_email'', lit ''participant_display_name''} \<Longrightarrow>
       json_get fb k = json_get b k"
    "t_kernel_epoch (ckp (txn_db t')) = t_kernel_epoch (ckp (txn_db t))" "t_obligations (ckp (txn_db t')) = t_obligations (ckp (txn_db t))"
    "registry (txn_db t') = registry (txn_db t)" "session (txn_db t') = session (txn_db t)"
proof -
  obtain sha c where c: "ckp_seal (cenv D) now p b (ckp_txn t) = Inr (sha, c)" and t': "t' = rejoin t c"
    using assms(1) by (auto simp: seal_in_def ok_iff)
  from c show thesis
  proof (rule seal_ok)
    fix ty key who proj stamps warn g obs ep dbx
    assume ty: "body_text (cenv D) b (lit ''type'') = Some ty"
      and who: "resolve_participant (cenv D) (settings (ckp_txn t)) b = Inr who"
      and gate: "shape_gate (cenv D) (settings (ckp_txn t)) p ty proj who (strip_stamps (attribute_body (cenv D) who b)) (txn_db (ckp_txn t)) = Inr (stamps, warn, g)"
      and sl: "sealed (cenv D) now key obs p (final_body (cenv D) who b stamps) ep (txn_db (ckp_txn t)) (txn_db c)"
    note o = get_text_is_object[OF ty]
    show thesis
    proof (rule that)
      show "resolve_participant (cenv D) (eff t) b = Inr who" using who by (simp add: ckp_txn_def)
      show "t_instances (ckp (txn_db t')) = upsert_instance now p (final_body (cenv D) who b stamps) (t_instances (ckp (txn_db t)))"
        using sl by (simp add: sealed_def t' rejoin_def ckp_txn_def)
      show "json_get (final_body (cenv D) who b stamps) (core ''createdBy'') = Some (JString who)"
        using final_body_stamps[OF gate assms(2) o] by blast
      show "json_get (final_body (cenv D) who b stamps) k = json_get b k"
        if "k \<notin> set stamp_keys" "k \<notin> {core ''participant'', lit ''participant'', lit ''participant_email'', lit ''participant_display_name''}" for k
        using final_body_other[OF gate assms(2) o that] .
      show "t_kernel_epoch (ckp (txn_db t')) = t_kernel_epoch (ckp (txn_db t))" "t_obligations (ckp (txn_db t')) = t_obligations (ckp (txn_db t))"
        using sl by (simp_all add: sealed_def t' rejoin_def ckp_txn_def)
      show "registry (txn_db t') = registry (txn_db t)" "session (txn_db t') = session (txn_db t)" by (simp_all add: t' rejoin_def)
    qed
  qed
qed

section \<open>Refusals are not successes\<close>

named_theorems refusals_not_ok \<open>replies whose ok is false\<close>

lemma refuse_ok [refusals_not_ok]:
  "lit ''ok'' \<notin> fst ` set extra \<Longrightarrow> json_get (refuse e s extra) (lit ''ok'') = Some (JBool False)"
proof -
  assume "lit ''ok'' \<notin> fst ` set extra"
  then have "map_of (rev extra) (lit ''ok'') = None" by (simp add: map_of_eq_None_iff)
  then show ?thesis by (simp add: refuse_def json_get_obj map_add_def)
qed

lemma gate_refusals [refusals_not_ok]:
  "about_gate a = Inl j \<Longrightarrow> json_get j (lit ''ok'') = Some (JBool False)"
  "pending_gate E db x = Inl j \<Longrightarrow> json_get j (lit ''ok'') = Some (JBool False)"
  "role_gate E s db k act = Inl j \<Longrightarrow> json_get j (lit ''ok'') = Some (JBool False)"
  "ownership_gate E s db x = Inl j \<Longrightarrow> json_get j (lit ''ok'') = Some (JBool False)"
  "quorum_met m n = Inl j \<Longrightarrow> json_get j (lit ''ok'') = Some (JBool False)"
  "op_gate E p = Inl j \<Longrightarrow> json_get j (lit ''ok'') = Some (JBool False)"
  "quorum_gate E db k p = Inl j \<Longrightarrow> json_get j (lit ''ok'') = Some (JBool False)"
  "vote_value E p = Inl j \<Longrightarrow> json_get j (lit ''ok'') = Some (JBool False)"
  by (auto simp: about_gate_def pending_gate_def role_gate_def ownership_gate_def quorum_met_def op_gate_def quorum_gate_def vote_value_def
      not_owner_def Let_def err_iff refuse_ok split: option.splits if_splits sum.splits prod.splits)

lemma apply_gates_refusal [refusals_not_ok]:
  "apply_gates E s db x = Inl j \<Longrightarrow> json_get j (lit ''ok'') = Some (JBool False)"
  by (auto simp: apply_gates_def err_iff gate_refusals split: prod.splits)

section \<open>What a successful apply did\<close>

abbreviation reply_ok :: "json \<Rightarrow> bool" where
  "reply_ok r \<equiv> json_get r (lit ''ok'') = Some (JBool True)"

lemma stage_refusals [refusals_not_ok]:
  "graph_stage G pr prop t = Inr (Inl j, t') \<Longrightarrow> json_get j (lit ''ok'') = Some (JBool False)"
  "policy_stage G now pr op prop a t = Inr (Inl j, t') \<Longrightarrow> json_get j (lit ''ok'') = Some (JBool False)"
  "register_stage G now pr op ep prop a t = Inr (Inl j, t') \<Longrightarrow> json_get j (lit ''ok'') = Some (JBool False)"
  by (auto simp: graph_stage_def policy_stage_def register_stage_def Let_def ok_iff refuse_ok split: sum.splits option.splits if_splits)

lemma stage_then_ok:
  assumes "reply_ok r" "\<forall>j t1. m = Inr (Inl j, t1) \<longrightarrow> json_get j (lit ''ok'') = Some (JBool False)"
  shows "stage_then m k = Inr (Some r, t') \<longleftrightarrow> (\<exists>a t1. m = Inr (Inr a, t1) \<and> k a t1 = Inr (Some r, t'))"
proof
  assume "stage_then m k = Inr (Some r, t')"
  then obtain x t1 where x: "m = Inr (x, t1)" "(case x of Inl j \<Rightarrow> Inr (Some j, t1) | Inr a \<Rightarrow> k a t1) = Inr (Some r, t')"
    by (auto simp: stage_then_def ok_iff)
  with assms show "\<exists>a t1. m = Inr (Inr a, t1) \<and> k a t1 = Inr (Some r, t')" by (cases x) auto
qed (auto simp: stage_then_def)

lemma or_reply_ok:
  assumes "reply_ok r" "\<forall>j. g = Inl j \<longrightarrow> json_get j (lit ''ok'') = Some (JBool False)"
  shows "or_reply g t k = Inr (Some r, t') \<longleftrightarrow> (\<exists>a. g = Inr a \<and> k a = Inr (Some r, t'))"
  using assms by (cases g) (auto simp: or_reply_def)

lemma or_reply_iff:
  "or_reply g t k = Inr (x, t') \<longleftrightarrow> (\<exists>j. g = Inl j \<and> x = Some j \<and> t' = t) \<or> (\<exists>a. g = Inr a \<and> k a = Inr (x, t'))"
  by (cases g) (auto simp: or_reply_def)

lemma enact_ok:
  assumes "enact G now pr about pid prop na nq t = Inr (Some r, t')" "reply_ok r"
  obtains a1 t1 a2 t2 ep t3 a4 t4 where
    "graph_stage G pr prop t = Inr (Inr a1, t1)"
    "policy_stage G now pr (body_text (genv G) prop (core ''proposalOp'')) prop a1 t1 = Inr (Inr a2, t2)"
    "cascade G now pr t2 = Inr (ep, t3)"
    "register_stage G now pr (body_text (genv G) prop (core ''proposalOp'')) ep prop a2 t3 = Inr (Inr a4, t4)"
    "seal_in (gdoor G) now pid (applied_body ep prop) t4 = Inr t'"
  using assms(1) unfolding enact_def Let_def
  by (simp add: stage_then_ok[OF assms(2)] stage_refusals ok_iff) (use that in blast)

lemma apply_ok:
  assumes "apply_change G now p t = Inr (Some r, t')" "reply_ok r"
  obtains pr about i q where
    "resolve_project (genv G) (eff t) (ckp (txn_db t)) = Inr pr"
    "body_text (genv G) p (lit ''about'') = Some about"
    "find_proposal (genv G) (ckp (txn_db t)) about = Some i"
    "body_text (genv G) (i_body i) (core ''proposalState'') \<in> {None, Some (lit ''pending'')}"
    "ownership_gate (genv G) (eff t) (ckp (txn_db t)) (coalesce_text (body_text (genv G) (i_body i) (core ''about'')) []) = Inr ()"
    "role_gate (genv G) (eff t) (ckp (txn_db t)) (sealed_target (genv G) (i_body i)) ''apply'' = Inr ()"
    "required_quorum (genv G) (i_body i) = Inr q"
    "max q (quorum_floor (genv G) (ckp (txn_db t)) pr) \<le> int (length (approvers (genv G) (ckp (txn_db t)) about))"
    "enact G now pr about (i_id i) (i_body i) (int (length (approvers (genv G) (ckp (txn_db t)) about)))
       (max q (quorum_floor (genv G) (ckp (txn_db t)) pr)) t = Inr (Some r, t')"
proof -
  let ?E = "genv G" and ?db = "ckp (txn_db t)"
  obtain pr about pid pb q where pr: "resolve_project ?E (eff t) ?db = Inr pr"
    and ab: "about_gate (body_text ?E p (lit ''about'')) = Inr about"
    and g: "apply_gates ?E (eff t) ?db about = Inr (pid, pb)"
    and q: "required_quorum ?E pb = Inr q" "quorum_met (int (length (approvers ?E ?db about))) (max q (quorum_floor ?E ?db pr)) = Inr ()"
    and en: "enact G now pr about pid pb (int (length (approvers ?E ?db about))) (max q (quorum_floor ?E ?db pr)) t = Inr (Some r, t')"
    using assms(1) unfolding apply_change_def Let_def apply_quorum_def
    by (simp add: or_reply_ok[OF assms(2)] gate_refusals apply_gates_refusal ok_iff split: prod.splits) blast
  have about: "body_text ?E p (lit ''about'') = Some about" using ab by (auto simp: about_gate_def split: option.splits if_splits)
  have met: "max q (quorum_floor ?E ?db pr) \<le> int (length (approvers ?E ?db about))" using q(2) by (simp add: quorum_met_def ok_iff)
  from g obtain i where i: "find_proposal ?E ?db about = Some i" "pid = i_id i" "pb = i_body i"
    "body_text ?E (i_body i) (core ''proposalState'') \<in> {None, Some (lit ''pending'')}"
    and o: "ownership_gate ?E (eff t) ?db (coalesce_text (body_text ?E (i_body i) (core ''about'')) []) = Inr ()"
    and rl: "role_gate ?E (eff t) ?db (sealed_target ?E (i_body i)) ''apply'' = Inr ()"
    by (auto simp: apply_gates_def pending_gate_def ok_iff split: option.splits if_splits)
  show thesis using that[OF pr about i(1,4) o rl q(1)[unfolded i(3)] met en[unfolded i(2,3)]] .
qed

section \<open>Approvals\<close>

lemma set_approvers:
  "set (approvers E db about) = {who. \<exists>v \<in> set (t_instances db). approves E about v \<and> body_text E (i_body v) (core ''createdBy'') = Some who}"
  by (force simp: approvers_def List.map_filter_def)

text \<open>A row that is no approval before and after it is sealed again leaves the approvals alone.\<close>

lemma approvers_reseal:
  assumes "t_instances db' = upsert_instance now pid fb (t_instances db)" "\<And>i. i_body i = fb \<Longrightarrow> \<not> approves E about i"
    "\<And>i. i \<in> set (t_instances db) \<Longrightarrow> i_id i = pid \<Longrightarrow> \<not> approves E about i"
  shows "set (approvers E db' about) = set (approvers E db about)"
proof -
  have "i \<in> set (t_instances db') \<and> approves E about i \<longleftrightarrow> i \<in> set (t_instances db) \<and> approves E about i" for i
    using assms upsert_mem[of i now pid fb "t_instances db"] by (auto simp: upsert_instance_def)
  then show ?thesis unfolding set_approvers by blast
qed

lemma approvers_card:
  "int (length (approvers E db about)) =
     int (card {who. \<exists>v \<in> set (t_instances db). approves E about v \<and> body_text E (i_body v) (core ''createdBy'') = Some who})"
proof -
  have "distinct (approvers E db about)" by (simp add: approvers_def)
  then show ?thesis unfolding set_approvers[symmetric] by (simp add: distinct_card)
qed

section \<open>The stages of apply\<close>

text \<open>A seal changes neither the epochs, nor the obligations, nor the registry.\<close>

lemma seal_in_frame:
  assumes "seal_in D now p b t = Inr t'"
  shows "t_kernel_epoch (ckp (txn_db t')) = t_kernel_epoch (ckp (txn_db t))" "t_obligations (ckp (txn_db t')) = t_obligations (ckp (txn_db t))"
    "registry (txn_db t') = registry (txn_db t)"
proof -
  obtain sha c where c: "ckp_seal (cenv D) now p b (ckp_txn t) = Inr (sha, c)" and t': "t' = rejoin t c"
    using assms by (auto simp: seal_in_def ok_iff)
  from c have "t_kernel_epoch (txn_db c) = t_kernel_epoch (ckp (txn_db t)) \<and> t_obligations (txn_db c) = t_obligations (ckp (txn_db t))"
    by (rule seal_ok) (simp add: sealed_def ckp_txn_def)
  then show "t_kernel_epoch (ckp (txn_db t')) = t_kernel_epoch (ckp (txn_db t))" "t_obligations (ckp (txn_db t')) = t_obligations (ckp (txn_db t))"
    "registry (txn_db t') = registry (txn_db t)" by (simp_all add: t' rejoin_def)
qed

lemma epoch_of_cong: "t_kernel_epoch db' = t_kernel_epoch db \<Longrightarrow> epoch_of db' k = epoch_of db k"
  by (simp add: epoch_of_def)

lemma put_rdf_epoch [simp]: "t_kernel_epoch (ckp (txn_db (put_rdf g t))) = t_kernel_epoch (ckp (txn_db t))"
  by (simp add: put_rdf_def)

lemma patch_loop_refusal: "patch_loop E s i pm ty kvs cur = Inl j \<Longrightarrow> json_get j (lit ''ok'') = Some (JBool False)"
proof (induction kvs arbitrary: cur)
  case (Cons kv kvs)
  obtain k v where [simp]: "kv = (k, v)" by (cases kv)
  have "patch_key pm ty k = Inl j \<Longrightarrow> json_get j (lit ''ok'') = Some (JBool False)"
    by (auto simp: patch_key_def Let_def refuse_ok split: if_splits option.splits)
  moreover have "patch_guard E s i iri cur = Inl j \<Longrightarrow> json_get j (lit ''ok'') = Some (JBool False)" for iri
    by (auto simp: patch_guard_def not_owner_def err_iff refuse_ok split: if_splits option.splits)
  ultimately show ?case using Cons.prems Cons.IH by (auto simp: err_iff split: if_splits)
qed simp

lemma update_ok:
  assumes "update_typed G now p t = Inr (Some r, t')" "is_true (body_text (genv G) r (lit ''ok''))"
  obtains i b where "seal_in (gdoor G) now i b t = Inr t'"
proof -
  have no: "json_get r (lit ''ok'') \<noteq> Some (JBool False)"
    using assms(2) by (auto simp: is_true_def get_text_def text_of_def)
  obtain pr where "resolve_project (genv G) (eff t) (ckp (txn_db t)) = Inr pr"
    using assms(1) by (auto simp: update_typed_def ok_iff)
  with assms(1) no have "update_body G now pr p t = Inr (Some r, t')"
    by (cases "update_body G now pr p t") (auto simp: update_typed_def json_get_obj)
  then show thesis
    using no that unfolding update_body_def Let_def
    by (auto simp: ok_iff or_reply_iff refuse_ok split: option.splits json.splits if_splits dest: patch_loop_refusal)
qed

lemma stages_epoch:
  "graph_stage G pr pb t = Inr (Inr a, t') \<Longrightarrow> t_kernel_epoch (ckp (txn_db t')) = t_kernel_epoch (ckp (txn_db t))"
  "policy_stage G now pr op pb a0 t = Inr (Inr a, t') \<Longrightarrow> t_kernel_epoch (ckp (txn_db t')) = t_kernel_epoch (ckp (txn_db t))"
  "register_stage G now pr op ep pb a0 t = Inr (Inr a, t') \<Longrightarrow> t_kernel_epoch (ckp (txn_db t')) = t_kernel_epoch (ckp (txn_db t))"
proof -
  show "graph_stage G pr pb t = Inr (Inr a, t') \<Longrightarrow> t_kernel_epoch (ckp (txn_db t')) = t_kernel_epoch (ckp (txn_db t))"
    by (auto simp: graph_stage_def ok_iff split: sum.splits option.splits if_splits)
next
  assume h: "policy_stage G now pr op pb a0 t = Inr (Inr a, t')"
  have "t' = t \<or> (\<exists>p u. update_typed G now p t = Inr (Some u, t') \<and> is_true (body_text (genv G) u (lit ''ok'')))"
  proof (cases "op = Some (lit ''set_kernel_policy'')")
    case True
    then obtain p v where v: "update_typed G now p t = Inr (v, t')" "is_true (Option.bind v (\<lambda>u. body_text (genv G) u (lit ''ok'')))"
      using h by (auto simp: policy_stage_def ok_iff split: option.splits if_splits)
    then show ?thesis by (cases v) (auto simp: is_true_def)
  qed (use h in \<open>simp add: policy_stage_def\<close>)
  then show "t_kernel_epoch (ckp (txn_db t')) = t_kernel_epoch (ckp (txn_db t))" using update_ok seal_in_frame(1) by metis
next
  assume "register_stage G now pr op ep pb a0 t = Inr (Inr a, t')"
  then consider "t' = t" | "register_query_affordance G now pb (coalesce_text pr []) ep t = Inr t'"
    | "register_proof_obligation G pb (coalesce_text pr []) ep t = Inr t'"
    by (auto simp: register_stage_def Let_def split: sum.splits if_splits)
  then show "t_kernel_epoch (ckp (txn_db t')) = t_kernel_epoch (ckp (txn_db t))"
  proof cases
    case 2
    then show ?thesis
      by (auto simp: register_query_affordance_def op_refused_def Let_def split: option.splits if_splits json.splits dest: seal_in_frame(1))
  qed (auto simp: register_proof_obligation_def ok_iff)
qed

lemma cascade_ok:
  assumes "cascade G now pr t = Inr (ep, t')"
  obtains k where "pr = Some k" "ep = epoch_of (ckp (txn_db t)) (Some k) + 1"
    "t_kernel_epoch (ckp (txn_db t')) = (t_kernel_epoch (ckp (txn_db t)))(k \<mapsto> ep)"
proof (cases pr)
  case None
  then show thesis using assms by (simp add: cascade_def bump_epoch_def Let_def)
next
  case (Some k)
  from assms obtain t1 t4 g1 g2 surf i1 b1 i2 b2 where b: "bump_epoch G (Some k) t = Inr (ep, t1)"
    and s1: "seal_in (gdoor G) now i1 b1 (put_rdf g2 t1) = Inr t4"
    and s2: "seal_in (gdoor G) now i2 b2 (t4\<lparr>txn_db := (txn_db t4)\<lparr>epoch_surface := surf\<rparr>\<rparr>) = Inr t'"
    unfolding cascade_def Let_def Some by (auto simp: ok_iff)
  have "t_kernel_epoch (ckp (txn_db t')) = t_kernel_epoch (ckp (txn_db t1))" using seal_in_frame(1)[OF s1] seal_in_frame(1)[OF s2] by simp
  with b that[OF Some] show thesis by (auto simp: bump_epoch_def Let_def split: if_splits)
qed

lemma applied_body_get:
  assumes "json_object_wf pb" "is_object pb"
  shows "json_get (applied_body ep pb) k = (if k = core ''appliedEpoch'' then Some (JString (show_int ep))
     else if k = core ''proposalState'' then Some (jlit ''applied'') else json_get pb k)"
    "json_object_wf (applied_body ep pb)"
  using assms by (auto simp: applied_body_def json_get_concat json_get_obj inv_intros)

lemma find_proposal_row:
  assumes "find_proposal E db about = Some i"
  shows "i \<in> set (t_instances db)" "body_text E (i_body i) (lit ''@id'') = Some about" "of_type E ''Proposal'' i"
  using assms by (auto simp: find_proposal_def find_Some_iff)

text \<open>The tables a successful \<^verbatim>\<open>apply\<close> leaves: one more epoch, of the session's kernel alone, and the
  proposal marked with it.\<close>

lemma apply_effects:
  assumes "apply_change G now p t = Inr (Some r, t')" "reply_ok r"
    "\<forall>i \<in> set (t_instances (ckp (txn_db t))). json_object_wf (i_body i)"
  obtains k about i b where
    "resolve_project (genv G) (eff t) (ckp (txn_db t)) = Inr (Some k)" "body_text (genv G) p (lit ''about'') = Some about"
    "find_proposal (genv G) (ckp (txn_db t)) about = Some i"
    "t_kernel_epoch (ckp (txn_db t')) = (t_kernel_epoch (ckp (txn_db t)))(k \<mapsto> epoch_of (ckp (txn_db t)) (Some k) + 1)"
    "find_instance (ckp (txn_db t')) (i_id i) = Some b"
    "body_text (genv G) b (core ''proposalState'') = Some (lit ''applied'')"
    "body_text (genv G) b (core ''appliedEpoch'') = Some (show_int (epoch_of (ckp (txn_db t)) (Some k) + 1))"
    "body_text (genv G) b (lit ''@id'') = Some about" "body_text (genv G) b (lit ''type'') = Some (core ''Proposal'')"
  using assms(1,2)
proof (rule apply_ok)
  fix pr about i q
  assume pr: "resolve_project (genv G) (eff t) (ckp (txn_db t)) = Inr pr" and ab: "body_text (genv G) p (lit ''about'') = Some about"
    and i: "find_proposal (genv G) (ckp (txn_db t)) about = Some i"
    and en: "enact G now pr about (i_id i) (i_body i) (int (length (approvers (genv G) (ckp (txn_db t)) about)))
       (max q (quorum_floor (genv G) (ckp (txn_db t)) pr)) t = Inr (Some r, t')"
  from en assms(2) show thesis
  proof (rule enact_ok)
    fix a1 t1 a2 t2 ep t3 a4 t4
    assume st: "graph_stage G pr (i_body i) t = Inr (Inr a1, t1)"
      "policy_stage G now pr (body_text (genv G) (i_body i) (core ''proposalOp'')) (i_body i) a1 t1 = Inr (Inr a2, t2)"
      "register_stage G now pr (body_text (genv G) (i_body i) (core ''proposalOp'')) ep (i_body i) a2 t3 = Inr (Inr a4, t4)"
      and ca: "cascade G now pr t2 = Inr (ep, t3)"
      and sl: "seal_in (gdoor G) now (i_id i) (applied_body ep (i_body i)) t4 = Inr t'"
    from ca obtain k where k: "pr = Some k" "ep = epoch_of (ckp (txn_db t2)) (Some k) + 1"
      "t_kernel_epoch (ckp (txn_db t3)) = (t_kernel_epoch (ckp (txn_db t2)))(k \<mapsto> ep)" by (rule cascade_ok)
    have e2: "t_kernel_epoch (ckp (txn_db t2)) = t_kernel_epoch (ckp (txn_db t))" using stages_epoch(1)[OF st(1)] stages_epoch(2)[OF st(2)] by simp
    have ep: "ep = epoch_of (ckp (txn_db t)) (Some k) + 1" using k(2) epoch_of_cong[OF e2] by simp
    have e: "t_kernel_epoch (ckp (txn_db t')) = (t_kernel_epoch (ckp (txn_db t)))(k \<mapsto> epoch_of (ckp (txn_db t)) (Some k) + 1)"
      using seal_in_frame(1)[OF sl] stages_epoch(3)[OF st(3)] k(3) e2 ep by simp
    note f = find_proposal_row[OF i]
    have w: "json_object_wf (i_body i)" "is_object (i_body i)" using assms(3) f get_text_is_object by blast+
    note ag = applied_body_get[OF w]
    from sl ag(2) show thesis
    proof (rule seal_in_row)
      fix who fb
      assume up: "t_instances (ckp (txn_db t')) = upsert_instance now (i_id i) fb (t_instances (ckp (txn_db t4)))"
        and other: "\<And>k. k \<notin> set stamp_keys \<Longrightarrow> k \<notin> {core ''participant'', lit ''participant'', lit ''participant_email'', lit ''participant_display_name''} \<Longrightarrow>
          json_get fb k = json_get (applied_body ep (i_body i)) k"
      have b: "find_instance (ckp (txn_db t')) (i_id i) = Some fb" using find_after_upsert[OF up] by simp
      have "body_text (genv G) fb (core ''proposalState'') = Some (lit ''applied'')"
        "body_text (genv G) fb (core ''appliedEpoch'') = Some (show_int ep)"
        "body_text (genv G) fb (lit ''@id'') = Some about" "body_text (genv G) fb (lit ''type'') = Some (core ''Proposal'')"
        using f other by (simp_all add: get_text_def ag(1) stamp_keys_def text_of_def jlit_def of_type_def)
      with that[OF pr[unfolded k(1)] ab i e b] ep show thesis by simp
    qed
  qed
qed

end
