(* ===== verification/Ckp_Govern_Run.thy ===== *)
theory Ckp_Govern_Run
  imports Ckp_Govern_Props
begin

text \<open>
  The properties of governed change: what an applied change has behind it, that it lands once, that a
  party counts once, and three limits of the code: the gates follow the proposal while the change
  follows the session, a refused registration keeps its epoch, and votes do not pin what they approve.
  A concrete run is the witness of each.
\<close>

section \<open>A run\<close>

text \<open>Alice works in the kernel \<^verbatim>\<open>acme\<close>, whose project Bob owns. A proposal about something that is no
  project is pending, and Alice has approved it.\<close>

definition demo_gov :: "unit gov_env" where
  "demo_gov = \<lparr>gdoor = demo_door, propmap = (\<lambda>ty pr g. Inr []), has_transitions = (\<lambda>ty g. Inr False),
     transition_declared = (\<lambda>ty a b g. Inr False), md5_text = (\<lambda>s. s), bool_in = (\<lambda>s. Inr (s = lit ''true'')),
     add_graph = (\<lambda>i g. Inr (2, ())), surface_digest = (\<lambda>i g. Inr (show_int i)), structural_digest_of = (\<lambda>i g. Inr (show_int i)),
     apply_shape_ttl = (\<lambda>ttl pr g. Inr (json_obj [(lit ''ok'', JBool True)], ())), plan_cache_clear = (\<lambda>g. g)\<rparr>"

definition demo_project_row :: instance_row where
  "demo_project_row = \<lparr>i_id = lit ''p'', i_body = json_obj [(lit ''type'', JString (core ''Project'')), (lit ''@id'', JString (lit ''urn:ckp:project:acme'')),
     (core ''ownedBy'', JString (lit ''urn:ckp:participant:bob''))], i_created = 1, i_updated = 1\<rparr>"

definition demo_proposal_body :: "string \<Rightarrow> json \<Rightarrow> json" where
  "demo_proposal_body op d = json_obj [(lit ''type'', JString (core ''Proposal'')), (lit ''@id'', JString (lit ''ckp://Proposal#q'')),
     (core ''about'', JString (lit ''urn:topic'')), (core ''proposalState'', jlit ''pending''), (core ''proposalOp'', jlit op), (lit ''proposalDetail'', d)]"

definition demo_vote_row :: instance_row where
  "demo_vote_row = \<lparr>i_id = lit ''v'', i_body = json_obj [(lit ''type'', JString (core ''Vote'')), (core ''about'', JString (lit ''ckp://Proposal#q'')),
     (core ''voteValue'', jlit ''approve''), (core ''createdBy'', JString (lit ''urn:ckp:participant:alice''))], i_created = 3, i_updated = 3\<rparr>"

definition demo_gov_db :: "string \<Rightarrow> json \<Rightarrow> unit ckp_db" where
  "demo_gov_db op d = (empty_store demo_ckp_config ())\<lparr>t_instances :=
     [demo_project_row, \<lparr>i_id = lit ''q'', i_body = demo_proposal_body op d, i_created = 2, i_updated = 2\<rparr>, demo_vote_row]\<rparr>"

definition demo_gov_txn :: "string \<Rightarrow> json \<Rightarrow> unit door_db txn" where
  "demo_gov_txn op d = demo_door_txn\<lparr>txn_db := (txn_db demo_door_txn)\<lparr>ckp := demo_gov_db op d\<rparr>\<rparr>"

definition demo_about :: json where
  "demo_about = json_obj [(lit ''about'', jlit ''ckp://Proposal#q'')]"

text \<open>Where a seal of this instance always succeeds: the settings are Alice's, no kernel is sealed, no
  obligation stands, and the sequences are far from their limit.\<close>

definition demo_ready :: "int \<Rightarrow> unit door_db txn \<Rightarrow> bool" where
  "demo_ready n t \<longleftrightarrow> demo_like (eff t) \<and> guc_nonempty (eff t) ''ckp.last_warnings'' = None \<and> t_config (ckp (txn_db t)) = demo_ckp_config \<and>
     sealed_kernel_ids demo_ckp (ckp (txn_db t)) = [] \<and> t_obligations (ckp (txn_db t)) = [] \<and>
     s_ledger (ckp (txn_db t)) < n \<and> s_outbox (ckp (txn_db t)) < n \<and> s_proof (ckp (txn_db t)) < n"

lemma sealed_kernels_upsert:
  assumes "sealed_kernel_ids E db = []" "t_instances db' = upsert_instance now p fb (t_instances db)"
    "body_text E fb (lit ''type'') \<noteq> Some (core ''Kernel'')"
  shows "sealed_kernel_ids E db' = []"
proof -
  have "body_text E (i_body i) (lit ''@id'') = None"
    if "i \<in> set (t_instances db')" "body_text E (i_body i) (lit ''type'') = Some (core ''Kernel'')" for i
    using that assms upsert_mem[of i now p fb "t_instances db"]
    by (auto simp: sealed_kernel_ids_def map_filter_Nil_iff)
  then show ?thesis by (auto simp: sealed_kernel_ids_def map_filter_Nil_iff)
qed

lemma demo_seal_succeeds:
  assumes "demo_ready n t" "n < 2 ^ 62" "json_object_wf b" "body_text demo_ckp b (lit ''type'') = Some ty" "58 \<in> set ty" "ty \<noteq> core ''Membership''"
  obtains sha c where "ckp_seal demo_ckp now p b \<lparr>txn_db = ckp (txn_db t), settings = eff t\<rparr> = Inr (sha, c)"
    "settings c = (eff t)(lit ''ckp.last_warnings'' \<mapsto> [])" "s_proof (txn_db c) = s_proof (ckp (txn_db t)) + 1"
    "seal_in demo_door now p b t = Inr (rejoin t c)"
proof -
  let ?db = "ckp (txn_db t)"
  note r = assms(1)[unfolded demo_ready_def]
  have like: "demo_like (eff t)" using r by blast
  have "run_proof_obligations demo_ckp ((eff t)(lit ''ckp.last_warnings'' \<mapsto> [])) ?db ty x (lit ''acme'') = Inr (Inr [])" for x
    using r by (simp add: run_proof_obligations_def)
  then obtain sha c where c: "ckp_seal demo_ckp now p b \<lparr>txn_db = ?db, settings = eff t\<rparr> = Inr (sha, c)"
    "settings c = (eff t)(lit ''ckp.last_warnings'' \<mapsto> [])" "s_proof (txn_db c) = s_proof ?db + 1"
    using demo_seal_like[OF assms(3-5) _ like demo_like_settings(5)[OF like] demo_gate_ok[OF assms(6,3,4)], where obs = "[]" and now = now and p = p and db = ?db] r assms(2) by auto
  then show thesis using that by (simp add: seal_in_def demo_door_def ckp_txn_def)
qed

lemma demo_seal_ready:
  assumes "demo_ready n t" "n < 2 ^ 62" "json_object_wf b" "body_text demo_ckp b (lit ''type'') = Some ty" "58 \<in> set ty"
    "ty \<noteq> core ''Membership''" "ty \<noteq> core ''Kernel''"
  shows "\<exists>t'. seal_in demo_door now p b t = Inr t' \<and> demo_ready (n + 1) t'"
proof -
  let ?db = "ckp (txn_db t)"
  note r = assms(1)[unfolded demo_ready_def]
  have like: "demo_like (eff t)" using r by blast
  obtain sha c where c: "ckp_seal demo_ckp now p b \<lparr>txn_db = ?db, settings = eff t\<rparr> = Inr (sha, c)"
    "settings c = (eff t)(lit ''ckp.last_warnings'' \<mapsto> [])" "s_proof (txn_db c) = s_proof ?db + 1"
    and "seal_in demo_door now p b t = Inr (rejoin t c)"
    using assms(1-6) by (rule demo_seal_succeeds)
  moreover have "demo_ready (n + 1) (rejoin t c)"
    using c(1)
  proof (rule seal_ok)
    fix ty' key who proj stamps warn g obs ep dbx
    assume gate: "shape_gate demo_ckp (settings \<lparr>txn_db = ?db, settings = eff t\<rparr>) p ty' proj who (strip_stamps (attribute_body demo_ckp who b))
        (txn_db \<lparr>txn_db = ?db, settings = eff t\<rparr>) = Inr (stamps, warn, g)"
      and sl: "sealed demo_ckp now key obs p (final_body demo_ckp who b stamps) ep (txn_db \<lparr>txn_db = ?db, settings = eff t\<rparr>) (txn_db c)"
    have ty: "body_text demo_ckp (final_body demo_ckp who b stamps) (lit ''type'') \<noteq> Some (core ''Kernel'')"
      using final_body_other[OF gate assms(3) get_text_is_object[OF assms(4)], of "lit ''type''"] assms(4,7)
      by (simp add: get_text_def stamp_keys_def)
    have "eff (rejoin t c) = settings c"
      using c(2) by (auto simp: eff_def rejoin_def fun_eq_iff split: option.splits)
    then have "demo_like (eff (rejoin t c))" using demo_like_settings(6)[OF like] c(2) by simp
    moreover have "sealed_kernel_ids demo_ckp (txn_db c) = []"
      by (rule sealed_kernels_upsert[OF _ _ ty, of ?db _ now p]) (use r sl in \<open>simp_all add: sealed_def\<close>)
    moreover have "guc_nonempty (eff (rejoin t c)) ''ckp.last_warnings'' = None"
      using \<open>eff (rejoin t c) = settings c\<close> c(2) by (simp add: guc_nonempty_def nullif_empty_def)
    ultimately show ?thesis using r sl c(3) by (simp add: demo_ready_def rejoin_def sealed_def)
  qed
  ultimately show ?thesis by blast
qed

lemma demo_gov_ready: "demo_ready 2 (demo_gov_txn op d)"
proof -
  have "eff (demo_gov_txn op d) = demo_session"
    using demo_door_eff by (simp add: eff_def demo_gov_txn_def demo_door_txn_def fun_eq_iff cong: option.case_cong)
  then show ?thesis
    by (simp add: demo_ready_def demo_like_def guc_nonempty_def nullif_empty_def demo_session_def demo_gov_txn_def demo_gov_db_def demo_door_txn_def empty_store_def sealed_kernel_ids_def
        demo_project_row_def demo_proposal_body_def demo_vote_row_def get_text_def json_get_obj text_of_def map_filter_simps)
qed

lemma demo_ready_cong:
  assumes "demo_ready n t" "settings t' = settings t" "session (txn_db t') = session (txn_db t)"
    "t_config (ckp (txn_db t')) = t_config (ckp (txn_db t))" "t_instances (ckp (txn_db t')) = t_instances (ckp (txn_db t))"
    "t_obligations (ckp (txn_db t')) = t_obligations (ckp (txn_db t))" "s_ledger (ckp (txn_db t')) = s_ledger (ckp (txn_db t))"
    "s_outbox (ckp (txn_db t')) = s_outbox (ckp (txn_db t))" "s_proof (ckp (txn_db t')) = s_proof (ckp (txn_db t))"
  shows "demo_ready n t'"
proof -
  have "eff t' = eff t" using assms(2,3) by (simp add: eff_def fun_eq_iff cong: option.case_cong)
  with assms show ?thesis by (simp add: demo_ready_def sealed_kernel_ids_def)
qed

lemma demo_ready_put:
  assumes "demo_ready n t"
  shows "demo_ready n (put_rdf g t)" "demo_ready n (t\<lparr>txn_db := (txn_db t)\<lparr>epoch_surface := x\<rparr>\<rparr>)"
    "bump_epoch demo_gov k t = Inr (ep, t') \<Longrightarrow> demo_ready n t'"
proof -
  show "demo_ready n (put_rdf g t)" "demo_ready n (t\<lparr>txn_db := (txn_db t)\<lparr>epoch_surface := x\<rparr>\<rparr>)"
    by (rule demo_ready_cong[OF assms]; simp add: put_rdf_def)+
  assume "bump_epoch demo_gov k t = Inr (ep, t')"
  then show "demo_ready n t'"
    by (intro demo_ready_cong[OF assms]) (auto simp: bump_epoch_def Let_def split: option.splits if_splits)
qed

lemma demo_cascade:
  assumes "demo_ready n t" "n < 2 ^ 61" "epoch_of (ckp (txn_db t)) (Some (lit ''acme'')) < 1000"
  shows "\<exists>ep t'. cascade demo_gov now (Some (lit ''acme'')) t = Inr (ep, t') \<and> demo_ready (n + 2) t'"
proof -
  let ?E = demo_ckp and ?k = "lit ''acme''"
  have G: "gdoor demo_gov = demo_door" "cenv demo_door = demo_ckp" by (simp_all add: demo_gov_def demo_door_def)
  obtain ep t1 where t1: "bump_epoch demo_gov (Some ?k) t = Inr (ep, t1)"
    using assms(3) by (simp add: bump_epoch_def Let_def)
  have wf: "json_object_wf (epoch_body ?k ep (show_int 1) (show_int 1))" "body_text ?E (epoch_body ?k ep (show_int 1) (show_int 1)) (lit ''type'') = Some (core ''Epoch'')"
    "json_object_wf (materialization_body ?k a ep (show_int 2) (show_int 1))"
    "body_text ?E (materialization_body ?k a ep (show_int 2) (show_int 1)) (lit ''type'') = Some (core ''Materialization'')" for a
    by (simp_all add: epoch_body_def materialization_body_def get_text_def json_get_obj text_of_def)
  have c: "58 \<in> set (core x)" for x by (simp add: core_def core_ns_def lit_def)
  obtain t4 where t4: "seal_in demo_door now (epoch_id ''epoch-'' ?k ep) (epoch_body ?k ep (show_int 1) (show_int 1)) (put_rdf () t1) = Inr t4" "demo_ready (n + 1) t4"
    using demo_seal_ready[OF demo_ready_put(1)[OF demo_ready_put(3)[OF assms(1) t1]] _ wf(1,2) c] assms(2) by fastforce
  let ?t5 = "t4\<lparr>txn_db := (txn_db t4)\<lparr>epoch_surface := (epoch_surface (txn_db t4))(?k \<mapsto> show_int 1)\<rparr>\<rparr>"
  obtain t6 where "seal_in demo_door now (epoch_id ''mat-'' ?k ep) (materialization_body ?k (epoch_of (ckp (txn_db t)) (Some ?k)) ep (show_int 2) (show_int 1)) ?t5 = Inr t6"
    "demo_ready (n + 1 + 1) t6"
    using demo_seal_ready[OF demo_ready_put(2)[OF t4(2)] _ wf(3,4) c] assms(2) by fastforce
  moreover have "composed_shapes demo_ckp x y z = Inr (1, ())" for x y z by (simp add: demo_ckp_def)
  moreover have "add_graph demo_gov x y = Inr (2, ())" "surface_digest demo_gov i g = Inr (show_int i)" "structural_digest_of demo_gov i g = Inr (show_int i)" for x y i g
    by (simp_all add: demo_gov_def)
  ultimately show ?thesis using t1 t4(1) by (simp add: cascade_def G Let_def coalesce_text_def add.assoc)
qed

definition demo_plan :: "string \<Rightarrow> json" where
  "demo_plan verb = json_obj [(lit ''verb'', jlit verb), (lit ''query'', jlit ''SELECT'')]"

abbreviation demo_start :: "string \<Rightarrow> unit door_db txn" where
  "demo_start verb \<equiv> demo_gov_txn ''add_affordance'' (demo_plan verb)"

lemma demo_gov_simps: "gdoor demo_gov = demo_door" "cenv demo_door = demo_ckp" "genv demo_gov = demo_ckp"
  by (simp_all add: demo_gov_def demo_door_def)

lemma demo_gov_body:
  "json_object_wf (demo_proposal_body op d)" "body_text demo_ckp (demo_proposal_body op d) (core ''proposalOp'') = Some (lit op)"
  "detail_of (demo_proposal_body op d) = d" "sealed_target demo_ckp (demo_proposal_body op d) = None"
  "required_quorum demo_ckp (demo_proposal_body op d) = Inr 1" "body_text demo_ckp (demo_proposal_body op d) (lit ''type'') = Some (core ''Proposal'')"
  by (simp_all add: demo_proposal_body_def get_text_def json_get_obj text_of_def jlit_def detail_of_def sealed_target_def target_project_def
      required_quorum_def lit_def core_def core_ns_def takeWhile_def urn_char_def starts_with_def)

lemma demo_gov_tables:
  "find_proposal demo_ckp (ckp (txn_db (demo_gov_txn op d))) (lit ''ckp://Proposal#q'') =
     Some \<lparr>i_id = lit ''q'', i_body = demo_proposal_body op d, i_created = 2, i_updated = 2\<rparr>"
  "approvers demo_ckp (ckp (txn_db (demo_gov_txn op d))) (lit ''ckp://Proposal#q'') = [lit ''urn:ckp:participant:alice'']"
  "project_owner demo_ckp (ckp (txn_db (demo_gov_txn op d))) (lit ''urn:ckp:project:acme'') = Some (lit ''urn:ckp:participant:bob'')"
  "quorum_floor demo_ckp (ckp (txn_db (demo_gov_txn op d))) (Some (lit ''acme'')) = 1"
  "epoch_of (ckp (txn_db (demo_gov_txn op d))) k = 0"
  by (simp_all add: demo_gov_txn_def demo_gov_db_def find_proposal_def approvers_def approves_def project_owner_def quorum_floor_def latest_by_def
      project_iri_def of_type_def demo_project_row_def demo_proposal_body_def demo_vote_row_def get_text_def json_get_obj text_of_def jlit_def
      map_filter_simps coalesce_text_def epoch_of_def empty_store_def lit_def core_def core_ns_def starts_with_def demo_ckp_def)

lemma demo_settings: "eff (demo_gov_txn op d) = demo_session"
  using demo_door_eff by (simp add: eff_def demo_gov_txn_def demo_door_txn_def fun_eq_iff cong: option.case_cong)

lemma demo_gates:
  "about_gate (body_text demo_ckp demo_about (lit ''about'')) = Inr (lit ''ckp://Proposal#q'')"
  "resolve_project demo_ckp (eff (demo_gov_txn op d)) (ckp (txn_db (demo_gov_txn op d))) = Inr (Some (lit ''acme''))"
  "target_project (lit ''ckp://Proposal#q'') = None"
  "body_text demo_ckp (demo_proposal_body op d) (core ''proposalState'') = Some (lit ''pending'')"
proof -
  show "about_gate (body_text demo_ckp demo_about (lit ''about'')) = Inr (lit ''ckp://Proposal#q'')"
    by (simp add: demo_about_def about_gate_def get_text_def json_get_obj text_of_def jlit_def iri_chars_def lit_def is_ascii_alphanumeric_def is_ascii_digit_def)
  show "resolve_project demo_ckp (eff (demo_gov_txn op d)) (ckp (txn_db (demo_gov_txn op d))) = Inr (Some (lit ''acme''))"
    using demo_gov_ready[of op d] unfolding demo_ready_def demo_settings by (intro demo_project) blast
  show "target_project (lit ''ckp://Proposal#q'') = None" by (simp add: target_project_def lit_def)
  show "body_text demo_ckp (demo_proposal_body op d) (core ''proposalState'') = Some (lit ''pending'')"
    by (simp add: demo_proposal_body_def get_text_def json_get_obj text_of_def jlit_def core_def core_ns_def lit_def)
qed

lemma sealed_target_None:
  "sealed_target E b = None \<Longrightarrow> target_project (coalesce_text (body_text E b (core ''about'')) []) = None"
  by (cases "body_text E b (core ''about'')") (simp_all add: sealed_target_def coalesce_text_def target_project_def lit_def)

lemma demo_apply_gates:
  "apply_gates demo_ckp (eff (demo_gov_txn op d)) (ckp (txn_db (demo_gov_txn op d))) (lit ''ckp://Proposal#q'') = Inr (lit ''q'', demo_proposal_body op d)"
  by (simp add: apply_gates_def ownership_gate_def pending_gate_def role_gate_def demo_gates demo_gov_tables demo_gov_body sealed_target_None)

section \<open>An applied change has its quorum and lands once\<close>

text \<open>C4: an applied change has its quorum behind it. When \<^verbatim>\<open>apply\<close> reports success, the proposal was
  pending, or had no state at all (\<^verbatim>\<open>NULL <> 'pending'\<close> is null and refuses nothing); as many distinct parties as the proposal asks for, and as the session's project requires,
  had sealed an approval of it, the anonymous ones not counted; and if the project that the sealed
  proposal targets has a declared owner, the session is that owner's.\<close>

theorem applied_change_has_quorum:
  assumes "apply_change G now p t = Inr (Some r, t')" "json_get r (lit ''ok'') = Some (JBool True)"
  shows "\<exists>pr about i q. resolve_project (genv G) (eff t) (ckp (txn_db t)) = Inr pr \<and>
    body_text (genv G) p (lit ''about'') = Some about \<and> find_proposal (genv G) (ckp (txn_db t)) about = Some i \<and>
    body_text (genv G) (i_body i) (core ''proposalState'') \<in> {None, Some (lit ''pending'')} \<and>
    required_quorum (genv G) (i_body i) = Inr q \<and>
    max q (quorum_floor (genv G) (ckp (txn_db t)) pr) \<le> int (card {who. \<exists>v \<in> set (t_instances (ckp (txn_db t))).
      approves (genv G) about v \<and> body_text (genv G) (i_body v) (core ''createdBy'') = Some who}) \<and>
    (\<forall>k owner. sealed_target (genv G) (i_body i) = Some k \<and> project_owner (genv G) (ckp (txn_db t)) (project_iri k) = Some owner \<longrightarrow>
      owner_self (genv G) (eff t) = Some owner)"
  using assms
proof (rule apply_ok)
  fix pr about i q
  assume h: "resolve_project (genv G) (eff t) (ckp (txn_db t)) = Inr pr" "body_text (genv G) p (lit ''about'') = Some about"
    "find_proposal (genv G) (ckp (txn_db t)) about = Some i" "body_text (genv G) (i_body i) (core ''proposalState'') \<in> {None, Some (lit ''pending'')}"
    "required_quorum (genv G) (i_body i) = Inr q"
    "max q (quorum_floor (genv G) (ckp (txn_db t)) pr) \<le> int (length (approvers (genv G) (ckp (txn_db t)) about))"
  assume o: "ownership_gate (genv G) (eff t) (ckp (txn_db t)) (coalesce_text (body_text (genv G) (i_body i) (core ''about'')) []) = Inr ()"
  have "owner_self (genv G) (eff t) = Some owner"
    if st: "sealed_target (genv G) (i_body i) = Some k" "project_owner (genv G) (ckp (txn_db t)) (project_iri k) = Some owner" for k owner
  proof -
    obtain a where "body_text (genv G) (i_body i) (core ''about'') = Some a" "target_project a = Some k"
      using st(1) unfolding sealed_target_def by (auto simp: bind_eq_Some_conv)
    with o st(2) show ?thesis by (simp add: ownership_gate_def coalesce_text_def ok_iff)
  qed
  with h show ?thesis unfolding approvers_card by blast
qed

text \<open>C13: a change lands once. When \<^verbatim>\<open>apply\<close> reports success, the epoch of the session's kernel, and of no
  other, has advanced by one; the proposal is sealed as applied at that epoch; and as long as its
  identifier names one row, no apply of it on these tables succeeds again, whoever asks.\<close>

theorem applied_change_lands_once:
  assumes "apply_change G now p t = Inr (Some r, t')" "json_get r (lit ''ok'') = Some (JBool True)"
    "\<forall>i \<in> set (t_instances (ckp (txn_db t))). json_object_wf (i_body i)"
  shows "\<exists>k about i b. resolve_project (genv G) (eff t) (ckp (txn_db t)) = Inr (Some k) \<and>
    body_text (genv G) p (lit ''about'') = Some about \<and> find_proposal (genv G) (ckp (txn_db t)) about = Some i \<and>
    t_kernel_epoch (ckp (txn_db t')) = (t_kernel_epoch (ckp (txn_db t)))(k \<mapsto> epoch_of (ckp (txn_db t)) (Some k) + 1) \<and>
    find_instance (ckp (txn_db t')) (i_id i) = Some b \<and> body_text (genv G) b (core ''proposalState'') = Some (lit ''applied'') \<and>
    body_text (genv G) b (core ''appliedEpoch'') = Some (show_int (epoch_of (ckp (txn_db t)) (Some k) + 1)) \<and>
    (\<forall>now2 p2 t2 r2 t2'. ckp (txn_db t2) = ckp (txn_db t') \<and> body_text (genv G) p2 (lit ''about'') = Some about \<and>
      (\<forall>x \<in> set (t_instances (ckp (txn_db t'))). \<forall>y \<in> set (t_instances (ckp (txn_db t'))).
         body_text (genv G) (i_body x) (lit ''@id'') = Some about \<and> body_text (genv G) (i_body y) (lit ''@id'') = Some about \<longrightarrow> x = y) \<and>
      apply_change G now2 p2 t2 = Inr (Some r2, t2') \<longrightarrow> json_get r2 (lit ''ok'') \<noteq> Some (JBool True))"
  using assms
proof (rule apply_effects)
  fix k about i b
  assume h: "resolve_project (genv G) (eff t) (ckp (txn_db t)) = Inr (Some k)" "body_text (genv G) p (lit ''about'') = Some about"
    "find_proposal (genv G) (ckp (txn_db t)) about = Some i"
    "t_kernel_epoch (ckp (txn_db t')) = (t_kernel_epoch (ckp (txn_db t)))(k \<mapsto> epoch_of (ckp (txn_db t)) (Some k) + 1)"
    "body_text (genv G) b (core ''appliedEpoch'') = Some (show_int (epoch_of (ckp (txn_db t)) (Some k) + 1))"
    and b: "find_instance (ckp (txn_db t')) (i_id i) = Some b" "body_text (genv G) b (core ''proposalState'') = Some (lit ''applied'')"
      "body_text (genv G) b (lit ''@id'') = Some about" "body_text (genv G) b (lit ''type'') = Some (core ''Proposal'')"
  obtain row where row: "row \<in> set (t_instances (ckp (txn_db t')))" "i_body row = b"
    using b(1) nth_mem by (fastforce simp: find_instance_def find_Some_iff)
  have "\<not> reply_ok r2" if s: "ckp (txn_db t2) = ckp (txn_db t')" "body_text (genv G) p2 (lit ''about'') = Some about"
    and u: "\<forall>x \<in> set (t_instances (ckp (txn_db t'))). \<forall>y \<in> set (t_instances (ckp (txn_db t'))).
         body_text (genv G) (i_body x) (lit ''@id'') = Some about \<and> body_text (genv G) (i_body y) (lit ''@id'') = Some about \<longrightarrow> x = y"
    and a: "apply_change G now2 p2 t2 = Inr (Some r2, t2')" for now2 p2 t2 r2 t2'
  proof
    assume "reply_ok r2"
    with a show False
    proof (rule apply_ok)
      fix pr2 about2 i2 q2
      assume "body_text (genv G) p2 (lit ''about'') = Some about2" and f: "find_proposal (genv G) (ckp (txn_db t2)) about2 = Some i2"
        and st: "body_text (genv G) (i_body i2) (core ''proposalState'') \<in> {None, Some (lit ''pending'')}"
      with s have "about2 = about" by simp
      then have "i2 = row" using find_proposal_row[OF f] u row b(3) by (simp add: s)
      with st row(2) b(2) show False by simp
    qed
  qed
  with h b show ?thesis by blast
qed

section \<open>The gates follow the proposal, the change follows the session\<close>

text \<open>C22: the ownership and role gates of \<^verbatim>\<open>apply\<close> look at the project that the proposal names, while the
  change lands in the kernel that the session names. Take a pending proposal that names no project, its quorum met, and a session that is
  not the owner's on a kernel whose project has an owner: if the change itself can be made, \<^verbatim>\<open>apply\<close> makes it and answers with success, the
  epoch of the owned kernel, and of no other, has advanced by one, and the proposal is sealed as applied.\<close>

theorem gates_miss_landing_kernel:
  assumes "resolve_project (genv G) (eff t) (ckp (txn_db t)) = Inr (Some k)" "project_owner (genv G) (ckp (txn_db t)) (project_iri k) = Some owner"
    "owner_self (genv G) (eff t) \<noteq> Some owner" "about_gate (body_text (genv G) p (lit ''about'')) = Inr about"
    "target_project about = None" "find_proposal (genv G) (ckp (txn_db t)) about = Some i"
    "body_text (genv G) (i_body i) (core ''proposalState'') = Some (lit ''pending'')" "sealed_target (genv G) (i_body i) = None"
    "required_quorum (genv G) (i_body i) = Inr q"
    "max q (quorum_floor (genv G) (ckp (txn_db t)) (Some k)) \<le> int (length (approvers (genv G) (ckp (txn_db t)) about))"
    "enact G now (Some k) about (i_id i) (i_body i) (int (length (approvers (genv G) (ckp (txn_db t)) about)))
       (max q (quorum_floor (genv G) (ckp (txn_db t)) (Some k))) t = Inr (Some r, t')" "json_get r (lit ''ok'') = Some (JBool True)"
    "\<forall>i \<in> set (t_instances (ckp (txn_db t))). json_object_wf (i_body i)"
  shows "apply_change G now p t = Inr (Some r, t') \<and>
    t_kernel_epoch (ckp (txn_db t')) = (t_kernel_epoch (ckp (txn_db t)))(k \<mapsto> epoch_of (ckp (txn_db t)) (Some k) + 1) \<and>
    (\<exists>b. find_instance (ckp (txn_db t')) (i_id i) = Some b \<and> body_text (genv G) b (core ''proposalState'') = Some (lit ''applied''))"
proof -
  have "apply_gates (genv G) (eff t) (ckp (txn_db t)) about = Inr (i_id i, i_body i)"
    using assms(5-8) by (simp add: apply_gates_def ownership_gate_def pending_gate_def role_gate_def sealed_target_None)
  with assms(1,4,9-11) have ap: "apply_change G now p t = Inr (Some r, t')"
    by (simp add: apply_change_def apply_quorum_def quorum_met_def or_reply_def Let_def)
  have about: "body_text (genv G) p (lit ''about'') = Some about" using assms(4) by (auto simp: about_gate_def split: option.splits if_splits)
  from ap assms(12,13) show ?thesis
  proof (rule apply_effects)
    fix k' about' i' b
    assume "resolve_project (genv G) (eff t) (ckp (txn_db t)) = Inr (Some k')" "body_text (genv G) p (lit ''about'') = Some about'"
      "find_proposal (genv G) (ckp (txn_db t)) about' = Some i'"
      "t_kernel_epoch (ckp (txn_db t')) = (t_kernel_epoch (ckp (txn_db t)))(k' \<mapsto> epoch_of (ckp (txn_db t)) (Some k') + 1)"
      "find_instance (ckp (txn_db t')) (i_id i') = Some b" "body_text (genv G) b (core ''proposalState'') = Some (lit ''applied'')"
    with ap about assms(1,6) show ?thesis by simp
  qed
qed

lemma demo_enact:
  "\<exists>r t'. enact demo_gov 9 (Some (lit ''acme'')) (lit ''ckp://Proposal#q'') (lit ''q'')
     (demo_proposal_body ''add_affordance'' (demo_plan ''top'')) 1 1 (demo_start ''top'') = Inr (Some r, t') \<and> reply_ok r"
proof -
  let ?pb = "demo_proposal_body ''add_affordance'' (demo_plan ''top'')" and ?t = "demo_start ''top''" and ?k = "lit ''acme''"
  have g: "graph_stage demo_gov (Some ?k) ?pb ?t = Inr (Inr (json_obj [(lit ''graph_changed'', JBool False)]), ?t)"
    by (simp add: graph_stage_def op_to_ttl_def demo_gov_simps demo_gov_body Let_def)
  obtain ep t3 where t3: "cascade demo_gov 9 (Some ?k) ?t = Inr (ep, t3)" "demo_ready 4 t3"
    using demo_cascade[OF demo_gov_ready, of "''add_affordance''" "demo_plan ''top''" 9] by (auto simp: demo_gov_tables)
  let ?t4 = "t3\<lparr>txn_db := (txn_db t3)\<lparr>plans := put_plan \<lparr>pl_kernel = ?k, pl_verb = lit ''top'', pl_epoch = ep,
       pl_plan = json_obj [(lit ''kind'', jlit ''sparql''), (lit ''statement'', JString (lit ''SELECT'')), (lit ''params'', JArray [])]\<rparr> (plans (txn_db t3)),
     registry := put_affordance (affordance_of ?k (lit ''top'') ep) (registry (txn_db t3))\<rparr>\<rparr>"
  have r4: "demo_ready 4 ?t4" by (rule demo_ready_cong[OF t3(2)]) simp_all
  have c: "58 \<in> set (core x)" for x by (simp add: core_def core_ns_def lit_def)
  have ab: "json_object_wf (affordance_body ?k (lit ''top'') ep)" "body_text demo_ckp (affordance_body ?k (lit ''top'') ep) (lit ''type'') = Some (core ''Affordance'')"
    by (simp_all add: affordance_body_def get_text_def json_get_obj text_of_def)
  obtain t5 where t5: "seal_in demo_door 9 (lit ''aff-acme-top'') (affordance_body ?k (lit ''top'') ep) ?t4 = Inr t5" "demo_ready 5 t5"
    using demo_seal_ready[OF r4 _ ab c, of 9 "lit ''aff-acme-top''"] by auto
  have reg: "register_query_affordance demo_gov 9 ?pb ?k ep t3 = Inr t5"
    using t5(1) by (simp add: register_query_affordance_def demo_gov_simps demo_gov_body demo_plan_def get_text_def json_get_obj text_of_def jlit_def
        lower_name_def lit_def ascii_lower_digit_def btrim_def coalesce_text_def)
  obtain a where st: "register_stage demo_gov 9 (Some ?k) (Some (lit ''add_affordance'')) ep ?pb (json_obj [(lit ''graph_changed'', JBool False)]) t3 = Inr (Inr a, t5)"
    using reg by (simp add: register_stage_def demo_gov_body demo_plan_def has_key_object json_get_obj coalesce_text_def Let_def)
  have "json_object_wf (applied_body ep ?pb)" "body_text demo_ckp (applied_body ep ?pb) (lit ''type'') = Some (core ''Proposal'')"
    using applied_body_get[OF demo_gov_body(1) get_text_is_object[OF demo_gov_body(6)], of ep] demo_gov_body(6) by (simp_all add: get_text_def)
  then obtain t6 where t6: "seal_in demo_door 9 (lit ''q'') (applied_body ep ?pb) t5 = Inr t6"
    using demo_seal_ready[OF t5(2) _ _ _ c, of "applied_body ep ?pb" _ 9 "lit ''q''"] by auto
  then show ?thesis using g t3(1) st
    by (simp add: enact_def demo_gov_simps demo_gov_body stage_then_def policy_stage_def applied_reply_def json_get_obj)
qed

lemma demo_apply:
  "\<exists>r t'. apply_change demo_gov 9 demo_about (demo_start ''top'') = Inr (Some r, t') \<and> reply_ok r"
proof -
  have "apply_change demo_gov 9 demo_about (demo_start ''top'') = enact demo_gov 9 (Some (lit ''acme'')) (lit ''ckp://Proposal#q'') (lit ''q'')
     (demo_proposal_body ''add_affordance'' (demo_plan ''top'')) 1 1 (demo_start ''top'')"
    by (simp add: apply_change_def apply_quorum_def quorum_met_def or_reply_def demo_gov_simps demo_apply_gates demo_gates demo_gov_tables demo_gov_body Let_def)
  with demo_enact show ?thesis by simp
qed

lemma demo_rows_wf: "\<forall>i \<in> set (t_instances (ckp (txn_db (demo_start x)))). json_object_wf (i_body i)"
  using demo_gov_body(1) by (simp add: demo_gov_txn_def demo_gov_db_def demo_project_row_def demo_vote_row_def)

theorem gates_miss_landing_kernel_witness:
  "\<exists>r t'. apply_change demo_gov 9 demo_about (demo_start ''top'') = Inr (Some r, t') \<and> json_get r (lit ''ok'') = Some (JBool True) \<and>
     project_owner demo_ckp (ckp (txn_db (demo_start ''top''))) (project_iri (lit ''acme'')) = Some (lit ''urn:ckp:participant:bob'') \<and>
     owner_self demo_ckp (eff (demo_start ''top'')) \<noteq> Some (lit ''urn:ckp:participant:bob'') \<and>
     t_kernel_epoch (ckp (txn_db t')) (lit ''acme'') = Some 1"
proof -
  let ?t = "demo_start ''top''"
  obtain r t' where en: "enact demo_gov 9 (Some (lit ''acme'')) (lit ''ckp://Proposal#q'') (lit ''q'')
     (demo_proposal_body ''add_affordance'' (demo_plan ''top'')) 1 1 ?t = Inr (Some r, t')" "reply_ok r" using demo_enact by blast
  have "project_iri (lit ''acme'') = lit ''urn:ckp:project:acme''" by (simp add: project_iri_def lit_def)
  then have own: "project_owner demo_ckp (ckp (txn_db ?t)) (project_iri (lit ''acme'')) = Some (lit ''urn:ckp:participant:bob'')" by (simp add: demo_gov_tables)
  have self: "owner_self demo_ckp (eff ?t) \<noteq> Some (lit ''urn:ckp:participant:bob'')"
    unfolding owner_self_def demo_settings demo_requester
    by (simp add: slug_def demo_ckp_def ascii_lower_def ascii_lower_digit_def btrim_def lit_def)
  have "apply_change demo_gov 9 demo_about ?t = Inr (Some r, t') \<and>
      t_kernel_epoch (ckp (txn_db t')) = (t_kernel_epoch (ckp (txn_db ?t)))(lit ''acme'' \<mapsto> epoch_of (ckp (txn_db ?t)) (Some (lit ''acme'')) + 1)"
    using gates_miss_landing_kernel[where G = demo_gov and t = ?t and k = "lit ''acme''" and p = demo_about
        and about = "lit ''ckp://Proposal#q''" and q = 1 and now = 9 and r = r and t' = t' and owner = "lit ''urn:ckp:participant:bob''"]
      own self en demo_rows_wf
    by (simp add: demo_gates demo_gov_simps demo_gov_tables demo_gov_body)
  moreover have "epoch_of (ckp (txn_db ?t)) (Some (lit ''acme'')) = 0" by (simp add: demo_gov_tables)
  ultimately show ?thesis using en(2) own self by simp
qed

theorem applied_change_has_quorum_witness:
  "\<exists>r t' pr about i. apply_change demo_gov 9 demo_about (demo_start ''top'') = Inr (Some r, t') \<and>
     resolve_project demo_ckp (eff (demo_start ''top'')) (ckp (txn_db (demo_start ''top''))) = Inr pr \<and>
     body_text demo_ckp demo_about (lit ''about'') = Some about \<and> find_proposal demo_ckp (ckp (txn_db (demo_start ''top''))) about = Some i \<and>
     quorum_floor demo_ckp (ckp (txn_db (demo_start ''top''))) pr \<le> int (card {who. \<exists>v \<in> set (t_instances (ckp (txn_db (demo_start ''top'')))).
       approves demo_ckp about v \<and> body_text demo_ckp (i_body v) (core ''createdBy'') = Some who})"
proof -
  obtain r t' where r: "apply_change demo_gov 9 demo_about (demo_start ''top'') = Inr (Some r, t')" "reply_ok r" using demo_apply by blast
  from applied_change_has_quorum[OF r] show ?thesis unfolding demo_gov_simps using r(1) by (meson max.bounded_iff)
qed

theorem applied_change_lands_once_witness:
  "\<exists>r t' b. apply_change demo_gov 9 demo_about (demo_start ''top'') = Inr (Some r, t') \<and>
     t_kernel_epoch (ckp (txn_db t')) (lit ''acme'') = Some 1 \<and>
     find_instance (ckp (txn_db t')) (lit ''q'') = Some b \<and> body_text demo_ckp b (core ''proposalState'') = Some (lit ''applied'')"
proof -
  obtain r t' where r: "apply_change demo_gov 9 demo_about (demo_start ''top'') = Inr (Some r, t')" "reply_ok r" using demo_apply by blast
  from applied_change_lands_once[OF r demo_rows_wf] obtain k about i b where
    h: "resolve_project demo_ckp (eff (demo_start ''top'')) (ckp (txn_db (demo_start ''top''))) = Inr (Some k)"
    "body_text demo_ckp demo_about (lit ''about'') = Some about" "find_proposal demo_ckp (ckp (txn_db (demo_start ''top''))) about = Some i"
    "t_kernel_epoch (ckp (txn_db t')) = (t_kernel_epoch (ckp (txn_db (demo_start ''top''))))(k \<mapsto> epoch_of (ckp (txn_db (demo_start ''top''))) (Some k) + 1)"
    "find_instance (ckp (txn_db t')) (i_id i) = Some b" "body_text demo_ckp b (core ''proposalState'') = Some (lit ''applied'')"
    unfolding demo_gov_simps by blast
  have "k = lit ''acme''" using h(1) demo_gates(2) by simp
  moreover have "about = lit ''ckp://Proposal#q''" using h(2) by (simp add: demo_about_def get_text_def json_get_obj text_of_def jlit_def)
  ultimately show ?thesis using h(3-6) r(1) by (auto simp: demo_gov_tables)
qed

section \<open>A refused registration keeps its epoch\<close>

lemma cascade_find:
  assumes "cascade G now (Some k) t = Inr (ep, t')" "x \<noteq> epoch_id ''epoch-'' k ep" "x \<noteq> epoch_id ''mat-'' k ep"
  shows "find_instance (ckp (txn_db t')) x = find_instance (ckp (txn_db t)) x"
proof -
  from assms(1) obtain t1 t4 g2 surf b1 b2 where b: "bump_epoch G (Some k) t = Inr (ep, t1)"
    and s1: "seal_in (gdoor G) now (epoch_id ''epoch-'' k ep) b1 (put_rdf g2 t1) = Inr t4"
    and s2: "seal_in (gdoor G) now (epoch_id ''mat-'' k ep) b2 (t4\<lparr>txn_db := (txn_db t4)\<lparr>epoch_surface := surf\<rparr>\<rparr>) = Inr t'"
    unfolding cascade_def Let_def coalesce_text_def by (auto simp: ok_iff)
  have "t_instances (ckp (txn_db t1)) = t_instances (ckp (txn_db t))" using b by (auto simp: bump_epoch_def Let_def split: if_splits)
  then show ?thesis using seal_in_find[OF s1 assms(2)] seal_in_find[OF s2 assms(3)] by (simp add: find_instance_def put_rdf_def)
qed

text \<open>An apply that is refused can still move the law's epoch. When an affordance's registration
  raises (its verb is no safe name, say), \<^verbatim>\<open>apply\<close> answers with a refusal, and only the registration is rolled
  back: the epoch of the session's kernel has advanced, and every instance but the new Epoch and
  Materialization is as before, so the proposal is still pending and can be applied again.\<close>

theorem refused_registration_keeps_epoch:
  assumes "resolve_project (genv G) (eff t) (ckp (txn_db t)) = Inr pr" "about_gate (body_text (genv G) p (lit ''about'')) = Inr about"
    "apply_gates (genv G) (eff t) (ckp (txn_db t)) about = Inr (pid, pb)" "apply_quorum (genv G) (ckp (txn_db t)) pr pb = Inr q"
    "q \<le> int (length (approvers (genv G) (ckp (txn_db t)) about))"
    "body_text (genv G) pb (core ''proposalOp'') = Some (lit ''add_affordance'')" "has_key (detail_of pb) (lit ''query'')"
    "cascade G now pr t = Inr (ep, t3)" "register_query_affordance G now pb (coalesce_text pr []) ep t3 = Inl e" "abort_law (gdoor G)"
  shows "\<exists>r t' k. apply_change G now p t = Inr (Some r, t') \<and> json_get r (lit ''ok'') = Some (JBool False) \<and> pr = Some k \<and>
    t_kernel_epoch (ckp (txn_db t')) = (t_kernel_epoch (ckp (txn_db t)))(k \<mapsto> epoch_of (ckp (txn_db t)) (Some k) + 1) \<and>
    (\<forall>x. x \<notin> {epoch_id ''epoch-'' k ep, epoch_id ''mat-'' k ep} \<longrightarrow> find_instance (ckp (txn_db t')) x = find_instance (ckp (txn_db t)) x)"
proof -
  let ?r = "refuse ''affordance_register_failed'' ''55000'' [(lit ''detail'', JString (err_text (gdoor G) e))]"
  from assms(8) obtain k where k: "pr = Some k" "ep = epoch_of (ckp (txn_db t)) (Some k) + 1"
    "t_kernel_epoch (ckp (txn_db t3)) = (t_kernel_epoch (ckp (txn_db t)))(k \<mapsto> ep)" by (rule cascade_ok)
  have "graph_stage G pr pb t = Inr (Inr (json_obj [(lit ''graph_changed'', JBool False)]), t)"
    using assms(6) by (simp add: graph_stage_def op_to_ttl_def Let_def)
  then have "apply_change G now p t = Inr (Some ?r, aborted (gdoor G) t3)"
    using assms(1-9) by (simp add: apply_change_def or_reply_def quorum_met_def enact_def stage_then_def policy_stage_def register_stage_def Let_def)
  moreover have "t_kernel_epoch (ckp (txn_db (aborted (gdoor G) t3))) = t_kernel_epoch (ckp (txn_db t3))"
    "t_instances (ckp (txn_db (aborted (gdoor G) t3))) = t_instances (ckp (txn_db t3))"
    using assms(10) by (simp_all add: aborted_def abort_law_def same_tables_def)
  moreover have "json_get ?r (lit ''ok'') = Some (JBool False)" by (simp add: refuse_ok)
  ultimately show ?thesis using k cascade_find[OF assms(8)[unfolded k(1)]] by (auto simp: find_instance_def)
qed

theorem refused_registration_keeps_epoch_witness:
  "\<exists>r t'. apply_change demo_gov 9 demo_about (demo_start ''Top'') = Inr (Some r, t') \<and> json_get r (lit ''ok'') = Some (JBool False) \<and>
     t_kernel_epoch (ckp (txn_db t')) (lit ''acme'') = Some 1 \<and>
     find_instance (ckp (txn_db t')) (lit ''q'') = Some (demo_proposal_body ''add_affordance'' (demo_plan ''Top''))"
proof -
  let ?pb = "demo_proposal_body ''add_affordance'' (demo_plan ''Top'')" and ?t = "demo_start ''Top''"
  obtain ep t3 where t3: "cascade demo_gov 9 (Some (lit ''acme'')) ?t = Inr (ep, t3)"
    using demo_cascade[OF demo_gov_ready, of "''add_affordance''" "demo_plan ''Top''" 9] by (auto simp: demo_gov_tables)
  have e: "register_query_affordance demo_gov 9 ?pb (coalesce_text (Some (lit ''acme'')) []) ep t3 = Inl (Governed_Op_Refused ''verb must be a safe dotted name'')"
    by (simp add: register_query_affordance_def demo_gov_simps demo_gov_body demo_plan_def get_text_def json_get_obj text_of_def jlit_def
        lower_name_def lit_def op_refused_def Let_def)
  have q: "has_key (detail_of ?pb) (lit ''query'')" "apply_quorum demo_ckp (ckp (txn_db ?t)) (Some (lit ''acme'')) ?pb = Inr 1"
    by (simp_all add: demo_gov_body demo_plan_def has_key_object json_get_obj apply_quorum_def demo_gov_tables)
  from refused_registration_keeps_epoch[where G = demo_gov and t = ?t and p = demo_about, unfolded demo_gov_simps, OF demo_gates(2,1) demo_apply_gates q(2) _ demo_gov_body(2) q(1) t3 e demo_abort_law]
  obtain r t' where r: "apply_change demo_gov 9 demo_about ?t = Inr (Some r, t')" "json_get r (lit ''ok'') = Some (JBool False)"
    "t_kernel_epoch (ckp (txn_db t')) = (t_kernel_epoch (ckp (txn_db ?t)))(lit ''acme'' \<mapsto> 0 + 1)"
    "\<forall>x. x \<notin> {epoch_id ''epoch-'' (lit ''acme'') ep, epoch_id ''mat-'' (lit ''acme'') ep} \<longrightarrow> find_instance (ckp (txn_db t')) x = find_instance (ckp (txn_db ?t)) x"
    by (auto simp: demo_gov_tables)
  moreover have "find_instance (ckp (txn_db ?t)) (lit ''q'') = Some ?pb"
    by (simp add: find_instance_def demo_gov_txn_def demo_gov_db_def demo_project_row_def)
  ultimately show ?thesis by (auto simp: epoch_id_def lit_def)
qed

section \<open>Votes\<close>

lemma put_rdf_simps [simp]:
  "eff (put_rdf g t) = eff t" "t_instances (ckp (txn_db (put_rdf g t))) = t_instances (ckp (txn_db t))"
  by (simp_all add: put_rdf_def eff_def fun_eq_iff cong: option.case_cong)

lemma shape_checked_ok:
  assumes "shape_checked D c ttl t k = Inr (Some r, t')" "reply_ok r"
  obtains g where "k (put_rdf g t) = Inr (Some r, t')"
  using assms by (auto simp: shape_checked_def Let_def ok_iff refuse_ok split: if_splits)

lemma vote_ok:
  assumes "vote G now clk p t = Inr (Some r, t')" "reply_ok r"
  obtains about v g where "body_text (genv G) p (lit ''about'') = Some about" "vote_value (genv G) p = Inr v"
    "seal_in (gdoor G) now (clock_id ''vote-'' clk) (vote_body (clock_id ''vote-'' clk) about v) (put_rdf g t) = Inr t'"
    "json_get r (lit ''approvals'') = Some (JNumber (JInt (int (length (approvers (genv G) (ckp (txn_db t')) about)))))"
proof -
  let ?E = "genv G" and ?vid = "clock_id ''vote-'' clk"
  obtain c v about q where ab: "about_gate (body_text ?E p (lit ''about'')) = Inr about" and v: "vote_value ?E p = Inr v"
    and sc: "shape_checked (gdoor G) c (vote_ttl ?vid about v) t (\<lambda>t1. and_then (seal_in (gdoor G) now ?vid (vote_body ?vid about v) t1) (\<lambda>t2.
       Inr (Some (json_obj [(lit ''ok'', JBool True), (lit ''vote'', JString ?vid), (lit ''proposal'', JString about),
                (lit ''value'', JString v), (lit ''approvals'', JNumber (JInt (int (length (approvers ?E (ckp (txn_db t2)) about))))),
                (lit ''quorum'', JNumber (JInt q)), (lit ''quorum_met'', JBool (q \<le> int (length (approvers ?E (ckp (txn_db t2)) about)))),
                (lit ''verified'', JBool (verify_in (gdoor G) t2 ?vid))]), t2))) = Inr (Some r, t')"
    using assms(1) unfolding vote_def Let_def
    by (simp add: or_reply_ok[OF assms(2)] gate_refusals ok_iff split: prod.splits) blast
  have about: "body_text ?E p (lit ''about'') = Some about" using ab by (auto simp: about_gate_def split: option.splits if_splits)
  from sc assms(2) show thesis
    by (rule shape_checked_ok) (use about v that in \<open>auto simp: ok_iff json_get_obj\<close>)
qed

lemma vote_body_facts:
  "json_object_wf (vote_body vid about v)" "participant_claim E (vote_body vid about v) c = None"
  "json_get (vote_body vid about v) (lit ''type'') = Some (JString (core ''Vote''))"
  "json_get (vote_body vid about v) (core ''about'') = Some (JString about)"
  "json_get (vote_body vid about v) (core ''voteValue'') = Some (JString v)"
  by (simp_all add: vote_body_def participant_claim_def json_get_obj)

text \<open>What a row that is new to the table adds to the approvals.\<close>

lemma approvers_fresh:
  assumes "t_instances db' = upsert_instance now vid b (t_instances db)" "find_instance db vid = None"
    "json_get b (lit ''type'') = Some (JString (core ''Vote''))" "json_get b (core ''about'') = Some (JString about)"
    "json_get b (core ''voteValue'') = Some (JString v)" "json_get b (core ''createdBy'') = Some (JString who)"
  shows "set (approvers E db' about) = (if v = lit ''approve'' \<and> \<not> starts_with (lit ''urn:ckp:participant:anon:'') who
    then insert who (set (approvers E db about)) else set (approvers E db about))"
proof -
  let ?row = "\<lparr>i_id = vid, i_body = b, i_created = now, i_updated = now\<rparr>"
  have "\<not> list_ex (\<lambda>i. i_id i = vid) (t_instances db)"
    using assms(2) by (auto simp: find_instance_def find_None_iff list_ex_iff)
  then have rows: "t_instances db' = t_instances db @ [?row]" using assms(1) by (simp add: upsert_instance_def)
  have "approves E about ?row \<longleftrightarrow> v = lit ''approve'' \<and> \<not> starts_with (lit ''urn:ckp:participant:anon:'') who"
    "body_text E (i_body ?row) (core ''createdBy'') = Some who"
    using assms(3-6) by (simp_all add: approves_def of_type_def get_text_def text_of_def coalesce_text_def)
  then show ?thesis unfolding set_approvers rows by auto
qed

lemma approvers_add_one:
  assumes "t_instances db' = upsert_instance now vid b (t_instances db)" "json_get b (core ''createdBy'') = Some (JString who)"
  shows "set (approvers E db' about) \<subseteq> insert who (set (approvers E db about))"
proof
  fix x assume "x \<in> set (approvers E db' about)"
  then obtain i where i: "i \<in> set (t_instances db')" "approves E about i" "body_text E (i_body i) (core ''createdBy'') = Some x"
    by (auto simp: set_approvers)
  from upsert_mem i(1) assms(1) have "i \<in> set (t_instances db) \<or> i_body i = b" by fastforce
  then show "x \<in> insert who (set (approvers E db about))" using i(2,3) assms(2) by (auto simp: set_approvers get_text_def text_of_def)
qed

lemma party_count:
  assumes "set (approvers E db' about) \<subseteq> insert who (set (approvers E db about))"
  shows "length (approvers E db' about) \<le> length (approvers E db about) + (if who \<in> set (approvers E db about) then 0 else 1)"
proof -
  have d: "distinct (approvers E db about)" "distinct (approvers E db' about)" by (simp_all add: approvers_def)
  have "card (set (approvers E db' about)) \<le> card (insert who (set (approvers E db about)))" using assms by (simp add: card_mono)
  then show ?thesis using d by (simp add: distinct_card card_insert_if split: if_splits)
qed

text \<open>C14: a vote is counted for its party, once. A vote that \<^verbatim>\<open>vote\<close> accepts is sealed as a row that carries the proposal and the
  value of the request and, as its creator, the participant of the verified requester. When its identifier is new, the approving
  parties of the proposal become exactly those before and, if the value is approve and the party is not an anonymous one,
  that party. In any case no other party is added, nothing is added when that party had approved already, and the
  reply reports the number of parties.\<close>

theorem vote_counts_party_once:
  assumes "vote G now clk p t = Inr (Some r, t')" "json_get r (lit ''ok'') = Some (JBool True)"
  shows "\<exists>about v me b. body_text (genv G) p (lit ''about'') = Some about \<and> vote_value (genv G) p = Inr v \<and>
    guc_trimmed (eff t) ''ckp.requester'' = Some me \<and>
    find_instance (ckp (txn_db t')) (clock_id ''vote-'' clk) = Some b \<and>
    json_get b (lit ''type'') = Some (JString (core ''Vote'')) \<and> json_get b (core ''about'') = Some (JString about) \<and>
    json_get b (core ''voteValue'') = Some (JString v) \<and> json_get b (core ''createdBy'') = Some (JString (participant_urn (genv G) me)) \<and>
    (find_instance (ckp (txn_db t)) (clock_id ''vote-'' clk) = None \<longrightarrow>
      set (approvers (genv G) (ckp (txn_db t')) about) =
        (if v = lit ''approve'' \<and> \<not> starts_with (lit ''urn:ckp:participant:anon:'') (participant_urn (genv G) me)
         then insert (participant_urn (genv G) me) (set (approvers (genv G) (ckp (txn_db t)) about))
         else set (approvers (genv G) (ckp (txn_db t)) about))) \<and>
    set (approvers (genv G) (ckp (txn_db t')) about) \<subseteq> insert (participant_urn (genv G) me) (set (approvers (genv G) (ckp (txn_db t)) about)) \<and>
    length (approvers (genv G) (ckp (txn_db t')) about) \<le>
      length (approvers (genv G) (ckp (txn_db t)) about) + (if participant_urn (genv G) me \<in> set (approvers (genv G) (ckp (txn_db t)) about) then 0 else 1) \<and>
    json_get r (lit ''approvals'') = Some (JNumber (JInt (int (length (approvers (genv G) (ckp (txn_db t')) about)))))"
  using assms
proof (rule vote_ok)
  fix about v g
  let ?E = "genv G" and ?vid = "clock_id ''vote-'' clk"
  assume h: "body_text ?E p (lit ''about'') = Some about" "vote_value ?E p = Inr v"
    "json_get r (lit ''approvals'') = Some (JNumber (JInt (int (length (approvers ?E (ckp (txn_db t')) about)))))"
    and sl: "seal_in (gdoor G) now ?vid (vote_body ?vid about v) (put_rdf g t) = Inr t'"
  let ?A = "approvers ?E (ckp (txn_db t)) about" and ?B = "approvers ?E (ckp (txn_db t')) about"
  from sl vote_body_facts(1) show ?thesis
  proof (rule seal_in_row)
    fix who fb
    assume who: "resolve_participant ?E (eff (put_rdf g t)) (vote_body ?vid about v) = Inr who"
      and up': "t_instances (ckp (txn_db t')) = upsert_instance now ?vid fb (t_instances (ckp (txn_db (put_rdf g t))))"
      and cb: "json_get fb (core ''createdBy'') = Some (JString who)"
      and other: "\<And>k. k \<notin> set stamp_keys \<Longrightarrow> k \<notin> {core ''participant'', lit ''participant'', lit ''participant_email'', lit ''participant_display_name''} \<Longrightarrow>
          json_get fb k = json_get (vote_body ?vid about v) k"
    have up: "t_instances (ckp (txn_db t')) = upsert_instance now ?vid fb (t_instances (ckp (txn_db t)))" using up' by simp
    have fb: "json_get fb (lit ''type'') = Some (JString (core ''Vote''))" "json_get fb (core ''about'') = Some (JString about)"
      "json_get fb (core ''voteValue'') = Some (JString v)" by (simp_all add: other vote_body_facts stamp_keys_def)
    have find: "find_instance (ckp (txn_db t')) ?vid = Some fb" using find_after_upsert[OF up] by simp
    from who obtain me where me: "guc_trimmed (eff t) ''ckp.requester'' = Some me" "who = participant_urn ?E me"
      by (auto simp: resolve_participant_def vote_body_facts split: option.splits)
    note exact = approvers_fresh[OF up _ fb cb, of ?E]
    have sub: "set ?B \<subseteq> insert who (set ?A)" using approvers_add_one[OF up cb] .
    with h me fb find cb exact party_count[OF sub] show ?thesis by (intro exI[of _ about] exI[of _ v] exI[of _ me] exI[of _ fb]) simp
  qed
qed

definition demo_ballot :: json where
  "demo_ballot = json_obj [(lit ''about'', jlit ''ckp://Proposal#q''), (lit ''value'', jlit ''approve'')]"

lemma demo_vote:
  "\<exists>r t'. vote demo_gov 9 4 demo_ballot (demo_gov_txn op d) = Inr (Some r, t') \<and> reply_ok r"
proof -
  let ?t = "demo_gov_txn op d" and ?vid = "clock_id ''vote-'' 4"
  have c: "58 \<in> set (core x)" for x by (simp add: core_def core_ns_def lit_def)
  have ty: "body_text demo_ckp (vote_body ?vid (lit ''ckp://Proposal#q'') (lit ''approve'')) (lit ''type'') = Some (core ''Vote'')"
    by (simp add: vote_body_def get_text_def json_get_obj text_of_def)
  obtain t' where t': "seal_in demo_door 9 ?vid (vote_body ?vid (lit ''ckp://Proposal#q'') (lit ''approve'')) (put_rdf () ?t) = Inr t'"
    using demo_seal_ready[OF demo_ready_put(1)[OF demo_gov_ready] _ vote_body_facts(1) ty c, of 9 ?vid] by auto
  have rep: "validate_report demo_ckp x y z = Inr (json_obj [(lit ''conforms'', JBool True), (lit ''violations'', JArray [])], ())" for x y z
    by (simp add: validate_report_def demo_ckp_def json_get_obj get_text_def text_of_def is_true_def)
  have cfg: "config_int demo_ckp (ckp (txn_db ?t)) ''core_graph_id'' = Inr None"
    by (simp add: config_int_def demo_gov_txn_def demo_gov_db_def demo_door_txn_def empty_store_def demo_ckp_config_def)
  have b: "vote_value demo_ckp demo_ballot = Inr (lit ''approve'')" "body_text demo_ckp demo_ballot (lit ''about'') = body_text demo_ckp demo_about (lit ''about'')"
    by (simp_all add: vote_value_def demo_ballot_def demo_about_def get_text_def json_get_obj text_of_def jlit_def)
  have sc: "shape_checked demo_door x y z k = k (put_rdf () z)" for x y z k
    by (simp add: shape_checked_def demo_gov_simps rep json_get_obj get_text_def text_of_def is_true_def)
  have g: "pending_gate demo_ckp (ckp (txn_db ?t)) (lit ''ckp://Proposal#q'') = Inr (lit ''q'', demo_proposal_body op d)"
    by (simp add: pending_gate_def demo_gov_tables demo_gates)
  show ?thesis
    using t' by (simp add: vote_def demo_gov_simps cfg b demo_gates g role_gate_def demo_gov_body or_reply_def sc json_get_obj Let_def)
qed

theorem vote_counts_party_once_witness:
  "\<exists>r t' b. vote demo_gov 9 4 demo_ballot (demo_gov_txn ''add_class'' JNull) = Inr (Some r, t') \<and>
     find_instance (ckp (txn_db t')) (clock_id ''vote-'' 4) = Some b \<and> json_get b (core ''voteValue'') = Some (JString (lit ''approve'')) \<and>
     set (approvers demo_ckp (ckp (txn_db t')) (lit ''ckp://Proposal#q'')) = {lit ''urn:ckp:participant:alice''}"
proof -
  let ?t = "demo_gov_txn ''add_class'' JNull"
  obtain r t' where r: "vote demo_gov 9 4 demo_ballot ?t = Inr (Some r, t')" "reply_ok r" using demo_vote by blast
  have a: "participant_urn demo_ckp (lit ''Alice'') = lit ''urn:ckp:participant:alice''"
    by (simp add: participant_urn_def urn_def urn_normalise_def demo_ckp_def ascii_lower_def urn_char_def ascii_lower_digit_def btrim_def coalesce_text_def lit_def)
  have b: "body_text demo_ckp demo_ballot (lit ''about'') = Some (lit ''ckp://Proposal#q'')" "vote_value demo_ckp demo_ballot = Inr (lit ''approve'')"
    by (simp_all add: demo_ballot_def vote_value_def get_text_def json_get_obj text_of_def jlit_def)
  have n: "\<not> starts_with (lit ''urn:ckp:participant:anon:'') (lit ''urn:ckp:participant:alice'')" by (simp add: starts_with_iff lit_def)
  have f: "find_instance (ckp (txn_db ?t)) (clock_id ''vote-'' 4) = None"
    by (simp add: find_instance_def demo_gov_txn_def demo_gov_db_def demo_project_row_def demo_vote_row_def clock_id_def lit_def)
  show ?thesis
    using vote_counts_party_once[OF r, unfolded demo_gov_simps] r(1) f n
    by (auto simp: demo_settings demo_requester demo_gov_tables a b)
qed

section \<open>A pending proposal can be changed after the votes\<close>

text \<open>Votes do not pin what they approve. While a proposal is pending, any session whose seal passes the
  shape gate can lower the quorum it asks for through \<^verbatim>\<open>update_typed\<close>: no role, ownership or vote is
  asked, and the approvals already sealed keep counting.\<close>

theorem quorum_patchable_after_votes:
  assumes "resolve_project (genv G) (eff t) (ckp (txn_db t)) = Inr pr" "find_instance (ckp (txn_db t)) pid = Some pb"
    "json_object_wf pb" "body_text (genv G) pb (lit ''type'') = Some (core ''Proposal'')" "btrim spc pid \<noteq> []"
    "\<forall>i \<in> set (t_instances (ckp (txn_db t))). i_id i = pid \<longrightarrow> i_body i = pb"
    "propmap G (Some (core ''Proposal'')) pr (rdf (ckp (txn_db t))) = Inr pm" "core ''requiresQuorum'' \<in> snd ` set pm"
    "seal_in (gdoor G) now pid (jsonb_concat (jsonb_minus pb (lit ''participant'')) (json_obj [(core ''requiresQuorum'', JString q)])) t = Inr t'"
    "warnings_of (genv G) (eff t') = Inr ws"
  shows "\<exists>r b. update_typed G now (json_obj [(lit ''id'', JString pid), (lit ''patch'', json_obj [(core ''requiresQuorum'', JString q)])]) t = Inr (Some r, t') \<and>
    find_instance (ckp (txn_db t')) pid = Some b \<and> required_quorum (genv G) b = int4_in (genv G) q \<and>
    body_text (genv G) b (core ''proposalState'') = body_text (genv G) pb (core ''proposalState'') \<and>
    set (approvers (genv G) (ckp (txn_db t')) about) = set (approvers (genv G) (ckp (txn_db t)) about)"
proof -
  let ?E = "genv G" and ?p = "json_obj [(lit ''id'', JString pid), (lit ''patch'', json_obj [(core ''requiresQuorum'', JString q)])]"
  let ?b = "jsonb_concat (jsonb_minus pb (lit ''participant'')) (json_obj [(core ''requiresQuorum'', JString q)])"
  note o = get_text_is_object[OF assms(4)]
  have wf: "json_object_wf ?b" using assms(3) by (simp add: inv_intros)
  have get: "json_get ?b k = (if k = core ''requiresQuorum'' then Some (JString q) else if k = lit ''participant'' then None else json_get pb k)" for k
    using assms(3) o by (simp add: json_get_concat json_get_obj json_get_minus inv_intros)
  have "58 \<in> set (core ''requiresQuorum'')" by (simp add: core_def core_ns_def lit_def)
  then have key: "patch_key pm ty (core ''requiresQuorum'') = Inr (core ''requiresQuorum'')" for ty
    using assms(8) by (auto simp: patch_key_def Let_def)
  have each: "jsonb_each (json_obj [(core ''requiresQuorum'', JString q)]) = [(core ''requiresQuorum'', JString q)]"
    by (simp add: jsonb_each_def json_obj_def)
  obtain m where m: "json_obj [(core ''requiresQuorum'', JString q)] = JObject m" by (simp add: json_obj_def)
  have "core ''requiresQuorum'' \<noteq> lit ''id''" by (simp add: core_def core_ns_def lit_def)
  then have loop: "patch_loop ?E s pid pm ty [(core ''requiresQuorum'', JString q)] cur = Inr (jsonb_concat cur (json_obj [(core ''requiresQuorum'', JString q)]))" for s ty cur
    by (simp add: key patch_guard_def)
  have "\<exists>r. update_typed G now ?p t = Inr (Some r, t')"
    using assms(1,2,4,5,7,9,10) loop each unfolding m
    by (simp add: update_typed_def update_body_def get_text_def json_get_obj text_of_def resolve_id_def or_reply_def Let_def)
  moreover from assms(9) wf have "\<exists>b. find_instance (ckp (txn_db t')) pid = Some b \<and> required_quorum ?E b = int4_in ?E q \<and>
      body_text ?E b (core ''proposalState'') = body_text ?E pb (core ''proposalState'') \<and>
      set (approvers ?E (ckp (txn_db t')) about) = set (approvers ?E (ckp (txn_db t)) about)"
  proof (rule seal_in_row)
    fix who fb
    assume up: "t_instances (ckp (txn_db t')) = upsert_instance now pid fb (t_instances (ckp (txn_db t)))"
      and other: "\<And>k. k \<notin> set stamp_keys \<Longrightarrow> k \<notin> {core ''participant'', lit ''participant'', lit ''participant_email'', lit ''participant_display_name''} \<Longrightarrow>
          json_get fb k = json_get ?b k"
    have fb: "json_get fb (core ''requiresQuorum'') = Some (JString q)" "json_get fb (core ''proposalState'') = json_get pb (core ''proposalState'')"
      "json_get fb (lit ''type'') = json_get pb (lit ''type'')" by (simp_all add: other get stamp_keys_def)
    have nv: "\<not> approves ?E about i" if "i_body i \<in> {pb, fb}" for i
      using that assms(4) fb(3) by (auto simp: approves_def of_type_def get_text_def)
    have "set (approvers ?E (ckp (txn_db t')) about) = set (approvers ?E (ckp (txn_db t)) about)"
      using approvers_reseal[OF up] nv assms(6) by blast
    with fb find_after_upsert[OF up, of pid] show ?thesis by (simp add: required_quorum_def get_text_def text_of_def)
  qed
  ultimately show ?thesis by blast
qed

theorem quorum_patchable_after_votes_witness:
  "\<exists>G t' r b. update_typed G 9 (json_obj [(lit ''id'', jlit ''q''), (lit ''patch'', json_obj [(core ''requiresQuorum'', jlit ''1'')])])
       (demo_gov_txn ''add_class'' JNull) = Inr (Some r, t') \<and> find_instance (ckp (txn_db t')) (lit ''q'') = Some b \<and>
     required_quorum demo_ckp b = int4_in demo_ckp (lit ''1'')"
proof -
  let ?G = "demo_gov\<lparr>propmap := (\<lambda>ty pr g. Inr [(lit ''requiresQuorum'', core ''requiresQuorum'')])\<rparr>"
  let ?t = "demo_gov_txn ''add_class'' JNull" and ?pb = "demo_proposal_body ''add_class'' JNull"
  let ?b = "jsonb_concat (jsonb_minus ?pb (lit ''participant'')) (json_obj [(core ''requiresQuorum'', JString (lit ''1''))])"
  have G: "gdoor ?G = demo_door" "cenv demo_door = demo_ckp" "propmap ?G x y z = Inr [(lit ''requiresQuorum'', core ''requiresQuorum'')]" for x y z
    by (simp_all add: demo_gov_def demo_door_def)
  have rows: "find_instance (ckp (txn_db ?t)) (lit ''q'') = Some ?pb" "\<forall>i \<in> set (t_instances (ckp (txn_db ?t))). i_id i = lit ''q'' \<longrightarrow> i_body i = ?pb"
    by (simp_all add: find_instance_def demo_gov_txn_def demo_gov_db_def demo_project_row_def demo_vote_row_def)
  note o = get_text_is_object[OF demo_gov_body(6)[of "''add_class''" JNull]]
  have wf: "json_object_wf ?b" using demo_gov_body(1) by (simp add: inv_intros)
  have ty: "body_text demo_ckp ?b (lit ''type'') = Some (core ''Proposal'')"
    using demo_gov_body(6)[of "''add_class''" JNull] demo_gov_body(1)[of "''add_class''" JNull] o
    by (simp add: get_text_def json_get_concat json_get_obj json_get_minus inv_intros)
  have c: "58 \<in> set (core x)" for x by (simp add: core_def core_ns_def lit_def)
  obtain t' where t': "seal_in demo_door 9 (lit ''q'') ?b ?t = Inr t'" "demo_ready 3 t'"
    using demo_seal_ready[OF demo_gov_ready _ wf ty c, of 9 "lit ''q''"] by auto
  have w: "warnings_of demo_ckp (eff t') = Inr []" using t'(2) by (simp add: warnings_of_def demo_ready_def)
  have pid: "btrim spc (lit ''q'') \<noteq> []" by (simp add: btrim_def lit_def)
  from quorum_patchable_after_votes[where G = ?G and t = ?t and pid = "lit ''q''" and q = "lit ''1''" and now = 9, unfolded G,
      OF demo_gates(2) rows(1) demo_gov_body(1,6) pid rows(2) refl _ t'(1) w]
  show ?thesis unfolding jlit_def by (simp add: G) blast
qed

end
