(* ===== verification/Ckp_Only_Seals.thy ===== *)
theory Ckp_Only_Seals
  imports Ckp_Govern_Run Ckp_Door_Props
begin

text \<open>
  What the verbs may do to the ledger: every operation of the door, the governance verbs included,
  reaches its new tables by steps of the store under the identity key in force, and leaves that key.
\<close>

section \<open>Operations that only seal\<close>

text \<open>A transaction signs with \<open>key\<close> when the session's setting or, without one, the configuration says so
  and the transaction has not set another.\<close>

definition signs_with :: "str \<Rightarrow> 'g door_db txn \<Rightarrow> bool" where
  "signs_with key t \<longleftrightarrow> settings t (lit ''ckp.identity_key'') = None \<and> identity_key (session (txn_db t)) (ckp (txn_db t)) = Some key"

text \<open>What an operation of the door may do: reach the new tables by steps of the store under that key, and
  leave the key in force.\<close>

definition seals_only :: "'g ckp_env \<Rightarrow> str \<Rightarrow> 'g door_db txn \<Rightarrow> 'g door_db txn \<Rightarrow> bool" where
  "seals_only E key t t' \<longleftrightarrow> (signs_with key t \<longrightarrow> signs_with key t' \<and> (store_step E key)\<^sup>*\<^sup>* (ckp (txn_db t)) (ckp (txn_db t')))"

named_theorems seals_intros \<open>operations that only seal\<close>

lemma seals_only_refl [simp, seals_intros]: "seals_only E key t t"
  by (simp add: seals_only_def)

lemma seals_only_trans [trans]: "seals_only E key t t1 \<Longrightarrow> seals_only E key t1 t2 \<Longrightarrow> seals_only E key t t2"
  by (auto simp: seals_only_def)

lemma signs_with_eff: "signs_with key t \<Longrightarrow> identity_key (eff t) (ckp (txn_db t)) = Some key"
  by (simp add: signs_with_def identity_key_def guc_nonempty_def eff_def)

lemma seal_in_only [seals_intros]:
  assumes "seal_in D now p b t = Inr t'"
  shows "seals_only (cenv D) key t t'"
  unfolding seals_only_def
proof
  assume k: "signs_with key t"
  obtain sha c where c: "ckp_seal (cenv D) now p b (ckp_txn t) = Inr (sha, c)" and t': "t' = rejoin t c"
    using assms by (auto simp: seal_in_def ok_iff)
  have step: "store_step (cenv D) key (ckp (txn_db t)) (ckp (txn_db t'))"
    using step_seal[OF c] signs_with_eff[OF k] by (simp add: ckp_txn_def t' rejoin_def)
  from c obtain warn where s: "settings c = (eff t)(lit ''ckp.last_warnings'' \<mapsto> warn)" and cfg: "t_config (txn_db c) = t_config (ckp (txn_db t))"
    by (elim seal_ok) (auto simp: sealed_def ckp_txn_def)
  have "lit ''ckp.identity_key'' \<noteq> lit ''ckp.last_warnings''" by (simp add: lit_def)
  then have "signs_with key t'" using k s cfg by (simp add: signs_with_def t' rejoin_def identity_key_def cong: option.case_cong)
  with step show "signs_with key t' \<and> (store_step (cenv D) key)\<^sup>*\<^sup>* (ckp (txn_db t)) (ckp (txn_db t'))" by blast
qed

lemma abort_step:
  assumes "abort_law D"
  shows "(store_step E key)\<^sup>*\<^sup>* db (after_abort D db)"
proof -
  let ?a = "after_abort D db"
  let ?b = "db\<lparr>s_ledger := s_ledger ?a, s_proof := s_proof ?a, s_outbox := s_outbox ?a\<rparr>"
  have a: "same_tables ?a db" "s_ledger db \<le> s_ledger ?a" "s_proof db \<le> s_proof ?a" "s_outbox db \<le> s_outbox ?a"
    using assms by (auto simp: abort_law_def)
  have "store_step E key db ?b" using step_burn[OF a(2-4)] .
  moreover have "?b\<lparr>t_kernel_epoch := t_kernel_epoch ?a, t_obligations := t_obligations ?a, rdf := rdf ?a\<rparr> = ?a"
    using a(1) by (cases "?a"; cases db) (simp add: same_tables_def)
  then have "store_step E key ?b ?a" using step_read_tables[of E key ?b] by metis
  ultimately show ?thesis by (meson rtranclp.simps)
qed

lemma aborted_only [seals_intros]: "abort_law D \<Longrightarrow> seals_only E key t (aborted D t)"
  using abort_step[of D E key "ckp (txn_db t)"]
  by (auto simp: seals_only_def signs_with_def aborted_def identity_key_def abort_law_def same_tables_def split: option.splits)

lemma catching_only:
  assumes "abort_law D" "catching D t r = Inr (j, t')" "\<And>j t'. r = Inr (j, t') \<Longrightarrow> seals_only E key t t'"
  shows "seals_only E key t t'"
  using assms aborted_only[OF assms(1)] by (cases r) (auto simp: catching_def)

text \<open>The functions of the verbs that are not modelled, as far as the ledger goes: they write through
  \<^verbatim>\<open>ckp.seal\<close>, too.\<close>

definition verbs_seal :: "'g ckp_env \<Rightarrow> str \<Rightarrow> 'g handlers \<Rightarrow> bool" where
  "verbs_seal E key H \<longleftrightarrow> (\<forall>n p t r t'. H n p t = Inr (r, t') \<longrightarrow> seals_only E key t t')"

lemma legacy_only:
  assumes "abort_law D" "verbs_seal (cenv D) key H" "legacy_verb D H now clk v pv p t = Inr (r, t')"
  shows "seals_only (cenv D) key t t'"
  using assms(3) unfolding legacy_verb_def
proof (simp split: if_splits option.splits)
  assume "kernel_create D now p t = Inr (r, t')"
  then show ?thesis by (auto simp: kernel_create_def Let_def ok_iff seals_intros split: option.splits if_splits)
next
  assume "task_create D now clk p t = Inr (r, t')"
  then show ?thesis
    by (auto simp: task_create_def Let_def ok_iff seals_intros split: option.splits elim!: catching_only[OF assms(1)])
next
  assume "task_update D now p t = Inr (r, t')"
  then show ?thesis
    by (auto simp: task_update_def ok_iff seals_intros split: option.splits elim!: catching_only[OF assms(1)])
next
  fix n assume "H n p t = Inr (r, t')"
  then show ?thesis using assms(2) by (simp add: verbs_seal_def)
qed

lemma pinned_only:
  assumes "key \<noteq> []" "signs_with key t"
  shows "seals_only E key t (set_session ''ckp.identity_key'' (identity_key (eff t) (ckp (txn_db t))) (set_session ''ckp.project'' pr t))"
proof -
  have "lit ''ckp.identity_key'' \<noteq> lit ''ckp.project''" by (simp add: lit_def)
  with assms signs_with_eff[OF assms(2)] show ?thesis
    by (simp add: seals_only_def signs_with_def set_session_def identity_key_def guc_nonempty_def nullif_empty_def)
qed

lemma dispatch_only:
  assumes "abort_law D" "verbs_seal (cenv D) key H" "key \<noteq> []" "dispatch D H now clk v p t = Inr (r, t')"
  shows "seals_only (cenv D) key t t'"
proof (cases "signs_with key t")
  case True
  obtain pr res where run: "run_route D H now clk v p
      (set_session ''ckp.identity_key'' (identity_key (eff t) (ckp (txn_db t))) (set_session ''ckp.project'' pr t))
      (route_of (registry (txn_db t)) pr v p) = Inr (res, t')" (is "run_route D H now clk v p ?t1 ?r = _")
    using assms(4) by (auto simp: dispatch_def dispatch_route_def Let_def ok_iff)
  have "seals_only (cenv D) key t ?t1" using pinned_only[OF assms(3) True] .
  also have "seals_only (cenv D) key ?t1 t'"
    using run legacy_only[OF assms(1,2)] assms(2) by (cases ?r) (auto simp: run_route_def verbs_seal_def)
  finally show ?thesis .
qed (simp add: seals_only_def)

lemma dispatch_safe_only:
  assumes "abort_law D" "verbs_seal (cenv D) key H" "key \<noteq> []" "dispatch_safe D H now clk v p t = (r, t')"
  shows "seals_only (cenv D) key t t'"
  using assms dispatch_only[OF assms(1-3)] aborted_only[OF assms(1)]
  by (fastforce simp: dispatch_safe_def split: sum.splits)

section \<open>Layers of handlers\<close>

text \<open>The verbs are installed in layers, each of which serves some names and leaves the rest to the layer
  below. What the door needs of a layer is that it only seals when the one below does.\<close>

locale handler_layer =
  fixes D :: "'g door_env" and L :: "'g handlers \<Rightarrow> 'g handlers"
  assumes keeps: "\<And>key H. abort_law D \<Longrightarrow> verbs_seal (cenv D) key H \<Longrightarrow> verbs_seal (cenv D) key (L H)"
begin

lemma layer_dispatch:
  assumes "abort_law D" "verbs_seal (cenv D) key H" "key \<noteq> []" "dispatch_safe D (L H) now clk v p t = (r, t')"
  shows "seals_only (cenv D) key t t'"
  using dispatch_safe_only[OF assms(1) keeps[OF assms(1,2)] assms(3,4)] .

end

locale stacked_layers = upper: handler_layer D U + lower: handler_layer D L
  for D :: "'g door_env" and U L

sublocale stacked_layers \<subseteq> stack: handler_layer D "\<lambda>H. U (L H)"
  by unfold_locales (rule upper.keeps, assumption, rule lower.keeps)

section \<open>Governance only seals\<close>

lemma read_tables_only:
  assumes "ckp (txn_db t') = (ckp (txn_db t))\<lparr>t_kernel_epoch := t_kernel_epoch (ckp (txn_db t')),
      t_obligations := t_obligations (ckp (txn_db t')), rdf := rdf (ckp (txn_db t'))\<rparr>"
    "session (txn_db t') = session (txn_db t)" "settings t' = settings t"
  shows "seals_only E key t t'"
proof -
  have "store_step E key (ckp (txn_db t)) (ckp (txn_db t'))" by (subst assms(1)) (rule step_read_tables)
  moreover have "t_config (ckp (txn_db t')) = t_config (ckp (txn_db t))" by (subst assms(1)) simp
  ultimately show ?thesis using assms(2,3) by (auto simp: seals_only_def signs_with_def identity_key_def split: option.splits)
qed

lemma put_rdf_only [seals_intros]: "seals_only E key t (put_rdf g t)"
  by (rule read_tables_only) (simp_all add: put_rdf_def)

lemma epoch_surface_only [seals_intros]: "seals_only E key t (t\<lparr>txn_db := (txn_db t)\<lparr>epoch_surface := x\<rparr>\<rparr>)"
  by (rule read_tables_only) simp_all

lemma bump_epoch_only: "bump_epoch G k t = Inr (ep, t') \<Longrightarrow> seals_only E key t t'"
  by (rule read_tables_only) (auto simp: bump_epoch_def Let_def split: option.splits if_splits)

lemma set_project_only: "seals_only E key t (set_setting ''ckp.project'' v t)"
  by (simp add: seals_only_def signs_with_def set_setting_def)

lemma update_only:
  assumes "abort_law (gdoor G)" "update_typed G now p t = Inr (r, t')"
  shows "seals_only (genv G) key t t'"
proof -
  obtain pr where pr: "resolve_project (genv G) (eff t) (ckp (txn_db t)) = Inr pr" using assms(2) by (auto simp: update_typed_def ok_iff)
  show ?thesis
  proof (cases "update_body G now pr p t")
    case (Inl e)
    with assms(2) pr have "t' = aborted (gdoor G) t" by (simp add: update_typed_def)
    then show ?thesis using aborted_only[OF assms(1)] by simp
  next
    case (Inr x)
    with assms(2) pr have "update_body G now pr p t = Inr (r, t')" by (simp add: update_typed_def)
    then show ?thesis unfolding update_body_def Let_def
      by (auto simp: ok_iff or_reply_iff seals_intros split: option.splits json.splits if_splits)
  qed
qed

lemma transition_only:
  assumes "transition G now p t = Inr (r, t')"
  shows "seals_only (genv G) key t t'"
proof -
  have pp: "seals_only (genv G) key t (producer_project (genv G) b t)" for b
    using set_project_only by (auto simp: producer_project_def Let_def split: option.splits)
  from assms have "t' = t \<or> (\<exists>i b b'. seal_in (gdoor G) now i b (producer_project (genv G) b' t) = Inr t')"
    unfolding transition_def Let_def by (auto simp: ok_iff split: option.splits if_splits)
  then show ?thesis using seals_only_trans[OF pp seal_in_only] by auto
qed

lemma retire_only:
  assumes "retire G now p t = Inr (r, t')"
  shows "seals_only (genv G) key t t'"
proof -
  let ?x = "Option.bind (body_text (genv G) p (lit ''id'')) (\<lambda>i. map_option (Pair i) (find_instance (ckp (txn_db t)) i))"
  have "t' = t \<or> (\<exists>i b. seal_in (gdoor G) now i b t = Inr t')"
  proof (cases ?x)
    case None
    with assms show ?thesis unfolding retire_def Let_def by (auto simp: ok_iff split: if_splits)
  next
    case (Some ib)
    with assms show ?thesis unfolding retire_def Let_def by (cases ib) (auto simp: ok_iff split: if_splits)
  qed
  then show ?thesis by (auto simp: seals_intros)
qed

lemma shape_checked_only:
  assumes "shape_checked D c ttl t k = Inr (r, t')" "\<And>g r. k (put_rdf g t) = Inr (r, t') \<Longrightarrow> seals_only E key (put_rdf g t) t'"
  shows "seals_only E key t t'"
proof (cases "validate_report (cenv D) (Some ttl) c (rdf (ckp (txn_db t)))")
  case (Inl e)
  with assms(1) show ?thesis by (simp add: shape_checked_def)
next
  case (Inr x)
  obtain rep g where x: "x = (rep, g)" by (cases x)
  have "k (put_rdf g t) = Inr (r, t') \<or> t' = put_rdf g t"
    using assms(1) Inr x by (simp add: shape_checked_def Let_def split: if_splits)
  then show ?thesis
  proof
    assume k: "k (put_rdf g t) = Inr (r, t')"
    show ?thesis by (rule seals_only_trans[OF put_rdf_only assms(2)[OF k]])
  qed (simp add: put_rdf_only)
qed

lemma propose_only:
  assumes "propose_change G now clk k p t = Inr (r, t')"
  shows "seals_only (genv G) key t t'"
  using assms unfolding propose_change_def Let_def
  by (auto simp: ok_iff or_reply_iff seals_intros elim!: shape_checked_only)

lemma vote_only:
  assumes "vote G now clk p t = Inr (r, t')"
  shows "seals_only (genv G) key t t'"
  using assms unfolding vote_def Let_def
  by (auto simp: ok_iff or_reply_iff seals_intros elim!: shape_checked_only split: prod.splits)

text \<open>The stages of \<^verbatim>\<open>apply\<close>.\<close>

lemma cascade_only:
  assumes "cascade G now pr t = Inr (ep, t')"
  shows "seals_only (genv G) key t t'"
proof -
  from assms obtain t1 t4 g2 surf i1 b1 i2 b2 where b: "bump_epoch G pr t = Inr (ep, t1)"
    and s1: "seal_in (gdoor G) now i1 b1 (put_rdf g2 t1) = Inr t4"
    and s2: "seal_in (gdoor G) now i2 b2 (t4\<lparr>txn_db := (txn_db t4)\<lparr>epoch_surface := surf\<rparr>\<rparr>) = Inr t'"
    unfolding cascade_def Let_def by (auto simp: ok_iff)
  have "seals_only (genv G) key t t1" using b by (rule bump_epoch_only)
  also have "seals_only (genv G) key t1 (put_rdf g2 t1)" by (rule put_rdf_only)
  also have "seals_only (genv G) key (put_rdf g2 t1) t4" using s1 by (rule seal_in_only)
  also have "seals_only (genv G) key t4 (t4\<lparr>txn_db := (txn_db t4)\<lparr>epoch_surface := surf\<rparr>\<rparr>)" by (rule epoch_surface_only)
  also have "seals_only (genv G) key (t4\<lparr>txn_db := (txn_db t4)\<lparr>epoch_surface := surf\<rparr>\<rparr>) t'" using s2 by (rule seal_in_only)
  finally show ?thesis .
qed

lemma register_only:
  "register_query_affordance G now pb k ep t = Inr t' \<Longrightarrow> seals_only (genv G) key t t'"
  "register_proof_obligation G pb k ep t = Inr t' \<Longrightarrow> seals_only (genv G) key t t'"
proof -
  assume "register_query_affordance G now pb k ep t = Inr t'"
  then obtain i b ps rg where s: "seal_in (gdoor G) now i b (t\<lparr>txn_db := (txn_db t)\<lparr>plans := ps, registry := rg\<rparr>\<rparr>) = Inr t'"
    by (auto simp: register_query_affordance_def op_refused_def Let_def split: option.splits if_splits json.splits)
  have "seals_only (genv G) key t (t\<lparr>txn_db := (txn_db t)\<lparr>plans := ps, registry := rg\<rparr>\<rparr>)"
    by (rule read_tables_only) simp_all
  then show "seals_only (genv G) key t t'" using seal_in_only[OF s] by (rule seals_only_trans)
next
  assume "register_proof_obligation G pb k ep t = Inr t'"
  then show "seals_only (genv G) key t t'"
    by (intro read_tables_only) (auto simp: register_proof_obligation_def ok_iff)
qed

lemma stages_only:
  assumes "abort_law (gdoor G)"
  shows "graph_stage G pr pb t = Inr (x, t') \<Longrightarrow> seals_only (genv G) key t t'"
    "policy_stage G now pr op pb a t = Inr (x, t') \<Longrightarrow> seals_only (genv G) key t t'"
    "register_stage G now pr op ep pb a t = Inr (x, t') \<Longrightarrow> seals_only (genv G) key t t'"
proof -
  show "graph_stage G pr pb t = Inr (x, t') \<Longrightarrow> seals_only (genv G) key t t'"
    using aborted_only[OF assms] put_rdf_only by (auto simp: graph_stage_def ok_iff split: sum.splits option.splits if_splits)
  show "policy_stage G now pr op pb a t = Inr (x, t') \<Longrightarrow> seals_only (genv G) key t t'"
    using update_only[OF assms] by (auto simp: policy_stage_def ok_iff split: option.splits if_splits)
  show "register_stage G now pr op ep pb a t = Inr (x, t') \<Longrightarrow> seals_only (genv G) key t t'"
    using aborted_only[OF assms] register_only by (auto simp: register_stage_def Let_def split: sum.splits if_splits)
qed

lemma stage_then_only:
  assumes "stage_then m k = Inr (r, t')" "\<And>x t1. m = Inr (x, t1) \<Longrightarrow> seals_only E key t t1"
    "\<And>a t1. m = Inr (Inr a, t1) \<Longrightarrow> k a t1 = Inr (r, t') \<Longrightarrow> seals_only E key t1 t'"
  shows "seals_only E key t t'"
proof -
  obtain x t1 where m: "m = Inr (x, t1)" and c: "(case x of Inl j \<Rightarrow> Inr (Some j, t1) | Inr a \<Rightarrow> k a t1) = Inr (r, t')"
    using assms(1) by (auto simp: stage_then_def ok_iff)
  show ?thesis
  proof (cases x)
    case Inl with c m assms(2) show ?thesis by auto
  next
    case (Inr a) with c m have "seals_only E key t1 t'" using assms(3) by simp
    with assms(2)[OF m] show ?thesis by (rule seals_only_trans)
  qed
qed

lemma enact_only:
  assumes "abort_law (gdoor G)" "enact G now pr about pid pb na nq t = Inr (r, t')"
  shows "seals_only (genv G) key t t'"
  using assms(2)[unfolded enact_def Let_def]
proof (rule stage_then_only)
  fix a1 t1 assume "stage_then (policy_stage G now pr (body_text (genv G) pb (core ''proposalOp'')) pb a1 t1) (\<lambda>a2 t2. and_then (cascade G now pr t2) (\<lambda>(ep, t3).
       stage_then (register_stage G now pr (body_text (genv G) pb (core ''proposalOp'')) ep pb a2 t3) (\<lambda>a4 t4. and_then (seal_in (gdoor G) now pid (applied_body ep pb) t4) (\<lambda>t5.
         Inr (Some (applied_reply G about pid (body_text (genv G) pb (core ''proposalOp'')) ep na nq a4 t5), t5))))) = Inr (r, t')"
  then show "seals_only (genv G) key t1 t'"
  proof (rule stage_then_only)
    fix a2 t2 assume "and_then (cascade G now pr t2) (\<lambda>(ep, t3).
       stage_then (register_stage G now pr (body_text (genv G) pb (core ''proposalOp'')) ep pb a2 t3) (\<lambda>a4 t4. and_then (seal_in (gdoor G) now pid (applied_body ep pb) t4) (\<lambda>t5.
         Inr (Some (applied_reply G about pid (body_text (genv G) pb (core ''proposalOp'')) ep na nq a4 t5), t5)))) = Inr (r, t')"
    then obtain ep t3 where c: "cascade G now pr t2 = Inr (ep, t3)"
      and k: "stage_then (register_stage G now pr (body_text (genv G) pb (core ''proposalOp'')) ep pb a2 t3) (\<lambda>a4 t4. and_then (seal_in (gdoor G) now pid (applied_body ep pb) t4) (\<lambda>t5.
         Inr (Some (applied_reply G about pid (body_text (genv G) pb (core ''proposalOp'')) ep na nq a4 t5), t5))) = Inr (r, t')" by (auto simp: ok_iff)
    from k have "seals_only (genv G) key t3 t'"
      by (rule stage_then_only) (auto simp: ok_iff seals_intros intro: stages_only(3)[OF assms(1)])
    with cascade_only[OF c] show "seals_only (genv G) key t2 t'" by (rule seals_only_trans)
  qed (rule stages_only(2)[OF assms(1)])
qed (rule stages_only(1)[OF assms(1)])

lemma apply_only:
  assumes "abort_law (gdoor G)" "apply_change G now p t = Inr (r, t')"
  shows "seals_only (genv G) key t t'"
  using assms(2) enact_only[OF assms(1)] unfolding apply_change_def Let_def
  by (auto simp: ok_iff or_reply_iff split: prod.splits)

lemma gov_handlers_only:
  assumes "abort_law (gdoor G)" "verbs_seal (genv G) key H"
  shows "verbs_seal (genv G) key (gov_handlers G now clk H)"
  unfolding verbs_seal_def
proof (intro allI impI)
  fix n p t r t' assume "gov_handlers G now clk H n p t = Inr (r, t')"
  then show "seals_only (genv G) key t t'"
    using assms(2) propose_only vote_only apply_only[OF assms(1)] update_only[OF assms(1)] transition_only retire_only
    by (auto simp: gov_handlers_def verbs_seal_def split: if_splits)
qed

interpretation gov_layer: handler_layer "gdoor G" "gov_handlers G now clk" for G now clk
  by unfold_locales (rule gov_handlers_only)

end
