(* ===== verification/Ckp_Mint_Props.thy ===== *)
theory Ckp_Mint_Props
  imports Ckp_Only_Seals Ckp_Germinate Ckp_Board
begin

text \<open>
  The minting verbs: they write through \<^verbatim>\<open>seal\<close> only, a created fact holds what the payload said under the
  names the type declares, germination keeps a kernel with its owner, and a vote created as a typed
  instance counts although \<^verbatim>\<open>vote\<close> would refuse it.
\<close>

section \<open>Minting only seals\<close>

lemma caught_only:
  assumes "abort_law D" "(case r of Inr x \<Rightarrow> Inr x | Inl e \<Rightarrow> Inr (Some (f e), aborted D t)) = (Inr (j, t') :: (json option \<times> 'g door_db txn) sql)"
    "\<And>j. r = Inr (j, t') \<Longrightarrow> seals_only E key t t'"
  shows "seals_only E key t t'"
  using assms aborted_only[OF assms(1)] by (cases r) auto

lemma create_only:
  assumes "abort_law (gdoor G)" "create_typed G K now clk p t = Inr (r, t')"
  shows "seals_only (genv G) key t t'"
proof -
  obtain pr where "(case create_inner G K now clk pr p t of Inr r \<Rightarrow> Inr r
       | Inl e \<Rightarrow> Inr (Some (json_obj [(lit ''ok'', JBool False), (lit ''error'', JString (err_text (gdoor G) e)),
                    (lit ''sqlstate'', JString (sqlstate e))]), aborted (gdoor G) t)) = (Inr (r, t') :: (json option \<times> 'a door_db txn) sql)"
    using assms(2) by (auto simp: create_typed_def ok_iff)
  then show ?thesis
  proof (rule caught_only[OF assms(1)])
    fix j assume "create_inner G K now clk pr p t = Inr (j, t')"
    then show "seals_only (genv G) key t t'"
      unfolding create_inner_def Let_def by (auto simp: ok_iff or_reply_iff seals_intros)
  qed
qed

lemma materialize_edge_only:
  "materialize_edge G K a b c k t = Inr (x, t') \<Longrightarrow> seals_only E key t t'"
  by (auto simp: materialize_edge_def Let_def ok_iff seals_intros split: option.splits if_splits)

lemma edge_inner_only:
  assumes "edge_inner G K now k d p t = Inr (r, t')"
  shows "seals_only (genv G) key t t'"
proof -
  from assms have "t' = t \<or> (\<exists>i b t1 x y z v. seal_in (gdoor G) now i b t = Inr t1 \<and> materialize_edge G K x y z k t1 = Inr (v, t'))"
    unfolding edge_inner_def Let_def by (auto simp: ok_iff or_reply_iff split: option.splits)
  then show ?thesis using seals_only_trans[OF seal_in_only materialize_edge_only] by auto
qed

lemma edge_only:
  assumes "abort_law (gdoor G)" "edge_create G K now k p t = Inr (r, t')"
  shows "seals_only (genv G) key t t'"
proof -
  from assms(2) obtain d where "catching (gdoor G) t (edge_inner G K now k d p t) = Inr (r, t')" by (auto simp: edge_create_def ok_iff)
  then show ?thesis by (rule catching_only[OF assms(1)]) (rule edge_inner_only)
qed

lemma notify_inner_only: "notify_inner G now clk p t = Inr (r, t') \<Longrightarrow> seals_only (genv G) key t t'"
  unfolding notify_inner_def Let_def by (auto simp: ok_iff or_reply_iff seals_intros split: option.splits)

lemma notify_only:
  assumes "abort_law (gdoor G)" "notify G now clk p t = Inr (r, t')"
  shows "seals_only (genv G) key t t'"
  using assms(2) unfolding notify_def by (rule catching_only[OF assms(1)]) (rule notify_inner_only)

lemma signal_only: "signal_boundary G K now clk p t = Inr (r, t') \<Longrightarrow> seals_only (genv G) key t t'"
  unfolding signal_boundary_def Let_def by (auto simp: ok_iff seals_intros split: option.splits if_splits)

lemma seed_epoch_only: "seals_only E key t (seed_epoch k t)"
  by (rule read_tables_only) (simp_all add: seed_epoch_def Let_def)

lemma germinate_only:
  assumes "germinate_kernel G K now pj l kd t = Inr (r, t')"
  shows "seals_only (genv G) key t t'"
proof -
  from assms have "t' = t \<or> (\<exists>k g i b t1 i' b'. seal_in (gdoor G) now i b (seed_epoch k (put_rdf g t)) = Inr t1 \<and> seal_in (gdoor G) now i' b' t1 = Inr t')"
    unfolding germinate_kernel_def Let_def by (auto simp: ok_iff or_reply_iff)
  then show ?thesis
    using seals_only_trans[OF seals_only_trans[OF seals_only_trans[OF put_rdf_only seed_epoch_only] seal_in_only] seal_in_only] by auto
qed

lemma mint_handlers_only:
  assumes "abort_law (gdoor G)" "verbs_seal (genv G) key H"
  shows "verbs_seal (genv G) key (mint_handlers G K now clk H)"
  unfolding verbs_seal_def
proof (intro allI impI)
  fix n p t r t' assume "mint_handlers G K now clk H n p t = Inr (r, t')"
  then show "seals_only (genv G) key t t'"
    using assms(2) create_only[OF assms(1)] edge_only[OF assms(1)] notify_only[OF assms(1)] signal_only germinate_only
    by (auto simp: mint_handlers_def Let_def verbs_seal_def split: if_splits)
qed

interpretation mint_layer: handler_layer "gdoor G" "mint_handlers G K now clk" for G K now clk
  by unfold_locales (rule mint_handlers_only)

interpretation minted_gov: stacked_layers "gdoor G" "gov_handlers G now clk" "mint_handlers G K now clk" for G K now clk
  by unfold_locales

lemma read_handlers_only: "verbs_seal E key H \<Longrightarrow> verbs_seal E key (read_handlers D R H)"
  unfolding verbs_seal_def read_handlers_def by (auto simp: ok_iff)

interpretation read_layer: handler_layer D "read_handlers D R" for D R
  by unfold_locales (rule read_handlers_only)

lemma board_handlers_read: "board_handlers X B now H n p t = Inr (r, t') \<Longrightarrow> t' = t \<or> H n p t = Inr (r, t')"
  by (simp add: board_handlers_def Let_def ok_iff split: if_splits) blast+

lemma board_handlers_only: "verbs_seal E key H \<Longrightarrow> verbs_seal E key (board_handlers X B now H)"
  unfolding verbs_seal_def by (blast dest: board_handlers_read intro: seals_only_refl)

interpretation board_layer: handler_layer D "board_handlers X B now" for D X B now
  by unfold_locales (rule board_handlers_only)

interpretation reading_verbs: stacked_layers D "read_handlers D R" "board_handlers X B now" for D R X B now
  by unfold_locales

interpretation all_verbs: stacked_layers "gdoor G" "\<lambda>H. gov_handlers G now clk (mint_handlers G K now clk H)"
    "\<lambda>H. read_handlers (gdoor G) R (board_handlers X B now H)" for G K now clk R X B
  by unfold_locales

section \<open>Germination\<close>

lemma gate_refused:
  "segment_gate E K x = Inl j \<Longrightarrow> json_get j (lit ''ok'') = Some (JBool False)"
  "owner_gate E K s db p = Inl j \<Longrightarrow> json_get j (lit ''ok'') = Some (JBool False)"
  "type_gate E q = Inl j \<Longrightarrow> json_get j (lit ''ok'') = Some (JBool False)"
  by (auto simp: segment_gate_def owner_gate_def type_gate_def germ_refusal_def Let_def refuse_ok json_get_obj split: option.splits if_splits)

lemma germinate_ok:
  assumes "germinate_kernel G K now pj l kd t = Inr (Some r, t')" "reply_ok r"
  obtains p me g t1 where "pj = Some p" "canonical p" "guc_nonempty (eff t) ''ckp.requester'' = Some me"
    "kernel_sealed (genv G) (ckp (txn_db t)) p \<Longrightarrow>
       project_owner (genv G) (ckp (txn_db t)) (project_iri p) = Some (lit ''urn:ckp:participant:'' @ slug (lower_text (genv G)) me)"
    "seal_in (gdoor G) now (project_iri p) (germ_project_body p (coalesce_text l p) kd (lit ''urn:ckp:participant:'' @ slug (lower_text (genv G)) me))
       (seed_epoch p (put_rdf g t)) = Inr t1"
    "seal_in (gdoor G) now (kernel_iri p) (germ_kernel_body (law_forces_kernel_epoch K (rdf (ckp (txn_db t)))) p (coalesce_text l p)) t1 = Inr t'"
proof -
  let ?E = "genv G"
  from assms obtain p own g t1 where p: "segment_gate ?E K pj = Inr p" and own: "owner_gate ?E K (eff t) (ckp (txn_db t)) p = Inr own"
    and s: "seal_in (gdoor G) now (project_iri p) (germ_project_body p (coalesce_text l p) kd own) (seed_epoch p (put_rdf g t)) = Inr t1"
      "seal_in (gdoor G) now (kernel_iri p) (germ_kernel_body (law_forces_kernel_epoch K (rdf (ckp (txn_db t)))) p (coalesce_text l p)) t1 = Inr t'"
    unfolding germinate_kernel_def Let_def by (auto simp: ok_iff or_reply_ok[OF assms(2)] gate_refused)
  from p have pj: "pj = Some p" "canonical p"
    by (auto simp: segment_gate_def Let_def coalesce_text_def btrim_def split: if_splits option.splits)
  from own obtain me where me: "guc_nonempty (eff t) ''ckp.requester'' = Some me" "own = lit ''urn:ckp:participant:'' @ slug (lower_text ?E) me"
    "kernel_sealed ?E (ckp (txn_db t)) p \<Longrightarrow> coalesce_text (project_owner ?E (ckp (txn_db t)) (project_iri p)) [] = own"
    by (auto simp: owner_gate_def Let_def split: option.splits if_splits)
  have "project_owner ?E (ckp (txn_db t)) (project_iri p) = Some own" if "kernel_sealed ?E (ckp (txn_db t)) p"
    using me(3)[OF that] me(2) by (cases "project_owner ?E (ckp (txn_db t)) (project_iri p)") (auto simp: coalesce_text_def lit_def)
  with that[OF pj me(1)] me(2) s show thesis by blast
qed

lemma sealed_value:
  assumes "\<And>k. k \<notin> set stamp_keys \<Longrightarrow> k \<notin> {core ''participant'', lit ''participant'', lit ''participant_email'', lit ''participant_display_name''} \<Longrightarrow>
       json_get fb k = json_get b k"
  shows "json_get fb (lit ''type'') = json_get b (lit ''type'')" "json_get fb (lit ''@id'') = json_get b (lit ''@id'')"
    "json_get fb (core ''ownedBy'') = json_get b (core ''ownedBy'')" "json_get fb (core ''about'') = json_get b (core ''about'')"
    "json_get fb (core ''voteValue'') = json_get b (core ''voteValue'')"
  by (rule assms; simp add: stamp_keys_def core_def core_ns_def lit_def)+

lemma seal_in_keeps:
  assumes "seal_in D now p b t = Inr t'" "json_object_wf b"
  obtains who fb where "resolve_participant (cenv D) (eff t) b = Inr who"
    "t_instances (ckp (txn_db t')) = upsert_instance now p fb (t_instances (ckp (txn_db t)))"
    "json_get fb (core ''createdBy'') = Some (JString who)"
    "json_get fb (lit ''type'') = json_get b (lit ''type'')" "json_get fb (lit ''@id'') = json_get b (lit ''@id'')"
    "json_get fb (core ''ownedBy'') = json_get b (core ''ownedBy'')" "json_get fb (core ''about'') = json_get b (core ''about'')"
    "json_get fb (core ''voteValue'') = json_get b (core ''voteValue'')"
  using assms
proof (rule seal_in_row)
  fix who fb
  assume r: "resolve_participant (cenv D) (eff t) b = Inr who"
    "t_instances (ckp (txn_db t')) = upsert_instance now p fb (t_instances (ckp (txn_db t)))"
    "json_get fb (core ''createdBy'') = Some (JString who)"
    and v: "\<And>k. k \<notin> set stamp_keys \<Longrightarrow> k \<notin> {core ''participant'', lit ''participant'', lit ''participant_email'', lit ''participant_display_name''} \<Longrightarrow>
       json_get fb k = json_get b k"
  show thesis by (rule that[OF r]) (rule sealed_value[OF v]; assumption)+
qed

lemma upsert_has: "\<exists>i. i \<in> set (upsert_instance now p b rows) \<and> i_body i = b"
proof (cases "\<exists>j \<in> set rows. i_id j = p")
  case True
  then obtain j where "j \<in> set rows" "i_id j = p" by blast
  then have "j\<lparr>i_body := b, i_updated := now\<rparr> \<in> set (upsert_instance now p b rows)"
    by (auto simp: upsert_instance_def list_ex_iff)
  then show ?thesis by fastforce
qed (auto simp: upsert_instance_def list_ex_iff)

text \<open>C15: a germinated kernel stays with its owner. When \<^verbatim>\<open>germinate_kernel\<close> reports success, the caller is a
  verified requester; if the kernel was sealed before, its project was owned by that requester already; and
  afterwards the kernel is sealed and the project's sealed owner is the requester, whatever the payload said.\<close>

theorem germination_keeps_owner:
  assumes "germinate_kernel G K now pj l kd t = Inr (Some r, t')" "json_get r (lit ''ok'') = Some (JBool True)"
  shows "\<exists>p me b. pj = Some p \<and> canonical p \<and> guc_nonempty (eff t) ''ckp.requester'' = Some me \<and>
    (kernel_sealed (genv G) (ckp (txn_db t)) p \<longrightarrow>
       project_owner (genv G) (ckp (txn_db t)) (project_iri p) = Some (lit ''urn:ckp:participant:'' @ slug (lower_text (genv G)) me)) \<and>
    kernel_sealed (genv G) (ckp (txn_db t')) p \<and>
    find_instance (ckp (txn_db t')) (project_iri p) = Some b \<and>
    body_text (genv G) b (core ''ownedBy'') = Some (lit ''urn:ckp:participant:'' @ slug (lower_text (genv G)) me)"
  using assms
proof (rule germinate_ok)
  fix p me g t1
  let ?E = "genv G" let ?own = "lit ''urn:ckp:participant:'' @ slug (lower_text (genv G)) me"
  let ?pb = "germ_project_body p (coalesce_text l p) kd ?own"
  let ?kb = "germ_kernel_body (law_forces_kernel_epoch K (rdf (ckp (txn_db t)))) p (coalesce_text l p)"
  assume h: "pj = Some p" "canonical p" "guc_nonempty (eff t) ''ckp.requester'' = Some me"
    "kernel_sealed ?E (ckp (txn_db t)) p \<Longrightarrow> project_owner ?E (ckp (txn_db t)) (project_iri p) = Some ?own"
    and s1: "seal_in (gdoor G) now (project_iri p) ?pb (seed_epoch p (put_rdf g t)) = Inr t1"
    and s2: "seal_in (gdoor G) now (kernel_iri p) ?kb t1 = Inr t'"
  have wf: "json_object_wf ?pb" "json_object_wf ?kb" by (simp_all add: germ_project_body_def germ_kernel_body_def)
  obtain fb where f: "t_instances (ckp (txn_db t1)) = upsert_instance now (project_iri p) fb (t_instances (ckp (txn_db (seed_epoch p (put_rdf g t)))))"
    and fo: "json_get fb (core ''ownedBy'') = json_get ?pb (core ''ownedBy'')"
    using s1 wf(1) by (rule seal_in_keeps)
  obtain fk where k: "t_instances (ckp (txn_db t')) = upsert_instance now (kernel_iri p) fk (t_instances (ckp (txn_db t1)))"
    and ko: "json_get fk (lit ''type'') = json_get ?kb (lit ''type'')" "json_get fk (lit ''@id'') = json_get ?kb (lit ''@id'')"
    using s2 wf(2) by (rule seal_in_keeps)
  have v: "json_get ?pb (core ''ownedBy'') = Some (JString ?own)" "json_get ?kb (lit ''type'') = Some (JString (core ''Kernel''))"
    "json_get ?kb (lit ''@id'') = Some (JString (kernel_iri p))"
    by (simp_all add: germ_project_body_def germ_kernel_body_def json_get_obj epoch_key_def core_def core_ns_def RDFS_LABEL_def lit_def)
  have ne: "project_iri p \<noteq> kernel_iri p" by (simp add: project_iri_def kernel_iri_def lit_def)
  have "find_instance (ckp (txn_db t')) (project_iri p) = Some fb"
    using find_after_upsert[OF k] find_after_upsert[OF f] ne by simp
  moreover have "kernel_sealed ?E (ckp (txn_db t')) p"
  proof -
    obtain i where i: "i \<in> set (t_instances (ckp (txn_db t')))" "i_body i = fk" using upsert_has k by metis
    then have "body_text ?E (i_body i) (lit ''@id'') = Some (kernel_iri p) \<and> of_type ?E ''Kernel'' i"
      using ko v by (simp add: of_type_def get_text_def text_of_def)
    with i(1) show ?thesis unfolding kernel_sealed_def by blast
  qed
  moreover have "body_text ?E fb (core ''ownedBy'') = Some ?own" using fo v(1) by (simp add: get_text_def text_of_def)
  ultimately show ?thesis using h by blast
qed

section \<open>Typed creation\<close>

text \<open>What the loop over the payload writes.\<close>

definition named_values :: "(str \<times> str) list \<Rightarrow> str \<Rightarrow> (str \<times> json) list \<Rightarrow> (str \<times> json) list" where
  "named_values pm ns kvs = map (\<lambda>(k, v). (create_key pm ns k, v)) (filter (\<lambda>e. fst e \<notin> set control_keys) kvs)"

lemma create_loop_object:
  "json_object_wf b \<Longrightarrow> is_object b \<Longrightarrow> json_object_wf (create_loop pm ns kvs b) \<and> is_object (create_loop pm ns kvs b)"
  by (induction pm ns kvs b rule: create_loop.induct) (simp_all add: jsonb_concat_wf)

lemma create_loop_get:
  assumes "json_object_wf b" "is_object b"
  shows "json_get (create_loop pm ns kvs b) k = (case map_of (rev (named_values pm ns kvs)) k of None \<Rightarrow> json_get b k | Some v \<Rightarrow> Some v)"
  using assms
  by (induction pm ns kvs b rule: create_loop.induct)
    (auto simp: named_values_def jsonb_concat_wf json_get_concat json_get_obj map_add_def split: option.splits)

lemma map_of_unique:
  assumes "(k, v) \<in> set xs" "\<And>v'. (k, v') \<in> set xs \<Longrightarrow> v' = v"
  shows "map_of xs k = Some v"
  using assms by (metis map_of_SomeD weak_map_of_SomeI)

text \<open>What the server adds to a created body, and what a seal writes over it.\<close>

definition server_keys :: "str set" where
  "server_keys = set stamp_keys \<union> {core ''participant'', lit ''participant'', lit ''participant_email'', lit ''participant_display_name'',
     board ''created_at'', board ''created_by''}"

lemma typed_body_get:
  assumes "k \<notin> {lit ''participant'', board ''created_at'', board ''created_by''}"
  shows "json_object_wf (typed_body D now s pm ty iid j)"
    "json_get (typed_body D now s pm ty iid j) k =
       json_get (create_loop pm (type_ns (Some ty)) (jsonb_each j) (json_obj [(lit ''type'', JString ty),
         (lit ''@id'', JString (lit ''ckp://'' @ after_last (\<lambda>c. c = 47 \<or> c = 35) ty @ lit ''#'' @ iid))])) k"
  using assms create_loop_object[of "json_obj [(lit ''type'', JString ty), (lit ''@id'', JString (lit ''ckp://'' @ after_last (\<lambda>c. c = 47 \<or> c = 35) ty @ lit ''#'' @ iid))]"]
  by (auto simp: typed_body_def stamp_creator_def created_by_def Let_def jsonb_concat_wf json_get_concat json_get_obj split: option.splits)

lemma typed_body_value:
  assumes "btree_wf m" "map_of m k = Some v" "k \<notin> set control_keys"
    "create_key pm (type_ns (Some ty)) k \<notin> {lit ''participant'', board ''created_at'', board ''created_by''}"
    "\<And>k'. k' \<in> fst ` set m \<Longrightarrow> k' \<notin> set control_keys \<Longrightarrow>
       create_key pm (type_ns (Some ty)) k' = create_key pm (type_ns (Some ty)) k \<Longrightarrow> k' = k"
  shows "json_get (typed_body D now s pm ty iid (JObject m)) (create_key pm (type_ns (Some ty)) k) = Some v"
proof -
  let ?ck = "create_key pm (type_ns (Some ty))"
  have d: "map_of m k = Some v'" if "(k, v') \<in> set m" for v' using that btree.entries_distinct[OF assms(1)] by simp
  have "map_of (rev (named_values pm (type_ns (Some ty)) (jsonb_each (JObject m)))) (?ck k) = Some v"
  proof (rule map_of_unique)
    show "(?ck k, v) \<in> set (rev (named_values pm (type_ns (Some ty)) (jsonb_each (JObject m))))"
      using map_of_SomeD[OF assms(2)] assms(3) by (force simp: named_values_def set_jsonb_each)
    show "v' = v" if "(?ck k, v') \<in> set (rev (named_values pm (type_ns (Some ty)) (jsonb_each (JObject m))))" for v'
      using that assms(2,5) d by (force simp: named_values_def set_jsonb_each)
  qed
  then show ?thesis using assms(4) by (simp add: typed_body_get(2) create_loop_get)
qed

lemma create_ok:
  assumes "create_typed G K now clk p t = Inr (Some r, t')" "reply_ok r"
  obtains pr ty pm where "resolve_project (genv G) (eff t) (ckp (txn_db t)) = Inr pr" "type_gate (genv G) p = Inr ty"
    "propmap G (Some ty) pr (rdf (ckp (txn_db t))) = Inr pm"
    "seal_in (gdoor G) now (typed_id (genv G) clk ty) (typed_body (gdoor G) now (eff t) pm ty (typed_id (genv G) clk ty) (create_input p)) t = Inr t'"
proof -
  from assms(1) obtain pr where pr: "resolve_project (genv G) (eff t) (ckp (txn_db t)) = Inr pr" by (auto simp: create_typed_def ok_iff)
  show thesis
  proof (cases "create_inner G K now clk pr p t")
    case (Inl e)
    with assms pr show ?thesis by (auto simp: create_typed_def json_get_obj)
  next
    case (Inr x)
    with assms(1) pr have "create_inner G K now clk pr p t = Inr (Some r, t')" by (simp add: create_typed_def)
    then show ?thesis using that[OF pr] unfolding create_inner_def Let_def
      by (auto simp: ok_iff or_reply_ok[OF assms(2)] gate_refused)
  qed
qed

text \<open>C16: a created fact reads back. When \<^verbatim>\<open>create_typed\<close> reports success, the instance of the minted id is in the
  table, and each value of the payload stands in its sealed body under the property its key names, unless the
  key is a control key, two keys name one property, or the property is one the server writes.\<close>

theorem created_fact_reads_back:
  assumes "create_typed G K now clk p t = Inr (Some r, t')" "json_get r (lit ''ok'') = Some (JBool True)"
    "create_input p = JObject m" "btree_wf m"
  shows "\<exists>pr ty pm b. resolve_project (genv G) (eff t) (ckp (txn_db t)) = Inr pr \<and> type_gate (genv G) p = Inr ty \<and>
    propmap G (Some ty) pr (rdf (ckp (txn_db t))) = Inr pm \<and> find_instance (ckp (txn_db t')) (typed_id (genv G) clk ty) = Some b \<and>
    (\<forall>k v. json_get (create_input p) k = Some v \<and> k \<notin> set control_keys \<and> create_key pm (type_ns (Some ty)) k \<notin> server_keys \<and>
       (\<forall>k' \<in> fst ` set m. k' \<notin> set control_keys \<and> create_key pm (type_ns (Some ty)) k' = create_key pm (type_ns (Some ty)) k \<longrightarrow> k' = k) \<longrightarrow>
       json_get b (create_key pm (type_ns (Some ty)) k) = Some v)"
  using assms(1,2)
proof (rule create_ok)
  fix pr ty pm
  let ?iid = "typed_id (genv G) clk ty" let ?tb = "typed_body (gdoor G) now (eff t) pm ty ?iid (create_input p)" let ?ck = "create_key pm (type_ns (Some ty))"
  assume h: "resolve_project (genv G) (eff t) (ckp (txn_db t)) = Inr pr" "type_gate (genv G) p = Inr ty"
    "propmap G (Some ty) pr (rdf (ckp (txn_db t))) = Inr pm" and s: "seal_in (gdoor G) now ?iid ?tb t = Inr t'"
  have wf: "json_object_wf ?tb" by (rule typed_body_get(1)[of "[]"]) (simp add: board_def lit_def)
  from s wf show ?thesis
  proof (rule seal_in_row)
    fix who fb
    assume up: "t_instances (ckp (txn_db t')) = upsert_instance now ?iid fb (t_instances (ckp (txn_db t)))"
      and v: "\<And>k. k \<notin> set stamp_keys \<Longrightarrow> k \<notin> {core ''participant'', lit ''participant'', lit ''participant_email'', lit ''participant_display_name''} \<Longrightarrow>
        json_get fb k = json_get ?tb k"
    have "json_get fb (?ck k) = Some v"
      if k: "map_of m k = Some v" "k \<notin> set control_keys" "?ck k \<notin> server_keys"
        "\<And>k'. k' \<in> fst ` set m \<Longrightarrow> k' \<notin> set control_keys \<Longrightarrow> ?ck k' = ?ck k \<Longrightarrow> k' = k" for k v
    proof -
      have "json_get (typed_body (gdoor G) now (eff t) pm ty ?iid (JObject m)) (?ck k) = Some v"
        by (rule typed_body_value[OF assms(4) k(1,2)]) (use k(3,4) in \<open>auto simp: server_keys_def\<close>)
      then show ?thesis using k(3) v[of "?ck k"] by (simp add: server_keys_def assms(3))
    qed
    then show ?thesis using h find_after_upsert[OF up] assms(3) by (intro exI[of _ pr] exI[of _ ty] exI[of _ pm] exI[of _ fb]) auto
  qed
qed

text \<open>The id of a link joins its parts with dots, so links with dotted parts can share one id.\<close>

lemma edge_ids_collide: "edge_id (s @ lit ''.'' @ x) q t = edge_id s (x @ lit ''.'' @ q) t"
  by (simp add: edge_id_def)

section \<open>A vote as a typed instance\<close>

definition typed_ballot :: "str \<Rightarrow> json" where
  "typed_ballot about = json_obj [(lit ''type'', JString (core ''Vote'')), (core ''about'', JString about), (core ''voteValue'', jlit ''approve'')]"

lemma typed_ballot_body:
  fixes D now s pm iid about
  defines "tb \<equiv> typed_body D now s pm (core ''Vote'') iid (typed_ballot about)"
  shows "create_input (typed_ballot about) = typed_ballot about" "type_gate E (typed_ballot about) = Inr (core ''Vote'')" "json_object_wf tb"
    "json_get tb (lit ''type'') = Some (JString (core ''Vote''))" "json_get tb (core ''about'') = Some (JString about)"
    "json_get tb (core ''voteValue'') = Some (jlit ''approve'')"
proof -
  obtain m where m: "typed_ballot about = JObject m" "btree_wf m" unfolding typed_ballot_def using json_obj_is_object by blast
  have g: "map_of m k = map_of [(core ''voteValue'', jlit ''approve''), (core ''about'', JString about), (lit ''type'', JString (core ''Vote''))] k" for k
    using json_get_obj[of "[(lit ''type'', JString (core ''Vote'')), (core ''about'', JString about), (core ''voteValue'', jlit ''approve'')]" k] m(1)
    by (simp add: typed_ballot_def)
  have n: "core ''about'' \<noteq> core ''voteValue''" "core x \<noteq> lit ''type''" "58 \<in> set (core x)" "core x \<notin> set control_keys"
    "core x \<notin> {lit ''participant'', board ''created_at'', board ''created_by''}" "lit ''type'' \<in> set control_keys" for x
    by (simp_all add: core_def core_ns_def control_keys_def board_def lit_def)
  have ck: "create_key pm (type_ns (Some (core ''Vote''))) (core x) = core x" for x using n(3) by (simp add: create_key_def)
  have ks: "k' \<in> {core ''about'', core ''voteValue'', lit ''type''}" if "k' \<in> fst ` set m" for k'
    using that g[of k'] by (cases "map_of m k'") (auto simp: map_of_eq_None_iff split: if_splits)
  show i: "create_input (typed_ballot about) = typed_ballot about"
    by (simp add: create_input_def typed_ballot_def json_get_obj core_def core_ns_def lit_def)
  show "type_gate E (typed_ballot about) = Inr (core ''Vote'')"
    using n(3)[of "''Vote''"] unfolding type_gate_def i
    by (simp add: typed_ballot_def get_text_def json_get_obj text_of_def coalesce_text_def Let_def n btrim_def core_def core_ns_def lit_def)
  show "json_object_wf tb" unfolding tb_def by (rule typed_body_get(1)[of "[]"]) (simp add: board_def lit_def)
  have u: "k' = core x" if "k' \<in> fst ` set m" "k' \<notin> set control_keys" "create_key pm (type_ns (Some (core ''Vote''))) k' = create_key pm (type_ns (Some (core ''Vote''))) (core x)" for k' x
    using ks[OF that(1)] that(2,3) n(6) by (auto simp: ck)
  show "json_get tb (core ''about'') = Some (JString about)" "json_get tb (core ''voteValue'') = Some (jlit ''approve'')"
    using typed_body_value[OF m(2) _ n(4) _ u, where pm = pm and ty = "core ''Vote''" and D = D and now = now and s = s and iid = iid] n
    by (simp_all add: ck g tb_def m(1))
  have "map_of (rev (named_values pm (type_ns (Some (core ''Vote''))) (jsonb_each (JObject m)))) (lit ''type'') = None"
  proof (rule ccontr)
    assume "\<not> ?thesis"
    then obtain v where "(lit ''type'', v) \<in> set (named_values pm (type_ns (Some (core ''Vote''))) (jsonb_each (JObject m)))"
      using map_of_SomeD by fastforce
    then obtain k' where "k' \<in> fst ` set m" "k' \<notin> set control_keys" "create_key pm (type_ns (Some (core ''Vote''))) k' = lit ''type''"
      by (force simp: named_values_def set_jsonb_each)
    with ks[of k'] n(2,6) show False by (auto simp: ck)
  qed
  moreover have "lit ''type'' \<notin> {lit ''participant'', board ''created_at'', board ''created_by''}" by (simp add: board_def lit_def)
  ultimately show "json_get tb (lit ''type'') = Some (JString (core ''Vote''))"
    by (simp add: tb_def typed_body_get(2) create_loop_get json_get_obj m(1))
qed

text \<open>A vote need not pass \<^verbatim>\<open>vote\<close>. A Vote that \<^verbatim>\<open>create_typed\<close> seals is counted as an approval of its author, also
  where the roles of the proposal's project forbid the author to vote and \<^verbatim>\<open>vote\<close> refuses every ballot.\<close>

theorem typed_vote_skips_gates:
  assumes "create_typed G K now clk (typed_ballot about) t = Inr (Some r, t')" "json_get r (lit ''ok'') = Some (JBool True)"
    "find_proposal (genv G) (ckp (txn_db t)) about = Some i"
    "role_gate (genv G) (eff t) (ckp (txn_db t)) (sealed_target (genv G) (i_body i)) ''vote'' = Inl j"
    "guc_trimmed (eff t) ''ckp.requester'' = Some me" "\<not> starts_with (lit ''urn:ckp:participant:anon:'') (participant_urn (genv G) me)"
  shows "participant_urn (genv G) me \<in> set (approvers (genv G) (ckp (txn_db t')) about) \<and>
    (\<forall>p2 r2 u. body_text (genv G) p2 (lit ''about'') = Some about \<and> vote G now clk p2 t = Inr (Some r2, u) \<longrightarrow>
       json_get r2 (lit ''ok'') \<noteq> Some (JBool True))"
proof -
  let ?E = "genv G"
  have "participant_urn ?E me \<in> set (approvers ?E (ckp (txn_db t')) about)"
    using assms(1,2)
  proof (rule create_ok)
    fix pr ty pm
    assume "type_gate ?E (typed_ballot about) = Inr ty"
      and s: "seal_in (gdoor G) now (typed_id ?E clk ty) (typed_body (gdoor G) now (eff t) pm ty (typed_id ?E clk ty) (create_input (typed_ballot about))) t = Inr t'"
    then have ty: "ty = core ''Vote''" by (simp add: typed_ballot_body(2))
    note b = typed_ballot_body[where about = about]
    from s[unfolded ty b(1)] b(3) show ?thesis
    proof (rule seal_in_keeps)
      fix who fb
      assume who: "resolve_participant ?E (eff t) (typed_body (gdoor G) now (eff t) pm (core ''Vote'') (typed_id ?E clk (core ''Vote'')) (typed_ballot about)) = Inr who"
        and up: "t_instances (ckp (txn_db t')) = upsert_instance now (typed_id ?E clk (core ''Vote'')) fb (t_instances (ckp (txn_db t)))"
        and v: "json_get fb (core ''createdBy'') = Some (JString who)"
          "json_get fb (lit ''type'') = json_get (typed_body (gdoor G) now (eff t) pm (core ''Vote'') (typed_id ?E clk (core ''Vote'')) (typed_ballot about)) (lit ''type'')"
          "json_get fb (core ''about'') = json_get (typed_body (gdoor G) now (eff t) pm (core ''Vote'') (typed_id ?E clk (core ''Vote'')) (typed_ballot about)) (core ''about'')"
          "json_get fb (core ''voteValue'') = json_get (typed_body (gdoor G) now (eff t) pm (core ''Vote'') (typed_id ?E clk (core ''Vote'')) (typed_ballot about)) (core ''voteValue'')"
      have me: "who = participant_urn ?E me" using who assms(5) by (simp add: resolve_participant_def)
      obtain x where x: "x \<in> set (t_instances (ckp (txn_db t')))" "i_body x = fb" using upsert_has up by metis
      have "approves ?E about x \<and> body_text ?E (i_body x) (core ''createdBy'') = Some who"
        using v assms(6) me unfolding b x(2) approves_def of_type_def
        by (simp add: get_text_def text_of_def jlit_def coalesce_text_def b(4-6))
      with x(1) me show ?thesis by (auto simp: set_approvers)
    qed
  qed
  moreover have "\<not> reply_ok r2" if p2: "body_text ?E p2 (lit ''about'') = Some about" "vote G now clk p2 t = Inr (Some r2, u)" for p2 r2 u
  proof
    assume ok: "reply_ok r2"
    have "about_gate (Some about) = Inr a \<Longrightarrow> a = about" for a by (simp add: about_gate_def split: if_splits)
    moreover have "pending_gate ?E (ckp (txn_db t)) about = Inr (pid, pb) \<Longrightarrow> pb = i_body i" for pid pb
      using assms(3) by (auto simp: pending_gate_def split: option.splits if_splits)
    ultimately show False using p2 assms(4) unfolding vote_def Let_def
      by (auto simp: ok_iff or_reply_ok[OF ok] gate_refusals split: prod.splits)
  qed
  ultimately show ?thesis by blast
qed

section \<open>A run\<close>

definition demo_mint :: "unit create_env" where
  "demo_mint = \<lparr>int8_in = (\<lambda>s. Inr 1), quote_literal = (\<lambda>s. s), declared_predicates = (\<lambda>p g. Inr []), adoption_reference = (\<lambda>b g. Inr None),
     law_forces_kernel_epoch = (\<lambda>g. False), clear_graph = (\<lambda>i g. Inr g), parse_turtle = (\<lambda>s i b g. Inr g), rdf_materialize = (\<lambda>i g. Inr g)\<rparr>"

lemma demo_germinates:
  "\<exists>r t'. germinate_kernel demo_gov demo_mint 9 (Some (lit ''forge'')) None None (demo_gov_txn op d) = Inr (Some r, t') \<and> reply_ok r"
proof -
  let ?t = "demo_gov_txn op d" and ?p = "lit ''forge''" and ?E = demo_ckp
  have c: "58 \<in> set (core x)" for x by (simp add: core_def core_ns_def lit_def)
  have seg: "segment_gate ?E demo_mint (Some ?p) = Inr ?p"
    by (simp add: segment_gate_def coalesce_text_def Let_def btrim_def nats_metachar_def canonical_def split_on_def ascii_lower_digit_def lit_def)
  have "\<not> kernel_sealed ?E (ckp (txn_db ?t)) ?p"
    by (simp add: kernel_sealed_def of_type_def demo_gov_txn_def demo_gov_db_def demo_door_txn_def empty_store_def demo_project_row_def
        demo_proposal_body_def demo_vote_row_def get_text_def json_get_obj text_of_def core_def core_ns_def lit_def)
  moreover obtain me where "guc_nonempty (eff ?t) ''ckp.requester'' = Some me"
    by (simp add: demo_settings guc_nonempty_def nullif_empty_def demo_session_def)
  ultimately obtain own where own: "owner_gate ?E demo_mint (eff ?t) (ckp (txn_db ?t)) ?p = Inr own" by (simp add: owner_gate_def)
  let ?pb = "germ_project_body ?p ?p None own" and ?kb = "germ_kernel_body False ?p ?p"
  have ready: "demo_ready 2 (seed_epoch ?p (put_rdf () ?t))"
    by (rule demo_ready_cong[OF demo_gov_ready[of op d]]) (simp_all add: seed_epoch_def put_rdf_def Let_def)
  have b: "json_object_wf ?pb" "body_text ?E ?pb (lit ''type'') = Some (core ''Project'')" "json_object_wf ?kb" "body_text ?E ?kb (lit ''type'') = Some (core ''Kernel'')"
    by (simp_all add: germ_project_body_def germ_kernel_body_def get_text_def json_get_obj text_of_def core_def core_ns_def RDFS_LABEL_def epoch_key_def lit_def)
  have ty: "core ''Project'' \<noteq> core ''Membership''" "core ''Project'' \<noteq> core ''Kernel''" "core ''Kernel'' \<noteq> core ''Membership''" by (simp_all add: core_def lit_def)
  obtain t1 where t1: "seal_in demo_door 9 (project_iri ?p) ?pb (seed_epoch ?p (put_rdf () ?t)) = Inr t1" "demo_ready (2 + 1) t1"
    using demo_seal_ready[OF ready _ b(1,2) c ty(1,2)] by fastforce
  obtain t2 where t2: "seal_in demo_door 9 (kernel_iri ?p) ?kb t1 = Inr t2"
    by (rule demo_seal_succeeds[OF t1(2) _ b(3,4) c ty(3)]) simp_all
  have "germ_graph demo_gov demo_mint x ?p ?p () = Inr ()" for x by (simp add: germ_graph_def demo_gov_def demo_mint_def)
  moreover have "law_forces_kernel_epoch demo_mint x = False" for x by (simp add: demo_mint_def)
  ultimately show ?thesis
    using seg own t1(1) t2 by (simp add: germinate_kernel_def demo_gov_simps or_reply_def Let_def coalesce_text_def json_get_obj)
qed

theorem germination_keeps_owner_witness:
  "\<exists>r t'. germinate_kernel demo_gov demo_mint 9 (Some (lit ''forge'')) None None (demo_gov_txn ''top'' JNull) = Inr (Some r, t') \<and>
     kernel_sealed demo_ckp (ckp (txn_db t')) (lit ''forge'')"
proof -
  obtain r t' where r: "germinate_kernel demo_gov demo_mint 9 (Some (lit ''forge'')) None None (demo_gov_txn ''top'' JNull) = Inr (Some r, t')" "reply_ok r"
    using demo_germinates by blast
  then show ?thesis using germination_keeps_owner[OF r, unfolded demo_gov_simps] by auto
qed

text \<open>A project with roles: Bob owns it and is its only member, and Alice may not vote there.\<close>

definition demo_law_proposal :: json where
  "demo_law_proposal = json_obj [(lit ''type'', JString (core ''Proposal'')), (lit ''@id'', JString (lit ''ckp://Proposal#q'')),
     (core ''about'', JString (lit ''urn:ckp:acme/kernel/ck'')), (core ''proposalState'', jlit ''pending'')]"

definition demo_member_row :: instance_row where
  "demo_member_row = \<lparr>i_id = lit ''m'', i_body = json_obj [(lit ''type'', JString (core ''Membership'')), (core ''memberOf'', JString (lit ''urn:ckp:project:acme'')),
     (core ''memberIs'', JString (lit ''urn:ckp:participant:bob''))], i_created = 3, i_updated = 3\<rparr>"

definition demo_roles_txn :: "unit door_db txn" where
  "demo_roles_txn = demo_door_txn\<lparr>txn_db := (txn_db demo_door_txn)\<lparr>ckp := (empty_store demo_ckp_config ())\<lparr>t_instances :=
     [demo_project_row, \<lparr>i_id = lit ''q'', i_body = demo_law_proposal, i_created = 2, i_updated = 2\<rparr>, demo_member_row]\<rparr>\<rparr>\<rparr>"

lemma demo_roles_eff: "eff demo_roles_txn = demo_session"
  using demo_door_eff by (simp add: eff_def demo_roles_txn_def demo_door_txn_def fun_eq_iff cong: option.case_cong)

lemma demo_roles_ready: "demo_ready 2 demo_roles_txn"
  unfolding demo_ready_def demo_roles_eff
  by (simp add: demo_like_def guc_nonempty_def nullif_empty_def demo_session_def demo_roles_txn_def demo_door_txn_def empty_store_def sealed_kernel_ids_def
      demo_project_row_def demo_law_proposal_def demo_member_row_def get_text_def json_get_obj text_of_def map_filter_simps)

lemma stamped_no_ok: "json_get (stamped E db i) (lit ''ok'') = None" "json_object_wf (stamped E db i)" "is_object (stamped E db i)"
  by (auto simp: stamped_def json_get_obj map_of_eq_None_iff lit_def split: option.splits)

lemma typed_reply_ok: "reply_ok (typed_reply D i ty ws rf t)"
proof -
  have "json_get (sealed_reply D i [(lit ''type'', JString ty)] t) (lit ''ok'') = Some (JBool True)"
    by (simp add: sealed_reply_def json_get_concat stamped_no_ok json_get_obj)
  moreover have "json_object_wf (sealed_reply D i [(lit ''type'', JString ty)] t)" "is_object (sealed_reply D i [(lit ''type'', JString ty)] t)"
    by (simp_all add: sealed_reply_def jsonb_concat_wf)
  ultimately show ?thesis by (simp add: typed_reply_def json_get_concat jsonb_concat_wf json_get_obj split: option.splits)
qed

lemma demo_typed_ballot:
  "\<exists>r t'. create_typed demo_gov demo_mint 9 4 (typed_ballot (lit ''ckp://Proposal#q'')) demo_roles_txn = Inr (Some r, t') \<and> reply_ok r"
proof -
  let ?a = "lit ''ckp://Proposal#q''" and ?t = demo_roles_txn and ?v = "core ''Vote''"
  let ?i = "typed_id demo_ckp 4 (core ''Vote'')"
  let ?b = "typed_body demo_door 9 (eff demo_roles_txn) [] (core ''Vote'') ?i (typed_ballot (lit ''ckp://Proposal#q''))"
  note b = typed_ballot_body[where about = ?a]
  have c: "58 \<in> set ?v" "?v \<noteq> core ''Membership''" "?v \<noteq> core ''Kernel''" "?v \<noteq> core ''Adoption''" by (simp_all add: core_def core_ns_def lit_def)
  have "body_text demo_ckp ?b (lit ''type'') = Some ?v" by (simp add: get_text_def text_of_def b(4))
  then obtain t' where t': "seal_in demo_door 9 ?i ?b ?t = Inr t'" "demo_ready (2 + 1) t'"
    using demo_seal_ready[OF demo_roles_ready _ b(3) _ c(1,2,3)] by fastforce
  have pr: "resolve_project demo_ckp (eff ?t) (ckp (txn_db ?t)) = Inr (Some (lit ''acme''))"
    using demo_roles_ready unfolding demo_ready_def demo_roles_eff by (intro demo_project) blast
  have "warn_out demo_ckp (eff t') None = Inr []" using t'(2) by (simp add: warn_out_def warnings_of_def demo_ready_def)
  moreover have "propmap demo_gov x y z = Inr []" for x y z by (simp add: demo_gov_def)
  ultimately have "create_inner demo_gov demo_mint 9 4 (Some (lit ''acme'')) (typed_ballot ?a) ?t = Inr (Some (typed_reply demo_door ?i ?v [] None t'), t')"
    using t'(1) c(4) by (simp add: create_inner_def demo_gov_simps or_reply_def b(1,2) Let_def)
  then show ?thesis using typed_reply_ok by (simp add: create_typed_def demo_gov_simps pr)
qed

theorem created_fact_reads_back_witness:
  "\<exists>r t' b. create_typed demo_gov demo_mint 9 4 (typed_ballot (lit ''ckp://Proposal#q'')) demo_roles_txn = Inr (Some r, t') \<and>
     find_instance (ckp (txn_db t')) (typed_id demo_ckp 4 (core ''Vote'')) = Some b"
proof -
  obtain r t' where r: "create_typed demo_gov demo_mint 9 4 (typed_ballot (lit ''ckp://Proposal#q'')) demo_roles_txn = Inr (Some r, t')" "reply_ok r"
    using demo_typed_ballot by blast
  obtain m where m: "typed_ballot (lit ''ckp://Proposal#q'') = JObject m" "btree_wf m" unfolding typed_ballot_def using json_obj_is_object by blast
  have "create_input (typed_ballot (lit ''ckp://Proposal#q'')) = JObject m" using m(1) typed_ballot_body(1) by metis
  from created_fact_reads_back[OF r this m(2), unfolded demo_gov_simps] r(1) show ?thesis
    by (auto simp: typed_ballot_body(2))
qed

theorem typed_vote_skips_gates_witness:
  "\<exists>r t'. create_typed demo_gov demo_mint 9 4 (typed_ballot (lit ''ckp://Proposal#q'')) demo_roles_txn = Inr (Some r, t') \<and>
     lit ''urn:ckp:participant:alice'' \<in> set (approvers demo_ckp (ckp (txn_db t')) (lit ''ckp://Proposal#q'')) \<and>
     (\<exists>j. role_gate demo_ckp (eff demo_roles_txn) (ckp (txn_db demo_roles_txn)) (Some (lit ''acme'')) ''vote'' = Inl j)"
proof -
  let ?db = "ckp (txn_db demo_roles_txn)" and ?a = "lit ''ckp://Proposal#q''" and ?alice = "lit ''urn:ckp:participant:alice''"
  obtain r t' where r: "create_typed demo_gov demo_mint 9 4 (typed_ballot ?a) demo_roles_txn = Inr (Some r, t')" "reply_ok r"
    using demo_typed_ballot by blast
  note rows = demo_roles_txn_def demo_door_txn_def empty_store_def demo_project_row_def demo_law_proposal_def demo_member_row_def
  have p: "find_proposal demo_ckp ?db ?a = Some \<lparr>i_id = lit ''q'', i_body = demo_law_proposal, i_created = 2, i_updated = 2\<rparr>"
    by (simp add: find_proposal_def rows of_type_def get_text_def json_get_obj text_of_def core_def core_ns_def lit_def)
  have st: "sealed_target demo_ckp demo_law_proposal = Some (lit ''acme'')"
    by (simp add: sealed_target_def target_project_def demo_law_proposal_def get_text_def json_get_obj text_of_def core_def core_ns_def
        urn_char_def ascii_lower_digit_def jlit_def starts_with_def lit_def)
  have me: "guc_trimmed (eff demo_roles_txn) ''ckp.requester'' = Some (lit ''Alice'')" using demo_requester by (simp add: demo_roles_eff)
  have al: "participant_urn demo_ckp (lit ''Alice'') = ?alice"
    by (simp add: participant_urn_def urn_def urn_normalise_def demo_ckp_def ascii_lower_def urn_char_def ascii_lower_digit_def btrim_def coalesce_text_def lit_def)
  have "\<not> role_permits demo_ckp ?db (lit ''acme'') ?alice ''vote''"
    by (simp add: role_permits_def project_owner_def latest_by_def project_iri_def rows of_type_def get_text_def json_get_obj text_of_def Let_def core_def core_ns_def jlit_def lit_def)
  then obtain j where j: "role_gate demo_ckp (eff demo_roles_txn) ?db (Some (lit ''acme'')) ''vote'' = Inl j"
    by (simp add: role_gate_def me al coalesce_text_def)
  have na: "\<not> starts_with (lit ''urn:ckp:participant:anon:'') ?alice" by (simp add: starts_with_def lit_def)
  have "?alice \<in> set (approvers demo_ckp (ckp (txn_db t')) ?a)"
    using typed_vote_skips_gates[OF r, unfolded demo_gov_simps, OF p, of j "lit ''Alice''"] st j me na al by simp
  with r(1) j show ?thesis by blast
qed

end
