(* ===== verification/Bgworker_Props.thy ===== *)
theory Bgworker_Props
  imports Bgworker Auth_Callout_Props Nats_Client_Props
begin

text \<open>
  Invariants of the background worker over every interleaving of its wake-ups with the
  relay thread, and the properties of a tick: the policy is current, the threads are
  started once and after the policy, and nothing touches the extension's tables before
  they exist.
\<close>

section \<open>What the drains leave alone\<close>

definition same_core :: "('vk, 'kp, 'db) worker \<Rightarrow> ('vk, 'kp, 'db) worker \<Rightarrow> bool" where
  "same_core w w' \<longleftrightarrow>
     w_gucs w' = w_gucs w \<and> w_client w' = w_client w \<and> w_initialised w' = w_initialised w \<and>
     w_threads w' = w_threads w \<and>
     (w_statics w' = w_statics w \<or> (\<exists>ks. w_statics w' = set_ledger_kernels ks (w_statics w))) \<and>
     (w_queue w' = w_queue w \<or> w_queue w' = snd (take_all (w_queue w)))"

named_theorems core_intros \<open>worker operations that keep the core\<close>

lemma set_ledger_twice: "set_ledger_kernels ks' (set_ledger_kernels ks st) = set_ledger_kernels ks' st"
  by (cases "LEDGER_KERNELS st") (simp_all add: set_ledger_kernels_def Let_def)

lemma take_all_twice: "snd (take_all (snd (take_all q))) = snd (take_all q)"
  by (cases q) (simp_all add: take_all_def)

lemma same_core_refl [simp]: "same_core w w"
  by (simp add: same_core_def)

lemma same_core_trans: "same_core w w' \<Longrightarrow> same_core w' w'' \<Longrightarrow> same_core w w''"
  unfolding same_core_def by (auto simp: set_ledger_twice take_all_twice)

lemma same_core_next:
  assumes "same_core w (fst r)" "\<And>w'. same_core w' (fst (f w'))"
  shows "same_core w (fst (and_next r f))"
  using assms by (cases r; cases "snd r") (auto intro: same_core_trans)

lemma same_core_ledger [core_intros]: "same_core w (fst (refresh_ledger_kernels P now w))"
  by (auto simp: refresh_ledger_kernels_def same_core_def Let_def split: spi_result.splits option.splits prod.splits)

lemma same_core_inbound [core_intros]: "same_core w (fst (run_inbound P w))"
  by (auto simp: run_inbound_def same_core_def drain_and_dispatch_def split: prod.splits)

lemma same_core_publish [core_intros]: "same_core w (fst (run_publish_drain P w))"
  by (auto simp: run_publish_drain_def same_core_def split: prod.splits)

lemma same_core_sql [core_intros]: "same_core w (fst (run_sql_drain f w))"
  by (auto simp: run_sql_drain_def same_core_def split: prod.splits)

lemma same_core_drains [core_intros]: "same_core w (fst (tick_drains P now w))"
  unfolding tick_drains_def by (intro same_core_next core_intros)

lemma same_core_ready [core_intros]: "same_core w (snd (pgck_ready P w))"
  by (auto simp: pgck_ready_def same_core_def Let_def split: spi_result.splits prod.splits)

lemma tick_core: "same_core (init_clients_once L (refresh_policy w)) (fst (tick P L now w))"
proof -
  let ?w = "init_clients_once L (refresh_policy w)"
  obtain r w1 where r: "pgck_ready P ?w = (r, w1)" by fastforce
  then have "same_core ?w w1" using same_core_ready[of ?w P] by simp
  then show ?thesis
    using same_core_trans[OF _ same_core_drains[of w1 P now]] r
    by (cases r) (auto simp: tick_def Let_def split: bool.splits)
qed

section \<open>Starting the threads\<close>

definition started :: "('vk, 'kp, 'db) worker \<Rightarrow> bool" where
  "started w \<longleftrightarrow> (\<exists>url ctx js. w_threads w = [Relay_Thread url ctx, Client_Thread url js] \<and>
     (\<forall>c. ctx = Some c \<longrightarrow> OIDC_CFG (w_statics w) = Some (ctx_auth c))) \<and>
     OIDC_CFG (w_statics w) \<noteq> None \<and> (\<exists>p. CALLOUT_POLICY (w_statics w) = Healthy (Some p))"

definition worker_inv :: "('vk, 'kp, 'db) worker \<Rightarrow> bool" where
  "worker_inv w \<longleftrightarrow>
     policy_ok (w_statics w) \<and> healthy (CALLOUT_POLICY (w_statics w)) \<and> healthy (LEDGER_KERNELS (w_statics w)) \<and>
     (\<exists>q. w_queue w = Healthy q \<and> length q \<le> MAX_QUEUE) \<and>
     (if w_initialised w = None
      then w_threads w = [] \<and> w_client w = client_statics_init \<and> OIDC_CFG (w_statics w) = None
      else started w)"

lemma started_cong:
  assumes "started w" "w_threads w' = w_threads w" "OIDC_CFG (w_statics w') = OIDC_CFG (w_statics w)"
    "\<exists>p. CALLOUT_POLICY (w_statics w') = Healthy (Some p)"
  shows "started w'"
  using assms by (simp add: started_def)

lemma started_updates [simp]:
  "started (w\<lparr>w_gucs := g\<rparr>) = started w" "started (w\<lparr>w_queue := q\<rparr>) = started w"
  by (simp_all add: started_def)

lemma started_cache: "started w \<Longrightarrow> \<exists>p. CALLOUT_POLICY (w_statics w) = Healthy (Some p)"
  by (simp add: started_def)

lemma statics_frames [simp]:
  "CALLOUT_POLICY (set_ledger_kernels ks st) = CALLOUT_POLICY st"
  "OIDC_CFG (set_ledger_kernels ks st) = OIDC_CFG st"
  "OIDC_CFG (refresh_callout_policy g st) = OIDC_CFG st"
  "CALLOUT_POLICY (snd (oidc_auth_config L g st)) = CALLOUT_POLICY st"
  "LEDGER_KERNELS (snd (oidc_auth_config L g st)) = LEDGER_KERNELS st"
  "healthy (LEDGER_KERNELS (set_ledger_kernels ks st)) = healthy (LEDGER_KERNELS st)"
  "healthy (CALLOUT_POLICY (refresh_callout_policy g st)) = healthy (CALLOUT_POLICY st)"
  by (simp_all add: set_ledger_kernels_def refresh_callout_policy_def oidc_auth_config_def Let_def split: prod.splits)

lemma refresh_fills_cache:
  "healthy (CALLOUT_POLICY st) \<Longrightarrow> \<exists>p. CALLOUT_POLICY (refresh_callout_policy g st) = Healthy (Some p)"
  by (cases "CALLOUT_POLICY st") (simp_all add: refresh_callout_policy_def Let_def)

lemma worker_inv_start [inv_intros]: "worker_inv (worker_start g db)"
  by (simp add: worker_inv_def worker_start_def policy_ok_init statics_init_def queue_init_def client_statics_init_def)
    (use policy_ok_init in \<open>simp add: statics_init_def\<close>)

lemma worker_inv_core:
  assumes "worker_inv w" "same_core w w'"
  shows "worker_inv w'"
proof -
  have "policy_ok (w_statics w')" using assms by (auto simp: worker_inv_def same_core_def inv_intros)
  moreover have "CALLOUT_POLICY (w_statics w') = CALLOUT_POLICY (w_statics w)"
    "OIDC_CFG (w_statics w') = OIDC_CFG (w_statics w)"
    "healthy (LEDGER_KERNELS (w_statics w')) = healthy (LEDGER_KERNELS (w_statics w))"
    using assms(2) by (auto simp: same_core_def)
  moreover have "\<exists>q. w_queue w' = Healthy q \<and> length q \<le> MAX_QUEUE"
    using assms by (auto simp: worker_inv_def same_core_def take_all_def)
  moreover have "started w' \<longleftrightarrow> started w"
    using calculation(2,3) assms(2) by (simp add: started_def same_core_def)
  ultimately show ?thesis using assms by (simp add: worker_inv_def same_core_def)
qed

lemma worker_inv_refresh [inv_intros]:
  assumes "worker_inv w"
  shows "worker_inv (refresh_policy w)"
proof -
  have h: "healthy (CALLOUT_POLICY (w_statics w))" using assms by (simp add: worker_inv_def)
  have "started w \<Longrightarrow> started (refresh_policy w)"
    by (rule started_cong) (use refresh_fills_cache[OF h, of "w_gucs w"] in \<open>simp_all add: refresh_policy_def\<close>)
  with assms show ?thesis by (simp add: worker_inv_def refresh_policy_def inv_intros)
qed

lemma init_threads:
  "init_relay url c client_statics_init = (\<lparr>CLIENT = None, RELAY_STARTED = Some ()\<rparr>, [Relay_Thread url c])"
  "init url js \<lparr>CLIENT = None, RELAY_STARTED = r\<rparr> =
     (\<lparr>CLIENT = Some (sync_channel_new CLIENT_BOUND), RELAY_STARTED = r\<rparr>, [Client_Thread url js])"
  by (simp_all add: init_relay_def init_def client_statics_init_def once_get_def once_set_def)

lemma init_clients_fresh:
  assumes "w_client w = client_statics_init" "w_threads w = []"
  shows "\<exists>st ctx. snd (oidc_auth_config L (w_gucs w) (w_statics w)) = st \<and>
    w_statics (snd (init_clients L w)) = st \<and>
    w_threads (snd (init_clients L w)) =
      [Relay_Thread (nats_url (w_gucs w)) ctx, Client_Thread (nats_url (w_gucs w)) (nats_js_stream (w_gucs w))] \<and>
    (\<forall>c. ctx = Some c \<longrightarrow> ctx_auth c = fst (oidc_auth_config L (w_gucs w) (w_statics w))) \<and>
    w_gucs (snd (init_clients L w)) = w_gucs w \<and> w_queue (snd (init_clients L w)) = w_queue w"
  using assms by (cases "oidc_auth_config L (w_gucs w) (w_statics w)") (auto simp: init_clients_def init_threads Let_def)

lemma init_once_latched: "w_initialised w \<noteq> None \<Longrightarrow> init_clients_once L w = w"
  by (auto simp: init_clients_once_def once_get_or_init_def)

lemma init_once_fresh:
  "w_initialised w = None \<Longrightarrow> init_clients_once L w = (snd (init_clients L w))\<lparr>w_initialised := Some ()\<rparr>"
  by (simp add: init_clients_once_def once_get_or_init_def split: prod.splits)

lemma worker_inv_init_once:
  assumes "worker_inv w" "\<exists>p. CALLOUT_POLICY (w_statics w) = Healthy (Some p)"
  shows "worker_inv (init_clients_once L w)" "started (init_clients_once L w)"
proof -
  have "worker_inv (init_clients_once L w) \<and> started (init_clients_once L w)"
  proof (cases "w_initialised w = None")
    case True
    with assms(1) have fresh: "w_client w = client_statics_init" "w_threads w = []"
      and none: "OIDC_CFG (w_statics w) = None" by (simp_all add: worker_inv_def)
    note i = init_clients_fresh[OF fresh, of L] init_once_fresh[OF True, of L]
    note o = oidc_auth_config_first[OF none, of L "w_gucs w"]
    from i o assms have "started (init_clients_once L w)"
      by (auto simp: started_def split: option.splits)
    moreover from this i assms have "worker_inv (init_clients_once L w)"
      by (auto simp: worker_inv_def inv_intros)
    ultimately show ?thesis by blast
  next
    case False
    then show ?thesis using assms(1) by (auto simp: init_once_latched worker_inv_def)
  qed
  then show "worker_inv (init_clients_once L w)" "started (init_clients_once L w)" by auto
qed

lemma started_core: "started w \<Longrightarrow> same_core w w' \<Longrightarrow> started w'"
  by (auto simp: started_def same_core_def)

lemma initialised_init_once: "w_initialised (init_clients_once L w) \<noteq> None"
  by (auto simp: init_clients_once_def once_get_or_init_def split: option.splits prod.splits)

lemma worker_inv_tick:
  assumes "worker_inv w"
  shows "worker_inv (fst (tick P L now w))" "started (fst (tick P L now w))"
proof -
  have r: "worker_inv (refresh_policy w)" using assms by (rule worker_inv_refresh)
  have "\<exists>p. CALLOUT_POLICY (w_statics (refresh_policy w)) = Healthy (Some p)"
    unfolding refresh_policy_def by (simp, intro refresh_fills_cache[simplified]) (use assms in \<open>simp add: worker_inv_def\<close>)
  note i = worker_inv_init_once[OF r this, of L]
  show "worker_inv (fst (tick P L now w))" by (rule worker_inv_core[OF i(1) tick_core])
  show "started (fst (tick P L now w))" by (rule started_core[OF i(2) tick_core])
qed

lemma worker_inv_reload: "worker_inv w \<Longrightarrow> worker_inv (w\<lparr>w_gucs := g\<rparr>)"
  by (simp add: worker_inv_def)

lemma worker_inv_wake: "worker_inv w \<Longrightarrow> worker_inv (fst (wake P L ev w))"
  by (auto simp: wake_def worker_inv_tick worker_inv_reload split: prod.splits option.splits)

lemma enqueue_bounded:
  "length q \<le> MAX_QUEUE \<Longrightarrow> \<exists>q'. enqueue a (Healthy q) = Healthy q' \<and> length q' \<le> MAX_QUEUE"
  using inq.push_bounded[of q a] by (simp add: enqueue_def)

lemma relay_bounded:
  "length q \<le> MAX_QUEUE \<Longrightarrow> \<exists>q'. relay_message N msg (Healthy q) = Healthy q' \<and> length q' \<le> MAX_QUEUE"
  by (auto simp: relay_message_def enqueue_bounded split: option.splits)

lemma worker_inv_relay: "worker_inv w \<Longrightarrow> worker_inv (w\<lparr>w_queue := relay_message N msg (w_queue w)\<rparr>)"
  using relay_bounded by (auto simp: worker_inv_def)

lemma worker_inv_step [inv_intros]: "bridge_step P L N w w' \<Longrightarrow> worker_inv w \<Longrightarrow> worker_inv w'"
proof (induction rule: bridge_step.induct)
  case (bridge_wake ev w w' p)
  then show ?case using worker_inv_wake[of w P L ev] by simp
next
  case (bridge_relay url ctx w msg)
  then show ?case by (intro worker_inv_relay)
qed

lemma worker_inv_reachable: "bridge_reachable P L N g db w \<Longrightarrow> worker_inv w"
  unfolding bridge_reachable_def by (induction rule: rtranclp_induct) (simp_all add: inv_intros)

section \<open>The policy after a tick\<close>

lemma callout_policy_core:
  "same_core w w' \<Longrightarrow> callout_policy (w_statics w') = callout_policy (w_statics w)"
  by (auto simp: same_core_def set_ledger_kernels_def Let_def)

lemma callout_policy_oidc [simp]: "callout_policy (snd (oidc_auth_config L g st)) = callout_policy st"
  by (simp add: oidc_auth_config_def Let_def split: prod.splits)

lemma callout_policy_init_once: "callout_policy (w_statics (init_clients_once L w)) = callout_policy (w_statics w)"
proof (cases "w_initialised w = None")
  case True
  obtain auth st where o: "oidc_auth_config L (w_gucs w) (w_statics w) = (auth, st)" by fastforce
  then have "callout_policy st = callout_policy (w_statics w)" using callout_policy_oidc[of L "w_gucs w" "w_statics w"] by simp
  then show ?thesis by (simp add: init_once_fresh[OF True] init_clients_def o Let_def split: prod.splits)
qed (simp add: init_once_latched)

lemma tick_policy:
  assumes "worker_inv w"
  shows "callout_policy (w_statics (fst (tick P L now w))) =
    (admit_anonymous (w_gucs w), push_new (configured_kernels (w_gucs w))
       (case lock_read (LEDGER_KERNELS (w_statics w)) of None \<Rightarrow> [] | Some l \<Rightarrow> l))"
proof -
  have "healthy (CALLOUT_POLICY (w_statics w))" using assms by (simp add: worker_inv_def)
  then show ?thesis
    by (simp add: callout_policy_core[OF tick_core] callout_policy_init_once refresh_policy_def refresh_callout_policy_value)
qed

lemma tick_gucs: "w_gucs (fst (tick P L now w)) = w_gucs w"
proof -
  have "w_gucs (init_clients_once L (refresh_policy w)) = w_gucs w"
    by (auto simp: init_clients_once_def once_get_or_init_def init_clients_def refresh_policy_def Let_def
        split: option.splits prod.splits)
  then show ?thesis using tick_core[of L w P now] by (simp add: same_core_def)
qed

section \<open>The ledger's kernels after a tick\<close>

text \<open>What one refresh makes of the cached kernels of the ledger.\<close>

definition ledger_after :: "'db pg \<Rightarrow> nat \<Rightarrow> ('vk, 'kp, 'db) worker \<Rightarrow> str list \<Rightarrow> str list" where
  "ledger_after P now w ledger =
     (case fst (transaction (spi_get_one P cell_text Ledger_Kernels) (w_db w)) of
        Spi_Ok (Some csv) \<Rightarrow> if ledger_due now w then filter kernel_name_ok (map trim (split_on comma csv)) else ledger
      | _ \<Rightarrow> ledger)"

lemma ledger_after_cong:
  assumes "w_db v = w_db w" "w_ledger_last v = w_ledger_last w"
  shows "ledger_after P now v l = ledger_after P now w l"
  unfolding ledger_after_def ledger_due_def assms ..

lemma field_next: "(\<And>w. F (fst (f w)) = F w) \<Longrightarrow> F (fst (and_next r f)) = F (fst r)"
  by (cases r; cases "snd r") auto

lemma drains_fields:
  "w_statics (fst (run_inbound P w)) = w_statics w" "w_statics (fst (run_publish_drain P w)) = w_statics w"
  "w_statics (fst (run_sql_drain f w)) = w_statics w"
  "w_ready (fst (run_inbound P w)) = w_ready w" "w_ready (fst (run_publish_drain P w)) = w_ready w" "w_ready (fst (run_sql_drain f w)) = w_ready w"
  "w_ledger_last (fst (run_inbound P w)) = w_ledger_last w" "w_ledger_last (fst (run_publish_drain P w)) = w_ledger_last w"
  "w_ledger_last (fst (run_sql_drain f w)) = w_ledger_last w"
  by (simp_all add: run_inbound_def run_publish_drain_def run_sql_drain_def split: prod.splits)

lemma tick_drains_fields:
  "w_statics (fst (tick_drains P now w)) = w_statics (fst (refresh_ledger_kernels P now w))"
  "w_ready (fst (tick_drains P now w)) = w_ready (fst (refresh_ledger_kernels P now w))"
  "w_ledger_last (fst (tick_drains P now w)) = w_ledger_last (fst (refresh_ledger_kernels P now w))"
  unfolding tick_drains_def
  by (simp_all add: field_next[of w_statics] field_next[of w_ready] field_next[of w_ledger_last] drains_fields)

lemma refresh_ledger_after:
  assumes "LEDGER_KERNELS (w_statics w) = Healthy ledger"
  shows "LEDGER_KERNELS (w_statics (fst (refresh_ledger_kernels P now w))) = Healthy (ledger_after P now w ledger)"
  using assms
  by (auto simp: refresh_ledger_kernels_def ledger_after_def set_ledger_kernels_def Let_def split: spi_result.splits option.splits prod.splits)

lemma init_once_frame:
  "w_db (init_clients_once L w) = w_db w" "w_ready (init_clients_once L w) = w_ready w"
  "w_ledger_last (init_clients_once L w) = w_ledger_last w"
  "LEDGER_KERNELS (w_statics (init_clients_once L w)) = LEDGER_KERNELS (w_statics w)"
  by (auto simp: init_clients_once_def once_get_or_init_def init_clients_def oidc_auth_config_def Let_def split: option.splits prod.splits)

lemma tick_ledger:
  assumes "w_ready w \<noteq> None" "LEDGER_KERNELS (w_statics w) = Healthy ledger"
  shows "LEDGER_KERNELS (w_statics (fst (tick P L now w))) = Healthy (ledger_after P now w ledger)"
proof -
  let ?w = "init_clients_once L (refresh_policy w)"
  have f: "w_db ?w = w_db w" "w_ready ?w = w_ready w" "w_ledger_last ?w = w_ledger_last w"
    "LEDGER_KERNELS (w_statics ?w) = Healthy ledger"
    using assms(2) by (simp_all add: init_once_frame refresh_policy_def refresh_callout_policy_def Let_def)
  then have "tick P L now w = tick_drains P now ?w" using assms(1) by (simp add: tick_def pgck_ready_def once_get_def Let_def)
  moreover have "ledger_after P now ?w ledger = ledger_after P now w ledger" by (rule ledger_after_cong) (simp_all add: f)
  ultimately show ?thesis using refresh_ledger_after[OF f(4), of P now] by (simp add: tick_drains_fields)
qed

section \<open>Survival\<close>

text \<open>Operations that do not panic when no statement raises.\<close>

definition never_raises :: "'db pg \<Rightarrow> bool" where
  "never_raises P \<longleftrightarrow> (\<forall>stmt t e t'. pg_exec P stmt t \<noteq> (Spi_Raise e, t'))"

lemma row_get_no_raise: "row_get conv row i \<noteq> Spi_Raise e"
  by (auto simp: row_get_def split: spi_cell.splits option.splits)

lemma last_row_no_raise: "last_row conv f acc rows \<noteq> Spi_Raise e"
  by (induction conv f acc rows rule: last_row.induct) (auto simp: row_get_no_raise split: spi_result.splits)

lemma read_rows_no_raise: "read_rows out rows \<noteq> Spi_Raise e"
  by (induction out rows rule: read_rows.induct)
    (auto simp: read_row_def row_get_no_raise split: spi_result.splits option.splits)

lemma spi_then_no_raise:
  "fst r \<noteq> Spi_Raise e \<Longrightarrow> (\<And>a t. fst (f a t) \<noteq> Spi_Raise e) \<Longrightarrow> fst (spi_then r f) \<noteq> Spi_Raise e"
  by (cases r; cases "fst r") auto

lemma transaction_no_raise: "(\<And>t. fst (body t) \<noteq> Spi_Raise e) \<Longrightarrow> fst (transaction body db) \<noteq> Spi_Raise e"
  by (auto simp: transaction_def split: prod.splits spi_result.splits) (metis fst_conv)

lemma exec_no_raise: "never_raises P \<Longrightarrow> fst (pg_exec P stmt t) \<noteq> Spi_Raise e"
  by (metis never_raises_def prod.collapse)

lemmas no_raise = spi_then_no_raise transaction_no_raise exec_no_raise last_row_no_raise read_rows_no_raise

lemma get_one_no_raise: "never_raises P \<Longrightarrow> fst (spi_get_one P conv stmt t) \<noteq> Spi_Raise e"
  unfolding spi_get_one_def by (intro no_raise) (auto simp: row_get_no_raise split: list.splits)

lemma dispatch_txn_no_raise: "never_raises P \<Longrightarrow> fst (dispatch_txn P a t) \<noteq> Spi_Raise e"
  unfolding dispatch_txn_def
  by (intro spi_then_no_raise) (auto simp: exec_no_raise last_row_no_raise split: option.splits)

lemma dispatch_loop_survives: "never_raises P \<Longrightarrow> snd (snd (dispatch_loop P actions db)) = None"
proof (induction actions arbitrary: db)
  case (Cons a actions)
  have "fst (transaction (dispatch_txn P a) db) \<noteq> Spi_Raise e" for e
    by (intro transaction_no_raise dispatch_txn_no_raise Cons.prems)
  then have "\<exists>r db'. dispatch_one P a db = (Returns r, db')"
    by (cases "transaction (dispatch_txn P a) db"; cases "fst (transaction (dispatch_txn P a) db)")
      (auto simp: dispatch_one_def split: option.splits)
  then obtain r db' where "dispatch_one P a db = (Returns r, db')" by blast
  with Cons show ?case by (simp add: split_beta)
qed simp

lemma run_inbound_survives: "never_raises P \<Longrightarrow> snd (run_inbound P w) = None"
  using dispatch_loop_survives[of P "fst (take_all (w_queue w))" "w_db w"]
  by (simp add: run_inbound_def drain_and_dispatch_def split_beta)

lemma run_publish_survives: "never_raises P \<Longrightarrow> snd (run_publish_drain P w) = None"
proof -
  assume P: "never_raises P"
  have "fst (transaction (drain_txn P) (w_db w)) \<noteq> Spi_Raise e" for e
    unfolding drain_txn_def by (intro transaction_no_raise spi_then_no_raise exec_no_raise P) (simp add: read_rows_no_raise)
  then show ?thesis
    by (cases "transaction (drain_txn P) (w_db w)"; cases "fst (transaction (drain_txn P) (w_db w))")
      (auto simp: run_publish_drain_def publish_drain_once_def)
qed

lemma last_row_txn_no_raise:
  "never_raises P \<Longrightarrow>
     fst (transaction (\<lambda>t. spi_then (pg_exec P s t) (\<lambda>table t'. (last_row conv f acc table, t'))) db) \<noteq> Spi_Raise e"
  by (intro transaction_no_raise spi_then_no_raise exec_no_raise) (simp_all add: last_row_no_raise)

lemma sql_drains_survive:
  assumes "never_raises P"
  shows "snd (run_sql_drain (materialize_drain_once P) w) = None" "snd (run_sql_drain (orbit_drain_once P) w) = None"
proof -
  show "snd (run_sql_drain (materialize_drain_once P) w) = None"
    using last_row_txn_no_raise[OF assms, of Materialize_Drain cell_int4 "\<lambda>v. case v of None \<Rightarrow> 0 | Some n \<Rightarrow> n" 0 "w_db w"]
    by (auto simp: run_sql_drain_def materialize_drain_once_def split: prod.splits spi_result.splits) blast
  show "snd (run_sql_drain (orbit_drain_once P) w) = None"
    using last_row_txn_no_raise[OF assms, of Orbit_Tick cell_int8 "\<lambda>v. case v of None \<Rightarrow> 0 | Some n \<Rightarrow> n" 0 "w_db w"]
    by (auto simp: run_sql_drain_def orbit_drain_once_def split: prod.splits spi_result.splits) blast
qed

lemma refresh_ledger_survives: "never_raises P \<Longrightarrow> snd (refresh_ledger_kernels P now w) = None"
proof -
  assume P: "never_raises P"
  have "fst (transaction (spi_get_one P cell_text Ledger_Kernels) db) \<noteq> Spi_Raise e" for db e
    by (intro transaction_no_raise get_one_no_raise P)
  then show ?thesis
    by (auto simp: refresh_ledger_kernels_def Let_def split: prod.splits spi_result.splits option.splits) (metis fst_conv)+
qed

lemma and_next_survives: "snd r = None \<Longrightarrow> (\<And>w. snd (f w) = None) \<Longrightarrow> snd (and_next r f) = None"
  by (cases r) simp

lemma tick_drains_survives: "never_raises P \<Longrightarrow> snd (tick_drains P now w) = None"
  unfolding tick_drains_def
  by (intro and_next_survives refresh_ledger_survives run_inbound_survives run_publish_survives sql_drains_survive)

lemma tick_survives: "never_raises P \<Longrightarrow> snd (tick P L now w) = None"
proof -
  assume P: "never_raises P"
  have "fst (transaction (spi_get_one P cell_bool Outbox_Exists) db) \<noteq> Spi_Raise e" for db e
    by (intro transaction_no_raise get_one_no_raise P)
  then have ready: "fst (pgck_ready P (init_clients_once L (refresh_policy w))) \<noteq> Panics e" for e
    by (auto simp: pgck_ready_def Let_def split: prod.splits spi_result.splits) (metis fst_conv)
  show ?thesis
    using ready tick_drains_survives[OF P]
    by (auto simp: tick_def Let_def split: prod.splits outcome.splits bool.splits) (metis fst_conv)
qed

text \<open>A database without the extension, and a worker on it.\<close>

definition demo_bare_pg :: "unit pg" where
  "demo_bare_pg = \<lparr>pg_exec = (\<lambda>stmt t. (Spi_Ok [[Cell_Bool False]], t))\<rparr>"

definition demo_worker :: "(nat, str, unit) worker" where
  "demo_worker = worker_start guc_defaults ()"

lemma demo_reachable: "bridge_reachable demo_bare_pg demo_crates demo_nats guc_defaults () demo_worker"
  by (simp add: bridge_reachable_def demo_worker_def)

lemma demo_woken:
  "bridge_reachable demo_bare_pg demo_crates demo_nats guc_defaults () (fst (wake demo_bare_pg demo_crates ev demo_worker))"
  unfolding bridge_reachable_def demo_worker_def[symmetric]
  by (rule r_into_rtranclp, rule bridge_wake, rule prod.collapse[symmetric])

section \<open>Properties\<close>

text \<open>C29: a tick makes the policy current. Whatever happened before, after a wake-up of
  the worker the responder reads the switch and the kernels of the settings now in force
  (as the reload has just left them if SIGHUP came with this wake-up), united with the kernels of the ledger that were cached
  before it. Once the extension is there, the wake-up itself replaces that cache by the filtered answer of \<^verbatim>\<open>_ledger_kernels()\<close>
  when five seconds have passed and there is an answer, and the next wake-up grants exactly those.\<close>

theorem tick_makes_policy_current:
  assumes "bridge_reachable P L N g db w" "wake P L (sighup, now) w = (w', p)"
  shows "\<exists>ledger ledger'. LEDGER_KERNELS (w_statics w) = Healthy ledger \<and> LEDGER_KERNELS (w_statics w') = Healthy ledger' \<and>
    w_gucs w' = reloaded sighup (w_gucs w) \<and>
    callout_policy (w_statics w') = (admit_anonymous (w_gucs w'), push_new (configured_kernels (w_gucs w')) ledger) \<and>
    (w_ready w \<noteq> None \<longrightarrow> ledger' = ledger_after P now w ledger) \<and>
    (\<forall>sighup2 now2 w2 p2. wake P L (sighup2, now2) w' = (w2, p2) \<longrightarrow> w_gucs w2 = reloaded sighup2 (w_gucs w') \<and>
       callout_policy (w_statics w2) = (admit_anonymous (w_gucs w2), push_new (configured_kernels (w_gucs w2)) ledger'))"
proof -
  have one: "w_gucs w2 = reloaded ev (w_gucs v) \<and>
      callout_policy (w_statics w2) = (admit_anonymous (w_gucs w2), push_new (configured_kernels (w_gucs w2)) l)"
    if "worker_inv v" "LEDGER_KERNELS (w_statics v) = Healthy l" "wake P L (ev, n) v = (w2, q)" for v l ev n w2 q
    using that tick_policy[OF worker_inv_reload[OF that(1)], of P L n "reloaded ev (w_gucs v)"]
      tick_gucs[of P L n "v\<lparr>w_gucs := reloaded ev (w_gucs v)\<rparr>"] by (simp add: wake_def)
  note inv = worker_inv_reachable[OF assms(1)]
  have inv': "worker_inv w'" using worker_inv_wake[OF inv, of P L "(sighup, now)"] assms(2) by simp
  obtain ledger ledger' where l: "LEDGER_KERNELS (w_statics w) = Healthy ledger" "LEDGER_KERNELS (w_statics w') = Healthy ledger'"
    using inv inv' by (cases "LEDGER_KERNELS (w_statics w)"; cases "LEDGER_KERNELS (w_statics w')") (auto simp: worker_inv_def)
  let ?v = "w\<lparr>w_gucs := reloaded sighup (w_gucs w)\<rparr>"
  have "ledger_after P now ?v ledger = ledger_after P now w ledger" by (rule ledger_after_cong) simp_all
  then have "ledger' = ledger_after P now w ledger" if "w_ready w \<noteq> None"
    using tick_ledger[of ?v ledger P L now] that l assms(2) by (simp add: wake_def)
  with one[OF inv l(1) assms(2)] one[OF inv' l(2)] l show ?thesis by blast
qed

text \<open>A database with the extension in it and one sealed kernel.\<close>

definition demo_roster_pg :: "unit pg" where
  "demo_roster_pg = \<lparr>pg_exec = (\<lambda>stmt t. (Spi_Ok (case stmt of Outbox_Exists \<Rightarrow> [[Cell_Bool True]] | Ledger_Kernels \<Rightarrow> [[Cell_Text (lit ''acme'')]] | _ \<Rightarrow> []), t))\<rparr>"

lemma demo_roster:
  "transaction (spi_get_one demo_roster_pg cell_bool Outbox_Exists) d = (Spi_Ok (Some True), d)"
  "transaction (spi_get_one demo_roster_pg cell_text Ledger_Kernels) d = (Spi_Ok (Some (lit ''acme'')), d)"
  by (simp_all add: transaction_def spi_get_one_def row_get_def demo_roster_pg_def)

lemma demo_first_tick:
  assumes "wake demo_roster_pg demo_crates (None, 0) demo_worker = (w1, p)"
  shows "w_ready w1 \<noteq> None" "w_ledger_last w1 = Healthy (Some 0)"
proof -
  let ?w = "init_clients_once demo_crates (refresh_policy demo_worker)"
  have f: "w_db ?w = ()" "w_ready ?w = None" "w_ledger_last ?w = Healthy None"
    by (simp_all add: init_once_frame refresh_policy_def demo_worker_def worker_start_def)
  have "wake demo_roster_pg demo_crates (None, 0) demo_worker = tick_drains demo_roster_pg 0 (?w\<lparr>w_db := (), w_ready := Some ()\<rparr>)"
    by (simp add: wake_def reloaded_def tick_def pgck_ready_def f once_get_def once_set_def demo_roster Let_def)
  with assms have "w1 = fst (tick_drains demo_roster_pg 0 (?w\<lparr>w_db := (), w_ready := Some ()\<rparr>))" by (metis fst_conv)
  then show "w_ready w1 \<noteq> None" "w_ledger_last w1 = Healthy (Some 0)"
    by (simp_all add: tick_drains_fields refresh_ledger_kernels_def ledger_due_def f demo_roster Let_def)
qed

theorem tick_makes_policy_current_witness:
  "\<exists>w1 w2 w3 p1 p2 p3. wake demo_roster_pg demo_crates (None, 0) demo_worker = (w1, p1) \<and>
     wake demo_roster_pg demo_crates (Some (\<lambda>g. g\<lparr>guc_admit_anonymous := False\<rparr>), 6000) w1 = (w2, p2) \<and> fst (callout_policy (w_statics w2)) = False \<and>
     wake demo_roster_pg demo_crates (None, 6100) w2 = (w3, p3) \<and> lit ''acme'' \<in> set (snd (callout_policy (w_statics w3)))"
proof -
  obtain w1 p1 w2 p2 w3 p3 where w: "wake demo_roster_pg demo_crates (None, 0) demo_worker = (w1, p1)"
    "wake demo_roster_pg demo_crates (Some (\<lambda>g. g\<lparr>guc_admit_anonymous := False\<rparr>), 6000) w1 = (w2, p2)"
    "wake demo_roster_pg demo_crates (None, 6100) w2 = (w3, p3)" by (metis surj_pair)
  have r: "bridge_reachable demo_roster_pg demo_crates demo_nats guc_defaults () w1"
    unfolding bridge_reachable_def demo_worker_def[symmetric] by (rule r_into_rtranclp, rule bridge_wake, rule w(1))
  note f = demo_first_tick[OF w(1)]
  have "split_on comma (lit ''acme'') = [lit ''acme'']" "trim (lit ''acme'') = lit ''acme''" "kernel_name_ok (lit ''acme'')"
    by (simp_all add: split_on_clean kernel_name_ok_def lit_def trim_def trim_start_def trim_end_def is_whitespace_def)
  then have "ledger_after demo_roster_pg 6000 w1 l = [lit ''acme'']" for l
    by (simp add: ledger_after_def ledger_due_def f demo_roster LEDGER_REFRESH_EVERY_def)
  with tick_makes_policy_current[OF r w(2)] f(1) obtain ledger where
    l: "w_gucs w2 = reloaded (Some (\<lambda>g. g\<lparr>guc_admit_anonymous := False\<rparr>)) (w_gucs w1)"
      "callout_policy (w_statics w2) = (admit_anonymous (w_gucs w2), push_new (configured_kernels (w_gucs w2)) ledger)"
      "\<forall>sighup2 now2 w2' p2'. wake demo_roster_pg demo_crates (sighup2, now2) w2 = (w2', p2') \<longrightarrow> w_gucs w2' = reloaded sighup2 (w_gucs w2) \<and>
         callout_policy (w_statics w2') = (admit_anonymous (w_gucs w2'), push_new (configured_kernels (w_gucs w2')) [lit ''acme''])" by metis
  from l(3)[rule_format, OF w(3)] l(1,2)
  have c: "w_gucs w2 = reloaded (Some (\<lambda>g. g\<lparr>guc_admit_anonymous := False\<rparr>)) (w_gucs w1)"
    "fst (callout_policy (w_statics w2)) = admit_anonymous (w_gucs w2)"
    "snd (callout_policy (w_statics w3)) = push_new (configured_kernels (w_gucs w3)) [lit ''acme'']" by (simp_all del: push_new.simps)
  then have "fst (callout_policy (w_statics w2)) = False" by (simp add: reloaded_def admit_anonymous_def)
  with w c(3) show ?thesis by (auto simp: set_push_new)
qed

text \<open>The threads start once, and not before the policy. In every reachable state of
  worker and relay either no thread was started, or exactly the relay and then the client
  thread were, with the policy cache filled and the realm configuration latched that the
  responder was given; and no later step starts another one.\<close>

theorem threads_start_once_after_policy:
  assumes "bridge_reachable P L N g db w"
  shows "(w_threads w = [] \<or>
      (\<exists>url ctx js. w_threads w = [Relay_Thread url ctx, Client_Thread url js] \<and>
         (\<forall>c. ctx = Some c \<longrightarrow> OIDC_CFG (w_statics w) = Some (ctx_auth c)) \<and>
         (\<exists>policy. CALLOUT_POLICY (w_statics w) = Healthy (Some policy)))) \<and>
    (\<forall>w'. bridge_step P L N w w' \<longrightarrow> w_threads w \<noteq> [] \<longrightarrow> w_threads w' = w_threads w)"
proof (intro conjI allI impI)
  note inv = worker_inv_reachable[OF assms]
  then show "w_threads w = [] \<or> (\<exists>url ctx js. w_threads w = [Relay_Thread url ctx, Client_Thread url js] \<and>
         (\<forall>c. ctx = Some c \<longrightarrow> OIDC_CFG (w_statics w) = Some (ctx_auth c)) \<and>
         (\<exists>policy. CALLOUT_POLICY (w_statics w) = Healthy (Some policy)))"
    by (auto simp: worker_inv_def started_def split: if_splits)
  fix w' assume step: "bridge_step P L N w w'" and ne: "w_threads w \<noteq> []"
  with inv have i: "w_initialised w \<noteq> None" by (auto simp: worker_inv_def split: if_splits)
  from step show "w_threads w' = w_threads w"
  proof (cases rule: bridge_step.cases)
    case (bridge_wake ev p)
    obtain sighup now where ev: "ev = (sighup, now)" by fastforce
    define w1 where "w1 = w\<lparr>w_gucs := reloaded sighup (w_gucs w)\<rparr>"
    have t: "tick P L now w1 = (w', p)" using bridge_wake ev by (simp add: wake_def w1_def)
    have "w_initialised (refresh_policy w1) \<noteq> None" "w_threads (refresh_policy w1) = w_threads w"
      using i by (auto simp: w1_def refresh_policy_def)
    then show ?thesis using tick_core[of L w1 P now] t by (simp add: init_once_latched same_core_def)
  qed simp
qed

theorem threads_start_once_after_policy_witness:
  "\<exists>w1 w2. bridge_step demo_bare_pg demo_crates demo_nats w1 w2 \<and> w_threads w1 \<noteq> [] \<and> w_threads w2 = w_threads w1 \<and>
     (\<exists>policy. CALLOUT_POLICY (w_statics w1) = Healthy (Some policy))"
proof -
  let ?w1 = "fst (wake demo_bare_pg demo_crates (None, 0) demo_worker)"
  let ?w2 = "fst (wake demo_bare_pg demo_crates (None, 100) ?w1)"
  have "started ?w1"
    using worker_inv_tick(2)[OF worker_inv_reload[OF worker_inv_reachable[OF demo_reachable]]] by (simp add: wake_def)
  then have ne: "w_threads ?w1 \<noteq> []" by (auto simp: started_def)
  have step: "bridge_step demo_bare_pg demo_crates demo_nats ?w1 ?w2"
    by (rule bridge_wake, rule prod.collapse[symmetric])
  from threads_start_once_after_policy[OF demo_woken[of "(None, 0)"]] step ne show ?thesis by blast
qed

text \<open>The worker waits for the extension. While the outbox table does not exist, a tick
  starts the threads all the same, but runs no drain: database, queue and publish calls
  stay as they are and the worker does not die.\<close>

theorem worker_waits_for_extension:
  assumes "bridge_reachable P L N g db w" "w_ready w = None"
    "\<And>t. pg_exec P Outbox_Exists t = (Spi_Ok [[Cell_Bool False]], t)"
  shows "\<exists>w'. tick P L now w = (w', None) \<and> w_db w' = w_db w \<and> w_queue w' = w_queue w \<and> w_calls w' = w_calls w \<and>
    w_ready w' = None \<and> w_threads w' \<noteq> []"
proof -
  let ?w = "init_clients_once L (refresh_policy w)"
  have f: "w_db ?w = w_db w \<and> w_queue ?w = w_queue w \<and> w_calls ?w = w_calls w \<and> w_ready ?w = w_ready w"
    by (auto simp: init_clients_once_def once_get_or_init_def init_clients_def refresh_policy_def Let_def
        split: option.splits prod.splits)
  have "transaction (spi_get_one P cell_bool Outbox_Exists) d = (Spi_Ok (Some False), d)" for d
    by (simp add: transaction_def spi_get_one_def assms(3) row_get_def)
  then have "pgck_ready P ?w = (Returns False, ?w\<lparr>w_db := w_db ?w\<rparr>)"
    using f assms(2) by (simp add: pgck_ready_def once_get_def)
  then have t: "tick P L now w = (?w\<lparr>w_db := w_db ?w\<rparr>, None)" by (simp add: tick_def Let_def)
  have "started (fst (tick P L now w))" by (rule worker_inv_tick(2)[OF worker_inv_reachable[OF assms(1)]])
  then have "w_threads ?w \<noteq> []" by (auto simp: t started_def)
  with t f assms(2) show ?thesis by simp
qed

theorem worker_waits_for_extension_witness:
  "\<exists>w'. tick demo_bare_pg demo_crates 0 demo_worker = (w', None) \<and> w_calls w' = [] \<and> w_ready w' = None \<and> w_threads w' \<noteq> []"
proof -
  have "w_ready demo_worker = None" "w_calls demo_worker = []" by (simp_all add: demo_worker_def worker_start_def)
  moreover have "pg_exec demo_bare_pg Outbox_Exists t = (Spi_Ok [[Cell_Bool False]], t)" for t
    by (simp add: demo_bare_pg_def)
  ultimately show ?thesis
    using worker_waits_for_extension[OF demo_reachable, of 0] by auto
qed

text \<open>No value of a row and no error value ends the worker. If no statement raises,
  then whatever rows, nulls, types or SPI errors the statements return, and however often
  it is woken, the worker's loop comes to its end without a panic.\<close>

theorem worker_survives_without_raise:
  assumes "\<forall>stmt t e t'. pg_exec P stmt t \<noteq> (Spi_Raise e, t')"
  shows "snd (pgck_bridge_main P L evs w) = None"
proof (induction evs arbitrary: w)
  case (Cons ev evs)
  have "never_raises P" using assms by (simp add: never_raises_def)
  then have "snd (wake P L ev w) = None" by (auto simp: wake_def tick_survives split: prod.splits)
  then show ?case using Cons.IH by (simp add: and_next_survives)
qed simp

theorem worker_survives_without_raise_witness:
  "snd (pgck_bridge_main demo_bare_pg demo_crates [(None, 0), (Some (\<lambda>_. guc_defaults), 100)] demo_worker) = None"
  by (rule worker_survives_without_raise) (simp add: demo_bare_pg_def)

end
