(* ===== verification/Ckp_Worker.thy ===== *)
theory Ckp_Worker
  imports Ckp_Pg Ckp_Mint_Props Bgworker_Props
begin

text \<open>
  The worker on the governed database: what a tick of \<^verbatim>\<open>src/src/bgworker.rs\<close> does to the ledger through the
  SQL functions it calls, and the roster it reads back.
\<close>

section \<open>Scheduled work only seals\<close>

lemma score_tick_only:
  assumes "score_tick X now clk k d = Inr (out, d')"
  shows "seals_only (cenv (denv X)) key d d'"
  using assms
proof (cases rule: score_tick_ok)
  case (scored kbody pr d1 sigs abouts scs drs)
  have "seals_only (cenv (denv X)) key d d1" using scored(1) by (rule seals_intros)
  also have "seals_only (cenv (denv X)) key d1 d'"
    by (rule score_loop_rel[OF _ _ _ _ scored(2), where R = "seals_only (cenv (denv X)) key"])
      (auto intro: seals_only_trans seals_intros)
  finally show ?thesis .
qed simp

lemma fold_run_job_only:
  "abort_law (denv X) \<Longrightarrow> fold (run_job X now) sel (dn, fl, rep, t) = (dn', fl', rep', t') \<Longrightarrow> seals_only (cenv (denv X)) key (door_txn t) (door_txn t')"
proof (induction sel arbitrary: dn fl rep t)
  case (Cons r sel)
  obtain dn1 fl1 rep1 t1 where one: "run_job X now r (dn, fl, rep, t) = (dn1, fl1, rep1, t1)" by (metis prod_cases4)
  then have "seals_only (cenv (denv X)) key (door_txn t) (door_txn t1)"
    using aborted_only[OF Cons.prems(1)]
    by (auto simp: run_job_def tick_outcome_def Let_def split: sum.splits if_splits dest: score_tick_only)
  also have "seals_only (cenv (denv X)) key (door_txn t1) (door_txn t')" using Cons one by simp
  finally show ?case .
qed simp

lemma seals_only_settings:
  assumes "seals_only E key t t1" "txn_db u = txn_db t" "txn_db u1 = txn_db t1"
    "settings u (lit ''ckp.identity_key'') = settings t (lit ''ckp.identity_key'')"
    "settings u1 (lit ''ckp.identity_key'') = settings t1 (lit ''ckp.identity_key'')"
  shows "seals_only E key u u1"
  using assms by (simp add: seals_only_def signs_with_def)

lemma orbit_tick_only:
  assumes "abort_law (denv X)" "orbit_tick X now locked t = Inr (out, t')"
  shows "seals_only (cenv (denv X)) key (door_txn t) (door_txn t')"
proof -
  let ?t1 = "if guc_trimmed (eff (door_txn t)) ''ckp.requester'' = None then set_local ''ckp.requester'' (lit ''svc:orbit-tick'') t else t"
  obtain q t2 where e: "orbit_enqueue X now ?t1 = Inr (q, t2)" using assms(2) unfolding orbit_tick_def by (auto simp: ok_iff Let_def)
  obtain d t3 where d: "orbit_drain X now locked 4 t2 = (d, t3)" by (metis surj_pair)
  have t': "t' = set_local ''ckp.requester'' (coalesce_text (eff (door_txn t) (lit ''ckp.requester'')) []) t3"
    using assms(2) e d by (auto simp: orbit_tick_def Let_def)
  have "seals_only (cenv (denv X)) key (door_txn t2) (door_txn t3)"
    using d fold_run_job_only[OF assms(1)] by (fastforce simp: orbit_drain_def split: prod.splits)
  moreover have "lit ''ckp.identity_key'' \<noteq> lit ''ckp.requester''" by (simp add: lit_def)
  ultimately show ?thesis
    unfolding t' orbit_enqueue_door[OF e] by (elim seals_only_settings) (simp_all add: door_txn_def set_local_def)
qed

lemma materialize_only:
  assumes "sql_materialize_drain X now t = Inr (n, t')"
  shows "seals_only E key (door_txn t) (door_txn t')"
proof (cases "oldest_mat (mat_jobs (txn_db t))")
  case (Some j)
  let ?wm = "source_watermark X (m_scope j) (site_ckp (txn_db t))"
  let ?m = "epsilon_materialize X (m_concept j) (m_scope j) (m_formula j) (m_epoch j) (site_ckp (txn_db t))"
  obtain wm giri g where m: "?wm = Inr wm" "?m = Inr (giri, g)" using assms Some
    by (cases ?wm; cases ?m) (auto simp: sql_materialize_drain_def Let_def)
  have db: "site_ckp (txn_db t') = (site_ckp (txn_db t))\<lparr>rdf := g\<rparr>" "session (door (txn_db t')) = session (door (txn_db t))" "settings t' = settings t"
    using assms Some m by (auto simp: sql_materialize_drain_def Let_def)
  have "store_step E key (site_ckp (txn_db t)) ((site_ckp (txn_db t))\<lparr>t_kernel_epoch := t_kernel_epoch (site_ckp (txn_db t)),
      t_obligations := t_obligations (site_ckp (txn_db t)), rdf := g\<rparr>)" by (rule step_read_tables)
  then have "store_step E key (site_ckp (txn_db t)) (site_ckp (txn_db t'))" unfolding db(1) by simp
  with db show ?thesis by (auto simp: seals_only_def signs_with_def door_txn_def identity_key_def cong: option.case_cong)
qed (use assms in \<open>simp add: sql_materialize_drain_def\<close>)

section \<open>Statements and transactions\<close>

definition site_ok :: "'g ckp_env \<Rightarrow> str \<Rightarrow> 'g site \<Rightarrow> bool" where
  "site_ok E key S \<longleftrightarrow> cenv (denv (orbit S)) = E \<and> abort_law (denv (orbit S)) \<and> verbs_seal E key (verbs S)"

definition site_signs :: "str \<Rightarrow> 'g orbit_db \<Rightarrow> bool" where
  "site_signs key db \<longleftrightarrow> identity_key (session (door db)) (site_ckp db) = Some key"

definition site_seals :: "'g ckp_env \<Rightarrow> str \<Rightarrow> 'g orbit_db \<Rightarrow> 'g orbit_db \<Rightarrow> bool" where
  "site_seals E key db db' \<longleftrightarrow> (site_signs key db \<longrightarrow> site_signs key db' \<and> (store_step E key)\<^sup>*\<^sup>* (site_ckp db) (site_ckp db'))"

lemma site_seals_refl [simp]: "site_seals E key db db"
  by (simp add: site_seals_def)

lemma site_seals_trans [trans]: "site_seals E key a b \<Longrightarrow> site_seals E key b c \<Longrightarrow> site_seals E key a c"
  by (auto simp: site_seals_def)

lemma site_verbs_only:
  assumes "site_ok E key S"
  shows "verbs_seal E key (site_verbs S now clk)"
proof -
  let ?G = "(gov S)\<lparr>gdoor := denv (orbit S)\<rparr>"
  have E: "genv ?G = E" "abort_law (gdoor ?G)" "cenv (denv (orbit S)) = E" and v: "verbs_seal E key (verbs S)" using assms by (auto simp: site_ok_def)
  have sc: "seals_only E key t t'" if "score_tick (orbit S) now clk k t = Inr (j, t')" for clk k t j t'
    using score_tick_only[OF that] E(1) by simp
  show ?thesis
    unfolding site_verbs_def Let_def E(1)[symmetric]
    by (rule all_verbs.stack.keeps[OF E(2)]) (use v sc in \<open>auto simp: verbs_seal_def E(3) ok_iff split: option.splits if_splits\<close>)
qed

lemma raised_only:
  assumes "raised S r t = (rows, t')" "\<And>x u. r = Inr (x, u) \<Longrightarrow> seals_only E key (door_txn t) (door_txn u)"
  shows "seals_only E key (door_txn t) (door_txn t')"
  using assms by (cases r) (auto simp: raised_def)

text \<open>Every statement of the worker only seals; of the settings, it never sets the key.\<close>

lemma ckp_exec_only:
  assumes S: "site_ok E key S" "key \<noteq> []" and x: "ckp_exec S stmt t = (r, t')"
    and k: "\<And>v. stmt \<noteq> Set_Config_Local (lit ''ckp.identity_key'') v"
  shows "seals_only E key (door_txn t) (door_txn t')"
proof -
  have E: "cenv (denv (orbit S)) = E" and a: "abort_law (denv (orbit S))" and v: "verbs_seal (cenv (denv (orbit S))) key (site_verbs S now clk)" for now clk
    using S(1) site_verbs_only[OF S(1)] by (auto simp: site_ok_def)
  show ?thesis
  proof (cases stmt)
    case (Set_Config_Local n v)
    with x k[of v] show ?thesis by (auto simp: ckp_exec_def seals_only_def signs_with_def door_txn_def)
  next
    case (Dispatch_Safe verb payload)
    show ?thesis
    proof (cases "jsonb_cast S payload")
      case (Some j)
      obtain out d where d: "dispatch_safe (denv (orbit S)) (site_verbs S (time_of S t) (clock_of S t)) (time_of S t) (clock_of S t) verb j (door_txn t) = (out, d)" by fastforce
      then have "t' = put_door t d" using x Dispatch_Safe Some by (simp add: ckp_exec_def site_govern_def Let_def)
      with dispatch_safe_only[OF a v S(2) d] show ?thesis by (simp add: E)
    qed (use x Dispatch_Safe in \<open>simp add: ckp_exec_def\<close>)
  next
    case Drain_Outbox
    then have "site_ckp (txn_db t') = (site_ckp (txn_db t))\<lparr>t_outbox := remaining (t_outbox (site_ckp (txn_db t)))\<rparr>"
      "session (door (txn_db t')) = session (door (txn_db t))" "settings t' = settings t"
      using x by (auto simp: ckp_exec_def Let_def set_site_outbox_def)
    with step_drain[of E key "site_ckp (txn_db t)"] show ?thesis
      by (auto simp: seals_only_def signs_with_def door_txn_def identity_key_def cong: option.case_cong)
  next
    case Materialize_Drain
    with x have "raised S (and_then (sql_materialize_drain (orbit S) (time_of S t) t) (\<lambda>(n, t'). Inr ([[Cell_Int4 (word_of_int n)]], t'))) t = (r, t')"
      by (simp add: ckp_exec_def)
    then show ?thesis by (rule raised_only) (auto simp: ok_iff dest: materialize_only)
  next
    case Orbit_Tick
    with x have "raised S (and_then (orbit_tick (orbit S) (time_of S t) (row_locked S) t)
        (\<lambda>(j, t'). Inr ([[Cell_Int8 (word_of_int (done_count j))]], t'))) t = (r, t')"
      by (simp add: ckp_exec_def)
    then show ?thesis by (rule raised_only) (use E in \<open>auto simp: ok_iff dest: orbit_tick_only[OF a]\<close>)
  qed (use x in \<open>auto simp: ckp_exec_def\<close>)
qed

lemma transaction_seals:
  assumes "\<And>t r t'. body t = (r, t') \<Longrightarrow> seals_only E key (door_txn t) (door_txn t')"
  shows "site_seals E key db (snd (transaction body db))"
proof -
  obtain r t' where b: "body \<lparr>txn_db = db, settings = (\<lambda>_. None)\<rparr> = (r, t')" by fastforce
  from assms[OF b] have "site_seals E key db (txn_db t')"
    by (simp add: site_seals_def site_signs_def seals_only_def signs_with_def door_txn_def)
  with b show ?thesis by (cases r) (simp_all add: transaction_def)
qed

lemma spi_then_only:
  assumes "spi_then (if c then ckp_exec S stmt t else (Spi_Ok rows, t)) f = (r, t')" "site_ok E key S" "key \<noteq> []"
    "\<And>v. stmt \<noteq> Set_Config_Local (lit ''ckp.identity_key'') v"
    "\<And>rows t1 r t'. f rows t1 = (r, t') \<Longrightarrow> seals_only E key (door_txn t1) (door_txn t')"
  shows "seals_only E key (door_txn t) (door_txn t')"
proof -
  obtain x t1 where x: "ckp_exec S stmt t = (x, t1)" by fastforce
  have "seals_only E key (door_txn t) (door_txn t1)" by (rule ckp_exec_only[OF assms(2,3) x assms(4)])
  moreover have "seals_only E key (door_txn t1) (door_txn t')" if c using assms(1,5) x that by (cases x) auto
  moreover have "seals_only E key (door_txn t) (door_txn t')" if "\<not> c" using assms(1,5) that by auto
  ultimately show ?thesis using seals_only_trans by blast
qed

lemma setting_neq: "lit ''ckp.requester'' \<noteq> lit ''ckp.identity_key''" "lit ''ckp.project'' \<noteq> lit ''ckp.identity_key''"
  by (simp_all add: lit_def)

lemma dispatch_txn_only:
  assumes "site_ok E key S" "key \<noteq> []" "dispatch_txn (ckp_pg S) a t = (r, t')"
  shows "seals_only E key (door_txn t) (door_txn t')"
proof -
  have id: "(case act_identity a of Some sub \<Rightarrow> ckp_exec S (Set_Config_Local (lit ''ckp.requester'') sub) t | None \<Rightarrow> (Spi_Ok [], t)) =
      (if act_identity a \<noteq> None then ckp_exec S (Set_Config_Local (lit ''ckp.requester'') (the (act_identity a))) t else (Spi_Ok [], t))"
    by (auto split: option.split)
  note one = spi_then_only[OF _ assms(1,2)] and last = spi_then_only[where c = True, simplified if_True, OF _ assms(1,2)]
  show ?thesis
    using assms(3) unfolding dispatch_txn_def ckp_pg_exec id
  proof (rule one)
    fix rows t1 r t'
    assume "spi_then (if act_kernel a \<noteq> [] then ckp_exec S (Set_Config_Local (lit ''ckp.project'') (act_kernel a)) t1 else (Spi_Ok [], t1))
       (\<lambda>_ t2. spi_then (ckp_exec S (Dispatch_Safe (act_verb a) (from_utf8_lossy (act_payload a))) t2)
          (\<lambda>table t3. (last_row cell_text (\<lambda>v. v) None table, t3))) = (r, t')"
    then show "seals_only E key (door_txn t1) (door_txn t')"
    proof (rule one)
      fix rows t2 r t'
      assume "spi_then (ckp_exec S (Dispatch_Safe (act_verb a) (from_utf8_lossy (act_payload a))) t2)
          (\<lambda>table t3. (last_row cell_text (\<lambda>v. v) None table, t3)) = (r, t')"
      then show "seals_only E key (door_txn t2) (door_txn t')" by (rule last) auto
    qed (simp add: setting_neq)
  qed (simp add: setting_neq)
qed

lemma get_one_only:
  assumes "site_ok E key S" "key \<noteq> []" "spi_get_one (ckp_pg S) conv stmt t = (r, t')" "\<And>v. stmt \<noteq> Set_Config_Local (lit ''ckp.identity_key'') v"
  shows "seals_only E key (door_txn t) (door_txn t')"
  using assms(3) unfolding spi_get_one_def ckp_pg_exec
  by (rule spi_then_only[where c = True, simplified if_True, OF _ assms(1,2,4)]) auto

section \<open>The worker's operations\<close>

lemma dispatch_one_seals:
  assumes "site_ok E key S" "key \<noteq> []"
  shows "site_seals E key db (snd (dispatch_one (ckp_pg S) a db))"
proof -
  have "snd (dispatch_one (ckp_pg S) a db) = snd (transaction (dispatch_txn (ckp_pg S) a) db)"
    by (auto simp: dispatch_one_def split: prod.splits spi_result.splits option.splits)
  then show ?thesis using transaction_seals[of "dispatch_txn (ckp_pg S) a"] dispatch_txn_only[OF assms] by metis
qed

lemma dispatch_loop_seals:
  assumes "site_ok E key S" "key \<noteq> []"
  shows "site_seals E key db (fst (snd (dispatch_loop (ckp_pg S) as db)))"
proof (induction as arbitrary: db)
  case (Cons a as)
  obtain r db1 where r: "dispatch_one (ckp_pg S) a db = (r, db1)" by fastforce
  with dispatch_one_seals[OF assms, of db a] have "site_seals E key db db1" by simp
  with r Cons.IH[of db1] site_seals_trans show ?case by (cases r) (auto split: prod.splits)
qed simp

lemma statement_seals:
  assumes "site_ok E key S" "key \<noteq> []" "\<And>v. stmt \<noteq> Set_Config_Local (lit ''ckp.identity_key'') v"
  shows "site_seals E key db (snd (transaction (\<lambda>t. spi_then (ckp_exec S stmt t) (\<lambda>table t'. (f table, t'))) db))"
proof (rule transaction_seals)
  fix t r t' assume "spi_then (ckp_exec S stmt t) (\<lambda>table t'. (f table, t')) = (r, t')"
  then show "seals_only E key (door_txn t) (door_txn t')"
    by (rule spi_then_only[where c = True, simplified if_True, OF _ assms]) auto
qed

lemma sql_drain_seals:
  assumes "site_ok E key S" "key \<noteq> []"
  shows "site_seals E key db (snd (materialize_drain_once (ckp_pg S) db))" "site_seals E key db (snd (orbit_drain_once (ckp_pg S) db))"
    "site_seals E key db (snd (snd (publish_drain_once (ckp_pg S) g db)))"
proof -
  note seals = statement_seals[OF assms]
  have "snd (materialize_drain_once (ckp_pg S) db) = snd (transaction (\<lambda>t. spi_then (ckp_exec S Materialize_Drain t)
      (\<lambda>table t'. (last_row cell_int4 (\<lambda>v. case v of None \<Rightarrow> 0 | Some n \<Rightarrow> n) 0 table, t'))) db)"
    by (auto simp: materialize_drain_once_def split: prod.splits spi_result.splits)
  then show "site_seals E key db (snd (materialize_drain_once (ckp_pg S) db))" by (simp only:) (rule seals, simp)
  have "snd (orbit_drain_once (ckp_pg S) db) = snd (transaction (\<lambda>t. spi_then (ckp_exec S Orbit_Tick t)
      (\<lambda>table t'. (last_row cell_int8 (\<lambda>v. case v of None \<Rightarrow> 0 | Some n \<Rightarrow> n) 0 table, t'))) db)"
    by (auto simp: orbit_drain_once_def split: prod.splits spi_result.splits)
  then show "site_seals E key db (snd (orbit_drain_once (ckp_pg S) db))" by (simp only:) (rule seals, simp)
  have "snd (snd (publish_drain_once (ckp_pg S) g db)) = snd (transaction (\<lambda>t. spi_then (ckp_exec S Drain_Outbox t) (\<lambda>table t'. (read_rows [] table, t'))) db)"
    by (auto simp: publish_drain_once_def drain_txn_def[abs_def] split: prod.splits spi_result.splits)
  then show "site_seals E key db (snd (snd (publish_drain_once (ckp_pg S) g db)))" by (simp only:) (rule seals, simp)
qed

definition worker_seals :: "'g ckp_env \<Rightarrow> str \<Rightarrow> ('vk, 'kp, 'g orbit_db) worker \<Rightarrow> ('vk, 'kp, 'g orbit_db) worker \<Rightarrow> bool" where
  "worker_seals E key w w' \<longleftrightarrow> site_seals E key (w_db w) (w_db w')"

lemma worker_seals_next:
  assumes "worker_seals E key w (fst r)" "\<And>w'. worker_seals E key w' (fst (f w'))"
  shows "worker_seals E key w (fst (and_next r f))"
proof (cases r)
  case (Pair v p)
  have "worker_seals E key w (fst (f v))" using assms(1) assms(2)[of v] Pair site_seals_trans unfolding worker_seals_def by (metis fst_conv)
  with assms(1) Pair show ?thesis by (cases p) simp_all
qed

lemma operations_seal [seals_intros]:
  assumes "site_ok E key S" "key \<noteq> []"
  shows "worker_seals E key w (fst (run_inbound (ckp_pg S) w))" "worker_seals E key w (fst (run_publish_drain (ckp_pg S) w))"
    "worker_seals E key w (fst (run_sql_drain (materialize_drain_once (ckp_pg S)) w))"
    "worker_seals E key w (fst (run_sql_drain (orbit_drain_once (ckp_pg S)) w))"
proof -
  have "w_db (fst (run_inbound (ckp_pg S) w)) = fst (snd (dispatch_loop (ckp_pg S) (fst (take_all (w_queue w))) (w_db w)))"
    by (simp add: run_inbound_def drain_and_dispatch_def split_beta)
  then show "worker_seals E key w (fst (run_inbound (ckp_pg S) w))"
    using dispatch_loop_seals[OF assms] by (metis worker_seals_def)
  show "worker_seals E key w (fst (run_publish_drain (ckp_pg S) w))"
    using sql_drain_seals(3)[OF assms, of "w_db w" "w_gucs w"] by (simp add: run_publish_drain_def worker_seals_def split_beta)
  show "worker_seals E key w (fst (run_sql_drain (materialize_drain_once (ckp_pg S)) w))"
    "worker_seals E key w (fst (run_sql_drain (orbit_drain_once (ckp_pg S)) w))"
    using sql_drain_seals(1,2)[OF assms, of "w_db w"] by (simp_all add: run_sql_drain_def worker_seals_def split_beta)
qed

lemma get_one_seals:
  assumes "site_ok E key S" "key \<noteq> []" "\<And>v. stmt \<noteq> Set_Config_Local (lit ''ckp.identity_key'') v"
  shows "site_seals E key db (snd (transaction (spi_get_one (ckp_pg S) conv stmt) db))"
  by (rule transaction_seals) (rule get_one_only[OF assms(1,2) _ assms(3)])

lemma refresh_seals [seals_intros]:
  assumes "site_ok E key S" "key \<noteq> []"
  shows "worker_seals E key w (fst (refresh_ledger_kernels (ckp_pg S) now w))"
proof -
  let ?d = "snd (transaction (spi_get_one (ckp_pg S) cell_text Ledger_Kernels) (w_db w))"
  have "w_db (fst (refresh_ledger_kernels (ckp_pg S) now w)) \<in> {w_db w, ?d}"
    by (auto simp: refresh_ledger_kernels_def Let_def split: prod.splits spi_result.splits option.splits)
  then show ?thesis using get_one_seals[OF assms, of Ledger_Kernels "w_db w" cell_text] by (auto simp: worker_seals_def)
qed

lemma ready_seals:
  assumes "site_ok E key S" "key \<noteq> []"
  shows "worker_seals E key w (snd (pgck_ready (ckp_pg S) w))"
proof -
  let ?d = "snd (transaction (spi_get_one (ckp_pg S) cell_bool Outbox_Exists) (w_db w))"
  have "w_db (snd (pgck_ready (ckp_pg S) w)) \<in> {w_db w, ?d}"
    by (auto simp: pgck_ready_def Let_def split: prod.splits spi_result.splits)
  then show ?thesis using get_one_seals[OF assms, of Outbox_Exists "w_db w" cell_bool] by (auto simp: worker_seals_def)
qed

lemma tick_drains_seals: "site_ok E key S \<Longrightarrow> key \<noteq> [] \<Longrightarrow> worker_seals E key w (fst (tick_drains (ckp_pg S) now w))"
  unfolding tick_drains_def by (intro worker_seals_next seals_intros)

lemma init_clients_db: "w_db (init_clients_once L (refresh_policy w)) = w_db w"
  by (simp add: init_clients_once_def once_get_or_init_def init_clients_def refresh_policy_def Let_def split: prod.splits option.splits)

lemma wake_seals:
  assumes "site_ok E key S" "key \<noteq> []"
  shows "worker_seals E key w (fst (wake (ckp_pg S) L ev w))"
proof -
  have tick: "worker_seals E key w (fst (tick (ckp_pg S) L now w))" for now w
  proof -
    let ?w = "init_clients_once L (refresh_policy w)"
    obtain r w1 where r: "pgck_ready (ckp_pg S) ?w = (r, w1)" by fastforce
    then have "worker_seals E key w w1" using ready_seals[OF assms, of ?w] init_clients_db[of L w] by (simp add: worker_seals_def)
    moreover from this have "worker_seals E key w (fst (tick_drains (ckp_pg S) now w1))"
      using tick_drains_seals[OF assms, of w1 now] site_seals_trans unfolding worker_seals_def by blast
    ultimately show ?thesis using r by (cases r) (auto simp: tick_def Let_def split: bool.splits)
  qed
  obtain sighup now where ev: "ev = (sighup, now)" by fastforce
  show ?thesis using tick[of "w\<lparr>w_gucs := reloaded sighup (w_gucs w)\<rparr>" now] by (simp add: wake_def ev worker_seals_def)
qed

section \<open>Properties\<close>

text \<open>The steps of a worker and its relay thread on a governed database, whose time, clock and locks change
  from step to step while its laws stay.\<close>

definition site_reachable ::
    "'g ckp_env \<Rightarrow> str \<Rightarrow> ('vk, 'sg, 'kp, 'm) callout_libs_scheme \<Rightarrow> ('hm, 'addr, 'n) nats_libs_scheme \<Rightarrow>
     ('vk, 'kp, 'g orbit_db) worker \<Rightarrow> ('vk, 'kp, 'g orbit_db) worker \<Rightarrow> bool" where
  "site_reachable E key L N = (\<lambda>w w'. \<exists>S. site_ok E key S \<and> bridge_step (ckp_pg S) L N w w')\<^sup>*\<^sup>*"

lemma site_reachable_seals:
  assumes "site_reachable E key L N w w'" "key \<noteq> []"
  shows "worker_seals E key w w'"
  using assms(1) unfolding site_reachable_def
proof (induction rule: rtranclp_induct)
  case (step v v')
  then obtain S where S: "site_ok E key S" "bridge_step (ckp_pg S) L N v v'" by blast
  from S(2) have "worker_seals E key v v'"
  proof cases
    case (bridge_wake ev p)
    with wake_seals[OF S(1) assms(2), of v L ev] show ?thesis by simp
  qed (simp add: worker_seals_def)
  with step.IH site_seals_trans show ?case unfolding worker_seals_def by blast
qed (simp add: worker_seals_def)

text \<open>C2: whatever the worker is sent, its ledger verifies. Start a worker on a fresh database whose
  configuration holds an identity key, and let it run: any messages relayed in any interleaving with its
  wake-ups, any verbs and payloads, refusals, panics, drains, crossings and materialisations. Then every
  instance of the database verifies under the key in force, the ledger is chained, and its numbers
  are strictly increasing.\<close>

theorem worker_keeps_ledger_verifiable:
  assumes "site_reachable E key L N (worker_start g db) w" "key \<noteq> []" "site_ckp db = empty_store cfg g0"
    "cfg (lit ''identity_key'') = Some key" "session (door db) (lit ''ckp.identity_key'') = None"
  shows "list_all (\<lambda>i. ckp_verify E (session (door (w_db w))) (site_ckp (w_db w)) (i_id i)) (t_instances (site_ckp (w_db w))) \<and>
    chained (t_ledger (site_ckp (w_db w))) \<and> sorted_wrt (<) (map l_seq (t_ledger (site_ckp (w_db w))))"
proof -
  let ?db = "w_db w"
  have "site_signs key db" using assms(3-5) by (simp add: site_signs_def identity_key_def guc_nonempty_def nullif_empty_def empty_store_def)
  with site_reachable_seals[OF assms(1,2)] have k: "site_signs key ?db" "(store_step E key)\<^sup>*\<^sup>* (site_ckp db) (site_ckp ?db)"
    by (simp_all add: worker_seals_def site_seals_def worker_start_def)
  from k(2) have inv: "store_inv E key (site_ckp ?db)" unfolding assms(3) by (rule store_reachable_inv)
  have "ckp_verify E (session (door ?db)) (site_ckp ?db) (i_id i)" if "i \<in> set (t_instances (site_ckp ?db))" for i
  proof -
    have "find_instance (site_ckp ?db) (i_id i) \<noteq> None" using that by (auto simp: find_instance_def find_None_iff)
    with inv have "verifies_with E key (site_ckp ?db) (i_id i)" by (simp add: store_inv_def)
    with k(1) assms(2) show ?thesis by (simp add: ckp_verify_iff site_signs_def)
  qed
  with inv show ?thesis by (simp add: list_all_iff store_inv_def store_wf_def)
qed

definition demo_site :: "unit site" where
  "demo_site = \<lparr>orbit = demo_orbit, gov = demo_gov, mint = demo_mint, reads = demo_read, boards = \<lparr>proof_time = (\<lambda>_. JNull), ledger_time = (\<lambda>_. JNull)\<rparr>, verbs = demo_handlers, jsonb_cast = demo_jsonb, cast_error = (\<lambda>s. s), time_of = (\<lambda>_. 7),
     clock_of = (\<lambda>_. 8), row_locked = (\<lambda>_. False), row_rank = ob_seq\<rparr>"

lemma demo_site_ok: "site_ok demo_ckp (lit ''secret'') demo_site"
  using demo_abort_law by (simp add: site_ok_def demo_site_def demo_orbit_def demo_door_def verbs_seal_def demo_handlers_def)

definition demo_fresh :: "unit orbit_db" where
  "demo_fresh = \<lparr>door = txn_db demo_door_txn, orbit_jobs = [], s_orbit = 1, mat_jobs = [], phenotypes = []\<rparr>"

theorem worker_keeps_ledger_verifiable_witness:
  "chained (t_ledger (site_ckp (w_db (fst (wake (ckp_pg demo_site) demo_crates (None, 0) (worker_start guc_defaults demo_fresh))))))"
proof -
  let ?w = "worker_start guc_defaults demo_fresh" let ?v = "fst (wake (ckp_pg demo_site) demo_crates (None, 0) (worker_start guc_defaults demo_fresh))"
  have "bridge_step (ckp_pg demo_site) demo_crates demo_nats ?w ?v" by (rule bridge_wake) (rule prod.collapse[symmetric])
  then have r: "site_reachable demo_ckp (lit ''secret'') demo_crates demo_nats ?w ?v"
    using demo_site_ok unfolding site_reachable_def by (intro r_into_rtranclp) blast
  have db: "site_ckp demo_fresh = empty_store demo_ckp_config ()" "session (door demo_fresh) (lit ''ckp.identity_key'') = None"
    by (simp_all add: demo_fresh_def demo_door_txn_def)
  show ?thesis
    using worker_keeps_ledger_verifiable[OF r _ db(1) _ db(2)] by (simp add: demo_ckp_config_def lit_def)
qed

section \<open>The roster\<close>

lemma trim_urn:
  assumes "list_all urn_char s"
  shows "trim s = s"
proof -
  have w: "\<not> is_whitespace c" if "urn_char c" for c
    using that by (auto simp: urn_char_def ascii_lower_digit_def is_whitespace_def)
  have "dropWhile is_whitespace xs = xs" if "list_all urn_char xs" for xs
    using that w by (cases xs) auto
  with assms show ?thesis by (simp add: trim_def trim_start_def trim_end_def list_all_rev)
qed

lemma kernel_segment_iff: "kernel_segment x = Some k \<longleftrightarrow> x = kernel_iri k \<and> k \<noteq> [] \<and> list_all urn_char k"
  using between_match[of "lit ''urn:ckp:''" "lit ''/kernel''" k] by (auto simp: kernel_segment_def kernel_iri_def Let_def)

lemma ledger_kernels_iff:
  "k \<in> set (ledger_kernels E db) \<longleftrightarrow> k \<noteq> [] \<and> list_all urn_char k \<and> (\<exists>i \<in> set (t_instances db).
     body_text E (i_body i) (lit ''type'') = Some (core ''Kernel'') \<and> body_text E (i_body i) (lit ''@id'') = Some (kernel_iri k) \<and>
     \<not> has_key (i_body i) (core ''retiredAtEpoch''))"
  unfolding ledger_kernels_def set_sort set_remdups set_map_filter by (auto simp: bind_eq_Some_conv kernel_segment_iff)

lemma distinct_ledger_kernels: "distinct (ledger_kernels E db)"
  by (simp add: ledger_kernels_def)

lemma ledger_kernels_segments: "k \<in> set (ledger_kernels E db) \<Longrightarrow> k \<noteq> [] \<and> list_all urn_char k"
  by (simp add: ledger_kernels_iff)

lemma urn_kernel_ok: "k \<noteq> [] \<Longrightarrow> list_all urn_char k \<Longrightarrow> kernel_name_ok k \<and> comma \<notin> set k"
  by (auto simp: kernel_name_ok_def list_all_iff urn_char_def ascii_lower_digit_def)

lemma roster_round_trip: "filter kernel_name_ok (map trim (split_on comma (join_on comma (ledger_kernels E db)))) = ledger_kernels E db"
proof (cases "ledger_kernels E db = []")
  case True
  then show ?thesis by (simp add: split_on_clean trim_def trim_start_def trim_end_def kernel_name_ok_def)
next
  case False
  have "\<forall>k \<in> set (ledger_kernels E db). comma \<notin> set k \<and> trim k = k \<and> kernel_name_ok k"
    using ledger_kernels_segments urn_kernel_ok trim_urn by metis
  with False split_join[of "ledger_kernels E db" comma] show ?thesis by (simp add: map_idI)
qed

text \<open>C19: the worker's ledger roster is the sealed one. A refresh that is due reads \<^verbatim>\<open>_ledger_kernels()\<close> as one
  comma separated text, cuts it, trims it and filters it; what ends up in the cache, each name once, is exactly the
  names \<open>k\<close> over \<^verbatim>\<open>[a-z0-9-]\<close> for which \<^verbatim>\<open>ckp.instances\<close> holds a Kernel \<^verbatim>\<open>urn:ckp:k/kernel\<close> that is not
  retired. A roster that has become empty is read as empty and replaces the old one, the read does not panic and it
  changes no table.\<close>

theorem ledger_roster_read_back:
  assumes "refresh_ledger_kernels (ckp_pg S) now w = (w', p)" "w_ledger_last w = Healthy prev" "LEDGER_KERNELS (w_statics w) = Healthy old"
    "\<And>t. prev = Some t \<Longrightarrow> t + LEDGER_REFRESH_EVERY \<le> now"
  shows "p = None \<and> w_db w' = w_db w \<and> (\<exists>ks. LEDGER_KERNELS (w_statics w') = Healthy ks \<and> distinct ks \<and>
    (\<forall>k. k \<in> set ks \<longleftrightarrow> k \<noteq> [] \<and> list_all urn_char k \<and> (\<exists>i \<in> set (t_instances (site_ckp (w_db w))).
       body_text (cenv (denv (orbit S))) (i_body i) (lit ''type'') = Some (core ''Kernel'') \<and>
       body_text (cenv (denv (orbit S))) (i_body i) (lit ''@id'') = Some (kernel_iri k) \<and> \<not> has_key (i_body i) (core ''retiredAtEpoch''))))"
proof -
  let ?ks = "ledger_kernels (cenv (denv (orbit S))) (site_ckp (w_db w))"
  have "ledger_due now w" using assms(2,4) by (cases prev) (auto simp: ledger_due_def)
  moreover have "transaction (spi_get_one (ckp_pg S) cell_text Ledger_Kernels) (w_db w) = (Spi_Ok (Some (join_on comma ?ks)), w_db w)"
    by (simp add: transaction_def spi_get_one_def ckp_exec_def row_get_def)
  ultimately have "p = None" "w_db w' = w_db w" "LEDGER_KERNELS (w_statics w') = Healthy ?ks"
    using assms(1,3) roster_round_trip[of "cenv (denv (orbit S))" "site_ckp (w_db w)"]
    by (auto simp: refresh_ledger_kernels_def Let_def set_ledger_kernels_def)
  then show ?thesis using ledger_kernels_iff distinct_ledger_kernels by blast
qed

theorem ledger_roster_read_back_witness:
  "LEDGER_KERNELS (w_statics (fst (refresh_ledger_kernels (ckp_pg demo_site) 0
     (worker_start guc_defaults (txn_db (demo_orbit_txn [])) :: (nat, str, unit orbit_db) worker)))) = Healthy [lit ''acme'']"
proof -
  let ?w = "worker_start guc_defaults (txn_db (demo_orbit_txn [])) :: (nat, str, unit orbit_db) worker"
  let ?i = "\<lambda>k i. body_text demo_ckp (i_body i) (lit ''type'') = Some (core ''Kernel'') \<and>
    body_text demo_ckp (i_body i) (lit ''@id'') = Some (kernel_iri k) \<and> \<not> has_key (i_body i) (core ''retiredAtEpoch'')"
  obtain w' p where r: "refresh_ledger_kernels (ckp_pg demo_site) 0 ?w = (w', p)" by fastforce
  have c: "cenv (denv (orbit demo_site)) = demo_ckp" by (simp add: demo_site_def demo_orbit_def demo_door_def)
  have "(\<exists>i \<in> set (t_instances (site_ckp (txn_db (demo_orbit_txn [])))). ?i k i) \<longleftrightarrow> k = lit ''acme''" for k
    by (auto simp: demo_law_def get_text_def text_of_def json_get_obj has_key_object kernel_iri_def lit_def core_def core_ns_def)
  moreover have "lit ''acme'' \<noteq> [] \<and> list_all urn_char (lit ''acme'')" by (simp add: lit_def urn_char_def ascii_lower_digit_def)
  moreover from ledger_roster_read_back[OF r, of None "[]"] obtain ks where ks: "LEDGER_KERNELS (w_statics w') = Healthy ks" "distinct ks"
    "\<And>k. k \<in> set ks \<longleftrightarrow> k \<noteq> [] \<and> list_all urn_char k \<and> (\<exists>i \<in> set (t_instances (site_ckp (txn_db (demo_orbit_txn [])))). ?i k i)"
    unfolding c by (auto simp: worker_start_def statics_init_def)
  ultimately have "set ks = {lit ''acme''}" by blast
  with ks(2) have "ks = [lit ''acme'']" by (cases ks; cases "tl ks") auto
  with ks(1) r show ?thesis by simp
qed

end
