(* ===== verification/Spec2Isabelle.thy ===== *)
theory Spec2Isabelle
  imports Conformance Ckp_Gate Ckp_Worker
begin

text \<open>
  A verification library for pgCK, a PostgreSQL extension whose background worker bridges a
  governed SQL write path to a NATS broker. This theory imports the whole library and holds
  the properties that span its components.

  \<^bold>\<open>The program.\<close> The Rust code (\<^verbatim>\<open>src/src/\<close>) has two build profiles. With
  \<^verbatim>\<open>embedded-nats\<close> the worker hosts a small NATS server of its own (\<^verbatim>\<open>nats/\<close>). With
  \<^verbatim>\<open>nats-client\<close> it is a client of an external broker: it answers the broker's
  authorization requests by verifying an OIDC token and minting a user JWT with the
  subjects that identity may use (\<^verbatim>\<open>jwt_verify.rs\<close>, \<^verbatim>\<open>auth_callout.rs\<close>), relays
  published actions into a queue (\<^verbatim>\<open>nats_client.rs\<close>), dispatches each through the
  governed SQL function as the identity that the broker enforced
  (\<^verbatim>\<open>inbound_dispatch.rs\<close>), and publishes the rows of an outbox table
  (\<^verbatim>\<open>publish_drain.rs\<close>). The tick of \<^verbatim>\<open>bgworker.rs\<close> and the settings and caches of
  \<^verbatim>\<open>lib.rs\<close> tie these together.

  \<^bold>\<open>Theories, in the order of their imports.\<close>
  \<^item> \<open>Pgck_Prelude\<close>: results with \<^verbatim>\<open>?\<close>, machine integers, fact collections, list lemmas.
  \<^item> \<open>Rust_Std\<close>, \<open>Rust_Utf8\<close>, \<open>Rust_BTreeMap\<close>, \<open>Rust_Sync\<close>: what the sources use of the
    standard library. Strings are lists of code points, bytes are 8-bit words; an ordered
    map is an ordered association list; \<^verbatim>\<open>OnceLock\<close>, locks with poisoning and the bounded
    channel are explicit values. The interfaces \<open>ordered_map\<close>, \<open>latch\<close> and \<open>bounded_fifo\<close>
    are locales, interpreted on the ordered map, on \<^verbatim>\<open>get_or_init\<close> and on the inbound
    queue.
  \<^item> \<open>Json\<close>: \<^verbatim>\<open>serde_json::Value\<close> with the projections the sources use, and the values that survive its text form
    (\<open>json_plain\<close>: ordered objects, 64-bit integers, nesting below the parser's limit of 128).
  \<^item> \<open>Nats_Router\<close> (\<^verbatim>\<open>nats/router.rs\<close>), \<open>Nats_Parser\<close> (\<^verbatim>\<open>nats/parser.rs\<close>),
    \<open>Nats_Server\<close> and \<open>Nats_Server_Props\<close> (\<^verbatim>\<open>nats/server.rs\<close>): the matcher loop against
    the NATS rule as an inductive relation, the subscription table against a finite map,
    control lines and their round trip, a connection as a state machine over arriving
    bytes and deliveries, the server as a step relation over its connections. Reading a
    message is a function that may be pending; dropping a pending read (as
    \<^verbatim>\<open>select!\<close> does) forgets what it consumed.
  \<^item> \<open>Nats_Exchange\<close>: several clients of the embedded server; an executable scheduler whose
    operations are runs of the step relation, and what one client publishes reaching
    another.
  \<^item> \<open>Jwt_Verify\<close> (\<^verbatim>\<open>jwt_verify.rs\<close>): the verifier with the source's order of checks and
    64-bit wrapping arithmetic; when exactly a token is admitted, and that an admission is
    signed and not expired.
  \<^item> \<open>Auth_Callout\<close> and \<open>Auth_Callout_Props\<close> (\<^verbatim>\<open>auth_callout.rs\<close>): the responder, how the
    broker reads its answer (\<open>broker_view\<close>), the admission policy it refines
    (\<open>callout_spec\<close>), and the subjects a grant means (\<open>may_publish\<close>).
  \<^item> \<open>Realm_Mint\<close>: the issuing side of the tokens (the helpers of the tests of
    \<^verbatim>\<open>jwt_verify.rs\<close>): key sets and minting, and that a minted token is judged by its claims.
  \<^item> \<open>Pgck_Config\<close> (settings half of \<^verbatim>\<open>lib.rs\<close>): the registered settings with their
    reload contexts, the snapshots, the kernel name filter, the realm configuration that is
    loaded once, the policy cache; reachable configurations and their invariant.
  \<^item> \<open>Nats_Client\<close>, \<open>Nats_Client_Props\<close>, \<open>Nats_Relay\<close> (\<^verbatim>\<open>nats_client.rs\<close>): commands and
    channel, thread starts, dialing, routing, headers, the client thread, the relay thread
    and the responder loop; the channel as a system of two interleaved threads.
  \<^item> \<open>Pg_Spi\<close>, \<open>Inbound_Dispatch\<close> (\<^verbatim>\<open>inbound_dispatch.rs\<close>), \<open>Publish_Drain\<close>
    (\<^verbatim>\<open>publish_drain.rs\<close>, \<^verbatim>\<open>materialize_drain.rs\<close>, \<^verbatim>\<open>orbit_drain.rs\<close>): statements in
    transactions with settings local to them, typed rows, and the three ways an execution
    ends (a value, an error value, a raise that unwinds); the queue and the dispatch; the
    drains.
  \<^item> \<open>Bgworker\<close> and \<open>Bgworker_Props\<close> (\<^verbatim>\<open>bgworker.rs\<close>, worker half of \<^verbatim>\<open>lib.rs\<close>): the tick
    of both profiles, the main loop with its reload (what \<^verbatim>\<open>ProcessConfigFile\<close> makes of the settings comes
    with the wake-up event, as a function), and the invariant of every interleaving of the worker with the relay thread.
  \<^item> \<open>Conformance_Nats\<close>, \<open>Conformance_Jwt\<close>, \<open>Conformance_Auth\<close>, \<open>Conformance\<close>: every \<^verbatim>\<open>#[test]\<close> of
    the Rust sources as an executable definition, and whether it holds of the model. All
    do, three stale assertions excepted, which the code contradicts
    (\<open>route_inbound_rejects_malformed_subjects_is_stale\<close>, \<open>verified_pub_grant_test_is_stale\<close>,
    \<open>user_jwt_signed_test_is_stale\<close>).

  The SQL half is \<^verbatim>\<open>src/sql/pgck-baseline.sql\<close>, the functions that the worker's statements
  call. A raise is an \<open>Inl\<close> without a state, since PostgreSQL rolls the statement back.
  \<^item> \<open>Sql_Base\<close>: text and \<^verbatim>\<open>jsonb\<close> operators, nulls and settings.
  \<^item> \<open>Ckp_Store\<close>: the tables (\<^verbatim>\<open>instances\<close>, \<^verbatim>\<open>proof\<close>, \<^verbatim>\<open>ledger\<close>, \<^verbatim>\<open>outbox\<close> and the registries)
    and the pure helpers (\<^verbatim>\<open>_body_to_ttl\<close>, \<^verbatim>\<open>_derived_stamps\<close>, \<^verbatim>\<open>_project_admits_type\<close>,
    \<^verbatim>\<open>_run_proof_obligations\<close>, \<^verbatim>\<open>_resolve_project\<close>).
  \<^item> \<open>Ckp_Seal\<close>, \<open>Ckp_Seal_Props\<close>, \<open>Ckp_Ledger\<close>, \<open>Ckp_Gate\<close>: \<^verbatim>\<open>seal\<close> step by step, the trigger
    \<^verbatim>\<open>ledger_to_outbox\<close>, \<^verbatim>\<open>verify\<close>; the invariant of the tables over every sequence of seals;
    attribution, stamps, obligations, membership, the chain of the ledger, tampering, and
    the outbox up to the broker; what the shape gate really judges.
  \<^item> \<open>Ckp_Door\<close>, \<open>Ckp_Door_Props\<close>: \<^verbatim>\<open>_dispatch_safe\<close>, \<^verbatim>\<open>dispatch\<close>, \<^verbatim>\<open>_dispatch_route\<close>, the refusal
    envelope and the verbs that seal a board fact.
  \<^item> \<open>Ckp_Typed\<close>: the verbs that re-seal an instance (\<^verbatim>\<open>update_typed\<close>, \<^verbatim>\<open>transition\<close>, \<^verbatim>\<open>retire\<close>).
  \<^item> \<open>Ckp_Govern\<close>, \<open>Ckp_Apply\<close>: \<^verbatim>\<open>propose_change\<close>, \<^verbatim>\<open>vote\<close>, \<^verbatim>\<open>_op_to_ttl\<close> and \<^verbatim>\<open>apply\<close> with its gates,
    its stages (graph, policy, epoch, registration) and the handlers they give the door
    (\<open>gov_handlers\<close>).
  \<^item> \<open>Ckp_Create\<close>, \<open>Ckp_Germinate\<close>: the verbs that mint a fact (\<^verbatim>\<open>create_typed\<close>, \<^verbatim>\<open>edge.create\<close>,
    \<^verbatim>\<open>notify\<close>, \<^verbatim>\<open>signal_boundary\<close>, \<^verbatim>\<open>germinate_kernel\<close>) and their handlers (\<open>mint_handlers\<close>).
  \<^item> \<open>Ckp_Read\<close>: the reads of the instance table (\<^verbatim>\<open>_query\<close>), what a listing shows.
  \<^item> \<open>Ckp_Board\<close>: the other verbs that only read tables (\<^verbatim>\<open>kernels.list\<close>, \<^verbatim>\<open>provenance\<close>, the two snapshots,
    \<^verbatim>\<open>authority.mine\<close>, \<^verbatim>\<open>orbit.next\<close>): the crossing that is announced is the one that is enqueued, and the
    authority that is reported is exactly the grants that a chain of sealed Membership, Role and Grant reaches.
  \<^item> \<open>Ckp_Govern_Props\<close>, \<open>Ckp_Govern_Run\<close>, \<open>Ckp_Only_Seals\<close>, \<open>Ckp_Mint_Props\<close>: what a successful \<^verbatim>\<open>apply\<close> or \<^verbatim>\<open>vote\<close>
    implies, what creation and germination leave, concrete runs, and that all these verbs
    change the sealed tables through \<^verbatim>\<open>seal\<close> only. The verbs are layers of handlers: the locale
    \<open>handler_layer\<close> says what the door needs of one, \<open>stacked_layers\<close> that layers compose, and
    both are interpreted on the governance, minting, reading and board verbs.
  \<^item> \<open>Ckp_Orbit\<close>, \<open>Ckp_Orbit_Props\<close>, \<open>Ckp_Score_Props\<close>: the orbit queue (\<^verbatim>\<open>orbit_enqueue\<close>,
    \<^verbatim>\<open>orbit_drain\<close>, \<^verbatim>\<open>orbit_tick\<close>), \<^verbatim>\<open>score_tick\<close>, the materialisation queue and the roster of
    ledger kernels. \<^verbatim>\<open>clock_timestamp()\<close> is read anew for every job and score, so it is a function of the transaction's time,
    the job and the number of the reading; the rows that \<^verbatim>\<open>SKIP LOCKED\<close> passes over are an argument of each drain.
  \<^item> \<open>Ckp_Pg\<close>: each statement the Rust code sends, executed by these functions (\<open>ckp_pg\<close>).
    The interface is the locale \<open>governed_database\<close>, with the laws the Rust theories need
    of a database; its interpretation \<open>ckp_site\<close> discharges them for \<open>ckp_pg\<close>.
  \<^item> \<open>Ckp_Worker\<close>: the Rust worker on that database: the sealed ledger over all its runs, and the roster it reads back.

  \<^bold>\<open>Parameters.\<close> Crates outside the repository are fields of records that the
  definitions take as arguments: \<open>verifier_libs\<close> and \<open>callout_libs\<close> (JSON text, base64,
  Ed25519, NKeys, hashing), \<open>realm_libs\<close> and \<open>nkeys_libs\<close> (the signing half of the same
  crates, for the tests), \<open>nats_libs\<close> (server addresses, header maps) and \<open>pg\<close> (what the
  database does with each statement; \<open>ckp_pg\<close> is the governed instance). For the SQL
  functions, \<open>ckp_env\<close> holds the RDF engine \<^verbatim>\<open>pgrdf\<close>, \<^verbatim>\<open>pgcrypto\<close> and what depends on the
  collation, \<open>door_env\<close> the texts of errors, \<open>gov_env\<close> the functions
  that query the engine for the governance verbs, \<open>create_env\<close> those for the minting verbs, \<open>read_env\<close> \<^verbatim>\<open>LIKE\<close> and time output, \<open>orbit_env\<close> numeric arithmetic and time
  parsing; the verb handlers that are not modelled are a field of \<open>site\<close>. What a theorem needs of them is a named hypothesis
  (\<open>codec_laws\<close>, \<open>realm_laws\<close>, \<open>header_laws\<close>, \<open>set_config_law\<close>, \<open>cast_law\<close>, \<open>dispatch_law\<close>, \<open>drain_law\<close>,
  \<open>abort_law\<close>, \<open>verbs_seal\<close>, \<open>keeps_session\<close>), and each has a concrete instance
  that a witness uses; the laws of the tests alone (\<open>url_laws\<close>, \<open>key_pair_laws\<close>, \<open>ideal_signatures\<close>,
  \<open>header_text_law\<close>, \<open>one_message\<close>) are premises of the lemmas about them. Answers of the broker, the clock
  and arriving bytes are arguments too.

  \<^bold>\<open>Bounds and loops.\<close> No definition uses fuel: loops over data are structural recursion,
  and loops that run as long as the process (dialing, the threads, the main loop) are
  functions of the finite list of events they have seen, or step relations. The bounds
  are the source's: 1024 queued commands, 1000 queued actions, 100 rows per drain, one
  megabyte of payload, thirty seconds of leeway.

  \<^bold>\<open>What is shown.\<close> From the token to the governed function: a connection is admitted as
  an identity exactly on a valid signed token, its grant means exactly its own subjects,
  only those are routed, and each routed action is dispatched with exactly that identity
  and kernel. For the carriers between these steps: the queue, the channel and the outbox
  lose, duplicate and reorder nothing within their bounds; the policy is current after
  each tick and grants the ledger's kernels from the tick after their refresh; the threads start once and after the policy; the worker waits for the
  extension. For the embedded server: framing, routing and parsing are right however the
  bytes arrive, and what a client publishes reaches the subscribers. A token that the realm
  issues is admitted as its claims deserve. For the governed path: whatever the worker does, the ledger stays a signed
  chain in which every sealed instance verifies; a sealed fact carries the requester's
  identity and the server's stamps, met its obligations on the body that is stored, and its event is published once; the worker's roster is the sealed one; scheduled work seals only drafts, every queued job is
  done or parked after finitely many drains that find it unlocked; an applied change had its quorum of distinct
  parties and the owner's consent, advances one epoch and lands once, a party counts once
  however often it votes, a created fact reads back, and a germinated kernel stays with its
  owner. Some theorems state a limit of the code: a
  cancelled read loses bytes, a payload that is no JSON unwinds the worker, drained rows
  are not kept, a broker outage stops the worker, identity segments can collide, an expiry
  near the largest integer is refused, two seals that overlap break verification, a body can
  place its own triples before the shape gate, the gates of \<^verbatim>\<open>apply\<close> look at another project than
  the one that changes, a refused registration keeps the new epoch, the quorum of a
  proposal can be patched after the votes, and a vote can be created without \<^verbatim>\<open>vote\<close>.

  \<^bold>\<open>Not modelled.\<close> Of the SQL functions, the graph queries and report surfaces and the
  migrations, and what is a sequence of calls of the RDF
  engine (composed shapes, validation, digests, projections); they enter as parameters. Of the Rust code, the registration of the
  worker with the postmaster and the texts that describe the settings, socket set-up and
  write errors of the embedded server, the flushing of buffers inside the NATS crate, and
  the wording of log lines (the lines of the responder's decisions, of the configuration
  and of the threads are values; other log output is left out).
\<close>

section \<open>From the broker's grant to the governed action\<close>

text \<open>The action a message becomes, if it is routed.\<close>

definition routed_action :: "('hm, 'addr, 'm) nats_libs_scheme \<Rightarrow> 'hm nats_msg \<Rightarrow> inbound_action option" where
  "routed_action N msg =
     map_option (\<lambda>r. \<lparr>act_kernel = r_kernel r, act_verb = r_verb r, act_payload = msg_payload msg,
        act_result_subject = r_result_subject r,
        act_headers = (case msg_headers msg of None \<Rightarrow> [] | Some h \<Rightarrow> trace_headers N h),
        act_identity = r_identity r\<rparr>) (route_inbound (msg_subject msg))"

lemma relay_message_routed:
  "relay_message N msg q = (case routed_action N msg of None \<Rightarrow> q | Some a \<Rightarrow> enqueue a q)"
  by (simp add: relay_message_def routed_action_def split: option.splits)

lemma relay_fold:
  "fold (relay_message N) msgs q = fold enqueue (List.map_filter (routed_action N) msgs) q"
  by (induction msgs arbitrary: q) (simp_all add: relay_message_routed List.map_filter_def split: option.splits)

lemma fold_enqueue_room:
  assumes "length actions \<le> MAX_QUEUE"
  shows "fold enqueue actions queue_init = Healthy actions"
proof -
  have "fold enqueue actions (Healthy q) = Healthy (fold queue_push actions q)" for q
    by (induction actions arbitrary: q) (simp_all add: enqueue_def)
  then show ?thesis using inq.pushes_keep_prefix[of "[]" actions] assms by (simp add: queue_init_def)
qed

lemma plain_kernel: "kernel_name_ok k \<Longrightarrow> plain_subject k"
  using kernel_name_token[of k] by (simp add: plain_subject_def)

lemma reachable_kernels:
  "bridge_reachable P L N g db w \<Longrightarrow> k \<in> set (snd (callout_policy (w_statics w))) \<Longrightarrow> kernel_name_ok k"
  using worker_inv_reachable[of P L N g db w] by (auto simp: worker_inv_def policy_ok_def list_all_iff)

lemma admitted_grant:
  assumes "codec_laws L account" "parse_auth_request L request_jwt = Some req"
    "broker_view L (fst (handle_request L request_jwt cfg account now admit kernels)) = Some (Admit srv gr)"
  shows "gr = grant_spec (user_nkey req) (public_key L account) kernels (callout_identity L (auth_token req) cfg now)"
  using responder_refines_policy'[OF assms(1), of request_jwt cfg now admit kernels] assms(2,3)
  by (auto simp: callout_spec_def Let_def split: if_splits)

lemma scoped_subject_routes:
  assumes "kernel_name_ok k" "verb \<noteq> []"
  shows "route_inbound (lit ''input.kernel.'' @ k @ lit ''.id.'' @ subject_token sub @ lit ''.action.'' @ verb) =
    Some \<lparr>r_kernel = k, r_identity = Some (subject_token sub), r_verb = verb,
      r_result_subject = lit ''result.kernel.'' @ k @ dot # verb\<rparr>"
proof -
  have "dot \<notin> set (subject_token sub)" using subject_token_chars token_char_plain by blast
  then show ?thesis
    unfolding route_inbound_cases using assms kernel_name_ok_chars[OF assms(1)] by simp
qed

lemma scoped_subject_tokens:
  "split_on dot (lit ''input.kernel.'' @ k @ lit ''.id.'' @ subject_token sub @ lit ''.action.'' @ verb) =
     input_tokens k (subject_token sub) @ split_on dot verb"
  by (simp add: lit_dots split_on_append_all split_words input_tokens_def)

lemma granted_and_routed:
  assumes "kernel_name_ok k" "split_on dot s = input_tokens k (subject_token sub) @ x # rest" "route_inbound s = Some r"
  shows "s = lit ''input.kernel.'' @ k @ lit ''.id.'' @ subject_token sub @ lit ''.action.'' @ r_verb r \<and>
    r = \<lparr>r_kernel = k, r_identity = Some (subject_token sub), r_verb = r_verb r,
         r_result_subject = lit ''result.kernel.'' @ k @ dot # r_verb r\<rparr> \<and> r_verb r \<noteq> []"
proof -
  have "[lit ''input'', lit ''kernel'', k, lit ''id'', subject_token sub, lit ''action''] @ x # rest =
      [lit ''input'', lit ''kernel'', r_kernel r] @
      (case r_identity r of None \<Rightarrow> [lit ''action''] | Some sub \<Rightarrow> [lit ''id'', sub, lit ''action'']) @ split_on dot (r_verb r)"
    using assms(2) route_tokens[OF assms(3)] kernel_name_token(1)[OF assms(1)] by (simp add: input_tokens_def)
  then have "r_kernel r = k" "r_identity r = Some (subject_token sub)"
    by (auto split: option.splits)
  with assms(3) show ?thesis unfolding route_inbound_cases by (cases r) auto
qed

section \<open>Properties that span the components\<close>

text \<open>C1: what an admitted connection can have dispatched, exactly. In every reachable state
  of the worker, take a connection that the responder admits under the policy cached then.
  A subject is one that the connection may publish and that the relay routes if and only if
  the connection's token verified and the subject is an action of a hosted kernel under that
  identity's own token; the action is then routed with that kernel and exactly that
  identity. No connection, whatever it presents or publishes, is dispatched under an
  identity other than the one its token proved.\<close>

theorem dispatch_identity_is_proven_identity:
  assumes "codec_laws L account" "bridge_reachable P L N g db w"
    and policy: "callout_policy (w_statics w) = (admit, kernels)"
    and req: "parse_auth_request L request_jwt = Some req"
    and view: "broker_view L (fst (handle_request L request_jwt cfg account now admit kernels)) = Some (Admit srv gr)"
  shows "may_publish (publish gr) s \<and> route_inbound s = Some r \<longleftrightarrow>
    (\<exists>sub exp k verb. callout_identity L (auth_token req) cfg now = Verified sub exp \<and> k \<in> set kernels \<and> verb \<noteq> [] \<and>
       s = lit ''input.kernel.'' @ k @ lit ''.id.'' @ subject_token sub @ lit ''.action.'' @ verb \<and>
       r = \<lparr>r_kernel = k, r_identity = Some (subject_token sub), r_verb = verb,
            r_result_subject = lit ''result.kernel.'' @ k @ dot # verb\<rparr>)"
  (is "?l \<longleftrightarrow> ?r")
proof -
  have ok: "kernel_name_ok k" if "k \<in> set kernels" for k
    using reachable_kernels[OF assms(2)] policy that by simp
  then have plain: "\<forall>k \<in> set kernels. plain_subject k" using plain_kernel by blast
  note scope = may_publish_grant[OF plain, of "user_nkey req" "public_key L account"
      "callout_identity L (auth_token req) cfg now" s, folded admitted_grant[OF assms(1) req view]]
  show ?thesis
  proof
    assume ?l
    then obtain sub exp k x rest where "callout_identity L (auth_token req) cfg now = Verified sub exp"
      "k \<in> set kernels" "split_on dot s = input_tokens k (subject_token sub) @ x # rest" "route_inbound s = Some r"
      using scope by blast
    with granted_and_routed[OF ok[OF this(2)] this(3,4)] show ?r by blast
  next
    assume ?r
    then obtain sub exp k verb where v: "callout_identity L (auth_token req) cfg now = Verified sub exp"
      "k \<in> set kernels" "verb \<noteq> []"
      and s: "s = lit ''input.kernel.'' @ k @ lit ''.id.'' @ subject_token sub @ lit ''.action.'' @ verb"
      and r: "r = \<lparr>r_kernel = k, r_identity = Some (subject_token sub), r_verb = verb,
            r_result_subject = lit ''result.kernel.'' @ k @ dot # verb\<rparr>" by blast
    obtain x rest where "split_on dot verb = x # rest" by (cases "split_on dot verb") auto
    then have "split_on dot s = input_tokens k (subject_token sub) @ x # rest"
      by (simp add: s scoped_subject_tokens)
    with v(1,2) have "may_publish (publish gr) s" unfolding scope by blast
    with scoped_subject_routes[OF ok[OF v(2)] v(3)] s r show ?l by simp
  qed
qed

theorem dispatch_identity_is_proven_identity_witness:
  "\<exists>srv gr r. broker_view demo_crates (fst (handle_request demo_crates (demo_request (demo_token 10000)) (Some demo_config)
       (lit ''ACCT'') 9000 True [lit ''pgck''])) = Some (Admit srv gr) \<and>
     route_inbound (lit ''input.kernel.pgck.id.alice.action.plan'') = Some r \<and> r_identity r = Some (lit ''alice'') \<and>
     may_publish (publish gr) (lit ''input.kernel.pgck.id.alice.action.plan'')"
proof -
  let ?req = "demo_request (demo_token 10000)"
  let ?s = "lit ''input.kernel.'' @ lit ''pgck'' @ lit ''.id.'' @ subject_token (lit ''alice'') @ lit ''.action.'' @ lit ''plan''"
  have ne: "demo_token 10000 \<noteq> []" by (simp add: demo_token_def Let_def)
  have a: "callout_identity demo_crates (Some (demo_token 10000)) (Some demo_config) 9000 = Verified (lit ''alice'') 10000"
    by (rule demo_token_admits) simp
  have p: "callout_policy (w_statics demo_worker) = (True, [lit ''pgck''])"
    by (simp add: demo_worker_def worker_start_def statics_init_def callout_policy_def)
  obtain srv gr where v: "broker_view demo_crates (fst (handle_request demo_crates ?req (Some demo_config)
      (lit ''ACCT'') 9000 True [lit ''pgck''])) = Some (Admit srv gr)"
    using responder_refines_policy'[of demo_crates "lit ''ACCT''" ?req "Some demo_config" 9000 True "[lit ''pgck'']",
        OF demo_codec_laws] by (simp add: demo_request_parses[OF ne] callout_spec_def a)
  let ?r = "\<lparr>r_kernel = lit ''pgck'', r_identity = Some (subject_token (lit ''alice'')), r_verb = lit ''plan'',
            r_result_subject = lit ''result.kernel.'' @ lit ''pgck'' @ dot # lit ''plan''\<rparr>"
  have "may_publish (publish gr) ?s \<and> route_inbound ?s = Some ?r"
    unfolding dispatch_identity_is_proven_identity[OF demo_codec_laws demo_reachable p demo_request_parses[OF ne] v]
    by (intro exI[of _ "lit ''alice''"] exI[of _ 10000] exI[of _ "lit ''pgck''"] exI[of _ "lit ''plan''"])
      (simp add: a lit_def[of "''plan''"])
  moreover have t: "subject_token (lit ''alice'') = lit ''alice''"
    by (simp add: subject_token_def lit_def is_ascii_alphanumeric_def)
  moreover have "?s = lit ''input.kernel.pgck.id.alice.action.plan''" unfolding t by (simp flip: lit_append)
  ultimately have "may_publish (publish gr) (lit ''input.kernel.pgck.id.alice.action.plan'')"
    "route_inbound (lit ''input.kernel.pgck.id.alice.action.plan'') = Some ?r" by simp_all
  with v t show ?thesis by (intro exI[of _ srv] exI[of _ gr] exI[of _ ?r]) simp
qed

text \<open>C5: from the relay to the governed function. When the relay has received at most a
  thousand messages since the last drain and their payloads are JSON, the next drain runs
  the governed function once for each routed message, in the order of arrival, with exactly
  the identity and the kernel of that message's subject as its settings, and publishes one
  reply each; messages that are not routed have no effect at all.\<close>

theorem relay_to_governed_function:
  assumes "set_config_law P" "dispatch_law P to_jsonb govern"
    "length msgs \<le> 1000" "\<forall>m \<in> set msgs. to_jsonb (from_utf8_lossy (msg_payload m)) \<noteq> None"
  shows "drain_and_dispatch P (fold (relay_message N) msgs queue_init) db =
      (fst (governed_run to_jsonb govern (List.map_filter (routed_action N) msgs) db), queue_init,
       snd (governed_run to_jsonb govern (List.map_filter (routed_action N) msgs) db), None) \<and>
    (\<forall>a \<in> set (List.map_filter (routed_action N) msgs). \<exists>m \<in> set msgs. \<exists>r.
       route_inbound (msg_subject m) = Some r \<and> act_verb a = r_verb r \<and>
       action_settings a (lit ''ckp.requester'') = r_identity r \<and>
       action_settings a (lit ''ckp.project'') = Some (r_kernel r))"
proof
  let ?as = "List.map_filter (routed_action N) msgs"
  have sub: "\<exists>m \<in> set msgs. routed_action N m = Some a" if "a \<in> set ?as" for a
    using that by (auto simp: List.map_filter_def)
  have "length ?as \<le> length msgs" by (simp add: List.map_filter_def)
  then have q: "fold (relay_message N) msgs queue_init = Healthy ?as"
    using assms(3) by (simp add: relay_fold fold_enqueue_room MAX_QUEUE_def)
  have "\<forall>a \<in> set ?as. to_jsonb (from_utf8_lossy (act_payload a)) \<noteq> None"
    using sub assms(4) by (fastforce simp: routed_action_def)
  from dispatch_run[OF assms(1,2) this, of db] show "drain_and_dispatch P (fold (relay_message N) msgs queue_init) db =
      (fst (governed_run to_jsonb govern ?as db), queue_init, snd (governed_run to_jsonb govern ?as db), None)"
    unfolding q by (simp add: drain_and_dispatch_def take_all_def queue_init_def)
  show "\<forall>a \<in> set ?as. \<exists>m \<in> set msgs. \<exists>r. route_inbound (msg_subject m) = Some r \<and> act_verb a = r_verb r \<and>
       action_settings a (lit ''ckp.requester'') = r_identity r \<and>
       action_settings a (lit ''ckp.project'') = Some (r_kernel r)"
  proof
    fix a assume "a \<in> set ?as"
    then obtain m r where m: "m \<in> set msgs" "route_inbound (msg_subject m) = Some r"
      and a: "act_kernel a = r_kernel r" "act_verb a = r_verb r" "act_identity a = r_identity r"
      using sub by (fastforce simp: routed_action_def)
    from m(2) have "r_kernel r \<noteq> []" unfolding route_inbound_cases by auto
    with m a show "\<exists>m \<in> set msgs. \<exists>r. route_inbound (msg_subject m) = Some r \<and> act_verb a = r_verb r \<and>
       action_settings a (lit ''ckp.requester'') = r_identity r \<and> action_settings a (lit ''ckp.project'') = Some (r_kernel r)"
      by (auto simp: action_settings_def)
  qed
qed

definition demo_msg :: "string \<Rightarrow> headers nats_msg" where
  "demo_msg subj = \<lparr>msg_subject = lit subj, msg_reply = None, msg_payload = as_bytes (lit ''{}''), msg_headers = None\<rparr>"

theorem relay_to_governed_function_witness:
  "fst (snd (snd (drain_and_dispatch demo_pg
      (fold (relay_message demo_nats) [demo_msg ''input.kernel.pgck.id.alice.action.a'', demo_msg ''other.subject'',
         demo_msg ''input.kernel.pgck.action.b''] queue_init) []))) =
     [(lit ''a'', Some (lit ''alice'')), (lit ''b'', None)]"
proof -
  let ?msgs = "[demo_msg ''input.kernel.pgck.id.alice.action.a'', demo_msg ''other.subject'', demo_msg ''input.kernel.pgck.action.b'']"
  have r: "route_inbound (lit ''input.kernel.pgck.id.alice.action.a'') = Some \<lparr>r_kernel = lit ''pgck'',
      r_identity = Some (lit ''alice''), r_verb = lit ''a'', r_result_subject = lit ''result.kernel.pgck.a''\<rparr>"
    "route_inbound (lit ''input.kernel.pgck.action.b'') = Some \<lparr>r_kernel = lit ''pgck'',
      r_identity = None, r_verb = lit ''b'', r_result_subject = lit ''result.kernel.pgck.b''\<rparr>"
    "route_inbound (lit ''other.subject'') = None"
    unfolding route_inbound_cases by (simp_all add: lit_def route_inbound_def)
  have "\<forall>m \<in> set ?msgs. demo_jsonb (from_utf8_lossy (msg_payload m)) \<noteq> None"
    by (simp add: demo_msg_def demo_casts)
  note run = relay_to_governed_function[OF demo_pg_laws(1,2) _ this, THEN conjunct1, of demo_nats "[]"]
  show ?thesis
    by (subst run) (simp_all add: demo_msg_def routed_action_def r demo_casts demo_govern_def action_settings_def List.map_filter_def)
qed

end
